(* ===== verification/Prelude.thy ===== *)
theory Prelude
  imports Complex_Main "HOL-Library.Word" "HOL-Library.Code_Target_Nat"
begin

text \<open>
  The prelude of the development: Python exceptions as values, the result type every
  fallible operation of the model returns, the loops over lists that the code writes as
  \<^verbatim>\<open>for\<close> statements with early exit, and the rule collections the component theories
  share. A Python \<^verbatim>\<open>str\<close> is a list of Unicode code points, a Python \<^verbatim>\<open>bytes\<close> a list of
  8-bit words, a Python \<^verbatim>\<open>int\<close> an unbounded integer.
\<close>

type_synonym pstr = "nat list"
type_synonym bytes = "8 word list"

named_theorems res_elims \<open>inversion of successful results\<close>
named_theorems raises \<open>which exceptions an operation can raise\<close>
named_theorems kil_defs \<open>field checks of the record constructors\<close>

subsection \<open>Exceptions\<close>

text \<open>
  The exception classes the modelled code raises or catches. The argument of an error
  class is its message, in which text interpolated at run time is left out;
  \<open>OSError\<close> carries the name of the concrete class and the error number.
\<close>

datatype pyexc =
    ValueError string
  | TypeError string
  | KeyError string
  | AttributeError string
  | RecursionError
  | UnicodeError
  | JSONDecodeError
  | InvalidOperation
  | DivisionByZero
  | Overflow
  | OSError string "int option"
  | HTTPException
  | QStateVerificationError string
  | ConfigError string
  | TargetConfigError string
  | DuplicateTargetRecord
  | DriverProtocolError string
  | DriverOutputError
  | ClosedYAMLError string
  | SchemaError string
  | JournalError string
  | ProfileStateError string
  | ProfileError string
  | IndexError
  | OverflowError
  | InvalidSignature

text \<open>The instances of \<^verbatim>\<open>ValueError\<close>: the classes derived from it, here and in Python.\<close>

fun is_value_error :: "pyexc \<Rightarrow> bool" where
  "is_value_error (ValueError _) = True"
| "is_value_error UnicodeError = True"
| "is_value_error JSONDecodeError = True"
| "is_value_error (QStateVerificationError _) = True"
| "is_value_error (ConfigError _) = True"
| "is_value_error (TargetConfigError _) = True"
| "is_value_error DuplicateTargetRecord = True"
| "is_value_error (DriverProtocolError _) = True"
| "is_value_error (ClosedYAMLError _) = True"
| "is_value_error (SchemaError _) = True"
| "is_value_error (JournalError _) = True"
| "is_value_error (ProfileStateError _) = True"
| "is_value_error (ProfileError _) = True"
| "is_value_error _ = False"

text \<open>The signals a decimal operation of the trust arithmetic can trap.\<close>

fun is_arithmetic_trap :: "pyexc \<Rightarrow> bool" where
  "is_arithmetic_trap InvalidOperation = True"
| "is_arithmetic_trap DivisionByZero = True"
| "is_arithmetic_trap Overflow = True"
| "is_arithmetic_trap _ = False"

fun is_os_error :: "pyexc \<Rightarrow> bool" where
  "is_os_error (OSError _ _) = True"
| "is_os_error DriverOutputError = True"
| "is_os_error _ = False"

subsection \<open>Results\<close>

type_synonym 'a res = "pyexc + 'a"

definition bind_r :: "'a res \<Rightarrow> ('a \<Rightarrow> 'b res) \<Rightarrow> 'b res" where
  "bind_r m f = (case m of Inl e \<Rightarrow> Inl e | Inr x \<Rightarrow> f x)"

definition ensure :: "bool \<Rightarrow> pyexc \<Rightarrow> unit res" where
  "ensure c e = (if c then Inr () else Inl e)"

text \<open>\<open>try_r m h\<close> runs the handler \<open>h\<close> on the exception \<open>m\<close> raised, if it raised one.\<close>

definition try_r :: "'a res \<Rightarrow> (pyexc \<Rightarrow> 'a res) \<Rightarrow> 'a res" where
  "try_r m h = (case m of Inl e \<Rightarrow> h e | Inr x \<Rightarrow> Inr x)"

lemma bind_r_Inr [simp]: "bind_r (Inr x) f = f x"
  by (simp add: bind_r_def)

lemma bind_r_Inl [simp]: "bind_r (Inl e) f = Inl e"
  by (simp add: bind_r_def)

lemma bind_r_eq_Inr: "bind_r m f = Inr y \<longleftrightarrow> (\<exists>x. m = Inr x \<and> f x = Inr y)"
  by (cases m) (auto simp: bind_r_def)

lemma bind_r_eq_Inl: "bind_r m f = Inl e \<longleftrightarrow> m = Inl e \<or> (\<exists>x. m = Inr x \<and> f x = Inl e)"
  by (cases m) (auto simp: bind_r_def)

lemma bind_rE [elim!, res_elims]:
  assumes "bind_r m f = Inr y"
  obtains x where "m = Inr x" "f x = Inr y"
  using assms by (auto simp: bind_r_eq_Inr)

lemma bind_r_cong [fundef_cong]:
  "m = m' \<Longrightarrow> (\<And>x. m' = Inr x \<Longrightarrow> f x = f' x) \<Longrightarrow> bind_r m f = bind_r m' f'"
  by (cases m') (auto simp: bind_r_def)

lemma ensure_eq_Inr [simp]: "ensure c e = Inr x \<longleftrightarrow> c"
  by (simp add: ensure_def)

lemma ensure_eq_Inl [simp]: "ensure c e = Inl e' \<longleftrightarrow> \<not> c \<and> e' = e"
  by (auto simp: ensure_def)

lemma ensure_True [simp]: "ensure True e = Inr ()"
  by (simp add: ensure_def)

lemma ensure_False [simp]: "ensure False e = Inl e"
  by (simp add: ensure_def)

lemma try_r_Inr [simp]: "try_r (Inr x) h = Inr x"
  by (simp add: try_r_def)

lemma try_r_Inl [simp]: "try_r (Inl e) h = h e"
  by (simp add: try_r_def)

lemma try_r_eq_Inr:
  "try_r m h = Inr y \<longleftrightarrow> m = Inr y \<or> (\<exists>e. m = Inl e \<and> h e = Inr y)"
  by (cases m) auto

text \<open>\<open>is_ok\<close> and \<open>ok_value\<close> read a result.\<close>

definition is_ok :: "'a res \<Rightarrow> bool" where
  "is_ok m = (case m of Inl _ \<Rightarrow> False | Inr _ \<Rightarrow> True)"

lemma is_ok_simps [simp]: "is_ok (Inr x)" "\<not> is_ok (Inl e)"
  by (simp_all add: is_ok_def)

lemma is_ok_iff: "is_ok m \<longleftrightarrow> (\<exists>x. m = Inr x)"
  by (cases m) simp_all

text \<open>\<open>only_raises P m\<close>: if \<open>m\<close> is an exception, it satisfies \<open>P\<close>.\<close>

definition only_raises :: "(pyexc \<Rightarrow> bool) \<Rightarrow> 'a res \<Rightarrow> bool" where
  "only_raises P m \<longleftrightarrow> (\<forall>e. m = Inl e \<longrightarrow> P e)"

lemma only_raises_simps [simp]:
  "only_raises P (Inr x)" "only_raises P (Inl e) \<longleftrightarrow> P e" "only_raises P (ensure c e) \<longleftrightarrow> c \<or> P e"
  by (auto simp: only_raises_def)

lemma only_raises_bind [raises]:
  "only_raises P m \<Longrightarrow> (\<And>x. m = Inr x \<Longrightarrow> only_raises P (f x)) \<Longrightarrow> only_raises P (bind_r m f)"
  by (cases m) (auto simp: only_raises_def)

lemma only_raises_if [raises]:
  "(c \<Longrightarrow> only_raises P m) \<Longrightarrow> (\<not> c \<Longrightarrow> only_raises P n) \<Longrightarrow> only_raises P (if c then m else n)"
  by simp

lemma only_raisesD: "only_raises P m \<Longrightarrow> m = Inl e \<Longrightarrow> P e"
  by (simp add: only_raises_def)

subsection \<open>Loops with early exit\<close>

text \<open>A \<^verbatim>\<open>for\<close> loop that collects one result per element and stops at the first exception.\<close>

fun map_r :: "('a \<Rightarrow> 'b res) \<Rightarrow> 'a list \<Rightarrow> 'b list res" where
  "map_r f [] = Inr []"
| "map_r f (x # xs) = bind_r (f x) (\<lambda>y. bind_r (map_r f xs) (\<lambda>ys. Inr (y # ys)))"

text \<open>The same loop with a state threaded from one element to the next.\<close>

fun map_state_r :: "('a \<Rightarrow> 's \<Rightarrow> ('b \<times> 's) res) \<Rightarrow> 'a list \<Rightarrow> 's \<Rightarrow> ('b list \<times> 's) res" where
  "map_state_r f [] s = Inr ([], s)"
| "map_state_r f (x # xs) s =
     bind_r (f x s) (\<lambda>(y, s1).
     bind_r (map_state_r f xs s1) (\<lambda>(ys, s2). Inr (y # ys, s2)))"

text \<open>A loop that only updates a state.\<close>

fun fold_r :: "('s \<Rightarrow> 'a \<Rightarrow> 's res) \<Rightarrow> 's \<Rightarrow> 'a list \<Rightarrow> 's res" where
  "fold_r f s [] = Inr s"
| "fold_r f s (x # xs) = bind_r (f s x) (\<lambda>s'. fold_r f s' xs)"

lemma map_r_eq_Inr:
  "map_r f xs = Inr ys \<longleftrightarrow> list_all2 (\<lambda>x y. f x = Inr y) xs ys"
proof (induction xs arbitrary: ys)
  case Nil
  then show ?case by auto
next
  case (Cons x xs)
  then show ?case by (cases ys) (auto simp: bind_r_eq_Inr)
qed

lemma map_r_length: "map_r f xs = Inr ys \<Longrightarrow> length ys = length xs"
  by (auto simp: map_r_eq_Inr list_all2_lengthD [symmetric] dest: list_all2_lengthD)

lemma map_r_Inr_map: "(\<And>x. x \<in> set xs \<Longrightarrow> f x = Inr (g x)) \<Longrightarrow> map_r f xs = Inr (map g xs)"
  by (induction xs) auto

lemma fold_r_append: "fold_r f s (xs @ ys) = bind_r (fold_r f s xs) (\<lambda>s'. fold_r f s' ys)"
  by (induction xs arbitrary: s) (auto simp: bind_r_def split: sum.splits)

text \<open>An invariant of the loop body holds after the loop.\<close>

lemma fold_r_invariant:
  assumes "fold_r f s xs = Inr s'" and "P s"
    and "\<And>t x t'. x \<in> set xs \<Longrightarrow> P t \<Longrightarrow> f t x = Inr t' \<Longrightarrow> P t'"
  shows "P s'"
  using assms
proof (induction xs arbitrary: s)
  case Nil
  then show ?case by simp
next
  case (Cons x xs)
  from Cons.prems(1) obtain t where t: "f s x = Inr t" "fold_r f t xs = Inr s'" by auto
  have "P t" using Cons.prems(2) Cons.prems(3) [of x s t] t(1) by simp
  with t(2) show ?case by (rule Cons.IH) (use Cons.prems(3) in auto)
qed

lemma list_all2_map_left: "list_all2 P (map f xs) ys \<longleftrightarrow> list_all2 (\<lambda>x y. P (f x) y) xs ys"
  by (simp add: list.rel_map)

end
