(* ===== verification/PyText.thy ===== *)
theory PyText
  imports Prelude "HOL-Library.List_Lexorder"
begin

text \<open>
  Python text: string constants, white space, \<^verbatim>\<open>strip\<close>, \<^verbatim>\<open>split\<close>, \<^verbatim>\<open>lower\<close>, prefixes, the
  character classes of the regular expressions the code uses, and UTF-8 in both
  directions with its round trip.
\<close>

subsection \<open>String constants\<close>

definition u :: "string \<Rightarrow> pstr" where
  "u s = map of_char s"

lemma u_eq_iff [simp]: "u s = u t \<longleftrightarrow> s = t"
  by (auto simp: u_def inj_map_eq_map inj_of_char)

lemma u_Nil [simp]: "u [] = []"
  by (simp add: u_def)

lemma u_eq_Nil_iff [simp]: "u s = [] \<longleftrightarrow> s = []" "[] = u s \<longleftrightarrow> s = []"
  by (auto simp: u_def)

lemma length_u [simp]: "length (u s) = length s"
  by (simp add: u_def)

lemma u_append: "u (s @ t) = u s @ u t"
  by (simp add: u_def)

lemma set_u: "set (u s) = of_char ` set s"
  by (simp add: u_def)

lemma u_lt_256: "c \<in> set (u s) \<Longrightarrow> c < 256"
  using nat_of_char_less_256 by (auto simp: set_u)

subsection \<open>White space and stripping\<close>

text \<open>The code points for which \<^verbatim>\<open>str.isspace\<close> holds.\<close>

definition is_space :: "nat \<Rightarrow> bool" where
  "is_space c \<longleftrightarrow> 9 \<le> c \<and> c \<le> 13 \<or> 28 \<le> c \<and> c \<le> 32 \<or> c = 133 \<or> c = 160 \<or> c = 5760
     \<or> 8192 \<le> c \<and> c \<le> 8202 \<or> c = 8232 \<or> c = 8233 \<or> c = 8239 \<or> c = 8287 \<or> c = 12288"

definition lstrip :: "pstr \<Rightarrow> pstr" where
  "lstrip s = dropWhile is_space s"

definition rstrip :: "pstr \<Rightarrow> pstr" where
  "rstrip s = rev (dropWhile is_space (rev s))"

definition strip :: "pstr \<Rightarrow> pstr" where
  "strip s = rstrip (lstrip s)"

text \<open>\<^verbatim>\<open>bool(value.strip())\<close>: some character is not white space.\<close>

definition nonblank :: "pstr \<Rightarrow> bool" where
  "nonblank s \<longleftrightarrow> strip s \<noteq> []"

lemma strip_eq_Nil: "strip s = [] \<longleftrightarrow> list_all is_space s"
proof -
  have "dropWhile is_space xs = [] \<longleftrightarrow> list_all is_space xs" for xs
    by (induction xs) auto
  moreover have "list_all is_space (dropWhile is_space xs) \<longleftrightarrow> list_all is_space xs" for xs
    by (induction xs) auto
  ultimately show ?thesis
    by (simp add: strip_def rstrip_def lstrip_def list_all_iff)
qed

lemma nonblank_iff: "nonblank s \<longleftrightarrow> (\<exists>c \<in> set s. \<not> is_space c)"
  by (auto simp: nonblank_def strip_eq_Nil list_all_iff)

lemma nonblank_not_Nil: "nonblank s \<Longrightarrow> s \<noteq> []"
  by (auto simp: nonblank_iff)

lemma nonblank_code [code]: "nonblank s \<longleftrightarrow> list_ex (\<lambda>c. \<not> is_space c) s"
  by (auto simp: nonblank_iff list_ex_iff)

subsection \<open>Case, prefixes, splitting\<close>

text \<open>
  \<^verbatim>\<open>str.lower\<close>. Outside ASCII only the two code points whose lower case contains an ASCII
  letter are mapped (U+0130 and the Kelvin sign); every other code point lowers to
  non-ASCII text, which the comparisons of the code (all against ASCII text) cannot tell
  from the code point itself.
\<close>

definition lower_char :: "nat \<Rightarrow> pstr" where
  "lower_char c = (if 65 \<le> c \<and> c \<le> 90 then [c + 32]
     else if c = 304 then [105, 775] else if c = 8490 then [107] else [c])"

definition lower :: "pstr \<Rightarrow> pstr" where
  "lower s = concat (map lower_char s)"

definition starts_with :: "pstr \<Rightarrow> pstr \<Rightarrow> bool" where
  "starts_with p s \<longleftrightarrow> take (length p) s = p"

definition ends_with :: "pstr \<Rightarrow> pstr \<Rightarrow> bool" where
  "ends_with p s \<longleftrightarrow> starts_with (rev p) (rev s)"

text \<open>\<^verbatim>\<open>s.split(c)\<close> for a one-character separator, and \<^verbatim>\<open>c.join\<close>.\<close>

fun split_on :: "'a \<Rightarrow> 'a list \<Rightarrow> 'a list list" where
  "split_on c [] = [[]]"
| "split_on c (x # xs) =
     (if x = c then [] # split_on c xs
      else (case split_on c xs of [] \<Rightarrow> [[x]] | w # ws \<Rightarrow> (x # w) # ws))"

fun join_with :: "'a list \<Rightarrow> 'a list list \<Rightarrow> 'a list" where
  "join_with sep [] = []"
| "join_with sep [w] = w"
| "join_with sep (w # v # ws) = w @ sep @ join_with sep (v # ws)"

lemma split_on_not_Nil [simp]: "split_on c s \<noteq> []"
  by (induction s) (auto split: list.splits)

lemma split_on_no_sep: "c \<notin> set w \<Longrightarrow> split_on c w = [w]"
  by (induction w) auto

lemma split_on_append: "c \<notin> set w \<Longrightarrow> split_on c (w @ c # s) = w # split_on c s"
  by (induction w) auto

lemma split_on_pieces: "w \<in> set (split_on c s) \<Longrightarrow> c \<notin> set w \<and> set w \<subseteq> set s"
proof (induction s arbitrary: w)
  case Nil
  then show ?case by simp
next
  case (Cons x s)
  obtain v vs where vs: "split_on c s = v # vs"
    using split_on_not_Nil [of c s] by (cases "split_on c s") auto
  show ?case
    using Cons.prems Cons.IH [of v] Cons.IH [of w] by (auto simp: vs split: if_splits)
qed

subsection \<open>Character classes\<close>

definition is_digit :: "nat \<Rightarrow> bool" where
  "is_digit c \<longleftrightarrow> 48 \<le> c \<and> c \<le> 57"

definition is_upper :: "nat \<Rightarrow> bool" where
  "is_upper c \<longleftrightarrow> 65 \<le> c \<and> c \<le> 90"

definition is_lower :: "nat \<Rightarrow> bool" where
  "is_lower c \<longleftrightarrow> 97 \<le> c \<and> c \<le> 122"

definition is_alnum :: "nat \<Rightarrow> bool" where
  "is_alnum c \<longleftrightarrow> is_digit c \<or> is_upper c \<or> is_lower c"

text \<open>\<^verbatim>\<open>[a-f0-9]\<close>.\<close>

definition is_hex :: "nat \<Rightarrow> bool" where
  "is_hex c \<longleftrightarrow> is_digit c \<or> 97 \<le> c \<and> c \<le> 102"

text \<open>\<^verbatim>\<open>[a-f0-9]{64}\<close>, matched in full.\<close>

definition hex64 :: "pstr \<Rightarrow> bool" where
  "hex64 s \<longleftrightarrow> length s = 64 \<and> list_all is_hex s"

definition one_of :: "string \<Rightarrow> nat \<Rightarrow> bool" where
  "one_of cs c \<longleftrightarrow> c \<in> set (u cs)"

lemmas char_classes = is_digit_def is_upper_def is_lower_def is_alnum_def is_hex_def

subsection \<open>UTF-8\<close>

definition is_surrogate :: "nat \<Rightarrow> bool" where
  "is_surrogate c \<longleftrightarrow> 55296 \<le> c \<and> c \<le> 57343"

definition is_scalar :: "nat \<Rightarrow> bool" where
  "is_scalar c \<longleftrightarrow> c \<le> 1114111 \<and> \<not> is_surrogate c"

definition utf8_char :: "nat \<Rightarrow> nat list" where
  "utf8_char c =
     (if c < 128 then [c]
      else if c < 2048 then [192 + c div 64, 128 + c mod 64]
      else if c < 65536 then [224 + c div 4096, 128 + c div 64 mod 64, 128 + c mod 64]
      else [240 + c div 262144, 128 + c div 4096 mod 64, 128 + c div 64 mod 64, 128 + c mod 64])"

definition utf8_encode :: "pstr \<Rightarrow> bytes res" where
  "utf8_encode s = (if list_all is_scalar s
     then Inr (map word_of_nat (concat (map utf8_char s))) else Inl UnicodeError)"

definition is_cont :: "nat \<Rightarrow> bool" where
  "is_cont b \<longleftrightarrow> 128 \<le> b \<and> b < 192"

text \<open>The strict decoder: overlong forms, surrogates and values past U+10FFFF are errors.\<close>

fun utf8_chars :: "nat list \<Rightarrow> pstr option" where
  "utf8_chars [] = Some []"
| "utf8_chars (a # r) =
     (if a < 128 then map_option ((#) a) (utf8_chars r)
      else if 194 \<le> a \<and> a < 224 then
        (case r of b # r1 \<Rightarrow>
            if is_cont b then map_option ((#) ((a - 192) * 64 + (b - 128))) (utf8_chars r1) else None
          | _ \<Rightarrow> None)
      else if 224 \<le> a \<and> a < 240 then
        (case r of b # c # r1 \<Rightarrow>
            (let v = (a - 224) * 4096 + (b - 128) * 64 + (c - 128) in
             if is_cont b \<and> is_cont c \<and> 2048 \<le> v \<and> \<not> is_surrogate v
             then map_option ((#) v) (utf8_chars r1) else None)
          | _ \<Rightarrow> None)
      else if 240 \<le> a \<and> a < 245 then
        (case r of b # c # d # r1 \<Rightarrow>
            (let v = (a - 240) * 262144 + (b - 128) * 4096 + (c - 128) * 64 + (d - 128) in
             if is_cont b \<and> is_cont c \<and> is_cont d \<and> 65536 \<le> v \<and> v \<le> 1114111
             then map_option ((#) v) (utf8_chars r1) else None)
          | _ \<Rightarrow> None)
      else None)"

definition utf8_decode :: "bytes \<Rightarrow> pstr res" where
  "utf8_decode bs = (case utf8_chars (map unat bs) of None \<Rightarrow> Inl UnicodeError | Some s \<Rightarrow> Inr s)"

declare utf8_chars.simps(2) [simp del]

lemma utf8_char_bytes: "is_scalar c \<Longrightarrow> b \<in> set (utf8_char c) \<Longrightarrow> b < 256"
  by (auto simp: utf8_char_def is_scalar_def split: if_splits)

lemma base64_digits:
  fixes c :: nat
  shows "c div 4096 * 4096 + c div 64 mod 64 * 64 + c mod 64 = c"
    and "c div 262144 * 262144 + c div 4096 mod 64 * 4096 + c div 64 mod 64 * 64 + c mod 64 = c"
proof -
  have d: "c div 4096 = c div 64 div 64" "c div 262144 = c div 64 div 64 div 64"
    by (simp_all add: div_mult2_eq [symmetric])
  have e: "n div 64 * 64 + n mod 64 = n" for n :: nat by simp
  from e [of "c div 64"] e [of c]
  show three: "c div 4096 * 4096 + c div 64 mod 64 * 64 + c mod 64 = c"
    unfolding d by linarith
  from e [of "c div 64 div 64"] three
  show "c div 262144 * 262144 + c div 4096 mod 64 * 4096 + c div 64 mod 64 * 64 + c mod 64 = c"
    unfolding d by linarith
qed

lemma utf8_char_decode:
  assumes "is_scalar c"
  shows "utf8_chars (utf8_char c @ r) = map_option ((#) c) (utf8_chars r)"
proof -
  have c: "c \<le> 1114111" "\<not> is_surrogate c" using assms by (auto simp: is_scalar_def)
  consider "c < 128" | "128 \<le> c" "c < 2048" | "2048 \<le> c" "c < 65536" | "65536 \<le> c"
    by linarith
  then show ?thesis
  proof cases
    case 1
    then show ?thesis by (simp add: utf8_char_def utf8_chars.simps)
  next
    case 2
    have v: "c div 64 * 64 + c mod 64 = c" by simp
    have "2 \<le> c div 64" "c div 64 < 32" using 2 by auto
    then show ?thesis
      using 2 by (simp add: utf8_char_def utf8_chars.simps is_cont_def v)
  next
    case 3
    note v = base64_digits(1) [of c]
    have "c div 4096 < 16" using 3 by auto
    then show ?thesis
      using 3 c(2) by (simp add: utf8_char_def utf8_chars.simps is_cont_def v Let_def)
  next
    case 4
    note v = base64_digits(2) [of c]
    have "c div 262144 < 5" using c by auto
    then show ?thesis
      using 4 c by (simp add: utf8_char_def utf8_chars.simps is_cont_def v Let_def)
  qed
qed

lemma utf8_chars_concat:
  "list_all is_scalar s \<Longrightarrow> utf8_chars (concat (map utf8_char s)) = Some s"
  by (induction s) (auto simp: utf8_char_decode)

lemma unat_word_of_nat_byte: "n < 256 \<Longrightarrow> unat (word_of_nat n :: 8 word) = n"
  by (simp add: unat_of_nat)

theorem utf8_round_trip:
  assumes "utf8_encode s = Inr bs"
  shows "utf8_decode bs = Inr s"
proof -
  have s: "list_all is_scalar s" and bs: "bs = map word_of_nat (concat (map utf8_char s))"
    using assms by (auto simp: utf8_encode_def split: if_splits)
  have "map unat bs = concat (map utf8_char s)"
    unfolding bs map_map using s
    by (intro map_idI) (auto simp: list_all_iff intro!: unat_word_of_nat_byte dest: utf8_char_bytes)
  then show ?thesis by (simp add: utf8_decode_def utf8_chars_concat s)
qed

lemma utf8_encode_ok_iff: "is_ok (utf8_encode s) \<longleftrightarrow> list_all is_scalar s"
  by (simp add: utf8_encode_def)

lemma utf8_encode_inj: "utf8_encode s = Inr bs \<Longrightarrow> utf8_encode t = Inr bs \<Longrightarrow> s = t"
  by (metis utf8_round_trip sum.inject(2))

lemma is_scalar_ascii: "c < 128 \<Longrightarrow> is_scalar c"
  by (simp add: is_scalar_def is_surrogate_def)

text \<open>Bytes of ASCII text.\<close>

definition ascii_bytes :: "pstr \<Rightarrow> bytes" where
  "ascii_bytes s = map word_of_nat s"

lemma utf8_encode_ascii:
  "list_all (\<lambda>c. c < 128) s \<Longrightarrow> utf8_encode s = Inr (ascii_bytes s)"
proof -
  assume a: "list_all (\<lambda>c. c < 128) s"
  then have "concat (map utf8_char s) = s"
    by (induction s) (auto simp: utf8_char_def)
  moreover have "list_all is_scalar s"
    using a by (auto simp: list_all_iff is_scalar_ascii)
  ultimately show ?thesis by (simp add: utf8_encode_def ascii_bytes_def)
qed

end
