(* ===== verification/PyDecimal.thy ===== *)
theory PyDecimal
  imports PyText
begin

text \<open>
  Python's \<^verbatim>\<open>decimal.Decimal\<close> under the context the trust arithmetic fixes
  (\<^verbatim>\<open>_KIL_DECIMAL_CONTEXT\<close>: 28 digits, half-even rounding, exponents in
  [-999999, 999999], InvalidOperation, DivisionByZero and Overflow trapped). A finite
  value is a sign, a coefficient and an exponent, as \<^verbatim>\<open>as_tuple\<close> shows it. Addition,
  multiplication, division, negation and square root follow the algorithms of the
  language's reference implementation; \<^verbatim>\<open>exp\<close> is the correctly rounded value its
  documentation promises, and an integral power is the exact power rounded once. Only the
  trailing zeros of an exact quotient, power or exponential can differ from the
  interpreter's, which no code here can observe: it compares numerically and serializes
  normalized coefficients.
\<close>

datatype decimal =
    Fin bool nat int
  | Infinite bool
  | NaN

fun is_finite :: "decimal \<Rightarrow> bool" where
  "is_finite (Fin _ _ _) = True"
| "is_finite _ = False"

fun is_signed :: "decimal \<Rightarrow> bool" where
  "is_signed (Fin s _ _) = s"
| "is_signed (Infinite s) = s"
| "is_signed NaN = False"

fun is_zero_dec :: "decimal \<Rightarrow> bool" where
  "is_zero_dec (Fin _ c _) = (c = 0)"
| "is_zero_dec _ = False"

text \<open>The number a finite decimal denotes.\<close>

fun dval :: "decimal \<Rightarrow> rat" where
  "dval (Fin s c e) = (if s then - 1 else 1) * of_nat c * 10 powi e"
| "dval _ = 0"

definition dec_zero :: decimal where "dec_zero = Fin False 0 0"
definition dec_one :: decimal where "dec_one = Fin False 1 0"
definition dec_two :: decimal where "dec_two = Fin False 2 0"

lemma dec_consts [simp]:
  "is_finite dec_zero" "is_finite dec_one" "is_finite dec_two"
  "dval dec_zero = 0" "dval dec_one = 1" "dval dec_two = 2"
  by (simp_all add: dec_zero_def dec_one_def dec_two_def)

text \<open>\<^verbatim>\<open>Decimal(n)\<close> of an integer.\<close>

definition dec_of_int :: "int \<Rightarrow> decimal" where
  "dec_of_int n = Fin (n < 0) (nat \<bar>n\<bar>) 0"

subsection \<open>Comparison\<close>

text \<open>Finite decimals compare exactly: both are scaled to the smaller exponent.\<close>

definition signed_coeff :: "bool \<Rightarrow> nat \<Rightarrow> int" where
  "signed_coeff s c = (if s then - int c else int c)"

fun d_less :: "decimal \<Rightarrow> decimal \<Rightarrow> bool" where
  "d_less (Fin s1 c1 e1) (Fin s2 c2 e2) =
     (let m = min e1 e2 in
      signed_coeff s1 c1 * 10 ^ nat (e1 - m) < signed_coeff s2 c2 * 10 ^ nat (e2 - m))"
| "d_less _ _ = False"

definition d_le :: "decimal \<Rightarrow> decimal \<Rightarrow> bool" where
  "d_le a b \<longleftrightarrow> \<not> d_less b a"

text \<open>The builtins \<^verbatim>\<open>min\<close> and \<^verbatim>\<open>max\<close> return the first extremal argument.\<close>

definition py_min :: "decimal \<Rightarrow> decimal \<Rightarrow> decimal" where
  "py_min a b = (if d_less b a then b else a)"

definition py_max :: "decimal \<Rightarrow> decimal \<Rightarrow> decimal" where
  "py_max a b = (if d_less a b then b else a)"

lemma powi_split: "m \<le> e \<Longrightarrow> (10::rat) powi e = 10 ^ nat (e - m) * 10 powi m"
proof -
  assume "m \<le> e"
  then have "(10::rat) powi e = 10 powi (int (nat (e - m)) + m)" by simp
  also have "\<dots> = 10 ^ nat (e - m) * 10 powi m"
    by (simp add: power_int_add del: int_nat_eq)
  finally show ?thesis .
qed

lemma dval_scaled:
  "m \<le> e \<Longrightarrow> dval (Fin s c e) = of_int (signed_coeff s c * 10 ^ nat (e - m)) * 10 powi m"
  by (simp add: powi_split signed_coeff_def)

lemma ten_powi_pos [simp]: "(0::rat) < 10 powi e"
  by (simp add: zero_less_power_int)

lemma ten_powi_not_le [simp]: "\<not> 10 powi e \<le> (0::rat)"
  by (simp add: not_le)

lemma ten_powi_not_less [simp]: "\<not> 10 powi e < (0::rat)"
  by (simp add: not_less less_imp_le)

lemma d_less_iff: "is_finite a \<Longrightarrow> is_finite b \<Longrightarrow> d_less a b \<longleftrightarrow> dval a < dval b"
proof (induction a b rule: d_less.induct)
  case (1 s1 c1 e1 s2 c2 e2)
  let ?m = "min e1 e2"
  let ?x = "signed_coeff s1 c1 * 10 ^ nat (e1 - ?m)"
  let ?y = "signed_coeff s2 c2 * 10 ^ nat (e2 - ?m)"
  have "dval (Fin s1 c1 e1) < dval (Fin s2 c2 e2) \<longleftrightarrow>
      of_int ?x * (10 powi ?m :: rat) < of_int ?y * 10 powi ?m"
    by (simp only: dval_scaled [of ?m] min.cobounded1 min.cobounded2)
  also have "\<dots> \<longleftrightarrow> (of_int ?x :: rat) < of_int ?y"
    by (simp only: mult_less_cancel_right_pos [OF ten_powi_pos])
  also have "\<dots> \<longleftrightarrow> ?x < ?y" by (simp only: of_int_less_iff)
  finally show ?case by (simp add: Let_def)
qed simp_all

lemma d_le_iff: "is_finite a \<Longrightarrow> is_finite b \<Longrightarrow> d_le a b \<longleftrightarrow> dval a \<le> dval b"
  by (auto simp: d_le_def d_less_iff)

lemma py_min_finite [simp]: "is_finite a \<Longrightarrow> is_finite b \<Longrightarrow> is_finite (py_min a b)"
  by (simp add: py_min_def)

lemma py_max_finite [simp]: "is_finite a \<Longrightarrow> is_finite b \<Longrightarrow> is_finite (py_max a b)"
  by (simp add: py_max_def)

lemma dval_py_min: "is_finite a \<Longrightarrow> is_finite b \<Longrightarrow> dval (py_min a b) = min (dval a) (dval b)"
  by (auto simp: py_min_def d_less_iff min_def)

lemma dval_py_max: "is_finite a \<Longrightarrow> is_finite b \<Longrightarrow> dval (py_max a b) = max (dval a) (dval b)"
  by (auto simp: py_max_def d_less_iff max_def)

lemma dval_zero [simp]: "dval (Fin s 0 e) = 0"
  by simp

lemma dval_dec_of_int [simp]: "dval (dec_of_int n) = of_int n"
  by (simp add: dec_of_int_def)

lemma is_finite_dec_of_int [simp]: "is_finite (dec_of_int n)"
  by (simp add: dec_of_int_def)

lemma dval_eq_0_iff: "is_finite a \<Longrightarrow> dval a = 0 \<longleftrightarrow> is_zero_dec a"
  by (cases a) (auto simp: power_int_eq_0_iff)

lemma is_finite_iff: "is_finite d \<longleftrightarrow> (\<exists>s c e. d = Fin s c e)"
  by (cases d) simp_all

subsection \<open>Rounding to the context\<close>

definition prec :: nat where "prec = 28"
definition e_max :: int where "e_max = 999999"
definition e_tiny :: int where "e_tiny = - 1000026"
definition e_top :: int where "e_top = 999972"

fun ndigits :: "nat \<Rightarrow> nat" where
  "ndigits n = (if n < 10 then 1 else Suc (ndigits (n div 10)))"

declare ndigits.simps [simp del]

text \<open>Half-even rounding of \<open>c / d\<close>.\<close>

definition round_half_even :: "nat \<Rightarrow> nat \<Rightarrow> nat" where
  "round_half_even c d =
     c div d + (if 2 * (c mod d) > d \<or> 2 * (c mod d) = d \<and> odd (c div d) then 1 else 0)"

text \<open>The exponent of the last digit that is kept.\<close>

definition ulp_exp :: "nat \<Rightarrow> int \<Rightarrow> int" where
  "ulp_exp c e = max (int (ndigits c) + e - int prec) e_tiny"

text \<open>\<^verbatim>\<open>Decimal._fix\<close>: round an exact sign, coefficient and exponent to the context.\<close>

definition dfix :: "bool \<Rightarrow> nat \<Rightarrow> int \<Rightarrow> decimal res" where
  "dfix s c e =
     (if c = 0 then Inr (Fin s 0 (min (max e e_tiny) e_max))
      else if int (ndigits c) + e - int prec > e_top then Inl Overflow
      else let x = ulp_exp c e in
        if e < x then
          (let c1 = round_half_even c (10 ^ nat (x - e));
               (c2, x2) = (if ndigits c1 > prec then (c1 div 10, x + 1) else (c1, x))
           in if x2 > e_top then Inl Overflow else Inr (Fin s c2 x2))
        else Inr (Fin s c e))"

subsection \<open>Operations\<close>

fun d_neg :: "decimal \<Rightarrow> decimal res" where
  "d_neg (Fin s c e) = dfix (if c = 0 then False else \<not> s) c e"
| "d_neg _ = Inl InvalidOperation"

fun d_add :: "decimal \<Rightarrow> decimal \<Rightarrow> decimal res" where
  "d_add (Fin s1 c1 e1) (Fin s2 c2 e2) =
     (let m = min e1 e2;
          v = signed_coeff s1 c1 * 10 ^ nat (e1 - m) + signed_coeff s2 c2 * 10 ^ nat (e2 - m)
      in if v = 0 then dfix (c1 = 0 \<and> c2 = 0 \<and> s1 \<and> s2) 0 m
         else dfix (v < 0) (nat \<bar>v\<bar>) m)"
| "d_add _ _ = Inl InvalidOperation"

definition d_sub :: "decimal \<Rightarrow> decimal \<Rightarrow> decimal res" where
  "d_sub a b = d_add a (case b of Fin s c e \<Rightarrow> Fin (\<not> s) c e | _ \<Rightarrow> b)"

fun d_mul :: "decimal \<Rightarrow> decimal \<Rightarrow> decimal res" where
  "d_mul (Fin s1 c1 e1) (Fin s2 c2 e2) = dfix (s1 \<noteq> s2) (c1 * c2) (e1 + e2)"
| "d_mul _ _ = Inl InvalidOperation"

text \<open>The loop of \<^verbatim>\<open>__truediv__\<close> that strips zeros down to the ideal exponent.\<close>

fun strip_zeros :: "nat \<Rightarrow> int \<Rightarrow> int \<Rightarrow> nat \<times> int" where
  "strip_zeros c e ideal =
     (if e < ideal \<and> c mod 10 = 0 \<and> c \<noteq> 0 then strip_zeros (c div 10) (e + 1) ideal else (c, e))"

declare strip_zeros.simps [simp del]

fun d_div :: "decimal \<Rightarrow> decimal \<Rightarrow> decimal res" where
  "d_div (Fin s1 c1 e1) (Fin s2 c2 e2) =
     (if c2 = 0 then (if c1 = 0 then Inl InvalidOperation else Inl DivisionByZero)
      else if c1 = 0 then dfix (s1 \<noteq> s2) 0 (e1 - e2)
      else let shift = int (ndigits c2) - int (ndigits c1) + int prec + 1;
               ex = e1 - e2 - shift;
               num = (if shift \<ge> 0 then c1 * 10 ^ nat shift else c1);
               den = (if shift \<ge> 0 then c2 else c2 * 10 ^ nat (- shift));
               q = num div den
           in if num mod den \<noteq> 0 then dfix (s1 \<noteq> s2) (if q mod 5 = 0 then q + 1 else q) ex
              else (case strip_zeros q ex (e1 - e2) of (c, e) \<Rightarrow> dfix (s1 \<noteq> s2) c e))"
| "d_div _ _ = Inl InvalidOperation"

text \<open>\<^verbatim>\<open>x ** n\<close> for a positive integer \<open>n\<close>.\<close>

fun d_pow :: "decimal \<Rightarrow> int \<Rightarrow> decimal res" where
  "d_pow (Fin s c e) n = dfix (s \<and> odd n) (c ^ nat n) (e * n)"
| "d_pow _ _ = Inl InvalidOperation"

text \<open>
  \<^verbatim>\<open>x.exp()\<close>: for \<open>x \<noteq> 0\<close> the true value is irrational, so thirty digits whose last is a
  sticky one decide the correctly rounded result.
\<close>

definition exp_digits :: "real \<Rightarrow> nat \<times> int" where
  "exp_digits y = (let k = int prec - \<lfloor>log 10 y\<rfloor>
     in (10 * nat \<lfloor>y * 10 powi k\<rfloor> + 1, - k - 1))"

fun d_exp :: "decimal \<Rightarrow> decimal res" where
  "d_exp (Fin s c e) =
     (if c = 0 then Inr dec_one
      else case exp_digits (exp (real_of_rat (dval (Fin s c e)))) of (d, x) \<Rightarrow> dfix False d x)"
| "d_exp _ = Inl InvalidOperation"

text \<open>The Newton iteration of \<^verbatim>\<open>sqrt\<close>: from above, the integer square root.\<close>

function newton_sqrt :: "nat \<Rightarrow> nat \<Rightarrow> nat" where
  "newton_sqrt c n = (if n = 0 \<or> n \<le> c div n then n else newton_sqrt c ((n + c div n) div 2))"
  by pat_completeness auto
termination
  by (relation "measure (\<lambda>(c, n). n)") auto

declare newton_sqrt.simps [simp del]

fun d_sqrt :: "decimal \<Rightarrow> decimal res" where
  "d_sqrt (Fin s c e) =
     (if c = 0 then dfix s 0 (e div 2)
      else if s then Inl InvalidOperation
      else let pr = prec + 1;
               h = e div 2;
               c1 = (if odd e then c * 10 else c);
               l = (if odd e then ndigits c div 2 + 1 else (ndigits c + 1) div 2);
               shift = int pr - int l;
               c2 = (if shift \<ge> 0 then c1 * 100 ^ nat shift else c1 div 100 ^ nat (- shift));
               whole = (shift \<ge> 0 \<or> c1 mod 100 ^ nat (- shift) = 0);
               n = newton_sqrt c2 (10 ^ pr)
           in if whole \<and> n * n = c2
              then dfix False (if shift \<ge> 0 then n div 10 ^ nat shift else n * 10 ^ nat (- shift)) h
              else dfix False (if n mod 5 = 0 then n + 1 else n) (h - shift))"
| "d_sqrt _ = Inl InvalidOperation"

subsection \<open>What rounding preserves\<close>

lemma dfix_finite: "dfix s c e = Inr d \<Longrightarrow> is_finite d \<and> is_signed d = s"
  by (auto simp: dfix_def Let_def split: if_splits prod.splits)

lemma dfix_error: "dfix s c e = Inl x \<Longrightarrow> x = Overflow"
  by (auto simp: dfix_def Let_def split: if_splits prod.splits)

lemma nonneg_of_unsigned: "is_finite d \<Longrightarrow> \<not> is_signed d \<Longrightarrow> 0 \<le> dval d"
  by (cases d) (auto intro!: mult_nonneg_nonneg less_imp_le [OF ten_powi_pos])

lemma dfix_nonneg: "dfix False c e = Inr d \<Longrightarrow> 0 \<le> dval d"
  using dfix_finite nonneg_of_unsigned by blast

lemma unsigned_of_nonneg:
  "is_finite d \<Longrightarrow> 0 \<le> dval d \<Longrightarrow> \<exists>s c e. d = Fin s c e \<and> (c = 0 \<or> \<not> s)"
  by (cases d) (auto simp: mult_le_0_iff not_le)

lemma d_mul_finite: "d_mul a b = Inr d \<Longrightarrow> is_finite d"
  by (induction a b rule: d_mul.induct) (auto dest: dfix_finite)

lemma d_add_finite: "d_add a b = Inr d \<Longrightarrow> is_finite d"
  by (induction a b rule: d_add.induct) (auto simp: Let_def dest: dfix_finite split: if_splits)

lemma d_sub_finite: "d_sub a b = Inr d \<Longrightarrow> is_finite d"
  by (simp add: d_sub_def d_add_finite)

lemma d_div_finite: "d_div a b = Inr d \<Longrightarrow> is_finite d"
  by (induction a b rule: d_div.induct)
    (auto simp: Let_def dest: dfix_finite split: if_splits prod.splits)

lemma d_exp_finite: "d_exp a = Inr d \<Longrightarrow> is_finite d"
  by (cases a) (auto dest: dfix_finite split: if_splits prod.splits)

lemma d_pow_finite: "d_pow a n = Inr d \<Longrightarrow> is_finite d"
  by (cases a) (auto dest: dfix_finite)

lemma d_neg_finite: "d_neg a = Inr d \<Longrightarrow> is_finite d"
  by (cases a) (auto dest: dfix_finite)

lemma d_exp_nonneg: "d_exp a = Inr d \<Longrightarrow> 0 \<le> dval d"
  by (cases a) (auto dest: dfix_nonneg split: if_splits prod.splits)

lemma dval_sign_cases:
  "0 \<le> dval (Fin s c e) \<longleftrightarrow> c = 0 \<or> \<not> s"
  using ten_powi_pos [of e] by (auto simp: mult_le_0_iff not_le)

lemma dval_pos_cases: "0 < dval (Fin s c e) \<longleftrightarrow> c \<noteq> 0 \<and> \<not> s"
  using ten_powi_pos [of e] by (auto simp: zero_less_mult_iff mult_less_0_iff)

lemma dfix_zero: "dfix s 0 e = Inr d \<Longrightarrow> dval d = 0"
  by (auto simp: dfix_def)

lemma dfix_scaled_nonneg:
  "dfix s c e = Inr d \<Longrightarrow> c = 0 \<or> \<not> s \<Longrightarrow> 0 \<le> dval d"
  using dfix_zero dfix_nonneg by (cases s) auto

lemma d_mul_nonneg: "0 \<le> dval a \<Longrightarrow> 0 \<le> dval b \<Longrightarrow> d_mul a b = Inr d \<Longrightarrow> 0 \<le> dval d"
proof (induction a b rule: d_mul.induct)
  case (1 s1 c1 e1 s2 c2 e2)
  then show ?case
    by (intro dfix_scaled_nonneg [of "s1 \<noteq> s2" "c1 * c2" "e1 + e2"])
      (simp_all only: d_mul.simps dval_sign_cases, auto)
qed simp_all

lemma d_pow_nonneg: "0 \<le> dval a \<Longrightarrow> 0 < n \<Longrightarrow> d_pow a n = Inr d \<Longrightarrow> 0 \<le> dval d"
proof (induction a n rule: d_pow.induct)
  case (1 s c e n)
  then show ?case
    by (intro dfix_scaled_nonneg [of "s \<and> odd n" "c ^ nat n" "e * n"])
      (simp_all only: d_pow.simps dval_sign_cases, auto)
qed simp_all

lemma d_div_dfix:
  "d_div (Fin s1 c1 e1) (Fin s2 c2 e2) = Inr d \<Longrightarrow>
     \<exists>c e. dfix (s1 \<noteq> s2) c e = Inr d \<and> (c1 = 0 \<longrightarrow> c = 0)"
  by (cases "c1 = 0") (auto simp: Let_def split: if_splits prod.splits)

lemma d_div_nonneg:
  assumes "0 \<le> dval a" "0 < dval b" "d_div a b = Inr d"
  shows "0 \<le> dval d"
proof -
  obtain s1 c1 e1 s2 c2 e2 where ab: "a = Fin s1 c1 e1" "b = Fin s2 c2 e2"
    using assms(3) by (cases a; cases b) auto
  have "c1 = 0 \<or> \<not> s1" "\<not> s2"
    using assms(1,2) unfolding ab by (simp_all only: dval_sign_cases dval_pos_cases simp_thms)
  moreover obtain c e where "dfix (s1 \<noteq> s2) c e = Inr d" "c1 = 0 \<longrightarrow> c = 0"
    using d_div_dfix assms(3) unfolding ab by blast
  ultimately show ?thesis by (auto intro: dfix_scaled_nonneg [of "s1 \<noteq> s2" c e])
qed

lemma d_exp_error: "d_exp a = Inl x \<Longrightarrow> is_arithmetic_trap x"
  by (cases a) (auto dest: dfix_error split: if_splits prod.splits)

lemma d_ops_error:
  "d_mul a b = Inl x \<Longrightarrow> is_arithmetic_trap x"
  "d_add a b = Inl x \<Longrightarrow> is_arithmetic_trap x"
  "d_sub a b = Inl x \<Longrightarrow> is_arithmetic_trap x"
  "d_div a b = Inl x \<Longrightarrow> is_arithmetic_trap x"
  "d_pow a n = Inl x \<Longrightarrow> is_arithmetic_trap x"
  "d_neg a = Inl x \<Longrightarrow> is_arithmetic_trap x"
proof -
  show "d_mul a b = Inl x \<Longrightarrow> is_arithmetic_trap x"
    by (induction a b rule: d_mul.induct) (auto dest: dfix_error)
  have add: "d_add p q = Inl x \<Longrightarrow> is_arithmetic_trap x" for p q
    by (induction p q rule: d_add.induct) (auto simp: Let_def dest: dfix_error split: if_splits)
  then show "d_add a b = Inl x \<Longrightarrow> is_arithmetic_trap x" .
  from add show "d_sub a b = Inl x \<Longrightarrow> is_arithmetic_trap x" unfolding d_sub_def .
  show "d_div a b = Inl x \<Longrightarrow> is_arithmetic_trap x"
    by (induction a b rule: d_div.induct)
      (auto simp: Let_def dest: dfix_error split: if_splits prod.splits)
  show "d_pow a n = Inl x \<Longrightarrow> is_arithmetic_trap x"
    by (cases a) (auto dest: dfix_error)
  show "d_neg a = Inl x \<Longrightarrow> is_arithmetic_trap x"
    by (cases a) (auto dest: dfix_error)
qed

end
