(* ===== verification/PyValue.thy ===== *)
theory PyValue
  imports PyDecimal
begin

text \<open>
  Python values where the code takes an \<^verbatim>\<open>object\<close> and inspects its type: the scalars, an
  enum member (its class and string value), lists, tuples, dictionaries in insertion
  order, dataclass instances (class name and fields in order) and any other object. What
  \<^verbatim>\<open>json.loads\<close> returns is a value built from the JSON-like constructors. The checks that
  several modules share are here too: nonblank strings, exact integers and booleans,
  closed sets of dictionary keys.
\<close>

datatype pyval =
    PNone
  | PBool bool
  | PInt int
  | PFloat pstr
  | PStr pstr
  | PBytes bytes
  | PDec decimal
  | PEnum string pstr
  | PList "pyval list"
  | PTuple "pyval list"
  | PDict "(pyval \<times> pyval) list"
  | PRec string "(pstr \<times> pyval) list"
  | PObj string

type_synonym pydict = "(pyval \<times> pyval) list"

fun is_str :: "pyval \<Rightarrow> bool" where
  "is_str (PStr _) = True"
| "is_str _ = False"

definition dict_get :: "pydict \<Rightarrow> string \<Rightarrow> pyval option" where
  "dict_get d k = map_of d (PStr (u k))"

definition dict_keys :: "pydict \<Rightarrow> pyval set" where
  "dict_keys d = fst ` set d"

text \<open>\<^verbatim>\<open>mapping[key]\<close> where the key set was checked before.\<close>

definition dict_item :: "pydict \<Rightarrow> string \<Rightarrow> pyval res" where
  "dict_item d k = (case dict_get d k of None \<Rightarrow> Inl (KeyError k) | Some v \<Rightarrow> Inr v)"

definition key_set :: "string list \<Rightarrow> pyval set" where
  "key_set ks = (PStr \<circ> u) ` set ks"

abbreviation str :: "string \<Rightarrow> pyval" where
  "str s \<equiv> PStr (u s)"

text \<open>
  \<^verbatim>\<open>value in {...}\<close> over a set of strings: a list or a dictionary has no hash.
\<close>

definition in_string_set :: "pyval \<Rightarrow> string list \<Rightarrow> bool res" where
  "in_string_set v names = (case v of
     PList _ \<Rightarrow> Inl (TypeError ''unhashable type: list'')
   | PDict _ \<Rightarrow> Inl (TypeError ''unhashable type: dict'')
   | _ \<Rightarrow> Inr (v \<in> set (map str names)))"

text \<open>
  The checks of an exact set of keys (\<^verbatim>\<open>set(value) == expected\<close>), of keys outside it
  (\<^verbatim>\<open>set(value) - expected\<close>) and of keys that miss (\<^verbatim>\<open>expected - set(value)\<close>).
\<close>

definition has_unknown :: "pydict \<Rightarrow> string list \<Rightarrow> bool" where
  "has_unknown d ks \<longleftrightarrow> list_ex (\<lambda>(k, _). k \<notin> set (map (PStr \<circ> u) ks)) d"

definition has_missing :: "pydict \<Rightarrow> string list \<Rightarrow> bool" where
  "has_missing d ks \<longleftrightarrow> list_ex (\<lambda>k. dict_get d k = None) ks"

definition keys_exact :: "pydict \<Rightarrow> string list \<Rightarrow> bool" where
  "keys_exact d ks \<longleftrightarrow> \<not> has_unknown d ks \<and> \<not> has_missing d ks"

lemma has_missing_iff: "has_missing d ks \<longleftrightarrow> \<not> key_set ks \<subseteq> dict_keys d"
  by (auto simp: has_missing_def list_ex_iff dict_get_def map_of_eq_None_iff key_set_def
      dict_keys_def)

lemma has_unknown_iff: "has_unknown d ks \<longleftrightarrow> \<not> dict_keys d \<subseteq> key_set ks"
  by (force simp: has_unknown_def list_ex_iff key_set_def dict_keys_def)

lemma keys_exact_iff: "keys_exact d ks \<longleftrightarrow> dict_keys d = key_set ks"
  by (auto simp: keys_exact_def has_unknown_iff has_missing_iff)

lemma keys_exact_item: "keys_exact d ks \<Longrightarrow> k \<in> set ks \<Longrightarrow> \<exists>v. dict_item d k = Inr v"
  by (auto simp: keys_exact_def has_missing_def list_ex_iff dict_item_def split: option.splits)

subsection \<open>Checks of one value\<close>

text \<open>\<^verbatim>\<open>type(value) is not str or not value.strip()\<close>.\<close>

definition require_identifier :: "string \<Rightarrow> pyval \<Rightarrow> pstr res" where
  "require_identifier name v = (case v of
     PStr s \<Rightarrow> if nonblank s then Inr s else Inl (ValueError (name @ '' must be a nonblank string''))
   | _ \<Rightarrow> Inl (ValueError (name @ '' must be a nonblank string'')))"

definition require_integer :: "string \<Rightarrow> pyval \<Rightarrow> int res" where
  "require_integer name v = (case v of
     PInt n \<Rightarrow> Inr n | _ \<Rightarrow> Inl (ValueError (name @ '' must be an integer'')))"

definition require_boolean :: "string \<Rightarrow> pyval \<Rightarrow> bool res" where
  "require_boolean name v = (case v of
     PBool b \<Rightarrow> Inr b | _ \<Rightarrow> Inl (ValueError (name @ '' must be a boolean'')))"

lemma require_identifier_Inr [kil_defs]:
  "require_identifier name v = Inr s \<longleftrightarrow> v = PStr s \<and> nonblank s"
  by (cases v) (auto simp: require_identifier_def)

lemma require_integer_Inr [kil_defs]: "require_integer name v = Inr n \<longleftrightarrow> v = PInt n"
  by (cases v) (auto simp: require_integer_def)

lemma require_boolean_Inr [kil_defs]: "require_boolean name v = Inr b \<longleftrightarrow> v = PBool b"
  by (cases v) (auto simp: require_boolean_def)

lemma require_error_ValueError:
  "require_identifier name v = Inl e \<Longrightarrow> is_value_error e"
  "require_integer name v = Inl e \<Longrightarrow> is_value_error e"
  "require_boolean name v = Inl e \<Longrightarrow> is_value_error e"
  by (cases v; auto simp: require_identifier_def split: if_splits)
    (cases v; auto simp: require_integer_def require_boolean_def)+

lemma require_raises [raises]:
  "only_raises is_value_error (require_identifier name v)"
  "only_raises is_value_error (require_integer name v)"
  "only_raises is_value_error (require_boolean name v)"
  by (auto simp: only_raises_def require_error_ValueError)

end
