(* ===== verification/KilEvidence.thy ===== *)
theory KilEvidence
  imports PyValue
begin

text \<open>
  \<^verbatim>\<open>src/kil/evidence.py\<close>: evidence classes and values labelled with the provenance their
  class requires.
\<close>

datatype EvidenceClass = OBSERVED | MODELED | VALIDATED

fun EvidenceClass_value :: "EvidenceClass \<Rightarrow> string" where
  "EvidenceClass_value OBSERVED = ''observed''"
| "EvidenceClass_value MODELED = ''modeled''"
| "EvidenceClass_value VALIDATED = ''validated''"

record 'a LabeledValue =
  lv_value :: 'a
  lv_evidence_class :: EvidenceClass
  lv_source_ref :: pyval
  lv_rationale :: pyval
  lv_run_id :: pyval

fun is_nonblank_string :: "pyval \<Rightarrow> bool" where
  "is_nonblank_string (PStr s) = nonblank s"
| "is_nonblank_string (PEnum _ s) = nonblank s"
| "is_nonblank_string _ = False"

definition make_LabeledValue ::
    "'a \<Rightarrow> EvidenceClass \<Rightarrow> pyval \<Rightarrow> pyval \<Rightarrow> pyval \<Rightarrow> 'a LabeledValue res" where
  "make_LabeledValue v cls source_ref rationale run_id =
     (if cls = OBSERVED \<and> \<not> is_nonblank_string source_ref
      then Inl (ValueError ''observed evidence requires source_ref'')
      else if cls = MODELED \<and> \<not> is_nonblank_string rationale
      then Inl (ValueError ''modeled evidence requires rationale'')
      else if cls = VALIDATED \<and> \<not> is_nonblank_string run_id
      then Inl (ValueError ''validated evidence requires run_id'')
      else Inr \<lparr>lv_value = v, lv_evidence_class = cls, lv_source_ref = source_ref,
                lv_rationale = rationale, lv_run_id = run_id\<rparr>)"

text \<open>The field an evidence class must be backed by.\<close>

fun provenance :: "'a LabeledValue \<Rightarrow> pyval" where
  "provenance l = (case lv_evidence_class l of
     OBSERVED \<Rightarrow> lv_source_ref l | MODELED \<Rightarrow> lv_rationale l | VALIDATED \<Rightarrow> lv_run_id l)"

lemma make_LabeledValue_Inr:
  "make_LabeledValue v cls src rat run = Inr l \<longleftrightarrow>
     l = \<lparr>lv_value = v, lv_evidence_class = cls, lv_source_ref = src, lv_rationale = rat,
          lv_run_id = run\<rparr> \<and> is_nonblank_string (provenance l)"
  by (cases cls) (auto simp: make_LabeledValue_def)

end
