(* ===== verification/KilDomain.thy ===== *)
theory KilDomain
  imports KilEvidence
begin

text \<open>
  \<^verbatim>\<open>src/kil/domain.py\<close>: the immutable records of a decision and the checks their
  constructors make. A constructor takes Python values of any type and returns the typed
  record or the exception; \<open>wf_...\<close> states what a constructed record satisfies, and every
  record that satisfies it is accepted back.
\<close>

datatype EnforcementMode = SIGNED_STATE_ONLY | SIGNED_PLUS_LOCAL_REDUCE

datatype DecisionOutcome = PERMIT | CONSTRAIN | DENY | INDETERMINATE

datatype FailureDisposition = CLOSED | CONSTRAINED

datatype ReasonCode =
    PERMITTED
  | IDENTITY_MISMATCH
  | CLASS_MISMATCH
  | VETO
  | OUTSIDE_ENVELOPE
  | STATE_UNAUTHENTIC
  | STATE_NOT_YET_VALID
  | STATE_EXPIRED
  | ARITHMETIC_FAILURE
  | LOCAL_EVIDENCE_STALE
  | INSUFFICIENT_CHARGE
  | INSUFFICIENT_HISTORY

fun EnforcementMode_value :: "EnforcementMode \<Rightarrow> string" where
  "EnforcementMode_value SIGNED_STATE_ONLY = ''signed_state_only''"
| "EnforcementMode_value SIGNED_PLUS_LOCAL_REDUCE = ''signed_plus_local_reduce''"

fun DecisionOutcome_value :: "DecisionOutcome \<Rightarrow> string" where
  "DecisionOutcome_value PERMIT = ''permit''"
| "DecisionOutcome_value CONSTRAIN = ''constrain''"
| "DecisionOutcome_value DENY = ''deny''"
| "DecisionOutcome_value INDETERMINATE = ''indeterminate''"

fun FailureDisposition_value :: "FailureDisposition \<Rightarrow> string" where
  "FailureDisposition_value CLOSED = ''closed''"
| "FailureDisposition_value CONSTRAINED = ''constrained''"

fun ReasonCode_value :: "ReasonCode \<Rightarrow> string" where
  "ReasonCode_value PERMITTED = ''permitted''"
| "ReasonCode_value IDENTITY_MISMATCH = ''identity_mismatch''"
| "ReasonCode_value CLASS_MISMATCH = ''class_mismatch''"
| "ReasonCode_value VETO = ''immutable_veto''"
| "ReasonCode_value OUTSIDE_ENVELOPE = ''outside_environmental_envelope''"
| "ReasonCode_value STATE_UNAUTHENTIC = ''state_unauthentic''"
| "ReasonCode_value STATE_NOT_YET_VALID = ''state_not_yet_valid''"
| "ReasonCode_value STATE_EXPIRED = ''state_expired''"
| "ReasonCode_value ARITHMETIC_FAILURE = ''arithmetic_failure''"
| "ReasonCode_value LOCAL_EVIDENCE_STALE = ''local_evidence_stale''"
| "ReasonCode_value INSUFFICIENT_CHARGE = ''insufficient_charge''"
| "ReasonCode_value INSUFFICIENT_HISTORY = ''insufficient_history''"

definition MIN_TIMESTAMP_S :: int where "MIN_TIMESTAMP_S = - (2 ^ 63)"
definition MAX_TIMESTAMP_S :: int where "MAX_TIMESTAMP_S = 2 ^ 63 - 1"

definition timestamp_ok :: "int \<Rightarrow> bool" where
  "timestamp_ok n \<longleftrightarrow> MIN_TIMESTAMP_S \<le> n \<and> n \<le> MAX_TIMESTAMP_S"

definition require_timestamp :: "string \<Rightarrow> pyval \<Rightarrow> int res" where
  "require_timestamp name v = bind_r (require_integer name v) (\<lambda>n.
     if timestamp_ok n then Inr n
     else Inl (ValueError (name @ '' must be a signed 64-bit integer'')))"

definition require_finite_decimal :: "string \<Rightarrow> pyval \<Rightarrow> decimal res" where
  "require_finite_decimal name v = (case v of
     PDec d \<Rightarrow> if is_finite d then Inr d else Inl (ValueError (name @ '' must be a finite Decimal''))
   | _ \<Rightarrow> Inl (ValueError (name @ '' must be a finite Decimal'')))"

lemma require_timestamp_Inr [kil_defs]:
  "require_timestamp name v = Inr n \<longleftrightarrow> v = PInt n \<and> timestamp_ok n"
  by (auto simp: require_timestamp_def bind_r_eq_Inr require_integer_Inr)

lemma require_finite_decimal_Inr [kil_defs]:
  "require_finite_decimal name v = Inr d \<longleftrightarrow> v = PDec d \<and> is_finite d"
  by (cases v) (auto simp: require_finite_decimal_def)

subsection \<open>ActionRequest\<close>

record ActionRequest =
  ar_request_id :: pstr
  ar_identity :: pstr
  ar_authority_class :: pstr
  ar_timestamp_s :: int

definition make_ActionRequest :: "pyval \<Rightarrow> pyval \<Rightarrow> pyval \<Rightarrow> pyval \<Rightarrow> ActionRequest res" where
  "make_ActionRequest request_id identity authority_class timestamp_s =
     bind_r (require_identifier ''request_id'' request_id) (\<lambda>rid.
     bind_r (require_identifier ''identity'' identity) (\<lambda>idn.
     bind_r (require_identifier ''authority_class'' authority_class) (\<lambda>cls.
     bind_r (require_timestamp ''timestamp_s'' timestamp_s) (\<lambda>ts.
     Inr \<lparr>ar_request_id = rid, ar_identity = idn, ar_authority_class = cls,
          ar_timestamp_s = ts\<rparr>))))"

definition wf_ActionRequest :: "ActionRequest \<Rightarrow> bool" where
  "wf_ActionRequest r \<longleftrightarrow> nonblank (ar_request_id r) \<and> nonblank (ar_identity r)
     \<and> nonblank (ar_authority_class r) \<and> timestamp_ok (ar_timestamp_s r)"

lemma make_ActionRequest_Inr:
  "make_ActionRequest a b c t = Inr r \<longleftrightarrow> wf_ActionRequest r \<and> a = PStr (ar_request_id r)
     \<and> b = PStr (ar_identity r) \<and> c = PStr (ar_authority_class r) \<and> t = PInt (ar_timestamp_s r)"
  by (cases r) (auto simp: make_ActionRequest_def bind_r_eq_Inr kil_defs wf_ActionRequest_def)

subsection \<open>CompositeState\<close>

record CompositeState =
  cs_state_id :: pstr
  cs_identity :: pstr
  cs_authority_class :: pstr
  cs_issued_at_s :: int
  cs_not_before_s :: int
  cs_expires_at_s :: int
  cs_charge :: decimal
  cs_threshold :: decimal
  cs_history_count :: int
  cs_minimum_history :: int
  cs_authentic :: bool
  cs_veto_clear :: bool
  cs_envelope_allows :: bool
  cs_decay_rate :: decimal
  cs_maximum_charge :: decimal

definition nonnegative :: "string \<Rightarrow> decimal \<Rightarrow> unit res" where
  "nonnegative name d =
     ensure (\<not> d_less d dec_zero) (ValueError (name @ '' must be nonnegative''))"

definition make_CompositeState ::
    "pyval \<Rightarrow> pyval \<Rightarrow> pyval \<Rightarrow> pyval \<Rightarrow> pyval \<Rightarrow> pyval \<Rightarrow> pyval \<Rightarrow> pyval \<Rightarrow> pyval \<Rightarrow> pyval \<Rightarrow>
     pyval \<Rightarrow> pyval \<Rightarrow> pyval \<Rightarrow> pyval \<Rightarrow> pyval \<Rightarrow> CompositeState res" where
  "make_CompositeState state_id identity authority_class issued_at_s not_before_s expires_at_s
       charge threshold history_count minimum_history authentic veto_clear envelope_allows
       decay_rate maximum_charge =
     bind_r (require_identifier ''state_id'' state_id) (\<lambda>sid.
     bind_r (require_identifier ''identity'' identity) (\<lambda>idn.
     bind_r (require_identifier ''authority_class'' authority_class) (\<lambda>cls.
     bind_r (require_timestamp ''issued_at_s'' issued_at_s) (\<lambda>iat.
     bind_r (require_timestamp ''not_before_s'' not_before_s) (\<lambda>nbf.
     bind_r (require_timestamp ''expires_at_s'' expires_at_s) (\<lambda>exp.
     bind_r (require_integer ''history_count'' history_count) (\<lambda>hc.
     bind_r (require_integer ''minimum_history'' minimum_history) (\<lambda>mh.
     bind_r (require_boolean ''authentic'' authentic) (\<lambda>auth.
     bind_r (require_boolean ''veto_clear'' veto_clear) (\<lambda>veto.
     bind_r (require_boolean ''envelope_allows'' envelope_allows) (\<lambda>env.
     bind_r (require_finite_decimal ''charge'' charge) (\<lambda>ch.
     bind_r (require_finite_decimal ''threshold'' threshold) (\<lambda>th.
     bind_r (require_finite_decimal ''decay_rate'' decay_rate) (\<lambda>dr.
     bind_r (require_finite_decimal ''maximum_charge'' maximum_charge) (\<lambda>mc.
     bind_r (ensure (iat \<le> nbf \<and> nbf < exp) (ValueError ''invalid state validity window'')) (\<lambda>_.
     bind_r (nonnegative ''charge'' ch) (\<lambda>_.
     bind_r (nonnegative ''threshold'' th) (\<lambda>_.
     bind_r (nonnegative ''decay_rate'' dr) (\<lambda>_.
     bind_r (nonnegative ''maximum_charge'' mc) (\<lambda>_.
     bind_r (ensure (\<not> d_less mc ch) (ValueError ''charge exceeds maximum_charge'')) (\<lambda>_.
     bind_r (ensure (\<not> (hc < 0 \<or> mh < 0)) (ValueError ''history counts must be nonnegative'')) (\<lambda>_.
     Inr \<lparr>cs_state_id = sid, cs_identity = idn, cs_authority_class = cls, cs_issued_at_s = iat,
          cs_not_before_s = nbf, cs_expires_at_s = exp, cs_charge = ch, cs_threshold = th,
          cs_history_count = hc, cs_minimum_history = mh, cs_authentic = auth,
          cs_veto_clear = veto, cs_envelope_allows = env, cs_decay_rate = dr,
          cs_maximum_charge = mc\<rparr>))))))))))))))))))))))"

definition nonneg_dec :: "decimal \<Rightarrow> bool" where
  "nonneg_dec d \<longleftrightarrow> is_finite d \<and> \<not> d_less d dec_zero"

definition wf_CompositeState :: "CompositeState \<Rightarrow> bool" where
  "wf_CompositeState s \<longleftrightarrow>
     nonblank (cs_state_id s) \<and> nonblank (cs_identity s) \<and> nonblank (cs_authority_class s) \<and>
     timestamp_ok (cs_issued_at_s s) \<and> timestamp_ok (cs_not_before_s s) \<and>
     timestamp_ok (cs_expires_at_s s) \<and>
     cs_issued_at_s s \<le> cs_not_before_s s \<and> cs_not_before_s s < cs_expires_at_s s \<and>
     nonneg_dec (cs_charge s) \<and> nonneg_dec (cs_threshold s) \<and> nonneg_dec (cs_decay_rate s) \<and>
     nonneg_dec (cs_maximum_charge s) \<and> \<not> d_less (cs_maximum_charge s) (cs_charge s) \<and>
     0 \<le> cs_history_count s \<and> 0 \<le> cs_minimum_history s"

definition construct_CompositeState :: "CompositeState \<Rightarrow> CompositeState res" where
  "construct_CompositeState s =
     make_CompositeState (PStr (cs_state_id s)) (PStr (cs_identity s))
       (PStr (cs_authority_class s)) (PInt (cs_issued_at_s s)) (PInt (cs_not_before_s s))
       (PInt (cs_expires_at_s s)) (PDec (cs_charge s)) (PDec (cs_threshold s))
       (PInt (cs_history_count s)) (PInt (cs_minimum_history s)) (PBool (cs_authentic s))
       (PBool (cs_veto_clear s)) (PBool (cs_envelope_allows s)) (PDec (cs_decay_rate s))
       (PDec (cs_maximum_charge s))"

lemma nonneg_dec_dval: "nonneg_dec d \<longleftrightarrow> is_finite d \<and> 0 \<le> dval d"
  by (auto simp: nonneg_dec_def d_less_iff not_less)

lemma make_CompositeState_wf:
  "make_CompositeState a1 a2 a3 a4 a5 a6 a7 a8 a9 a10 a11 a12 a13 a14 a15 = Inr s \<Longrightarrow>
     wf_CompositeState s"
  unfolding make_CompositeState_def
  by (auto simp: bind_r_eq_Inr kil_defs wf_CompositeState_def nonnegative_def nonneg_dec_def)

lemma construct_CompositeState_wf:
  assumes "wf_CompositeState s"
  shows "construct_CompositeState s = Inr s"
  using assms
  by (cases s) (simp add: construct_CompositeState_def make_CompositeState_def wf_CompositeState_def
      require_identifier_def require_timestamp_def require_integer_def require_boolean_def
      require_finite_decimal_def nonnegative_def nonneg_dec_def)

subsection \<open>LocalEvidence and ReductionProfile\<close>

record LocalEvidence =
  le_divergence :: decimal
  le_coupled_loss :: decimal
  le_fresh :: bool

definition make_LocalEvidence :: "pyval \<Rightarrow> pyval \<Rightarrow> pyval \<Rightarrow> LocalEvidence res" where
  "make_LocalEvidence divergence coupled_loss fresh =
     bind_r (require_finite_decimal ''divergence'' divergence) (\<lambda>dv.
     bind_r (require_finite_decimal ''coupled_loss'' coupled_loss) (\<lambda>cl.
     bind_r (require_boolean ''fresh'' fresh) (\<lambda>fr.
     bind_r (ensure (d_le dec_zero dv \<and> d_le dv dec_one)
               (ValueError ''divergence must be between zero and one'')) (\<lambda>_.
     bind_r (nonnegative ''coupled_loss'' cl) (\<lambda>_.
     Inr \<lparr>le_divergence = dv, le_coupled_loss = cl, le_fresh = fr\<rparr>)))))"

definition wf_LocalEvidence :: "LocalEvidence \<Rightarrow> bool" where
  "wf_LocalEvidence e \<longleftrightarrow> nonneg_dec (le_divergence e) \<and> d_le (le_divergence e) dec_one
     \<and> nonneg_dec (le_coupled_loss e)"

lemma make_LocalEvidence_Inr:
  "make_LocalEvidence a b c = Inr e \<longleftrightarrow> wf_LocalEvidence e \<and> a = PDec (le_divergence e)
     \<and> b = PDec (le_coupled_loss e) \<and> c = PBool (le_fresh e)"
  by (cases e) (auto simp: make_LocalEvidence_def bind_r_eq_Inr kil_defs wf_LocalEvidence_def
      nonnegative_def nonneg_dec_def d_le_def)

record ReductionProfile =
  rp_divergence_threshold :: decimal
  rp_loss_rate :: decimal
  rp_exponent :: int

definition make_ReductionProfile :: "pyval \<Rightarrow> pyval \<Rightarrow> pyval \<Rightarrow> ReductionProfile res" where
  "make_ReductionProfile divergence_threshold loss_rate exponent =
     bind_r (require_finite_decimal ''divergence_threshold'' divergence_threshold) (\<lambda>th.
     bind_r (require_finite_decimal ''loss_rate'' loss_rate) (\<lambda>lr.
     bind_r (require_integer ''exponent'' exponent) (\<lambda>ex.
     bind_r (ensure (\<not> d_le th dec_zero)
               (ValueError ''divergence_threshold must be greater than zero'')) (\<lambda>_.
     bind_r (nonnegative ''loss_rate'' lr) (\<lambda>_.
     bind_r (ensure (\<not> ex \<le> 1) (ValueError ''exponent must be greater than one'')) (\<lambda>_.
     Inr \<lparr>rp_divergence_threshold = th, rp_loss_rate = lr, rp_exponent = ex\<rparr>))))))"

definition wf_ReductionProfile :: "ReductionProfile \<Rightarrow> bool" where
  "wf_ReductionProfile p \<longleftrightarrow> is_finite (rp_divergence_threshold p)
     \<and> \<not> d_le (rp_divergence_threshold p) dec_zero \<and> nonneg_dec (rp_loss_rate p)
     \<and> 1 < rp_exponent p"

lemma make_ReductionProfile_Inr:
  "make_ReductionProfile a b c = Inr p \<longleftrightarrow> wf_ReductionProfile p
     \<and> a = PDec (rp_divergence_threshold p) \<and> b = PDec (rp_loss_rate p) \<and> c = PInt (rp_exponent p)"
  by (cases p) (auto simp: make_ReductionProfile_def bind_r_eq_Inr kil_defs
      wf_ReductionProfile_def nonnegative_def nonneg_dec_def)

subsection \<open>DecisionRecord\<close>

record DecisionRecord =
  dr_request_id :: pstr
  dr_state_id :: pstr
  dr_mode :: EnforcementMode
  dr_outcome :: DecisionOutcome
  dr_reasons :: "ReasonCode list"
  dr_signed_charge :: decimal
  dr_decayed_charge :: decimal
  dr_effective_charge :: decimal

definition charge_ok :: "string \<Rightarrow> decimal \<Rightarrow> unit res" where
  "charge_ok name d =
     bind_r (ensure (is_finite d) (ValueError (name @ '' must be a finite Decimal'')))
       (\<lambda>_. nonnegative name d)"

definition make_DecisionRecord ::
    "pstr \<Rightarrow> pstr \<Rightarrow> EnforcementMode \<Rightarrow> DecisionOutcome \<Rightarrow> ReasonCode list \<Rightarrow>
     decimal \<Rightarrow> decimal \<Rightarrow> decimal \<Rightarrow> DecisionRecord res" where
  "make_DecisionRecord request_id state_id mode outcome reasons signed_charge decayed effective =
     bind_r (require_identifier ''request_id'' (PStr request_id)) (\<lambda>rid.
     bind_r (require_identifier ''state_id'' (PStr state_id)) (\<lambda>sid.
     bind_r (charge_ok ''signed_charge'' signed_charge) (\<lambda>_.
     bind_r (charge_ok ''decayed_charge'' decayed) (\<lambda>_.
     bind_r (charge_ok ''effective_charge'' effective) (\<lambda>_.
     bind_r (ensure (\<not> d_less signed_charge decayed)
               (ValueError ''decayed_charge cannot exceed signed_charge'')) (\<lambda>_.
     bind_r (ensure (\<not> d_less decayed effective)
               (ValueError ''effective_charge cannot exceed decayed_charge'')) (\<lambda>_.
     bind_r (if outcome = PERMIT
             then ensure (reasons = [PERMITTED])
                    (ValueError ''PERMIT outcome requires exactly the PERMITTED reason'')
             else ensure (PERMITTED \<notin> set reasons)
                    (ValueError ''PERMITTED reason is invalid for a non-PERMIT outcome'')) (\<lambda>_.
     bind_r (ensure (outcome \<in> {DENY, CONSTRAIN} \<longrightarrow> reasons \<noteq> [])
               (ValueError ''outcome requires an actionable reason'')) (\<lambda>_.
     Inr \<lparr>dr_request_id = rid, dr_state_id = sid, dr_mode = mode, dr_outcome = outcome,
          dr_reasons = reasons, dr_signed_charge = signed_charge, dr_decayed_charge = decayed,
          dr_effective_charge = effective\<rparr>)))))))))"

definition wf_DecisionRecord :: "DecisionRecord \<Rightarrow> bool" where
  "wf_DecisionRecord r \<longleftrightarrow>
     nonblank (dr_request_id r) \<and> nonblank (dr_state_id r) \<and>
     nonneg_dec (dr_signed_charge r) \<and> nonneg_dec (dr_decayed_charge r) \<and>
     nonneg_dec (dr_effective_charge r) \<and>
     d_le (dr_decayed_charge r) (dr_signed_charge r) \<and>
     d_le (dr_effective_charge r) (dr_decayed_charge r) \<and>
     (if dr_outcome r = PERMIT then dr_reasons r = [PERMITTED] else PERMITTED \<notin> set (dr_reasons r)) \<and>
     (dr_outcome r \<in> {DENY, CONSTRAIN} \<longrightarrow> dr_reasons r \<noteq> [])"

lemma make_DecisionRecord_Inr:
  "make_DecisionRecord rid sid m out rs sc dc ec = Inr r \<longleftrightarrow>
     r = \<lparr>dr_request_id = rid, dr_state_id = sid, dr_mode = m, dr_outcome = out, dr_reasons = rs,
          dr_signed_charge = sc, dr_decayed_charge = dc, dr_effective_charge = ec\<rparr>
     \<and> wf_DecisionRecord r"
  by (auto simp: make_DecisionRecord_def bind_r_eq_Inr kil_defs wf_DecisionRecord_def charge_ok_def
      nonnegative_def nonneg_dec_def d_le_def)

subsection \<open>What the constructors raise\<close>

lemma require_domain_raises [raises]:
  "only_raises is_value_error (require_timestamp name v)"
  "only_raises is_value_error (require_finite_decimal name v)"
  "only_raises is_value_error (nonnegative name d)"
  unfolding require_timestamp_def require_finite_decimal_def nonnegative_def
  by (rule raises | simp split: pyval.splits)+

lemma make_raises [raises]:
  "only_raises is_value_error (make_ActionRequest a b c d)"
  "only_raises is_value_error (make_LocalEvidence a b c)"
  "only_raises is_value_error (make_LabeledValue x cls s r i)"
  unfolding make_ActionRequest_def make_LocalEvidence_def make_LabeledValue_def
  by (rule raises | simp)+

lemma make_CompositeState_raises [raises]:
  "only_raises is_value_error (make_CompositeState a1 a2 a3 a4 a5 a6 a7 a8 a9 a10 a11 a12 a13 a14 a15)"
  unfolding make_CompositeState_def by (rule raises | simp)+

end
