(* ===== verification/PyJson.thy ===== *)
theory PyJson
  imports PyValue
begin

text \<open>
  Python's \<^verbatim>\<open>json\<close> module as the code uses it: \<^verbatim>\<open>json.dumps\<close> with sorted keys, compact
  separators and \<^verbatim>\<open>ensure_ascii=False\<close>, and \<^verbatim>\<open>json.loads\<close> with a pairs hook. The
  interpreter's recursion limit is a parameter of \<open>json_loads\<close>; the limit of 4300 digits
  on the conversion of integers is the language's default. PyJsonRoundTrip proves the
  round trip: a canonical value is read back from its own text, whatever follows it.
\<close>

subsection \<open>Integers as text\<close>

fun nat_digits :: "nat \<Rightarrow> pstr" where
  "nat_digits n = (if n < 10 then [48 + n] else nat_digits (n div 10) @ [48 + n mod 10])"

declare nat_digits.simps [simp del]

definition int_text :: "int \<Rightarrow> pstr" where
  "int_text n = (if n < 0 then 45 # nat_digits (nat (- n)) else nat_digits (nat n))"

definition digits_value :: "pstr \<Rightarrow> nat" where
  "digits_value ds = fold (\<lambda>d n. 10 * n + (d - 48)) ds 0"

lemma nat_digits_not_Nil [simp]: "nat_digits n \<noteq> []"
  by (subst nat_digits.simps) simp

lemma nat_digits_digit: "d \<in> set (nat_digits n) \<Longrightarrow> is_digit d"
proof (induction n rule: nat_digits.induct)
  case (1 n)
  then show ?case
    by (subst (asm) nat_digits.simps) (auto simp: is_digit_def split: if_splits)
qed

lemma digits_value_nat_digits [simp]: "digits_value (nat_digits n) = n"
proof (induction n rule: nat_digits.induct)
  case (1 n)
  show ?case
    by (subst nat_digits.simps) (use 1 in \<open>auto simp: digits_value_def\<close>)
qed

lemma hd_nat_digits: "0 < n \<Longrightarrow> hd (nat_digits n) \<noteq> 48"
proof (induction n rule: nat_digits.induct)
  case (1 n)
  show ?case
    by (subst nat_digits.simps) (use 1 in \<open>auto simp: hd_append\<close>)
qed

lemma nat_digits_0: "nat_digits 0 = [48]"
  by (simp add: nat_digits.simps)

lemma length_nat_digits: "length (nat_digits n) = ndigits n"
proof (induction n rule: nat_digits.induct)
  case (1 n)
  show ?case
    by (subst nat_digits.simps, subst ndigits.simps) (use 1 in auto)
qed

subsection \<open>Serialization\<close>

definition hex_digit :: "nat \<Rightarrow> nat" where
  "hex_digit n = (if n < 10 then 48 + n else 87 + n)"

definition escape_char :: "nat \<Rightarrow> pstr" where
  "escape_char c =
     (if c = 34 then [92, 34] else if c = 92 then [92, 92] else if c = 10 then [92, 110]
      else if c = 13 then [92, 114] else if c = 9 then [92, 116] else if c = 12 then [92, 102]
      else if c = 8 then [92, 98]
      else if c < 32 then [92, 117, 48, 48, hex_digit (c div 16), hex_digit (c mod 16)]
      else [c])"

definition string_text :: "pstr \<Rightarrow> pstr" where
  "string_text s = 34 # concat (map escape_char s) @ [34]"

fun key_text :: "pyval \<Rightarrow> pstr" where
  "key_text (PStr s) = s"
| "key_text _ = []"

definition sort_items :: "pydict \<Rightarrow> pydict" where
  "sort_items kvs = sort_key (\<lambda>kv. key_text (fst kv)) kvs"

lemma set_sort_items [simp]: "set (sort_items kvs) = set kvs"
  by (simp add: sort_items_def)

lemma size_dict_value: "kv \<in> set kvs \<Longrightarrow> size (snd kv) < Suc (size_list (size_prod size size) kvs)"
  using size_list_estimation' [of kv kvs "size (snd kv)" "size_prod size size"]
  by (cases kv) auto

lemma size_list_value: "v \<in> set vs \<Longrightarrow> size v < Suc (size_list size vs)"
  using size_list_estimation' [of v vs "size v" size] by auto

text \<open>The values \<^verbatim>\<open>json.dumps\<close> accepts here; every other one raises TypeError.\<close>

function json_ok :: "pyval \<Rightarrow> bool" where
  "json_ok PNone = True"
| "json_ok (PBool _) = True"
| "json_ok (PInt _) = True"
| "json_ok (PFloat _) = True"
| "json_ok (PStr _) = True"
| "json_ok (PBytes _) = False"
| "json_ok (PDec _) = False"
| "json_ok (PEnum _ _) = True"
| "json_ok (PList vs) = list_all json_ok vs"
| "json_ok (PTuple vs) = list_all json_ok vs"
| "json_ok (PDict kvs) = list_all (\<lambda>kv. is_str (fst kv) \<and> json_ok (snd kv)) kvs"
| "json_ok (PRec _ _) = False"
| "json_ok (PObj _) = False"
  by pat_completeness auto
termination
  by (relation "measure size") (auto dest: size_dict_value size_list_value)

function dump_text :: "pyval \<Rightarrow> pstr" where
  "dump_text PNone = u ''null''"
| "dump_text (PBool b) = (if b then u ''true'' else u ''false'')"
| "dump_text (PInt n) = int_text n"
| "dump_text (PFloat s) = s"
| "dump_text (PStr s) = string_text s"
| "dump_text (PEnum _ s) = string_text s"
| "dump_text (PList vs) = 91 # join_with [44] (map dump_text vs) @ [93]"
| "dump_text (PTuple vs) = 91 # join_with [44] (map dump_text vs) @ [93]"
| "dump_text (PDict kvs) =
     123 # join_with [44] (map (\<lambda>kv. string_text (key_text (fst kv)) @ 58 # dump_text (snd kv))
       (sort_items kvs)) @ [125]"
| "dump_text (PBytes _) = []"
| "dump_text (PDec _) = []"
| "dump_text (PRec _ _) = []"
| "dump_text (PObj _) = []"
  by pat_completeness auto
termination
  by (relation "measure size") (auto dest: size_dict_value size_list_value)

text \<open>Integers beyond the language's limit on conversions have no text.\<close>

definition MAX_STR_DIGITS :: nat where "MAX_STR_DIGITS = 4300"

definition int_ok :: "int \<Rightarrow> bool" where
  "int_ok n \<longleftrightarrow> ndigits (nat \<bar>n\<bar>) \<le> MAX_STR_DIGITS"

function ints_ok :: "pyval \<Rightarrow> bool" where
  "ints_ok (PInt n) = int_ok n"
| "ints_ok (PList vs) = list_all ints_ok vs"
| "ints_ok (PTuple vs) = list_all ints_ok vs"
| "ints_ok (PDict kvs) = list_all (\<lambda>kv. ints_ok (snd kv)) kvs"
| "ints_ok PNone = True"
| "ints_ok (PBool _) = True"
| "ints_ok (PFloat _) = True"
| "ints_ok (PStr _) = True"
| "ints_ok (PBytes _) = True"
| "ints_ok (PDec _) = True"
| "ints_ok (PEnum _ _) = True"
| "ints_ok (PRec _ _) = True"
| "ints_ok (PObj _) = True"
  by pat_completeness auto
termination
  by (relation "measure size") (auto dest: size_dict_value size_list_value)

definition json_dumps :: "pyval \<Rightarrow> pstr res" where
  "json_dumps v =
     (if \<not> json_ok v then Inl (TypeError ''Object is not JSON serializable'')
      else if \<not> ints_ok v then Inl (ValueError ''Exceeds the limit for integer string conversion'')
      else Inr (dump_text v))"

subsection \<open>Scanning\<close>

definition json_ws :: "nat \<Rightarrow> bool" where
  "json_ws c \<longleftrightarrow> c = 32 \<or> c = 9 \<or> c = 10 \<or> c = 13"

definition skip_ws :: "pstr \<Rightarrow> pstr" where
  "skip_ws s = dropWhile json_ws s"

definition hex_value :: "nat \<Rightarrow> nat option" where
  "hex_value c = (if is_digit c then Some (c - 48) else if 97 \<le> c \<and> c \<le> 102 then Some (c - 87)
     else if 65 \<le> c \<and> c \<le> 70 then Some (c - 55) else None)"

fun hex4 :: "pstr \<Rightarrow> (nat \<times> pstr) option" where
  "hex4 (a # b # c # d # r) =
     (case (hex_value a, hex_value b, hex_value c, hex_value d) of
        (Some w, Some x, Some y, Some z) \<Rightarrow> Some (4096 * w + 256 * x + 16 * y + z, r)
      | _ \<Rightarrow> None)"
| "hex4 _ = None"

lemma hex4_length: "hex4 s = Some (v, r) \<Longrightarrow> length r < length s"
  by (induction s rule: hex4.induct) (auto split: option.splits)

text \<open>\<^verbatim>\<open>\uXXXX\<close> after the \<^verbatim>\<open>u\<close>, joining a surrogate pair of two such escapes.\<close>

definition unicode_escape :: "pstr \<Rightarrow> (nat \<times> pstr) option" where
  "unicode_escape s =
     (case hex4 s of None \<Rightarrow> None
      | Some (v, r) \<Rightarrow>
          if 55296 \<le> v \<and> v \<le> 56319 \<and> take 2 r = [92, 117] then
            (case hex4 (drop 2 r) of
               Some (w, r2) \<Rightarrow> if 56320 \<le> w \<and> w \<le> 57343
                 then Some (65536 + (v - 55296) * 1024 + (w - 56320), r2) else Some (v, r)
             | None \<Rightarrow> Some (v, r))
          else Some (v, r))"

lemma unicode_escape_length: "unicode_escape s = Some (v, r) \<Longrightarrow> length r < length s"
  by (auto simp: unicode_escape_def split: option.splits if_splits dest!: hex4_length)

definition simple_escape :: "nat \<Rightarrow> nat option" where
  "simple_escape c = (if c = 34 \<or> c = 92 \<or> c = 47 then Some c else if c = 98 then Some 8
     else if c = 102 then Some 12 else if c = 110 then Some 10 else if c = 114 then Some 13
     else if c = 116 then Some 9 else None)"

text \<open>\<^verbatim>\<open>scanstring\<close> (strict): the characters up to the closing quote, and what follows it.\<close>

function scan_string :: "pstr \<Rightarrow> (pstr \<times> pstr) res" where
  "scan_string [] = Inl JSONDecodeError"
| "scan_string (c # r) =
     (if c = 34 then Inr ([], r)
      else if c < 32 then Inl JSONDecodeError
      else if c = 92 then
        (case r of
           [] \<Rightarrow> Inl JSONDecodeError
         | e # r1 \<Rightarrow>
             (if e = 117 then
                (case unicode_escape r1 of
                   None \<Rightarrow> Inl JSONDecodeError
                 | Some (v, r2) \<Rightarrow> bind_r (scan_string r2) (\<lambda>(t, q). Inr (v # t, q)))
              else
                (case simple_escape e of
                   None \<Rightarrow> Inl JSONDecodeError
                 | Some v \<Rightarrow> bind_r (scan_string r1) (\<lambda>(t, q). Inr (v # t, q)))))
      else bind_r (scan_string r) (\<lambda>(t, q). Inr (c # t, q)))"
  by pat_completeness auto
termination
  by (relation "measure length") (auto dest: unicode_escape_length)

declare scan_string.simps(2) [simp del]

definition scan_fraction :: "pstr \<Rightarrow> pstr" where
  "scan_fraction s = (case s of
     d # e # r \<Rightarrow> if d = 46 \<and> is_digit e then d # takeWhile is_digit (e # r) else []
   | _ \<Rightarrow> [])"

definition scan_exponent :: "pstr \<Rightarrow> pstr" where
  "scan_exponent s = (case s of
     [] \<Rightarrow> []
   | x # r \<Rightarrow>
       if x = 101 \<or> x = 69 then
         (let sg = (case r of [] \<Rightarrow> [] | y # _ \<Rightarrow> if y = 43 \<or> y = 45 then [y] else []);
              ds = takeWhile is_digit (drop (length sg) r)
          in if ds \<noteq> [] then x # sg @ ds else [])
       else [])"

definition int_part :: "pstr \<Rightarrow> pstr" where
  "int_part s = (if take 1 s = [48] then [48] else takeWhile is_digit s)"

definition scan_unsigned :: "bool \<Rightarrow> pstr \<Rightarrow> (pyval \<times> pstr) res" where
  "scan_unsigned neg s =
     (let ip = int_part s; s1 = drop (length ip) s;
          fp = scan_fraction s1; s2 = drop (length fp) s1;
          ep = scan_exponent s2; s3 = drop (length ep) s2 in
      if ip = [] then Inl JSONDecodeError
      else if fp \<noteq> [] \<or> ep \<noteq> [] then Inr (PFloat ((if neg then [45] else []) @ ip @ fp @ ep), s3)
      else if length ip > MAX_STR_DIGITS
      then Inl (ValueError ''Exceeds the limit for integer string conversion'')
      else Inr (PInt ((if neg then - 1 else 1) * int (digits_value ip)), s3))"

definition scan_number :: "pstr \<Rightarrow> (pyval \<times> pstr) res" where
  "scan_number s = (if take 1 s = [45] then scan_unsigned True (drop 1 s) else scan_unsigned False s)"

definition json_scalar :: "pstr \<Rightarrow> (pyval \<times> pstr) res" where
  "json_scalar s =
     (if take 1 s = [34] then bind_r (scan_string (drop 1 s)) (\<lambda>(t, r). Inr (PStr t, r))
      else if starts_with (u ''null'') s then Inr (PNone, drop 4 s)
      else if starts_with (u ''true'') s then Inr (PBool True, drop 4 s)
      else if starts_with (u ''false'') s then Inr (PBool False, drop 5 s)
      else if starts_with (u ''NaN'') s then Inr (PFloat (u ''NaN''), drop 3 s)
      else if starts_with (u ''Infinity'') s then Inr (PFloat (u ''Infinity''), drop 8 s)
      else if starts_with (u ''-Infinity'') s then Inr (PFloat (u ''-Infinity''), drop 9 s)
      else scan_number s)"

text \<open>
  Arrays and objects over a parser \<open>p\<close> of one value. Every element takes a character, so
  the length of the text bounds the number of rounds.
\<close>

fun json_elems :: "(pstr \<Rightarrow> (pyval \<times> pstr) res) \<Rightarrow> nat \<Rightarrow> pstr \<Rightarrow> (pyval list \<times> pstr) res" where
  "json_elems p 0 s = Inl JSONDecodeError"
| "json_elems p (Suc n) s =
     bind_r (p s) (\<lambda>(v, s1).
       case skip_ws s1 of
         [] \<Rightarrow> Inl JSONDecodeError
       | c # s2 \<Rightarrow>
           if c = 93 then Inr ([v], s2)
           else if c = 44 then
             bind_r (json_elems p n (skip_ws s2)) (\<lambda>(vs, q). Inr (v # vs, q))
           else Inl JSONDecodeError)"

fun json_members :: "(pstr \<Rightarrow> (pyval \<times> pstr) res) \<Rightarrow> nat \<Rightarrow> pstr \<Rightarrow> (pydict \<times> pstr) res" where
  "json_members p 0 s = Inl JSONDecodeError"
| "json_members p (Suc n) s =
     (if take 1 s \<noteq> [34] then Inl JSONDecodeError
      else bind_r (scan_string (drop 1 s)) (\<lambda>(k, s1).
        case skip_ws s1 of
          [] \<Rightarrow> Inl JSONDecodeError
        | c # s2 \<Rightarrow>
            if c \<noteq> 58 then Inl JSONDecodeError
            else bind_r (p (skip_ws s2)) (\<lambda>(v, s3).
              case skip_ws s3 of
                [] \<Rightarrow> Inl JSONDecodeError
              | d # s4 \<Rightarrow>
                  if d = 125 then Inr ([(PStr k, v)], s4)
                  else if d = 44 then
                    bind_r (json_members p n (skip_ws s4)) (\<lambda>(kvs, q). Inr ((PStr k, v) # kvs, q))
                  else Inl JSONDecodeError)))"

definition json_array :: "(pstr \<Rightarrow> (pyval \<times> pstr) res) \<Rightarrow> pstr \<Rightarrow> (pyval \<times> pstr) res" where
  "json_array p r =
     (let s = skip_ws r in
      if take 1 s = [93] then Inr (PList [], drop 1 s)
      else bind_r (json_elems p (length s) s) (\<lambda>(vs, q). Inr (PList vs, q)))"

definition json_object ::
    "(pydict \<Rightarrow> pyval res) \<Rightarrow> (pstr \<Rightarrow> (pyval \<times> pstr) res) \<Rightarrow> pstr \<Rightarrow> (pyval \<times> pstr) res" where
  "json_object hook p r =
     (let s = skip_ws r in
      if take 1 s = [125] then bind_r (hook []) (\<lambda>d. Inr (d, drop 1 s))
      else bind_r (json_members p (length s) s) (\<lambda>(kvs, q). bind_r (hook kvs) (\<lambda>d. Inr (d, q))))"

fun json_value :: "(pydict \<Rightarrow> pyval res) \<Rightarrow> nat \<Rightarrow> pstr \<Rightarrow> (pyval \<times> pstr) res" where
  "json_value hook 0 s =
     (if take 1 s = [123] \<or> take 1 s = [91] then Inl RecursionError else json_scalar s)"
| "json_value hook (Suc f) s =
     (if take 1 s = [123] then json_object hook (json_value hook f) (drop 1 s)
      else if take 1 s = [91] then json_array (json_value hook f) (drop 1 s)
      else json_scalar s)"

text \<open>\<^verbatim>\<open>json.loads(text, object_pairs_hook=hook)\<close> under a recursion limit.\<close>

definition json_loads :: "(pydict \<Rightarrow> pyval res) \<Rightarrow> nat \<Rightarrow> pstr \<Rightarrow> pyval res" where
  "json_loads hook rlimit s =
     (if take 1 s = [65279] then Inl JSONDecodeError
      else bind_r (json_value hook rlimit (skip_ws s)) (\<lambda>(v, r).
        if skip_ws r = [] then Inr v else Inl JSONDecodeError))"

text \<open>The default: a later duplicate replaces the value of an earlier one.\<close>

fun dict_put :: "pydict \<Rightarrow> pyval \<Rightarrow> pyval \<Rightarrow> pydict" where
  "dict_put [] k v = [(k, v)]"
| "dict_put ((k', v') # d) k v = (if k' = k then (k', v) # d else (k', v') # dict_put d k v)"

definition default_hook :: "pydict \<Rightarrow> pyval res" where
  "default_hook kvs = Inr (PDict (fold (\<lambda>(k, v) d. dict_put d k v) kvs []))"

text \<open>The hook that closes an object against duplicate fields, with the caller's exception.\<close>

definition closed_hook :: "pyexc \<Rightarrow> pydict \<Rightarrow> pyval res" where
  "closed_hook e kvs = (if distinct (map fst kvs) then Inr (PDict kvs) else Inl e)"

end
