(* ===== verification/PyJsonRoundTrip.thy ===== *)
theory PyJsonRoundTrip
  imports PyJson
begin

text \<open>
  Reading back what was written: the text of a canonical JSON value (sorted distinct
  string keys, no floats, integers within the digit limit), followed by anything that may
  follow a value, scans to that value and leaves the rest.
\<close>

subsection \<open>Strings\<close>

lemma hex_value_digit: "n < 16 \<Longrightarrow> hex_value (hex_digit n) = Some n"
  by (auto simp: hex_value_def hex_digit_def is_digit_def)

lemma unicode_escape_control:
  "c < 32 \<Longrightarrow> unicode_escape (48 # 48 # hex_digit (c div 16) # hex_digit (c mod 16) # r) = Some (c, r)"
proof -
  assume c: "c < 32"
  have "hex_value 48 = Some 0" by (simp add: hex_value_def is_digit_def)
  moreover have "hex_value (hex_digit (c div 16)) = Some (c div 16)"
    using c by (intro hex_value_digit) auto
  moreover have "hex_value (hex_digit (c mod 16)) = Some (c mod 16)"
    by (intro hex_value_digit) auto
  ultimately show ?thesis using c by (simp add: unicode_escape_def)
qed

lemma scan_string_escape_char:
  "scan_string (escape_char c @ r) = bind_r (scan_string r) (\<lambda>(t, q). Inr (c # t, q))"
proof -
  consider "c = 34" | "c = 92" | "c = 10" | "c = 13" | "c = 9" | "c = 12" | "c = 8"
    | "c < 32" "c \<notin> {10, 13, 9, 12, 8}" | "32 \<le> c" "c \<noteq> 34" "c \<noteq> 92"
    by fastforce
  then show ?thesis
  proof cases
    case 8
    then show ?thesis
      by (simp add: escape_char_def scan_string.simps(2) unicode_escape_control)
  next
    case 9
    then show ?thesis by (simp add: escape_char_def scan_string.simps(2))
  qed (simp_all add: escape_char_def scan_string.simps(2) simple_escape_def)
qed

lemma scan_string_text: "scan_string (concat (map escape_char s) @ 34 # r) = Inr (s, r)"
  by (induction s) (simp_all add: scan_string_escape_char scan_string.simps(2) [of 34])

subsection \<open>Numbers\<close>

text \<open>What may follow a value inside a document.\<close>

definition follow_ok :: "pstr \<Rightarrow> bool" where
  "follow_ok r \<longleftrightarrow> r = [] \<or> hd r \<in> {44, 93, 125, 10, 32}"

lemma follow_ok_simps [simp]:
  "follow_ok []" "follow_ok (44 # r)" "follow_ok (93 # r)" "follow_ok (125 # r)" "follow_ok (10 # r)"
  by (simp_all add: follow_ok_def)

lemma follow_ok_hd:
  "follow_ok (c # r) \<Longrightarrow> \<not> is_digit c \<and> c \<noteq> 46 \<and> c \<noteq> 101 \<and> c \<noteq> 69"
  by (auto simp: follow_ok_def is_digit_def)

lemma takeWhile_nat_digits:
  "follow_ok r \<Longrightarrow> takeWhile is_digit (nat_digits n @ r) = nat_digits n"
proof -
  assume r: "follow_ok r"
  have "takeWhile is_digit r = []"
    using r by (cases r) (auto dest: follow_ok_hd)
  then show ?thesis
    by (subst takeWhile_append2) (auto simp: nat_digits_digit)
qed

lemma scan_tail_empty: "follow_ok r \<Longrightarrow> scan_fraction r = [] \<and> scan_exponent r = []"
  by (cases r) (auto simp: scan_fraction_def scan_exponent_def dest: follow_ok_hd split: list.splits)

lemma nat_digits_Cons: "\<exists>c ds. nat_digits n = c # ds \<and> is_digit c"
  using nat_digits_digit [of "hd (nat_digits n)" n] by (cases "nat_digits n") auto

lemma int_part_nat_digits: "follow_ok r \<Longrightarrow> int_part (nat_digits n @ r) = nat_digits n"
proof -
  assume r: "follow_ok r"
  obtain c ds where cd: "nat_digits n = c # ds" using nat_digits_Cons by blast
  show ?thesis
  proof (cases "c = 48")
    case True
    then have "n = 0" using hd_nat_digits [of n] cd by force
    then show ?thesis by (simp add: int_part_def nat_digits_0)
  next
    case False
    then show ?thesis using takeWhile_nat_digits [OF r, of n] by (simp add: int_part_def cd)
  qed
qed

lemma scan_unsigned_digits:
  assumes "follow_ok r" and "ndigits n \<le> MAX_STR_DIGITS"
  shows "scan_unsigned neg (nat_digits n @ r) = Inr (PInt ((if neg then - 1 else 1) * int n), r)"
  using assms scan_tail_empty [OF assms(1)]
  by (simp add: scan_unsigned_def int_part_nat_digits length_nat_digits Let_def)

lemma scan_digits:
  assumes "follow_ok r" and "ndigits n \<le> MAX_STR_DIGITS"
  shows "scan_number (nat_digits n @ r) = Inr (PInt (int n), r)"
    and "scan_number (45 # nat_digits n @ r) = Inr (PInt (- int n), r)"
proof -
  obtain c ds where cd: "nat_digits n = c # ds" "is_digit c" using nat_digits_Cons by blast
  then have "take 1 (nat_digits n @ r) \<noteq> [45]" by (auto simp: is_digit_def)
  then show "scan_number (nat_digits n @ r) = Inr (PInt (int n), r)"
    using scan_unsigned_digits [OF assms] by (simp add: scan_number_def)
  show "scan_number (45 # nat_digits n @ r) = Inr (PInt (- int n), r)"
    using scan_unsigned_digits [OF assms] by (simp add: scan_number_def)
qed

lemma scan_int_text:
  assumes "follow_ok r" "int_ok n"
  shows "scan_number (int_text n @ r) = Inr (PInt n, r)"
  using scan_digits [OF assms(1), of "nat \<bar>n\<bar>"] assms(2)
  by (auto simp: int_text_def int_ok_def)

text \<open>The first character of a number is a digit or the minus sign.\<close>

lemma int_text_cases:
  obtains (pos) c ds where "int_text n = c # ds" "is_digit c"
  | (neg) c ds where "int_text n = 45 # c # ds" "is_digit c"
proof (cases "n < 0")
  case True
  obtain c ds where "nat_digits (nat (- n)) = c # ds" "is_digit c" using nat_digits_Cons by blast
  then show ?thesis using True by (intro neg [of c ds]) (simp_all add: int_text_def)
next
  case False
  obtain c ds where "nat_digits (nat n) = c # ds" "is_digit c" using nat_digits_Cons by blast
  then show ?thesis using False by (intro pos [of c ds]) (simp_all add: int_text_def)
qed

lemma starts_with_Cons: "starts_with (u (c # cs)) (d # s) \<longleftrightarrow> of_char c = d \<and> starts_with (u cs) s"
  by (auto simp: starts_with_def u_def)

lemma starts_with_Nil [simp]: "starts_with [] s"
  by (simp add: starts_with_def)

lemma not_starts_digit:
  assumes "is_digit c"
  shows "\<not> starts_with (u ''null'') (c # r)" "\<not> starts_with (u ''true'') (c # r)"
    "\<not> starts_with (u ''false'') (c # r)" "\<not> starts_with (u ''NaN'') (c # r)"
    "\<not> starts_with (u ''Infinity'') (c # r)" "\<not> starts_with (u ''-Infinity'') (c # r)"
    "\<not> starts_with (u ''null'') (45 # c # r)" "\<not> starts_with (u ''true'') (45 # c # r)"
    "\<not> starts_with (u ''false'') (45 # c # r)" "\<not> starts_with (u ''NaN'') (45 # c # r)"
    "\<not> starts_with (u ''Infinity'') (45 # c # r)" "\<not> starts_with (u ''-Infinity'') (45 # c # r)"
  using assms by (auto simp: starts_with_Cons is_digit_def)

lemma json_scalar_int:
  assumes "follow_ok r" "int_ok n"
  shows "json_scalar (int_text n @ r) = Inr (PInt n, r)"
proof (cases rule: int_text_cases [of n])
  case (pos c ds)
  then have "c \<noteq> 34" by (auto simp: is_digit_def)
  then show ?thesis
    using scan_int_text [OF assms] not_starts_digit [OF pos(2)] by (simp add: json_scalar_def pos)
next
  case (neg c ds)
  then show ?thesis
    using scan_int_text [OF assms] not_starts_digit [OF neg(2)] by (simp add: json_scalar_def neg)
qed

lemma json_scalar_string: "json_scalar (string_text s @ r) = Inr (PStr s, r)"
  by (simp add: json_scalar_def string_text_def scan_string_text)

lemma starts_with_append [simp]: "starts_with p (p @ r)"
  by (simp add: starts_with_def)

lemma json_scalar_constants:
  "json_scalar (u ''null'' @ r) = Inr (PNone, r)"
  "json_scalar (u ''true'' @ r) = Inr (PBool True, r)"
  "json_scalar (u ''false'' @ r) = Inr (PBool False, r)"
  by (simp_all add: json_scalar_def u_def starts_with_def)

subsection \<open>Canonical values\<close>

function canonical :: "pyval \<Rightarrow> bool" where
  "canonical PNone = True"
| "canonical (PBool _) = True"
| "canonical (PInt n) = int_ok n"
| "canonical (PStr _) = True"
| "canonical (PList vs) = list_all canonical vs"
| "canonical (PDict kvs) =
     (list_all (\<lambda>kv. is_str (fst kv) \<and> canonical (snd kv)) kvs
      \<and> distinct (map fst kvs) \<and> sorted (map (key_text \<circ> fst) kvs))"
| "canonical (PFloat _) = False"
| "canonical (PBytes _) = False"
| "canonical (PDec _) = False"
| "canonical (PEnum _ _) = False"
| "canonical (PTuple _) = False"
| "canonical (PRec _ _) = False"
| "canonical (PObj _) = False"
  by pat_completeness auto
termination
  by (relation "measure size") (auto dest: size_dict_value size_list_value)

text \<open>The nesting of containers, which the recursion limit must exceed.\<close>

function nesting :: "pyval \<Rightarrow> nat" where
  "nesting (PList vs) = Suc (fold max (map nesting vs) 0)"
| "nesting (PTuple vs) = Suc (fold max (map nesting vs) 0)"
| "nesting (PDict kvs) = Suc (fold max (map (\<lambda>kv. nesting (snd kv)) kvs) 0)"
| "nesting PNone = 0"
| "nesting (PBool _) = 0"
| "nesting (PInt _) = 0"
| "nesting (PFloat _) = 0"
| "nesting (PStr _) = 0"
| "nesting (PBytes _) = 0"
| "nesting (PDec _) = 0"
| "nesting (PEnum _ _) = 0"
| "nesting (PRec _ _) = 0"
| "nesting (PObj _) = 0"
  by pat_completeness auto
termination
  by (relation "measure size") (auto dest: size_dict_value size_list_value)

lemma fold_max_ge: "(n::nat) \<in> set ns \<Longrightarrow> n \<le> fold max ns m"
proof (induction ns arbitrary: m)
  case (Cons k ns)
  have "a \<le> fold max ns a" for a :: nat
    by (induction ns arbitrary: a) (auto, metis max.bounded_iff max.cobounded1 order_trans)
  then show ?case using Cons by (auto, metis max.bounded_iff)
qed simp

lemma nesting_elem: "v \<in> set vs \<Longrightarrow> nesting v < nesting (PList vs)"
  using fold_max_ge [of "nesting v" "map nesting vs" 0] by auto

lemma nesting_item: "kv \<in> set kvs \<Longrightarrow> nesting (snd kv) < nesting (PDict kvs)"
  using fold_max_ge [of "nesting (snd kv)" "map (\<lambda>kv. nesting (snd kv)) kvs" 0] by auto

lemma fold_max_le: "fold max ns (m :: nat) \<le> k \<longleftrightarrow> m \<le> k \<and> (\<forall>n \<in> set ns. n \<le> k)"
  by (induction ns arbitrary: m) auto

lemma nesting_le_iff:
  "nesting (PList vs) \<le> k \<longleftrightarrow> 0 < k \<and> (\<forall>v \<in> set vs. nesting v \<le> k - 1)"
  "nesting (PDict kvs) \<le> k \<longleftrightarrow> 0 < k \<and> (\<forall>kv \<in> set kvs. nesting (snd kv) \<le> k - 1)"
  by (cases k; auto simp: fold_max_le)+

lemma sort_items_sorted: "sorted (map (key_text \<circ> fst) kvs) \<Longrightarrow> sort_items kvs = kvs"
  by (simp add: sort_items_def sort_key_id_if_sorted comp_def)

text \<open>The text of a value starts with a character that is not white space.\<close>

lemma dump_text_hd:
  "canonical v \<Longrightarrow> \<exists>c cs. dump_text v = c # cs \<and> \<not> json_ws c \<and> c \<noteq> 93 \<and> c \<noteq> 125 \<and> c \<noteq> 65279"
proof (cases v)
  case (PInt n)
  then show ?thesis
    by (cases rule: int_text_cases [of n]) (auto simp: json_ws_def is_digit_def)
qed (auto simp: json_ws_def string_text_def u_def)

lemma skip_ws_dump: "canonical v \<Longrightarrow> skip_ws (dump_text v @ r) = dump_text v @ r"
  using dump_text_hd [of v] by (auto simp: skip_ws_def)

lemma skip_ws_Cons [simp]: "\<not> json_ws c \<Longrightarrow> skip_ws (c # r) = c # r"
  by (simp add: skip_ws_def)

lemma json_ws_punct [simp]:
  "\<not> json_ws 44" "\<not> json_ws 93" "\<not> json_ws 125" "\<not> json_ws 58" "\<not> json_ws 34" "\<not> json_ws 91" "\<not> json_ws 123"
  by (simp_all add: json_ws_def)

subsection \<open>Containers\<close>

lemma join_with_Cons:
  "ws \<noteq> [] \<Longrightarrow> join_with sep (w # ws) = w @ sep @ join_with sep ws"
  by (cases ws) simp_all

lemma length_join_with: "\<forall>w \<in> set ws. w \<noteq> [] \<Longrightarrow> length ws \<le> length (join_with sep ws)"
proof (induction sep ws rule: join_with.induct)
  case (2 sep w)
  then show ?case by (cases w) simp_all
next
  case (3 sep w v ws)
  then show ?case by (cases w) simp_all
qed simp

lemma json_elems_dump:
  assumes "\<And>v r. v \<in> set vs \<Longrightarrow> follow_ok r \<Longrightarrow> p (dump_text v @ r) = Inr (v, r)"
    and "list_all canonical vs" and "vs \<noteq> []" and "length vs \<le> n"
  shows "json_elems p n (join_with [44] (map dump_text vs) @ 93 # r) = Inr (vs, r)"
  using assms
proof (induction vs arbitrary: n)
  case Nil
  then show ?case by simp
next
  case (Cons v vs)
  then obtain m where n: "n = Suc m" by (cases n) auto
  show ?case
  proof (cases "vs = []")
    case True
    then show ?thesis using Cons.prems(1) [of v] n by simp
  next
    case False
    then obtain w ws where vs: "vs = w # ws" by (cases vs) auto
    have IH: "json_elems p m (join_with [44] (map dump_text vs) @ 93 # r) = Inr (vs, r)"
      using Cons.prems False n by (intro Cons.IH) auto
    have skip: "skip_ws (join_with [44] (map dump_text vs) @ 93 # r)
        = join_with [44] (map dump_text vs) @ 93 # r"
      using Cons.prems(2) skip_ws_dump [of w] vs by (cases ws) auto
    show ?thesis
      using Cons.prems(1) [of v] False IH skip n
      by (simp add: join_with_Cons)
  qed
qed

abbreviation item_text :: "pyval \<times> pyval \<Rightarrow> pstr" where
  "item_text kv \<equiv> string_text (key_text (fst kv)) @ 58 # dump_text (snd kv)"

lemma item_text_hd: "item_text kv = 34 # concat (map escape_char (key_text (fst kv))) @ 34 # 58 # dump_text (snd kv)"
  by (simp add: string_text_def)

lemma is_str_key: "is_str k \<Longrightarrow> PStr (key_text k) = k"
  by (cases k) simp_all

lemma json_members_dump:
  assumes "\<And>kv r. kv \<in> set kvs \<Longrightarrow> follow_ok r \<Longrightarrow> p (dump_text (snd kv) @ r) = Inr (snd kv, r)"
    and "list_all (\<lambda>kv. is_str (fst kv) \<and> canonical (snd kv)) kvs" and "kvs \<noteq> []" and "length kvs \<le> n"
  shows "json_members p n (join_with [44] (map item_text kvs) @ 125 # r) = Inr (kvs, r)"
  using assms
proof (induction kvs arbitrary: n)
  case Nil
  then show ?case by simp
next
  case (Cons kv kvs)
  then obtain m where n: "n = Suc m" by (cases n) auto
  obtain k v where kv: "kv = (k, v)" by (cases kv)
  have k: "PStr (key_text k) = k" and v: "canonical v"
    using Cons.prems(2) kv by (auto simp: is_str_key)
  have scan: "scan_string (concat (map escape_char (key_text k)) @ 34 # q) = Inr (key_text k, q)" for q
    by (rule scan_string_text)
  show ?case
  proof (cases "kvs = []")
    case True
    then show ?thesis
      using Cons.prems(1) [of kv] n kv k v
      by (simp add: string_text_def scan skip_ws_dump)
  next
    case False
    then obtain w ws where kvs: "kvs = w # ws" by (cases kvs) auto
    have IH: "json_members p m (join_with [44] (map item_text kvs) @ 125 # r) = Inr (kvs, r)"
      using Cons.prems False n by (intro Cons.IH) auto
    have skip: "skip_ws (join_with [44] (map item_text kvs) @ 125 # r)
        = join_with [44] (map item_text kvs) @ 125 # r"
      using kvs by (cases ws) (simp_all add: string_text_def)
    show ?thesis
      using Cons.prems(1) [of kv] False IH skip n kv k v
      by (simp add: join_with_Cons string_text_def scan skip_ws_dump)
  qed
qed

text \<open>A hook that keeps the pairs of an object without duplicates.\<close>

definition faithful_hook :: "(pydict \<Rightarrow> pyval res) \<Rightarrow> bool" where
  "faithful_hook hook \<longleftrightarrow> (\<forall>kvs. distinct (map fst kvs) \<longrightarrow> hook kvs = Inr (PDict kvs))"

lemma closed_hook_faithful: "faithful_hook (closed_hook e)"
  by (simp add: faithful_hook_def closed_hook_def)

lemma dict_put_fresh: "k \<notin> fst ` set d \<Longrightarrow> dict_put d k v = d @ [(k, v)]"
  by (induction d k v rule: dict_put.induct) auto

lemma default_hook_faithful: "faithful_hook default_hook"
proof -
  have "distinct (map fst (d @ kvs)) \<Longrightarrow> fold (\<lambda>(k, v) d. dict_put d k v) kvs d = d @ kvs"
    for d kvs :: pydict
  proof (induction kvs arbitrary: d)
    case Nil
    then show ?case by simp
  next
    case (Cons kv kvs)
    obtain k v where kv: "kv = (k, v)" by (cases kv)
    have "dict_put d k v = d @ [(k, v)]" using Cons.prems kv by (intro dict_put_fresh) auto
    with Cons.IH [of "d @ [(k, v)]"] Cons.prems kv show ?case by simp
  qed
  from this [of "[]"] show ?thesis by (simp add: faithful_hook_def default_hook_def)
qed

lemma json_value_scalar:
  "take 1 s \<noteq> [123] \<Longrightarrow> take 1 s \<noteq> [91] \<Longrightarrow> json_value hook f s = json_scalar s"
  by (cases f) simp_all

lemma json_value_constants:
  "json_value hook f (u ''null'' @ r) = Inr (PNone, r)"
  "json_value hook f (u ''true'' @ r) = Inr (PBool True, r)"
  "json_value hook f (u ''false'' @ r) = Inr (PBool False, r)"
proof -
  have h: "take 1 (u ''null'' @ r) = [110]" "take 1 (u ''true'' @ r) = [116]"
    "take 1 (u ''false'' @ r) = [102]"
    by (simp_all add: u_def)
  show "json_value hook f (u ''null'' @ r) = Inr (PNone, r)"
    "json_value hook f (u ''true'' @ r) = Inr (PBool True, r)"
    "json_value hook f (u ''false'' @ r) = Inr (PBool False, r)"
    using h json_scalar_constants [of r] by (simp_all add: json_value_scalar)
qed

theorem json_value_dump:
  assumes "faithful_hook hook" and "canonical v" and "nesting v \<le> f" and "follow_ok r"
  shows "json_value hook f (dump_text v @ r) = Inr (v, r)"
  using assms(2-4)
proof (induction v arbitrary: f r rule: canonical.induct)
  case (5 vs)
  then obtain g where f: "f = Suc g" by (cases f) auto
  have el: "json_value hook g (dump_text v @ q) = Inr (v, q)" if "v \<in> set vs" "follow_ok q" for v q
    using 5 that nesting_elem [OF that(1)] f by (auto simp: list_all_iff less_Suc_eq_le)
  show ?case
  proof (cases "vs = []")
    case True
    then show ?thesis using f by (simp add: json_array_def)
  next
    case False
    then obtain w ws where vs: "vs = w # ws" by (cases vs) auto
    let ?t = "join_with [44] (map dump_text vs) @ 93 # r"
    have ne: "\<forall>t \<in> set (map dump_text vs). t \<noteq> []"
      using 5 dump_text_hd by (fastforce simp: list_all_iff)
    have skip: "skip_ws ?t = ?t" and hd: "take 1 ?t \<noteq> [93]"
      using 5 vs dump_text_hd [of w] by (cases ws; fastforce simp: skip_ws_def)+
    have "length vs \<le> length ?t" using length_join_with [OF ne, of "[44]"] by simp
    then have "json_elems (json_value hook g) (length ?t) ?t = Inr (vs, r)"
      using 5 False by (intro json_elems_dump el) auto
    then show ?thesis using f skip hd by (simp add: json_array_def Let_def)
  qed
next
  case (6 kvs)
  then obtain g where f: "f = Suc g" by (cases f) auto
  have el: "json_value hook g (dump_text (snd kv) @ q) = Inr (snd kv, q)"
    if "kv \<in> set kvs" "follow_ok q" for kv q
    using 6 that nesting_item [OF that(1)] f by (auto simp: list_all_iff less_Suc_eq_le)
  have sorted: "sort_items kvs = kvs" using 6 by (simp add: sort_items_sorted)
  have hook: "hook kvs = Inr (PDict kvs)" using 6 assms(1) by (simp add: faithful_hook_def)
  show ?case
  proof (cases "kvs = []")
    case True
    then show ?thesis using f hook by (simp add: json_object_def sort_items_def)
  next
    case False
    then obtain w ws where kvs: "kvs = w # ws" by (cases kvs) auto
    let ?t = "join_with [44] (map item_text kvs) @ 125 # r"
    have skip: "skip_ws ?t = ?t" and hd: "take 1 ?t \<noteq> [125]"
      using kvs by (cases ws; simp add: string_text_def)+
    have "length kvs \<le> length ?t"
      using length_join_with [of "map item_text kvs" "[44]"] by (simp add: string_text_def)
    then have "json_members (json_value hook g) (length ?t) ?t = Inr (kvs, r)"
      using 6 False by (intro json_members_dump el) auto
    then show ?thesis using f skip hd hook by (simp add: json_object_def Let_def sorted)
  qed
next
  case (3 n)
  then have *: "json_scalar (int_text n @ r) = Inr (PInt n, r)" by (simp add: json_scalar_int)
  show ?case
    by (cases rule: int_text_cases [of n]) (use * in \<open>auto simp: json_value_scalar is_digit_def\<close>)
next
  case (4 s)
  have "json_scalar (string_text s @ r) = Inr (PStr s, r)" by (rule json_scalar_string)
  then show ?case by (simp add: json_value_scalar string_text_def)
qed (simp_all add: json_value_constants)

text \<open>
  The round trip of a whole document, with the trailing line feed the records of the
  program carry or without it.
\<close>

theorem json_round_trip:
  assumes "faithful_hook hook" "canonical v" "nesting v \<le> f" "skip_ws r = []" "follow_ok r"
  shows "json_loads hook f (dump_text v @ r) = Inr v"
proof -
  have "skip_ws (dump_text v @ r) = dump_text v @ r" using assms(2) by (rule skip_ws_dump)
  moreover have "take 1 (dump_text v @ r) \<noteq> [65279]" using dump_text_hd [OF assms(2)] by auto
  ultimately show ?thesis
    using json_value_dump [OF assms(1-3,5)] assms(4) by (simp add: json_loads_def)
qed

text \<open>The text of a canonical value determines it.\<close>

corollary dump_text_inj:
  assumes "canonical v" "canonical w" "dump_text v = dump_text w"
  shows "v = w"
proof -
  let ?f = "max (nesting v) (nesting w)"
  have s: "skip_ws [] = []" by (simp add: skip_ws_def)
  have "json_loads default_hook ?f (dump_text v @ []) = Inr v"
    by (rule json_round_trip [OF default_hook_faithful assms(1) _ s]) simp_all
  moreover have "json_loads default_hook ?f (dump_text w @ []) = Inr w"
    by (rule json_round_trip [OF default_hook_faithful assms(2) _ s]) simp_all
  ultimately show ?thesis using assms(3) by simp
qed

lemma canonical_json_ok: "canonical v \<Longrightarrow> json_ok v"
  by (induction v rule: canonical.induct) (auto simp: list_all_iff)

subsection \<open>What parsing raises\<close>

definition json_error :: "pyexc \<Rightarrow> bool" where
  "json_error e \<longleftrightarrow> e = JSONDecodeError \<or> e = RecursionError
     \<or> e = ValueError ''Exceeds the limit for integer string conversion''"

lemma json_error_simps [simp]:
  "json_error JSONDecodeError" "json_error RecursionError"
  "json_error (ValueError ''Exceeds the limit for integer string conversion'')"
  by (simp_all add: json_error_def)

lemma scan_string_error: "scan_string s = Inl e \<Longrightarrow> e = JSONDecodeError"
proof (induction s rule: scan_string.induct)
  case (2 c r)
  show ?case
    using "2.prems" [unfolded scan_string.simps(2) [of c r]] "2.IH"
    by (auto simp: bind_r_eq_Inl split: if_splits list.splits option.splits)
qed simp

lemma json_scalar_error: "json_scalar s = Inl e \<Longrightarrow> json_error e"
  by (auto simp: json_scalar_def scan_number_def scan_unsigned_def Let_def bind_r_eq_Inl
      dest: scan_string_error split: if_splits)

lemma bind_r_InlE:
  assumes "bind_r m f = Inl e"
  obtains "m = Inl e" | x where "m = Inr x" "f x = Inl e"
  using assms by (auto simp: bind_r_eq_Inl)

lemma json_elems_error:
  assumes "json_elems p n s = Inl e" "\<forall>s e. p s = Inl e \<longrightarrow> P e" "P JSONDecodeError"
  shows "P e"
  using assms(1)
proof (induction n arbitrary: s)
  case (Suc n)
  from Suc.prems show ?case unfolding json_elems.simps
  proof (rule bind_r_InlE)
    fix x assume x: "(\<lambda>(v, s1). case skip_ws s1 of [] \<Rightarrow> Inl JSONDecodeError | c # s2 \<Rightarrow>
       if c = 93 then Inr ([v], s2)
       else if c = 44 then bind_r (json_elems p n (skip_ws s2)) (\<lambda>(vs, q). Inr (v # vs, q))
       else Inl JSONDecodeError) x = Inl e"
    show "P e"
      using x Suc.IH assms(3)
      by (cases x; cases "skip_ws (snd x)") (auto elim!: bind_r_InlE split: if_splits)
  qed (use assms(2) in blast)
qed (use assms(3) in simp)

lemma json_members_error:
  assumes "json_members p n s = Inl e" "\<forall>s e. p s = Inl e \<longrightarrow> P e" "P JSONDecodeError"
  shows "P e"
  using assms(1)
proof (induction n arbitrary: s)
  case (Suc n)
  note prems = Suc.prems [unfolded json_members.simps]
  show ?case
  proof (cases "take 1 s = [34]")
    case True
    show ?thesis
    proof (cases "scan_string (drop 1 s)")
      case (Inl e')
      then show ?thesis using prems True assms(3) by (auto dest: scan_string_error)
    next
      case (Inr x)
      obtain k s1 where x: "x = (k, s1)" by (cases x)
      show ?thesis
      proof (cases "skip_ws s1")
        case Nil
        then show ?thesis using prems True Inr x assms(3) by simp
      next
        case (Cons c s2)
        show ?thesis
        proof (cases "c = 58 \<and> is_ok (p (skip_ws s2))")
          case False
          then show ?thesis using prems True Inr x Cons assms(2,3)
            by (cases "p (skip_ws s2)") (auto split: if_splits)
        next
          case c: True
          then obtain v s3 where v: "p (skip_ws s2) = Inr (v, s3)" by (auto simp: is_ok_iff)
          show ?thesis using prems True Inr x Cons c v Suc.IH assms(3)
            by (cases "skip_ws s3") (auto elim!: bind_r_InlE split: if_splits)
        qed
      qed
    qed
  qed (use prems assms(3) in simp)
qed (use assms(3) in simp)

lemma json_value_error:
  assumes "json_value hook f s = Inl e"
  shows "json_error e \<or> (\<exists>kvs. hook kvs = Inl e)"
  using assms
proof (induction f arbitrary: s e)
  case 0
  then show ?case by (auto dest: json_scalar_error split: if_splits)
next
  case (Suc f)
  let ?P = "\<lambda>e. json_error e \<or> (\<exists>kvs. hook kvs = Inl e)"
  have "json_elems (json_value hook f) n t = Inl e \<Longrightarrow> ?P e" for n t
    by (erule json_elems_error [where P = ?P]) (use Suc.IH in auto)
  moreover have "json_members (json_value hook f) n t = Inl e \<Longrightarrow> ?P e" for n t
    by (erule json_members_error [where P = ?P]) (use Suc.IH in auto)
  ultimately show ?case
    using Suc.prems
    by (auto simp: json_object_def json_array_def Let_def bind_r_eq_Inl dest: json_scalar_error
        split: if_splits)
qed

lemma json_loads_error:
  "json_loads hook f s = Inl e \<Longrightarrow> json_error e \<or> (\<exists>kvs. hook kvs = Inl e)"
  by (auto simp: json_loads_def bind_r_eq_Inl dest: json_value_error split: if_splits)

lemma json_error_value: "json_error e \<Longrightarrow> is_value_error e \<or> e = RecursionError"
  by (auto simp: json_error_def)

lemma json_loads_default_error:
  "json_loads default_hook f s = Inl e \<Longrightarrow> is_value_error e \<or> e = RecursionError"
  by (drule json_loads_error) (auto simp: default_hook_def json_error_value)

end
