(* ===== verification/KilScenario.thy ===== *)
theory KilScenario
  imports KilDomain PyJsonRoundTrip
begin

text \<open>
  \<^verbatim>\<open>src/kil/scenario.py\<close>: the strict loader of replay scenarios, from a file or from an
  object. The standard library's check of an unusual authority (a bracketed address, a
  name that NFKC normalization would change) is the parameter \<open>netloc_ok\<close>; the recursion
  limit of \<^verbatim>\<open>json.loads\<close> is the parameter \<open>limit\<close>. What every loaded scenario satisfies is
  \<open>wf_scenario\<close>.
\<close>

definition SCENARIO_SCHEMA :: string where "SCENARIO_SCHEMA = ''kil.scenario.v1''"

definition SCENARIO_FIELDS :: "string list" where
  "SCENARIO_FIELDS = [''schema_version'', ''scenario_id'', ''primary_source'', ''events'']"

definition EVENT_FIELDS :: "string list" where
  "EVENT_FIELDS = [''event_id'', ''phase'', ''timestamp_s'', ''identity'', ''authority_class'',
     ''summary'', ''source_ref'', ''credential_valid'', ''policy_allows_action'',
     ''control_rationale'', ''state_rationale'', ''depends_on'', ''state'', ''modeled_context'']"

definition STATE_FIELDS :: "string list" where
  "STATE_FIELDS = [''state_id'', ''issued_at_s'', ''not_before_s'', ''expires_at_s'', ''charge'',
     ''threshold'', ''history_count'', ''minimum_history'', ''authentic'', ''veto_clear'',
     ''envelope_allows'', ''decay_rate'', ''maximum_charge'']"

definition MODELED_FIELDS :: "string list" where
  "MODELED_FIELDS = [''divergence'', ''coupled_loss'', ''fresh'', ''rationale'']"

record ScenarioEvent =
  se_event_id :: pstr
  se_phase :: int
  se_request :: ActionRequest
  se_observed_summary :: "pstr LabeledValue"
  se_control_assumption :: "(bool \<times> bool) LabeledValue"
  se_depends_on :: "pstr list"
  se_state_assumption :: "CompositeState LabeledValue"
  se_local_evidence_assumption :: "LocalEvidence LabeledValue"

record Scenario =
  sc_schema_version :: pstr
  sc_scenario_id :: pstr
  sc_primary_source :: pstr
  sc_events :: "ScenarioEvent list"

subsection \<open>Fields\<close>

definition sc_mapping :: "pyval \<Rightarrow> pydict res" where
  "sc_mapping v = (case v of PDict d \<Rightarrow> Inr d | _ \<Rightarrow> Inl (ValueError ''must be an object''))"

definition sc_required :: "pydict \<Rightarrow> string \<Rightarrow> pyval res" where
  "sc_required d key = (case dict_get d key of
     None \<Rightarrow> Inl (ValueError (''missing required field: '' @ key)) | Some v \<Rightarrow> Inr v)"

definition sc_expect_keys :: "pydict \<Rightarrow> string list \<Rightarrow> unit res" where
  "sc_expect_keys d allowed =
     (if list_ex (\<lambda>kv. \<not> is_str (fst kv)) d then Inl (ValueError ''field names must be strings'')
      else if has_unknown d allowed then Inl (ValueError ''unknown fields'')
      else Inr ())"

definition sc_string :: "pydict \<Rightarrow> string \<Rightarrow> pstr res" where
  "sc_string d key =
     bind_r (sc_required d key) (\<lambda>v.
     bind_r (require_identifier key v) (\<lambda>s.
     case utf8_encode s of
       Inl _ \<Rightarrow> Inl (ValueError (key @ '' must contain valid UTF-8 text'')) | Inr _ \<Rightarrow> Inr s))"

definition sc_integer :: "pydict \<Rightarrow> string \<Rightarrow> int \<Rightarrow> int res" where
  "sc_integer d key minimum =
     bind_r (sc_required d key) (\<lambda>v.
     bind_r (require_integer key v) (\<lambda>n.
     if n < minimum then Inl (ValueError (key @ '' is below its minimum'')) else Inr n))"

definition sc_boolean :: "pydict \<Rightarrow> string \<Rightarrow> bool res" where
  "sc_boolean d key = bind_r (sc_required d key) (require_boolean key)"

text \<open>\<^verbatim>\<open>DECIMAL_PATTERN.fullmatch\<close> followed by \<^verbatim>\<open>Decimal(value)\<close>.\<close>

definition parse_decimal :: "pstr \<Rightarrow> decimal option" where
  "parse_decimal s =
     (let neg = (take 1 s = [45]); t = (if neg then drop 1 s else s);
          ip = takeWhile is_digit t; rest = drop (length ip) t
      in if ip = [] then None
         else if rest = [] then Some (Fin neg (digits_value ip) 0)
         else if take 1 rest = [46] \<and> drop 1 rest \<noteq> [] \<and> list_all is_digit (drop 1 rest)
         then Some (Fin neg (digits_value (ip @ drop 1 rest)) (- int (length rest - 1)))
         else None)"

definition sc_decimal :: "pydict \<Rightarrow> string \<Rightarrow> decimal res" where
  "sc_decimal d key =
     bind_r (sc_required d key) (\<lambda>v.
     case v of
       PStr s \<Rightarrow>
         (case parse_decimal s of
            None \<Rightarrow> Inl (ValueError (key @ '' must be a decimal string''))
          | Some x \<Rightarrow> if is_finite x then Inr x else Inl (ValueError (key @ '' must be finite'')))
     | _ \<Rightarrow> Inl (ValueError (key @ '' must be a decimal string'')))"

text \<open>The scheme and the authority \<^verbatim>\<open>urllib.parse.urlsplit\<close> returns.\<close>

definition is_scheme_char :: "nat \<Rightarrow> bool" where
  "is_scheme_char c \<longleftrightarrow> is_alnum c \<or> c = 43 \<or> c = 45 \<or> c = 46"

definition urlsplit :: "(pstr \<Rightarrow> bool) \<Rightarrow> pstr \<Rightarrow> (pstr \<times> pstr) res" where
  "urlsplit netloc_ok value =
     (let url = filter (\<lambda>c. c \<noteq> 9 \<and> c \<noteq> 13 \<and> c \<noteq> 10) (dropWhile (\<lambda>c. c \<le> 32) value);
          pre = takeWhile (\<lambda>c. c \<noteq> 58) url;
          has_scheme = (length pre < length url \<and> pre \<noteq> [] \<and> (is_upper (hd pre) \<or> is_lower (hd pre))
            \<and> list_all is_scheme_char pre);
          scheme = (if has_scheme then lower pre else []);
          rest = (if has_scheme then drop (length pre + 1) url else url)
      in if take 2 rest = [47, 47] then
           (let netloc = takeWhile (\<lambda>c. c \<noteq> 47 \<and> c \<noteq> 63 \<and> c \<noteq> 35) (drop 2 rest)
            in if (91 \<in> set netloc) \<noteq> (93 \<in> set netloc) then Inl (ValueError ''Invalid IPv6 URL'')
               else if (91 \<in> set netloc \<or> \<not> list_all (\<lambda>c. c < 128) netloc) \<and> \<not> netloc_ok netloc
               then Inl (ValueError ''invalid netloc'')
               else Inr (scheme, netloc))
         else Inr (scheme, []))"

definition sc_uri :: "(pstr \<Rightarrow> bool) \<Rightarrow> pydict \<Rightarrow> string \<Rightarrow> pstr res" where
  "sc_uri netloc_ok d key =
     bind_r (sc_string d key) (\<lambda>v.
     bind_r (urlsplit netloc_ok v) (\<lambda>(scheme, netloc).
     if scheme \<notin> {u ''http'', u ''https''} \<or> netloc = []
     then Inl (ValueError (key @ '' must be an absolute HTTP(S) URI'')) else Inr v))"

fun str_of :: "pyval \<Rightarrow> pstr" where
  "str_of (PStr s) = s"
| "str_of _ = []"

definition sc_dependencies :: "pydict \<Rightarrow> pstr set \<Rightarrow> pstr list res" where
  "sc_dependencies item seen =
     bind_r (sc_required item ''depends_on'') (\<lambda>raw.
     case raw of
       PList vs \<Rightarrow>
         if list_ex (\<lambda>v. \<not> is_str v \<or> \<not> nonblank (str_of v)) vs
         then Inl (ValueError ''depends_on entries must be nonblank strings'')
         else if \<not> distinct vs then Inl (ValueError ''depends_on entries must be unique'')
         else if list_ex (\<lambda>v. str_of v \<notin> seen) vs
         then Inl (ValueError ''event dependencies must reference earlier events'')
         else Inr (map str_of vs)
     | _ \<Rightarrow> Inl (ValueError ''depends_on must be an array''))"

subsection \<open>Events\<close>

definition load_state :: "pydict \<Rightarrow> pstr \<Rightarrow> pstr \<Rightarrow> CompositeState res" where
  "load_state raw identity authority_class =
     bind_r (sc_string raw ''state_id'') (\<lambda>state_id.
     bind_r (sc_integer raw ''issued_at_s'' 0) (\<lambda>issued_at_s.
     bind_r (sc_integer raw ''not_before_s'' 0) (\<lambda>not_before_s.
     bind_r (sc_integer raw ''expires_at_s'' 1) (\<lambda>expires_at_s.
     bind_r (sc_decimal raw ''charge'') (\<lambda>charge.
     bind_r (sc_decimal raw ''threshold'') (\<lambda>threshold.
     bind_r (sc_integer raw ''history_count'' 0) (\<lambda>history_count.
     bind_r (sc_integer raw ''minimum_history'' 0) (\<lambda>minimum_history.
     bind_r (sc_boolean raw ''authentic'') (\<lambda>authentic.
     bind_r (sc_boolean raw ''veto_clear'') (\<lambda>veto_clear.
     bind_r (sc_boolean raw ''envelope_allows'') (\<lambda>envelope_allows.
     bind_r (sc_decimal raw ''decay_rate'') (\<lambda>decay_rate.
     bind_r (sc_decimal raw ''maximum_charge'') (\<lambda>maximum_charge.
     make_CompositeState (PStr state_id) (PStr identity) (PStr authority_class) (PInt issued_at_s)
       (PInt not_before_s) (PInt expires_at_s) (PDec charge) (PDec threshold) (PInt history_count)
       (PInt minimum_history) (PBool authentic) (PBool veto_clear) (PBool envelope_allows)
       (PDec decay_rate) (PDec maximum_charge))))))))))))))"

definition load_evidence :: "pydict \<Rightarrow> LocalEvidence res" where
  "load_evidence modeled =
     bind_r (sc_decimal modeled ''divergence'') (\<lambda>divergence.
     bind_r (sc_decimal modeled ''coupled_loss'') (\<lambda>coupled_loss.
     bind_r (sc_boolean modeled ''fresh'') (\<lambda>fresh.
     make_LocalEvidence (PDec divergence) (PDec coupled_loss) (PBool fresh))))"

definition load_event :: "pstr \<Rightarrow> pstr set \<Rightarrow> pyval \<Rightarrow> ScenarioEvent res" where
  "load_event primary_source seen raw_event =
     bind_r (sc_mapping raw_event) (\<lambda>item.
     bind_r (sc_expect_keys item EVENT_FIELDS) (\<lambda>_.
     bind_r (sc_string item ''event_id'') (\<lambda>event_id.
     bind_r (ensure (event_id \<notin> seen) (ValueError ''duplicate event_id'')) (\<lambda>_.
     bind_r (sc_integer item ''phase'' 1) (\<lambda>phase.
     bind_r (sc_integer item ''timestamp_s'' 0) (\<lambda>timestamp.
     bind_r (sc_string item ''identity'') (\<lambda>identity.
     bind_r (sc_string item ''authority_class'') (\<lambda>authority_class.
     bind_r (sc_string item ''summary'') (\<lambda>summary.
     bind_r (sc_string item ''source_ref'') (\<lambda>source_ref.
     bind_r (sc_boolean item ''credential_valid'') (\<lambda>credential_valid.
     bind_r (sc_boolean item ''policy_allows_action'') (\<lambda>policy_allows_action.
     bind_r (sc_string item ''control_rationale'') (\<lambda>control_rationale.
     bind_r (sc_string item ''state_rationale'') (\<lambda>state_rationale.
     bind_r (sc_dependencies item seen) (\<lambda>dependencies.
     bind_r (bind_r (sc_required item ''state'') sc_mapping) (\<lambda>state_raw.
     bind_r (bind_r (sc_required item ''modeled_context'') sc_mapping) (\<lambda>modeled.
     bind_r (sc_expect_keys state_raw STATE_FIELDS) (\<lambda>_.
     bind_r (sc_expect_keys modeled MODELED_FIELDS) (\<lambda>_.
     bind_r (sc_string modeled ''rationale'') (\<lambda>local_rationale.
     bind_r (load_state state_raw identity authority_class) (\<lambda>state.
     bind_r (load_evidence modeled) (\<lambda>local_evidence.
     bind_r (make_ActionRequest (PStr event_id) (PStr identity) (PStr authority_class)
       (PInt timestamp)) (\<lambda>request.
     bind_r (make_LabeledValue summary OBSERVED (PStr (primary_source @ [35] @ source_ref))
       PNone PNone) (\<lambda>observed_summary.
     bind_r (make_LabeledValue (credential_valid, policy_allows_action) MODELED PNone
       (PStr control_rationale) PNone) (\<lambda>control_assumption.
     bind_r (make_LabeledValue state MODELED PNone (PStr state_rationale) PNone)
       (\<lambda>state_assumption.
     bind_r (make_LabeledValue local_evidence MODELED PNone (PStr local_rationale) PNone)
       (\<lambda>local_assumption.
     Inr \<lparr>se_event_id = event_id, se_phase = phase, se_request = request,
       se_observed_summary = observed_summary, se_control_assumption = control_assumption,
       se_depends_on = dependencies, se_state_assumption = state_assumption,
       se_local_evidence_assumption = local_assumption\<rparr>)))))))))))))))))))))))))))"

fun load_events :: "pstr \<Rightarrow> pstr set \<Rightarrow> pyval list \<Rightarrow> ScenarioEvent list res" where
  "load_events primary_source seen [] = Inr []"
| "load_events primary_source seen (raw # rest) =
     bind_r (load_event primary_source seen raw) (\<lambda>event.
     bind_r (load_events primary_source (insert (se_event_id event) seen) rest) (\<lambda>events.
     Inr (event # events)))"

text \<open>A source is a file, as the outcome of reading its bytes, or a value.\<close>

datatype ScenarioSource = SourcePath "bytes res" | SourceValue pyval

text \<open>\<^verbatim>\<open>read_text\<close> translates line ends.\<close>

fun universal_newlines :: "pstr \<Rightarrow> pstr" where
  "universal_newlines [] = []"
| "universal_newlines (c # r) =
     (if c = 13 then 10 # universal_newlines (if take 1 r = [10] then drop 1 r else r)
      else c # universal_newlines r)"

definition load_scenario :: "(pstr \<Rightarrow> bool) \<Rightarrow> nat \<Rightarrow> ScenarioSource \<Rightarrow> Scenario res" where
  "load_scenario netloc_ok limit source =
     bind_r (case source of
         SourcePath content \<Rightarrow>
           bind_r content (\<lambda>bs. bind_r (utf8_decode bs) (\<lambda>text.
             json_loads default_hook limit (universal_newlines text)))
       | SourceValue v \<Rightarrow>
           (case v of PDict d \<Rightarrow> Inr v
            | _ \<Rightarrow> Inl (ValueError ''scenario source must be a Path or object''))) (\<lambda>raw_value.
     bind_r (sc_mapping raw_value) (\<lambda>raw.
     bind_r (sc_expect_keys raw SCENARIO_FIELDS) (\<lambda>_.
     bind_r (sc_string raw ''schema_version'') (\<lambda>version.
     bind_r (ensure (version = u SCENARIO_SCHEMA) (ValueError ''unsupported schema_version'')) (\<lambda>_.
     bind_r (sc_string raw ''scenario_id'') (\<lambda>scenario_id.
     bind_r (sc_uri netloc_ok raw ''primary_source'') (\<lambda>primary_source.
     bind_r (sc_required raw ''events'') (\<lambda>event_values.
     case event_values of
       PList vs \<Rightarrow>
         if vs = [] then Inl (ValueError ''events must be a nonempty array'')
         else bind_r (load_events primary_source {} vs) (\<lambda>events.
           Inr \<lparr>sc_schema_version = u SCENARIO_SCHEMA, sc_scenario_id = scenario_id,
                sc_primary_source = primary_source, sc_events = events\<rparr>)
     | _ \<Rightarrow> Inl (ValueError ''events must be a nonempty array'')))))))))"

subsection \<open>What a loaded scenario satisfies\<close>

definition wf_event :: "ScenarioEvent \<Rightarrow> bool" where
  "wf_event e \<longleftrightarrow>
     nonblank (se_event_id e) \<and> 1 \<le> se_phase e
     \<and> wf_ActionRequest (se_request e) \<and> ar_request_id (se_request e) = se_event_id e
     \<and> wf_CompositeState (lv_value (se_state_assumption e))
     \<and> ar_identity (se_request e) = cs_identity (lv_value (se_state_assumption e))
     \<and> ar_authority_class (se_request e) = cs_authority_class (lv_value (se_state_assumption e))
     \<and> wf_LocalEvidence (lv_value (se_local_evidence_assumption e))
     \<and> lv_evidence_class (se_observed_summary e) = OBSERVED
     \<and> lv_evidence_class (se_control_assumption e) = MODELED
     \<and> lv_evidence_class (se_state_assumption e) = MODELED
     \<and> lv_evidence_class (se_local_evidence_assumption e) = MODELED
     \<and> distinct (se_depends_on e)"

fun wf_events :: "pstr set \<Rightarrow> ScenarioEvent list \<Rightarrow> bool" where
  "wf_events seen [] \<longleftrightarrow> True"
| "wf_events seen (e # es) \<longleftrightarrow> wf_event e \<and> se_event_id e \<notin> seen \<and> set (se_depends_on e) \<subseteq> seen
     \<and> wf_events (insert (se_event_id e) seen) es"

definition wf_scenario :: "Scenario \<Rightarrow> bool" where
  "wf_scenario s \<longleftrightarrow> nonblank (sc_scenario_id s) \<and> sc_events s \<noteq> [] \<and> wf_events {} (sc_events s)"

lemma is_str_iff: "is_str v \<longleftrightarrow> v = PStr (str_of v)"
  by (cases v) auto

lemma sc_integer_Inr: "sc_integer d k m = Inr n \<Longrightarrow> m \<le> n"
  by (auto simp: sc_integer_def split: if_splits)

lemma load_evidence_Inr: "load_evidence d = Inr e \<Longrightarrow> wf_LocalEvidence e"
  by (auto simp: load_evidence_def make_LocalEvidence_Inr)

lemma make_LabeledValue_Inr_fields:
  "make_LabeledValue v c src rat run = Inr l \<Longrightarrow> lv_value l = v \<and> lv_evidence_class l = c"
  by (auto simp: make_LabeledValue_def split: if_splits)

lemma sc_string_Inr: "sc_string d k = Inr s \<Longrightarrow> nonblank s"
  by (auto simp: sc_string_def kil_defs split: sum.splits)

lemma sc_dependencies_Inr:
  "sc_dependencies item seen = Inr ds \<Longrightarrow> distinct ds \<and> set ds \<subseteq> seen"
proof -
  assume "sc_dependencies item seen = Inr ds"
  then obtain vs where vs: "ds = map str_of vs" "distinct vs"
    "list_all (\<lambda>v. is_str v \<and> nonblank (str_of v)) vs" "list_all (\<lambda>v. str_of v \<in> seen) vs"
    by (auto simp: sc_dependencies_def list_ex_iff list_all_iff split: pyval.splits if_splits)
  have "inj_on str_of (set vs)"
  proof (rule inj_onI)
    fix a b assume "a \<in> set vs" "b \<in> set vs" "str_of a = str_of b"
    then show "a = b" using vs(3) is_str_iff [of a] is_str_iff [of b] by (auto simp: list_all_iff)
  qed
  with vs show ?thesis by (auto simp: distinct_map list_all_iff)
qed

lemma load_state_Inr:
  "load_state raw i c = Inr s \<Longrightarrow> wf_CompositeState s \<and> cs_identity s = i \<and> cs_authority_class s = c"
proof -
  assume "load_state raw i c = Inr s"
  then obtain a1 a2 a3 a4 a5 a6 a7 a8 a9 a10 a11 a12 a13 where
    m: "make_CompositeState a1 (PStr i) (PStr c) a2 a3 a4 a5 a6 a7 a8 a9 a10 a11 a12 a13 = Inr s"
    by (auto simp: load_state_def)
  then have "cs_identity s = i \<and> cs_authority_class s = c"
    by (auto simp: make_CompositeState_def kil_defs)
  with make_CompositeState_wf [OF m] show ?thesis by simp
qed

lemma load_event_Inr:
  assumes "load_event ps seen raw = Inr e"
  shows "wf_event e \<and> se_event_id e \<notin> seen \<and> set (se_depends_on e) \<subseteq> seen"
  by (insert assms, unfold load_event_def, elim bind_rE,
      (drule sc_string_Inr sc_integer_Inr load_state_Inr load_evidence_Inr sc_dependencies_Inr
        make_LabeledValue_Inr_fields)+,
      simp only: make_ActionRequest_Inr ensure_eq_Inr sum.inject)
    (clarsimp simp: wf_event_def wf_ActionRequest_def)

lemma load_events_wf: "load_events ps seen raws = Inr es \<Longrightarrow> wf_events seen es"
  by (induction raws arbitrary: seen es) (auto dest!: load_event_Inr)

lemma load_events_length: "load_events ps seen raws = Inr es \<Longrightarrow> length es = length raws"
  by (induction raws arbitrary: seen es) auto

lemma load_scenario_cases:
  assumes "load_scenario netloc_ok limit source = Inr s"
  obtains raw vs where "PList vs \<noteq> PList []" "nonblank (sc_scenario_id s)"
    "load_events (sc_primary_source s) {} vs = Inr (sc_events s)"
    "sc_uri netloc_ok raw ''primary_source'' = Inr (sc_primary_source s)"
proof -
  from assms obtain raw ver sid src ev where
    "sc_string raw ''scenario_id'' = Inr sid" "sc_uri netloc_ok raw ''primary_source'' = Inr src"
    and ev: "(case ev of
       PList vs \<Rightarrow>
         if vs = [] then Inl (ValueError ''events must be a nonempty array'')
         else bind_r (load_events src {} vs) (\<lambda>events.
           Inr \<lparr>sc_schema_version = u SCENARIO_SCHEMA, sc_scenario_id = sid,
                sc_primary_source = src, sc_events = events\<rparr>)
     | _ \<Rightarrow> Inl (ValueError ''events must be a nonempty array'')) = Inr s"
    unfolding load_scenario_def by (elim bind_rE)
  with that [of _ raw] show thesis
    by (cases ev) (auto simp: sc_string_Inr split: if_splits)
qed

text \<open>
  Claim C7: what the strict loader accepts is well formed. Every scenario
  \<^verbatim>\<open>load_scenario\<close> returns, from a file or an object, has a nonblank id and at least one
  event; its event ids are nonblank and distinct, every dependency names an earlier event
  and none is listed twice; each request carries its event's id and the identity and class
  of its state; requests, states and evidence pass their own constructors' checks, and the
  evidence classes are the ones the replay requires.
\<close>
theorem load_scenario_wf:
  assumes "load_scenario netloc_ok limit source = Inr s"
  shows "wf_scenario s \<and> sc_schema_version s = u SCENARIO_SCHEMA"
proof -
  obtain raw vs where vs: "PList vs \<noteq> PList []" "nonblank (sc_scenario_id s)"
    "load_events (sc_primary_source s) {} vs = Inr (sc_events s)"
    by (rule load_scenario_cases [OF assms]) blast
  have "sc_schema_version s = u SCENARIO_SCHEMA"
    using assms unfolding load_scenario_def
    by (elim bind_rE) (auto split: pyval.splits if_splits)
  then show ?thesis
    using vs load_events_wf [OF vs(3)] load_events_length [OF vs(3)]
    by (cases vs) (auto simp: wf_scenario_def)
qed

definition sample_event_value :: "string \<Rightarrow> string list \<Rightarrow> pyval" where
  "sample_event_value eid deps = PDict
     [(PStr (u ''event_id''), PStr (u eid)), (PStr (u ''phase''), PInt 1),
      (PStr (u ''timestamp_s''), PInt 120), (PStr (u ''identity''), PStr (u ''agent'')),
      (PStr (u ''authority_class''), PStr (u ''operate'')), (PStr (u ''summary''), PStr (u ''s'')),
      (PStr (u ''source_ref''), PStr (u ''p.1'')), (PStr (u ''credential_valid''), PBool True),
      (PStr (u ''policy_allows_action''), PBool True), (PStr (u ''control_rationale''), PStr (u ''c'')),
      (PStr (u ''state_rationale''), PStr (u ''r'')),
      (PStr (u ''depends_on''), PList (map (PStr \<circ> u) deps)),
      (PStr (u ''state''), PDict
        [(PStr (u ''state_id''), PStr (u ''s1'')), (PStr (u ''issued_at_s''), PInt 100),
         (PStr (u ''not_before_s''), PInt 110), (PStr (u ''expires_at_s''), PInt 200),
         (PStr (u ''charge''), PStr (u ''80'')), (PStr (u ''threshold''), PStr (u ''50.5'')),
         (PStr (u ''history_count''), PInt 3), (PStr (u ''minimum_history''), PInt 3),
         (PStr (u ''authentic''), PBool True), (PStr (u ''veto_clear''), PBool True),
         (PStr (u ''envelope_allows''), PBool True), (PStr (u ''decay_rate''), PStr (u ''0'')),
         (PStr (u ''maximum_charge''), PStr (u ''100''))]),
      (PStr (u ''modeled_context''), PDict
        [(PStr (u ''divergence''), PStr (u ''0.5'')), (PStr (u ''coupled_loss''), PStr (u ''0'')),
         (PStr (u ''fresh''), PBool True), (PStr (u ''rationale''), PStr (u ''m''))])]"

definition sample_scenario_value :: pyval where
  "sample_scenario_value = PDict
     [(PStr (u ''schema_version''), PStr (u SCENARIO_SCHEMA)), (PStr (u ''scenario_id''), PStr (u ''demo'')),
      (PStr (u ''primary_source''), PStr (u ''https://example.org/report'')),
      (PStr (u ''events''), PList [sample_event_value ''e1'' [], sample_event_value ''e2'' [''e1'']])]"

lemma sample_scenario_loads:
  "is_ok (load_scenario (\<lambda>_. False) 1000 (SourceValue sample_scenario_value))"
  by code_simp

theorem load_scenario_wf_witness:
  "\<exists>s. load_scenario (\<lambda>_. False) 1000 (SourceValue sample_scenario_value) = Inr s \<and> wf_scenario s"
  using sample_scenario_loads load_scenario_wf by (auto simp: is_ok_iff)

subsection \<open>What the loader raises\<close>

lemma sc_field_raises [raises]:
  "only_raises is_value_error (sc_mapping v)"
  "only_raises is_value_error (sc_required d k)"
  "only_raises is_value_error (sc_expect_keys d ks)"
  by (auto simp: sc_mapping_def sc_required_def sc_expect_keys_def only_raises_def
      split: pyval.splits option.splits if_splits)

lemma sc_value_raises [raises]:
  "only_raises is_value_error (sc_string d k)"
  "only_raises is_value_error (sc_integer d k m)"
  "only_raises is_value_error (sc_boolean d k)"
  "only_raises is_value_error (sc_decimal d k)"
  "only_raises is_value_error (sc_dependencies d seen)"
  unfolding sc_string_def sc_integer_def sc_boolean_def sc_decimal_def sc_dependencies_def
  by (rule raises | simp split: sum.splits pyval.splits option.splits)+

lemma sc_uri_raises [raises]: "only_raises is_value_error (sc_uri netloc_ok d k)"
  unfolding sc_uri_def
  by (rule raises | simp add: urlsplit_def Let_def split: prod.splits)+

lemma load_parts_raises [raises]:
  "only_raises is_value_error (load_state raw i c)"
  "only_raises is_value_error (load_evidence m)"
  unfolding load_state_def load_evidence_def by (rule raises | simp)+

lemma load_event_raises [raises]: "only_raises is_value_error (load_event ps seen raw)"
  unfolding load_event_def by (rule raises | simp)+

lemma load_events_raises [raises]: "only_raises is_value_error (load_events ps seen raws)"
  by (induction raws arbitrary: seen) (auto intro!: raises)

text \<open>
  The loader fails with one kind of error. On an object it raises nothing but a
  ValueError or one of its subclasses; on a file, apart from the error of reading it, only
  those and the RecursionError of a text nested too deep.
\<close>
theorem load_scenario_raises:
  assumes "load_scenario netloc_ok limit source = Inl e"
  shows "is_value_error e \<or> (\<exists>content. source = SourcePath content \<and> (e = RecursionError \<or> content = Inl e))"
proof -
  let ?P = "\<lambda>e. is_value_error e \<or> (\<exists>content. source = SourcePath content \<and> (e = RecursionError \<or> content = Inl e))"
  have weak: "only_raises is_value_error m \<Longrightarrow> only_raises ?P m" for m :: "'b res"
    by (simp add: only_raises_def)
  have read: "only_raises ?P (case source of
         SourcePath content \<Rightarrow>
           bind_r content (\<lambda>bs. bind_r (utf8_decode bs) (\<lambda>text.
             json_loads default_hook limit (universal_newlines text)))
       | SourceValue v \<Rightarrow>
           (case v of PDict d \<Rightarrow> Inr v
            | _ \<Rightarrow> Inl (ValueError ''scenario source must be a Path or object'')))"
  proof (cases source)
    case (SourcePath content)
    then show ?thesis
      by (auto simp: only_raises_def bind_r_eq_Inl utf8_decode_def dest: json_loads_default_error
          split: option.splits)
  qed (auto simp: only_raises_def split: pyval.splits)
  have "only_raises ?P (load_scenario netloc_ok limit source)"
    unfolding load_scenario_def
    by (rule only_raises_bind [OF read], rule weak)
      (rule raises | simp split: pyval.splits | intro impI allI conjI)+
  then show ?thesis using assms by (rule only_raisesD)
qed

theorem load_scenario_raises_witness:
  "\<exists>e. load_scenario (\<lambda>_. False) 1000 (SourceValue (PDict [])) = Inl e \<and> is_value_error e"
proof -
  have "\<not> is_ok (load_scenario (\<lambda>_. False) 1000 (SourceValue (PDict [])))" by code_simp
  then obtain e where e: "load_scenario (\<lambda>_. False) 1000 (SourceValue (PDict [])) = Inl e"
    by (cases "load_scenario (\<lambda>_. False) 1000 (SourceValue (PDict []))") auto
  with load_scenario_raises [OF e] show ?thesis by simp
qed

end
