(* ===== verification/KilDecay.thy ===== *)
theory KilDecay
  imports KilDomain
begin

text \<open>
  \<^verbatim>\<open>src/kil/decay.py\<close>: the trust arithmetic under the fixed decimal context. Each function
  checks its arguments in the code's order and then computes; an operation that traps
  gives the decimal signal as its exception. A mapping of decimals is an association list
  with distinct keys.
\<close>

definition finite_decimal :: "string \<Rightarrow> decimal \<Rightarrow> unit res" where
  "finite_decimal name d = ensure (is_finite d) (ValueError (name @ '' must be a finite Decimal''))"

subsection \<open>Distance and squash\<close>

definition distance_step ::
    "(pstr \<times> decimal) list \<Rightarrow> (pstr \<times> decimal) list \<Rightarrow> (pstr \<times> decimal) list \<Rightarrow>
     (pstr \<times> decimal) list \<Rightarrow> decimal \<Rightarrow> pstr \<Rightarrow> decimal res" where
  "distance_step features means scales weights squared_distance key =
     (let feature = the (map_of features key); mean = the (map_of means key);
          scale = the (map_of scales key); weight = the (map_of weights key) in
      bind_r (finite_decimal ''features'' feature) (\<lambda>_.
      bind_r (finite_decimal ''means'' mean) (\<lambda>_.
      bind_r (finite_decimal ''scales'' scale) (\<lambda>_.
      bind_r (finite_decimal ''weights'' weight) (\<lambda>_.
      bind_r (ensure (\<not> d_le scale dec_zero) (ValueError ''scale must be greater than zero'')) (\<lambda>_.
      bind_r (ensure (\<not> d_less weight dec_zero) (ValueError ''weight must be nonnegative'')) (\<lambda>_.
      bind_r (d_sub feature mean) (\<lambda>deviation.
      bind_r (d_div deviation scale) (\<lambda>standardized.
      bind_r (d_mul weight standardized) (\<lambda>weighted.
      bind_r (d_mul weighted standardized) (\<lambda>term.
      d_add squared_distance term)))))))))))"

definition weighted_diagonal_distance ::
    "(pstr \<times> decimal) list \<Rightarrow> (pstr \<times> decimal) list \<Rightarrow> (pstr \<times> decimal) list \<Rightarrow>
     (pstr \<times> decimal) list \<Rightarrow> decimal res" where
  "weighted_diagonal_distance features means scales weights =
     (let keys = set (map fst features) in
      if set (map fst means) \<noteq> keys \<or> set (map fst scales) \<noteq> keys \<or> set (map fst weights) \<noteq> keys
      then Inl (ValueError ''feature, mean, scale, and weight key sets must match'')
      else bind_r (fold_r (distance_step features means scales weights) dec_zero
                     (sort (map fst features))) d_sqrt)"

definition logistic_squash :: "decimal \<Rightarrow> decimal \<Rightarrow> decimal res" where
  "logistic_squash raw k =
     bind_r (finite_decimal ''raw'' raw) (\<lambda>_.
     bind_r (finite_decimal ''k'' k) (\<lambda>_.
     bind_r (ensure (\<not> d_less raw dec_zero) (ValueError ''raw must be nonnegative'')) (\<lambda>_.
     bind_r (ensure (\<not> d_le k dec_zero) (ValueError ''k must be greater than zero'')) (\<lambda>_.
     bind_r (d_neg k) (\<lambda>nk.
     bind_r (d_mul nk raw) (\<lambda>x.
     bind_r (d_exp x) (\<lambda>e.
     bind_r (d_add dec_one e) (\<lambda>den.
     bind_r (d_div dec_two den) (\<lambda>q.
     d_sub q dec_one)))))))))"

subsection \<open>Passive decay and local losses\<close>

definition passive_decay :: "decimal \<Rightarrow> decimal \<Rightarrow> decimal \<Rightarrow> decimal res" where
  "passive_decay charge decay_rate elapsed =
     bind_r (finite_decimal ''charge'' charge) (\<lambda>_.
     bind_r (finite_decimal ''decay_rate'' decay_rate) (\<lambda>_.
     bind_r (finite_decimal ''elapsed'' elapsed) (\<lambda>_.
     bind_r (nonnegative ''charge'' charge) (\<lambda>_.
     bind_r (nonnegative ''decay_rate'' decay_rate) (\<lambda>_.
     bind_r (nonnegative ''elapsed'' elapsed) (\<lambda>_.
     bind_r (d_neg decay_rate) (\<lambda>nd.
     bind_r (d_mul nd elapsed) (\<lambda>x.
     bind_r (d_exp x) (\<lambda>factor.
     bind_r (d_mul charge factor) (\<lambda>computed.
     Inr (py_min charge (py_max dec_zero computed))))))))))))"

definition superlinear_loss :: "decimal \<Rightarrow> decimal \<Rightarrow> decimal \<Rightarrow> int \<Rightarrow> decimal res" where
  "superlinear_loss divergence threshold loss_rate exponent =
     bind_r (finite_decimal ''divergence'' divergence) (\<lambda>_.
     bind_r (finite_decimal ''threshold'' threshold) (\<lambda>_.
     bind_r (finite_decimal ''loss_rate'' loss_rate) (\<lambda>_.
     bind_r (ensure (\<not> (d_less divergence dec_zero \<or> d_less dec_one divergence))
               (ValueError ''divergence must be between zero and one'')) (\<lambda>_.
     bind_r (ensure (\<not> d_le threshold dec_zero)
               (ValueError ''threshold must be greater than zero'')) (\<lambda>_.
     bind_r (nonnegative ''loss_rate'' loss_rate) (\<lambda>_.
     bind_r (ensure (\<not> exponent \<le> 1)
               (ValueError ''exponent must be an integer greater than one'')) (\<lambda>_.
     if d_le divergence threshold then Inr dec_zero
     else bind_r (d_div divergence threshold) (\<lambda>ratio.
          bind_r (d_pow ratio exponent) (\<lambda>p. d_mul loss_rate p)))))))))"

definition local_effective_charge :: "decimal \<Rightarrow> decimal \<Rightarrow> decimal \<Rightarrow> decimal \<Rightarrow> decimal res" where
  "local_effective_charge decayed_charge loss coupled_loss maximum =
     bind_r (finite_decimal ''decayed_charge'' decayed_charge) (\<lambda>_.
     bind_r (finite_decimal ''loss'' loss) (\<lambda>_.
     bind_r (finite_decimal ''coupled_loss'' coupled_loss) (\<lambda>_.
     bind_r (finite_decimal ''maximum'' maximum) (\<lambda>_.
     bind_r (nonnegative ''decayed_charge'' decayed_charge) (\<lambda>_.
     bind_r (nonnegative ''loss'' loss) (\<lambda>_.
     bind_r (nonnegative ''coupled_loss'' coupled_loss) (\<lambda>_.
     bind_r (nonnegative ''maximum'' maximum) (\<lambda>_.
     bind_r (d_sub decayed_charge loss) (\<lambda>r1.
     bind_r (d_sub r1 coupled_loss) (\<lambda>reduced.
     Inr (py_min (py_min maximum decayed_charge) (py_max dec_zero reduced))))))))))))"

subsection \<open>Shared facts\<close>

lemma finite_decimal_Inr [simp]: "finite_decimal n d = Inr x \<longleftrightarrow> is_finite d"
  by (simp add: finite_decimal_def)

lemma nonnegative_Inr [simp]: "nonnegative n d = Inr x \<longleftrightarrow> \<not> d_less d dec_zero"
  by (simp add: nonnegative_def)

lemma finite_decimal_ok: "is_finite d \<Longrightarrow> finite_decimal n d = Inr ()"
  by simp

lemma nonnegative_ok: "nonneg_dec d \<Longrightarrow> nonnegative n d = Inr ()"
  by (simp add: nonneg_dec_def)

lemma nonneg_dec_finite [simp]: "nonneg_dec d \<Longrightarrow> is_finite d"
  by (simp add: nonneg_dec_def)

lemma nonneg_dec_zero [simp]: "nonneg_dec dec_zero"
  by (simp add: nonneg_dec_dval)

lemma nonneg_dec_not_less: "nonneg_dec d \<Longrightarrow> \<not> d_less d dec_zero"
  by (simp add: nonneg_dec_def)

lemma nonneg_decI: "is_finite d \<Longrightarrow> 0 \<le> dval d \<Longrightarrow> nonneg_dec d"
  by (simp add: nonneg_dec_dval)

lemma d_le_trans: "is_finite a \<Longrightarrow> is_finite b \<Longrightarrow> is_finite c \<Longrightarrow> d_le a b \<Longrightarrow> d_le b c \<Longrightarrow> d_le a c"
  by (simp add: d_le_iff)

lemma d_le_refl [simp]: "is_finite a \<Longrightarrow> d_le a a"
  by (simp add: d_le_iff)

text \<open>What a passive decay returns is clamped between zero and the charge it started from.\<close>

lemma passive_decay_bounds:
  assumes "passive_decay charge rate elapsed = Inr d"
  shows "nonneg_dec d" "d_le d charge"
proof -
  from assms obtain nd x f comp where
    c: "is_finite charge" "\<not> d_less charge dec_zero" and
    comp: "d_mul charge f = Inr comp" and d: "d = py_min charge (py_max dec_zero comp)"
    by (auto simp: passive_decay_def)
  have fin: "is_finite comp" using comp by (rule d_mul_finite)
  have "0 \<le> dval charge" using c by (simp add: d_less_iff)
  then show "nonneg_dec d" "d_le d charge"
    using c fin by (simp_all add: d nonneg_dec_dval d_le_iff dval_py_min dval_py_max)
qed

lemma passive_decay_error:
  assumes "nonneg_dec charge" "nonneg_dec rate" "nonneg_dec elapsed"
    and "passive_decay charge rate elapsed = Inl e"
  shows "is_arithmetic_trap e"
  using assms(4)
  by (auto simp: passive_decay_def finite_decimal_ok nonnegative_ok assms(1-3) bind_r_eq_Inl
      nonneg_dec_not_less dest: d_ops_error d_exp_error)

lemma superlinear_loss_nonneg:
  assumes "superlinear_loss dv th lr ex = Inr l"
  shows "nonneg_dec l"
proof (cases "d_le dv th")
  case True
  with assms show ?thesis by (auto simp: superlinear_loss_def)
next
  case False
  with assms obtain ratio p where
    args: "is_finite dv" "is_finite th" "is_finite lr" "\<not> d_less lr dec_zero" "\<not> d_less dv dec_zero"
      "\<not> d_le th dec_zero" "\<not> ex \<le> 1" and
    r: "d_div dv th = Inr ratio" "d_pow ratio ex = Inr p" "d_mul lr p = Inr l"
    by (auto simp: superlinear_loss_def)
  have "0 \<le> dval dv" "0 < dval th" using args by (simp_all add: d_less_iff d_le_iff)
  then have "0 \<le> dval ratio" using r(1) by (rule d_div_nonneg)
  then have "0 \<le> dval p" using d_pow_nonneg [of ratio ex p] r(2) args(7) by simp
  moreover have "0 \<le> dval lr" using args by (simp add: d_less_iff)
  ultimately have "0 \<le> dval l" using d_mul_nonneg [of lr p l] r(3) by simp
  then show ?thesis using d_mul_finite [OF r(3)] by (simp add: nonneg_decI)
qed

lemma superlinear_loss_error:
  assumes "nonneg_dec dv" "d_le dv dec_one" "is_finite th" "\<not> d_le th dec_zero" "nonneg_dec lr"
    "1 < ex" and "superlinear_loss dv th lr ex = Inl e"
  shows "is_arithmetic_trap e"
proof -
  have "\<not> d_less dec_one dv" "\<not> ex \<le> 1" using assms(2,6) by (simp_all add: d_le_def)
  then show ?thesis
    using assms(7)
    by (auto simp: superlinear_loss_def finite_decimal_ok nonnegative_ok assms(1-5) bind_r_eq_Inl
        nonneg_dec_not_less dest: d_ops_error split: if_splits)
qed

lemma local_effective_charge_bounds:
  assumes "local_effective_charge dc l cl mx = Inr d"
  shows "nonneg_dec d" "d_le d dc" "d_le d mx"
proof -
  from assms obtain r1 red where
    fin: "is_finite dc" "is_finite mx" and nn: "\<not> d_less dc dec_zero" "\<not> d_less mx dec_zero" and
    red: "d_sub r1 cl = Inr red" and d: "d = py_min (py_min mx dc) (py_max dec_zero red)"
    by (auto simp: local_effective_charge_def)
  have "is_finite red" using red by (rule d_sub_finite)
  then show "nonneg_dec d" "d_le d dc" "d_le d mx"
    using fin nn by (simp_all add: d nonneg_dec_dval d_le_iff d_less_iff dval_py_min dval_py_max
        min.coboundedI1)
qed

lemma local_effective_charge_error:
  assumes "nonneg_dec dc" "nonneg_dec l" "nonneg_dec cl" "nonneg_dec mx"
    and "local_effective_charge dc l cl mx = Inl e"
  shows "is_arithmetic_trap e"
  using assms(5)
  by (auto simp: local_effective_charge_def finite_decimal_ok nonnegative_ok assms(1-4)
      bind_r_eq_Inl nonneg_dec_not_less dest: d_ops_error)

text \<open>An elapsed time of zero, and a decay rate of zero, leave a charge of 28 digits alone.\<close>

lemma d_exp_zero: "is_zero_dec a \<Longrightarrow> d_exp a = Inr dec_one"
  by (cases a) simp_all

end
