(* ===== verification/KilEngine.thy ===== *)
theory KilEngine
  imports KilDecay
begin

text \<open>
  \<^verbatim>\<open>src/kil/engine.py\<close>: the decision engine. \<open>state_reasons\<close> is the sequence of
  checks before the arithmetic, \<open>charge_step\<close> the guarded arithmetic with its
  exception handler, \<open>decide\<close> the whole function. The \<^verbatim>\<open>isinstance\<close> guards at its top are
  discharged by the types of the model.
\<close>

definition state_reasons :: "ActionRequest \<Rightarrow> CompositeState \<Rightarrow> ReasonCode list" where
  "state_reasons request state =
     (if ar_identity request \<noteq> cs_identity state then [IDENTITY_MISMATCH] else []) @
     (if ar_authority_class request \<noteq> cs_authority_class state then [CLASS_MISMATCH] else []) @
     (if \<not> cs_veto_clear state then [VETO] else []) @
     (if \<not> cs_envelope_allows state then [OUTSIDE_ENVELOPE] else []) @
     (if \<not> cs_authentic state then [STATE_UNAUTHENTIC] else []) @
     (if ar_timestamp_s request < cs_not_before_s state then [STATE_NOT_YET_VALID] else []) @
     (if ar_timestamp_s request \<ge> cs_expires_at_s state then [STATE_EXPIRED] else [])"

definition elapsed_of :: "ActionRequest \<Rightarrow> CompositeState \<Rightarrow> decimal" where
  "elapsed_of request state = dec_of_int (max 0 (ar_timestamp_s request - cs_issued_at_s state))"

text \<open>The body of the \<^verbatim>\<open>try\<close>: the decayed charge, the effective one, the reasons it appends.\<close>

definition charge_body ::
    "ActionRequest \<Rightarrow> CompositeState \<Rightarrow> EnforcementMode \<Rightarrow> LocalEvidence option \<Rightarrow>
     ReductionProfile option \<Rightarrow> (decimal \<times> decimal \<times> ReasonCode list) res" where
  "charge_body request state mode local_evidence reduction_profile =
     bind_r (passive_decay (cs_charge state) (cs_decay_rate state) (elapsed_of request state)) (\<lambda>decayed.
     if mode = SIGNED_PLUS_LOCAL_REDUCE then
       (case (local_evidence, reduction_profile) of
          (Some ev, Some prof) \<Rightarrow>
            if \<not> le_fresh ev then Inr (decayed, decayed, [LOCAL_EVIDENCE_STALE])
            else
              bind_r (superlinear_loss (le_divergence ev) (rp_divergence_threshold prof)
                        (rp_loss_rate prof) (rp_exponent prof)) (\<lambda>loss.
              bind_r (local_effective_charge decayed loss (le_coupled_loss ev)
                        (cs_maximum_charge state)) (\<lambda>effective.
              Inr (decayed, effective, [])))
        | _ \<Rightarrow> Inr (decayed, decayed, [LOCAL_EVIDENCE_STALE]))
     else Inr (decayed, decayed, []))"

definition charge_step ::
    "ActionRequest \<Rightarrow> CompositeState \<Rightarrow> EnforcementMode \<Rightarrow> LocalEvidence option \<Rightarrow>
     ReductionProfile option \<Rightarrow> (decimal \<times> decimal \<times> ReasonCode list) res" where
  "charge_step request state mode local_evidence reduction_profile =
     try_r (charge_body request state mode local_evidence reduction_profile)
       (\<lambda>e. if is_arithmetic_trap e then Inr (dec_zero, dec_zero, [ARITHMETIC_FAILURE]) else Inl e)"

definition charge_reasons :: "CompositeState \<Rightarrow> decimal \<Rightarrow> ReasonCode list" where
  "charge_reasons state effective =
     (if d_less effective (cs_threshold state) then [INSUFFICIENT_CHARGE] else []) @
     (if cs_history_count state < cs_minimum_history state then [INSUFFICIENT_HISTORY] else [])"

text \<open>The outcome the collected reasons lead to.\<close>

definition outcome_of :: "ReasonCode list \<Rightarrow> FailureDisposition \<Rightarrow> DecisionOutcome" where
  "outcome_of reasons failure_disposition =
     (if filter (\<lambda>r. r \<noteq> LOCAL_EVIDENCE_STALE) reasons \<noteq> [] then DENY
      else if LOCAL_EVIDENCE_STALE \<in> set reasons
      then (if failure_disposition = CONSTRAINED then CONSTRAIN else DENY)
      else PERMIT)"

definition decide ::
    "ActionRequest \<Rightarrow> CompositeState \<Rightarrow> EnforcementMode \<Rightarrow> LocalEvidence option \<Rightarrow>
     ReductionProfile option \<Rightarrow> FailureDisposition \<Rightarrow> DecisionRecord res" where
  "decide request state mode local_evidence reduction_profile failure_disposition =
     bind_r (charge_step request state mode local_evidence reduction_profile)
       (\<lambda>(decayed, effective, appended).
       let reasons = state_reasons request state @ appended @ charge_reasons state effective;
           outcome = outcome_of reasons failure_disposition
       in make_DecisionRecord (ar_request_id request) (cs_state_id state) mode outcome
            (if outcome = PERMIT then reasons @ [PERMITTED] else reasons)
            (cs_charge state) decayed effective)"

subsection \<open>Well-formed inputs\<close>

definition wf_evidence :: "LocalEvidence option \<Rightarrow> ReductionProfile option \<Rightarrow> bool" where
  "wf_evidence ev prof \<longleftrightarrow> (\<forall>e. ev = Some e \<longrightarrow> wf_LocalEvidence e)
     \<and> (\<forall>p. prof = Some p \<longrightarrow> wf_ReductionProfile p)"

lemma wf_evidence_simps [simp]:
  "wf_evidence None None"
  "wf_evidence (Some e) (Some p) \<longleftrightarrow> wf_LocalEvidence e \<and> wf_ReductionProfile p"
  by (auto simp: wf_evidence_def)

lemma state_reasons_subset:
  "set (state_reasons request state) \<subseteq> {IDENTITY_MISMATCH, CLASS_MISMATCH, VETO, OUTSIDE_ENVELOPE,
     STATE_UNAUTHENTIC, STATE_NOT_YET_VALID, STATE_EXPIRED}"
  by (auto simp: state_reasons_def)

lemma charge_reasons_subset:
  "set (charge_reasons state e) \<subseteq> {INSUFFICIENT_CHARGE, INSUFFICIENT_HISTORY}"
  by (auto simp: charge_reasons_def)

lemma state_reasons_Nil:
  "state_reasons request state = [] \<longleftrightarrow>
     ar_identity request = cs_identity state \<and> ar_authority_class request = cs_authority_class state
     \<and> cs_veto_clear state \<and> cs_envelope_allows state \<and> cs_authentic state
     \<and> cs_not_before_s state \<le> ar_timestamp_s request
     \<and> ar_timestamp_s request < cs_expires_at_s state"
  by (auto simp: state_reasons_def)

lemma charge_reasons_Nil:
  "charge_reasons state e = [] \<longleftrightarrow>
     \<not> d_less e (cs_threshold state) \<and> cs_minimum_history state \<le> cs_history_count state"
  by (auto simp: charge_reasons_def)

text \<open>What the arithmetic yields: two charges, ordered, and at most one appended reason.\<close>

lemma charge_body_Inr:
  assumes "wf_CompositeState state"
    and "charge_body request state mode ev prof = Inr (decayed, effective, app)"
  shows "nonneg_dec decayed" "nonneg_dec effective" "d_le decayed (cs_charge state)"
    "d_le effective decayed" "app = [] \<or> app = [LOCAL_EVIDENCE_STALE]"
    "mode = SIGNED_STATE_ONLY \<Longrightarrow> app = [] \<and> effective = decayed"
proof -
  from assms(2) have pd: "passive_decay (cs_charge state) (cs_decay_rate state)
      (elapsed_of request state) = Inr decayed"
    by (auto simp: charge_body_def split: if_splits option.splits)
  note b = passive_decay_bounds [OF pd]
  show "nonneg_dec decayed" "d_le decayed (cs_charge state)" by (rule b)+
  have "nonneg_dec effective \<and> d_le effective decayed \<and> (app = [] \<or> app = [LOCAL_EVIDENCE_STALE])
      \<and> (mode = SIGNED_STATE_ONLY \<longrightarrow> app = [] \<and> effective = decayed)"
    using assms(2) b pd
    by (auto simp: charge_body_def split: if_splits option.splits
        dest: local_effective_charge_bounds)
  then show "nonneg_dec effective" "d_le effective decayed" "app = [] \<or> app = [LOCAL_EVIDENCE_STALE]"
    "mode = SIGNED_STATE_ONLY \<Longrightarrow> app = [] \<and> effective = decayed"
    by auto
qed

lemma charge_body_error:
  assumes "wf_CompositeState state" "wf_evidence ev prof"
    and "charge_body request state mode ev prof = Inl e"
  shows "is_arithmetic_trap e"
proof -
  have s: "nonneg_dec (cs_charge state)" "nonneg_dec (cs_decay_rate state)"
    "nonneg_dec (cs_maximum_charge state)" "nonneg_dec (elapsed_of request state)"
    using assms(1) by (auto simp: wf_CompositeState_def nonneg_dec_dval elapsed_of_def)
  show ?thesis
  proof (cases "passive_decay (cs_charge state) (cs_decay_rate state) (elapsed_of request state)")
    case (Inl x)
    with assms(3) have "x = e" by (simp add: charge_body_def)
    with Inl s show ?thesis by (auto intro: passive_decay_error)
  next
    case (Inr decayed)
    note nd = passive_decay_bounds(1) [OF Inr]
    from Inr assms(3) obtain v p where m: "mode = SIGNED_PLUS_LOCAL_REDUCE" "le_fresh v"
      and ev: "ev = Some v" "prof = Some p"
      by (auto simp: charge_body_def split: if_splits option.splits)
    with assms(2) have wf: "wf_LocalEvidence v" "wf_ReductionProfile p" by auto
    let ?loss = "superlinear_loss (le_divergence v) (rp_divergence_threshold p) (rp_loss_rate p)
        (rp_exponent p)"
    show ?thesis
    proof (cases ?loss)
      case (Inl x)
      with Inr m ev assms(3) have "x = e" by (simp add: charge_body_def)
      with Inl wf show ?thesis
        by (auto simp: wf_LocalEvidence_def wf_ReductionProfile_def intro: superlinear_loss_error)
    next
      case (Inr loss)
      with \<open>passive_decay _ _ _ = Inr decayed\<close> m ev assms(3)
      have "local_effective_charge decayed loss (le_coupled_loss v) (cs_maximum_charge state) = Inl e"
        by (auto simp: charge_body_def bind_r_eq_Inl)
      then show ?thesis
        by (rule local_effective_charge_error [rotated 4])
          (use nd superlinear_loss_nonneg [OF Inr] wf s in \<open>auto simp: wf_LocalEvidence_def\<close>)
    qed
  qed
qed

lemma charge_step_Inr:
  assumes "wf_CompositeState state" "wf_evidence ev prof"
  obtains decayed effective app where
    "charge_step request state mode ev prof = Inr (decayed, effective, app)"
    "nonneg_dec decayed" "nonneg_dec effective" "d_le decayed (cs_charge state)"
    "d_le effective decayed"
    "app = [] \<or> app = [LOCAL_EVIDENCE_STALE] \<or> app = [ARITHMETIC_FAILURE]"
proof (cases "charge_body request state mode ev prof")
  case (Inl e)
  with charge_body_error [OF assms] have "is_arithmetic_trap e" by simp
  moreover have "d_le dec_zero (cs_charge state)"
    using assms(1) by (auto simp: wf_CompositeState_def nonneg_dec_dval d_le_iff)
  ultimately show ?thesis
    using that [of dec_zero dec_zero "[ARITHMETIC_FAILURE]"] Inl by (simp add: charge_step_def)
next
  case (Inr r)
  obtain decayed effective app where r: "r = (decayed, effective, app)" by (cases r)
  from charge_body_Inr [OF assms(1) Inr [unfolded r]]
  show ?thesis by (intro that [of decayed effective app]) (auto simp: charge_step_def Inr r)
qed

lemma outcome_of_PERMIT: "outcome_of rs fd = PERMIT \<longleftrightarrow> rs = []"
  by (cases rs) (auto simp: outcome_of_def filter_empty_conv)

lemma outcome_of_DENY:
  "outcome_of rs fd = DENY \<longleftrightarrow> (\<exists>r \<in> set rs. r \<noteq> LOCAL_EVIDENCE_STALE)
     \<or> rs \<noteq> [] \<and> fd = CLOSED"
  by (cases fd; cases rs) (auto simp: outcome_of_def filter_empty_conv)

lemma outcome_of_CONSTRAIN:
  "outcome_of rs fd = CONSTRAIN \<longleftrightarrow> rs \<noteq> [] \<and> set rs \<subseteq> {LOCAL_EVIDENCE_STALE} \<and> fd = CONSTRAINED"
  by (cases fd; cases rs) (auto simp: outcome_of_def filter_empty_conv)

text \<open>The shape of every result of \<open>decide\<close> on well-formed inputs.\<close>

lemma decide_shape:
  assumes "wf_ActionRequest request" "wf_CompositeState state" "wf_evidence ev prof"
  obtains decayed effective app where
    "charge_step request state mode ev prof = Inr (decayed, effective, app)"
    "decide request state mode ev prof fd =
       Inr \<lparr>dr_request_id = ar_request_id request, dr_state_id = cs_state_id state, dr_mode = mode,
         dr_outcome = outcome_of (state_reasons request state @ app @ charge_reasons state effective) fd,
         dr_reasons = (if state_reasons request state @ app @ charge_reasons state effective = []
           then [PERMITTED] else state_reasons request state @ app @ charge_reasons state effective),
         dr_signed_charge = cs_charge state, dr_decayed_charge = decayed,
         dr_effective_charge = effective\<rparr>"
    "nonneg_dec decayed" "nonneg_dec effective" "d_le decayed (cs_charge state)"
    "d_le effective decayed"
    "app = [] \<or> app = [LOCAL_EVIDENCE_STALE] \<or> app = [ARITHMETIC_FAILURE]"
proof -
  obtain decayed effective app where c:
    "charge_step request state mode ev prof = Inr (decayed, effective, app)"
    "nonneg_dec decayed" "nonneg_dec effective" "d_le decayed (cs_charge state)"
    "d_le effective decayed"
    "app = [] \<or> app = [LOCAL_EVIDENCE_STALE] \<or> app = [ARITHMETIC_FAILURE]"
    by (rule charge_step_Inr [OF assms(2,3)])
  let ?rs = "state_reasons request state @ app @ charge_reasons state effective"
  have notp: "PERMITTED \<notin> set ?rs"
    using state_reasons_subset [of request state] charge_reasons_subset [of state effective] c(6)
    by fastforce
  have ch: "nonneg_dec (cs_charge state)" using assms(2) by (simp add: wf_CompositeState_def)
  have nb: "nonblank (ar_request_id request)" "nonblank (cs_state_id state)"
    using assms(1,2) by (simp_all add: wf_ActionRequest_def wf_CompositeState_def)
  have ne: "outcome_of ?rs fd \<in> {DENY, CONSTRAIN} \<longrightarrow> ?rs \<noteq> []"
    by (auto simp: outcome_of_DENY outcome_of_CONSTRAIN simp del: append_is_Nil_conv append_Nil2)
  show thesis
    by (rule that [of decayed effective app, OF c(1) _ c(2-6)],
        simp add: decide_def c(1) Let_def make_DecisionRecord_Inr outcome_of_PERMIT
          wf_DecisionRecord_def nb ch c(2-5) del: append_is_Nil_conv,
        use notp ne c in \<open>auto simp: outcome_of_PERMIT\<close>)
qed

lemma decide_ok:
  assumes "wf_ActionRequest request" "wf_CompositeState state" "wf_evidence ev prof"
  obtains r where "decide request state mode ev prof fd = Inr r" "dr_mode r = mode"
  by (rule decide_shape [OF assms, of mode fd]) simp

subsection \<open>Properties\<close>

text \<open>A request and a state of 28-digit charges that does not decay, for the witnesses.\<close>

definition sample_request :: ActionRequest where
  "sample_request = \<lparr>ar_request_id = u ''r1'', ar_identity = u ''agent'',
     ar_authority_class = u ''ops'', ar_timestamp_s = 105\<rparr>"

definition sample_state :: CompositeState where
  "sample_state = \<lparr>cs_state_id = u ''s1'', cs_identity = u ''agent'',
     cs_authority_class = u ''ops'', cs_issued_at_s = 100, cs_not_before_s = 100,
     cs_expires_at_s = 110, cs_charge = Fin False 80 0, cs_threshold = Fin False 50 0,
     cs_history_count = 5, cs_minimum_history = 3, cs_authentic = True, cs_veto_clear = True,
     cs_envelope_allows = True, cs_decay_rate = Fin False 0 0, cs_maximum_charge = Fin False 100 0\<rparr>"

definition sample_evidence :: LocalEvidence where
  "sample_evidence = \<lparr>le_divergence = Fin False 5 (-1), le_coupled_loss = Fin False 1 0,
     le_fresh = True\<rparr>"

definition sample_profile :: ReductionProfile where
  "sample_profile = \<lparr>rp_divergence_threshold = Fin False 25 (-2), rp_loss_rate = Fin False 2 0,
     rp_exponent = 2\<rparr>"

lemmas sample_defs = sample_request_def sample_state_def sample_evidence_def sample_profile_def

lemma nonblank_u [simp]: "nonblank (u (c # cs)) \<longleftrightarrow> \<not> is_space (of_char c) \<or> nonblank (u cs)"
  by (auto simp: nonblank_iff u_def)

lemma sample_wf [simp]:
  "wf_ActionRequest sample_request" "wf_CompositeState sample_state"
  "wf_LocalEvidence sample_evidence" "wf_ReductionProfile sample_profile"
  by (simp_all add: sample_defs wf_ActionRequest_def wf_CompositeState_def wf_LocalEvidence_def
      wf_ReductionProfile_def is_space_def timestamp_ok_def MIN_TIMESTAMP_S_def MAX_TIMESTAMP_S_def
      nonneg_dec_def d_le_def dec_zero_def dec_one_def signed_coeff_def)

text \<open>
  Claim C1: on a request and a state that satisfy their constructors' checks, and on
  evidence and profile that do where they are given, \<^verbatim>\<open>decide\<close> never raises, whatever the
  mode and the disposition; the record it returns passes every check of
  \<^verbatim>\<open>DecisionRecord\<close>, names the request and the state, and its three charges satisfy
  \<open>0 \<le> effective \<le> decayed \<le> signed\<close>, arithmetic failures included.
\<close>
theorem decide_total_and_bounded:
  assumes "wf_ActionRequest request" "wf_CompositeState state" "wf_evidence ev prof"
  shows "\<exists>r. decide request state mode ev prof fd = Inr r \<and> wf_DecisionRecord r
     \<and> dr_request_id r = ar_request_id request \<and> dr_state_id r = cs_state_id state
     \<and> dr_mode r = mode \<and> dr_signed_charge r = cs_charge state
     \<and> 0 \<le> dval (dr_effective_charge r)
     \<and> dval (dr_effective_charge r) \<le> dval (dr_decayed_charge r)
     \<and> dval (dr_decayed_charge r) \<le> dval (cs_charge state)"
proof -
  obtain decayed effective app where d: "\<And>fd'. fd' = fd \<Longrightarrow> is_ok (decide request state mode ev prof fd')"
    by (rule decide_shape [OF assms, of mode fd]) auto
  then obtain r where r: "decide request state mode ev prof fd = Inr r"
    by (auto simp: is_ok_iff)
  have wf: "wf_DecisionRecord r"
    using r by (auto simp: decide_def make_DecisionRecord_Inr Let_def split: prod.splits)
  have "dr_request_id r = ar_request_id request \<and> dr_state_id r = cs_state_id state
     \<and> dr_mode r = mode \<and> dr_signed_charge r = cs_charge state"
    using r by (auto simp: decide_def make_DecisionRecord_Inr Let_def split: prod.splits)
  with wf r show ?thesis
    by (auto simp: wf_DecisionRecord_def nonneg_dec_dval d_le_iff)
qed

theorem decide_total_and_bounded_witness:
  "\<exists>r. decide sample_request sample_state SIGNED_PLUS_LOCAL_REDUCE (Some sample_evidence)
      (Some sample_profile) CLOSED = Inr r \<and> 0 \<le> dval (dr_effective_charge r)
     \<and> dval (dr_decayed_charge r) \<le> dval (cs_charge sample_state)"
  using decide_total_and_bounded [of sample_request sample_state "Some sample_evidence"
      "Some sample_profile" SIGNED_PLUS_LOCAL_REDUCE CLOSED]
  by auto

text \<open>The record \<open>decide\<close> returns, given the outcome of the arithmetic.\<close>

lemma decide_outcome:
  assumes "wf_ActionRequest request" "wf_CompositeState state" "wf_evidence ev prof"
    and "charge_step request state mode ev prof = Inr (decayed, effective, app)"
  shows "\<exists>r. decide request state mode ev prof fd = Inr r
     \<and> dr_outcome r = outcome_of (state_reasons request state @ app @ charge_reasons state effective) fd
     \<and> dr_effective_charge r = effective"
  by (rule decide_shape [OF assms(1-3), of mode fd]) (use assms(4) in auto)

lemma charge_step_no_reason:
  "charge_step request state mode ev prof = Inr (d, e, app) \<Longrightarrow> ARITHMETIC_FAILURE \<notin> set app \<Longrightarrow>
     charge_body request state mode ev prof = Inr (d, e, app)"
  by (cases "charge_body request state mode ev prof") (auto simp: charge_step_def split: if_splits)

lemma charge_step_of_body:
  "charge_body request state mode ev prof = Inr x \<Longrightarrow> charge_step request state mode ev prof = Inr x"
  by (simp add: charge_step_def)

text \<open>
  Claim C2: \<^verbatim>\<open>decide\<close> permits exactly when identity and class match, no veto is set, the
  envelope allows, the state is authentic, the request lies in the half-open validity
  window, the history suffices, and the arithmetic ends without a trap, without stale
  local evidence and with an effective charge that reaches the threshold.
\<close>
theorem decide_permit_iff:
  assumes "wf_ActionRequest request" "wf_CompositeState state" "wf_evidence ev prof"
  shows "(\<exists>r. decide request state mode ev prof fd = Inr r \<and> dr_outcome r = PERMIT) \<longleftrightarrow>
     ar_identity request = cs_identity state \<and> ar_authority_class request = cs_authority_class state \<and>
     cs_veto_clear state \<and> cs_envelope_allows state \<and> cs_authentic state \<and>
     cs_not_before_s state \<le> ar_timestamp_s request \<and> ar_timestamp_s request < cs_expires_at_s state \<and>
     cs_minimum_history state \<le> cs_history_count state \<and>
     (\<exists>decayed effective. charge_body request state mode ev prof = Inr (decayed, effective, [])
        \<and> \<not> d_less effective (cs_threshold state))"
proof -
  obtain d e app where c: "charge_step request state mode ev prof = Inr (d, e, app)"
    by (rule charge_step_Inr [OF assms(2,3)])
  from decide_outcome [OF assms c, of fd] obtain r where
    r: "decide request state mode ev prof fd = Inr r"
    "dr_outcome r = outcome_of (state_reasons request state @ app @ charge_reasons state e) fd"
    by blast
  have "app = [] \<longleftrightarrow> (\<exists>d' e'. charge_body request state mode ev prof = Inr (d', e', []))"
    using charge_step_no_reason [OF c] charge_step_of_body [of request state mode ev prof] c by auto
  moreover have "charge_body request state mode ev prof = Inr (d', e', []) \<Longrightarrow> e' = e" for d' e'
    using charge_step_of_body [of request state mode ev prof] c by auto
  ultimately show ?thesis
    using r charge_step_no_reason [OF c]
    by (auto simp: outcome_of_PERMIT state_reasons_Nil charge_reasons_Nil)
qed

lemma sample_passive_decay:
  "passive_decay (Fin False 80 0) (Fin False 0 0) (dec_of_int n) =
     (if n < 0 then Inl (ValueError ''elapsed must be nonnegative'') else Inr (Fin False 80 0))"
proof -
  have "d_neg (Fin False 0 0) = Inr (Fin False 0 0)"
    by (simp add: dfix_def e_tiny_def e_max_def)
  moreover have "\<exists>s e. d_mul (Fin False 0 0) (dec_of_int n) = Inr (Fin s 0 e)"
    by (simp add: dec_of_int_def dfix_def)
  moreover have "d_mul (Fin False 80 0) dec_one = Inr (Fin False 80 0)"
    by (simp add: dec_one_def dfix_def ulp_exp_def ndigits.simps prec_def e_tiny_def e_top_def)
  ultimately show ?thesis
    by (auto simp: passive_decay_def finite_decimal_def nonnegative_def d_less_iff d_exp_zero
        py_min_def py_max_def dec_zero_def signed_coeff_def not_less)
qed

theorem decide_permit_iff_witness:
  "\<exists>r. decide sample_request sample_state SIGNED_STATE_ONLY None None CLOSED = Inr r
     \<and> dr_outcome r = PERMIT"
  unfolding decide_permit_iff [OF sample_wf(1,2) wf_evidence_simps(1)]
  by (simp add: sample_request_def sample_state_def charge_body_def elapsed_of_def
      sample_passive_decay signed_coeff_def)

lemma local_mode_reduces:
  assumes "wf_ActionRequest request" "wf_CompositeState state" "wf_evidence ev prof"
    and "decide request state SIGNED_STATE_ONLY None None fd = Inr s"
    and "decide request state SIGNED_PLUS_LOCAL_REDUCE ev prof fd' = Inr l"
  shows "dval (dr_effective_charge l) \<le> dval (dr_effective_charge s)
     \<and> (dr_outcome l = PERMIT \<longrightarrow> dr_outcome s = PERMIT)"
proof -
  have none: "wf_evidence None None" by simp
  obtain d e app where c: "charge_step request state SIGNED_PLUS_LOCAL_REDUCE ev prof = Inr (d, e, app)"
    by (rule charge_step_Inr [OF assms(2,3)])
  obtain d0 e0 app0 where c0: "charge_step request state SIGNED_STATE_ONLY None None = Inr (d0, e0, app0)"
    "nonneg_dec e0"
    by (rule charge_step_Inr [OF assms(2) none])
  have l: "dr_effective_charge l = e"
    "dr_outcome l = outcome_of (state_reasons request state @ app @ charge_reasons state e) fd'"
    using decide_outcome [OF assms(1-3) c, of fd'] assms(5) by auto
  have s: "dr_effective_charge s = e0"
    "dr_outcome s = outcome_of (state_reasons request state @ app0 @ charge_reasons state e0) fd"
    using decide_outcome [OF assms(1,2) none c0(1), of fd] assms(4) by auto
  have "dval e \<le> dval e0 \<and> (app = [] \<longrightarrow> app0 = [])"
  proof (cases "charge_body request state SIGNED_PLUS_LOCAL_REDUCE ev prof")
    case (Inl x)
    then have "e = dec_zero" "app \<noteq> []" using c by (auto simp: charge_step_def split: if_splits)
    then show ?thesis using c0(2) by (simp add: nonneg_dec_dval)
  next
    case (Inr x)
    then have b: "charge_body request state SIGNED_PLUS_LOCAL_REDUCE ev prof = Inr (d, e, app)"
      using c by (simp add: charge_step_def)
    have "charge_body request state SIGNED_STATE_ONLY None None = Inr (d, d, [])"
      using b by (auto simp: charge_body_def split: if_splits option.splits)
    then have "e0 = d" "app0 = []" using c0(1) by (auto simp: charge_step_def)
    then show ?thesis using charge_body_Inr [OF assms(2) b] by (simp add: d_le_iff)
  qed
  moreover have "is_finite e" "is_finite e0" "is_finite (cs_threshold state)"
    using charge_step_Inr [OF assms(2,3), of request SIGNED_PLUS_LOCAL_REDUCE] c c0(2) assms(2)
    by (force, simp_all add: wf_CompositeState_def)
  ultimately show ?thesis
    by (auto simp: l s outcome_of_PERMIT charge_reasons_Nil d_less_iff)
qed

text \<open>
  Claim C3: local evidence only reduces. For the same request and state, the effective
  charge of the local mode is at most that of the signed-state mode, whatever the evidence,
  the profile and the dispositions, and a request the local mode permits is permitted by
  the signed state alone.
\<close>
theorem local_mode_only_reduces:
  assumes "wf_ActionRequest request" "wf_CompositeState state" "wf_evidence ev prof"
    and "decide request state SIGNED_STATE_ONLY None None fd = Inr s"
    and "decide request state SIGNED_PLUS_LOCAL_REDUCE ev prof fd' = Inr l"
  shows "dval (dr_effective_charge l) \<le> dval (dr_effective_charge s)
     \<and> (dr_outcome l = PERMIT \<longrightarrow> dr_outcome s = PERMIT)"
  using local_mode_reduces [OF assms] .

theorem local_mode_only_reduces_witness:
  "\<exists>s l. decide sample_request sample_state SIGNED_STATE_ONLY None None CLOSED = Inr s
     \<and> decide sample_request sample_state SIGNED_PLUS_LOCAL_REDUCE (Some sample_evidence)
         (Some sample_profile) CONSTRAINED = Inr l
     \<and> dval (dr_effective_charge l) \<le> dval (dr_effective_charge s)"
proof -
  have "wf_evidence (Some sample_evidence) (Some sample_profile)" by simp
  then obtain l where l: "decide sample_request sample_state SIGNED_PLUS_LOCAL_REDUCE
      (Some sample_evidence) (Some sample_profile) CONSTRAINED = Inr l"
    by (rule decide_shape [OF sample_wf(1,2)]) blast
  obtain s where s: "decide sample_request sample_state SIGNED_STATE_ONLY None None CLOSED = Inr s"
    by (rule decide_shape [OF sample_wf(1,2) wf_evidence_simps(1)]) blast
  show ?thesis
    using local_mode_only_reduces [OF sample_wf(1,2) _ s l] l s by auto
qed

text \<open>
  \<^verbatim>\<open>decide\<close> never answers \<^verbatim>\<open>INDETERMINATE\<close>, and it answers \<^verbatim>\<open>CONSTRAIN\<close> only when
  the caller asked for the constrained disposition and stale or missing local evidence is
  the one reason against the request; with the default disposition every such request is
  denied.
\<close>
theorem decide_constrains_only_stale:
  assumes "wf_ActionRequest request" "wf_CompositeState state" "wf_evidence ev prof"
    and "decide request state mode ev prof fd = Inr r"
  shows "dr_outcome r \<noteq> INDETERMINATE \<and> (dr_outcome r = CONSTRAIN \<longleftrightarrow>
     fd = CONSTRAINED \<and> dr_reasons r = [LOCAL_EVIDENCE_STALE])
     \<and> (dr_reasons r = [LOCAL_EVIDENCE_STALE] \<longrightarrow> mode = SIGNED_PLUS_LOCAL_REDUCE
          \<and> (ev = None \<or> prof = None \<or> (\<exists>e. ev = Some e \<and> \<not> le_fresh e)))"
proof (rule decide_shape [OF assms(1-3), of mode fd])
  fix d e app
  let ?rs = "state_reasons request state @ app @ charge_reasons state e"
  let ?R = "\<lparr>dr_request_id = ar_request_id request, dr_state_id = cs_state_id state, dr_mode = mode,
    dr_outcome = outcome_of ?rs fd, dr_reasons = (if ?rs = [] then [PERMITTED] else ?rs),
    dr_signed_charge = cs_charge state, dr_decayed_charge = d, dr_effective_charge = e\<rparr>"
  assume c: "charge_step request state mode ev prof = Inr (d, e, app)"
    and app: "app = [] \<or> app = [LOCAL_EVIDENCE_STALE] \<or> app = [ARITHMETIC_FAILURE]"
    and dec: "decide request state mode ev prof fd = Inr ?R"
  have stale: "LOCAL_EVIDENCE_STALE \<notin> set (state_reasons request state)"
    "LOCAL_EVIDENCE_STALE \<notin> set (charge_reasons state e)"
    using state_reasons_subset charge_reasons_subset by fastforce+
  have only: "set ?rs \<subseteq> {LOCAL_EVIDENCE_STALE} \<and> ?rs \<noteq> [] \<longleftrightarrow> ?rs = [LOCAL_EVIDENCE_STALE]"
    using stale app by (cases "state_reasons request state"; cases "charge_reasons state e") auto
  have out: "dr_outcome r = outcome_of ?rs fd" "dr_reasons r = (if ?rs = [] then [PERMITTED] else ?rs)"
    using trans [OF sym [OF assms(4)] dec] by simp_all
  have cons: "outcome_of ?rs fd = CONSTRAIN \<longleftrightarrow> ?rs = [LOCAL_EVIDENCE_STALE] \<and> fd = CONSTRAINED"
    unfolding outcome_of_CONSTRAIN using only by blast
  have ind: "outcome_of ?rs fd \<noteq> INDETERMINATE" by (simp add: outcome_of_def)
  have mode: "app = [LOCAL_EVIDENCE_STALE] \<Longrightarrow> mode = SIGNED_PLUS_LOCAL_REDUCE
      \<and> (ev = None \<or> prof = None \<or> (\<exists>e. ev = Some e \<and> \<not> le_fresh e))"
    using charge_step_no_reason [OF c] by (auto simp: charge_body_def split: if_splits option.splits)
  have "?rs = [LOCAL_EVIDENCE_STALE] \<Longrightarrow> app = [LOCAL_EVIDENCE_STALE]"
    using stale app by (auto simp: append_eq_Cons_conv)
  then show ?thesis using out cons ind mode by (auto simp del: append_is_Nil_conv split: if_splits)
qed

theorem decide_constrains_only_stale_witness:
  "\<exists>r. decide sample_request sample_state SIGNED_PLUS_LOCAL_REDUCE None None CONSTRAINED = Inr r
     \<and> (dr_outcome r = CONSTRAIN \<longleftrightarrow> dr_reasons r = [LOCAL_EVIDENCE_STALE])"
proof -
  obtain r where r: "decide sample_request sample_state SIGNED_PLUS_LOCAL_REDUCE None None CONSTRAINED = Inr r"
    by (rule decide_shape [OF sample_wf(1,2) wf_evidence_simps(1)]) blast
  from decide_constrains_only_stale [OF sample_wf(1,2) wf_evidence_simps(1) r] r
  show ?thesis by auto
qed

end
