(* ===== verification/KilReplay.thy ===== *)
theory KilReplay
  imports KilScenario KilEngine
begin

text \<open>
  \<^verbatim>\<open>src/kil/replay.py\<close>: the paired replay of a scenario. Three tracks (baseline controls,
  signed state only, signed state with local reduction) follow the same dependency graph;
  the locale \<open>dependency_track\<close> states what a track does with one more event, and proves
  once what its set of succeeded events means; it is interpreted on the three tracks of
  the replay.
\<close>

record PairedDecision =
  pd_event_id :: pstr
  pd_baseline_permit :: bool
  pd_baseline_reachable :: bool
  pd_signed_state_only :: DecisionRecord
  pd_signed_state_only_reachable :: bool
  pd_signed_plus_local_reduce :: DecisionRecord
  pd_signed_plus_local_reduce_reachable :: bool
  pd_evidence_class :: EvidenceClass

definition make_PairedDecision ::
    "pstr \<Rightarrow> bool \<Rightarrow> bool \<Rightarrow> DecisionRecord \<Rightarrow> bool \<Rightarrow> DecisionRecord \<Rightarrow> bool \<Rightarrow> EvidenceClass \<Rightarrow>
     PairedDecision res" where
  "make_PairedDecision event_id bp br signed_d sr reduced lr cls =
     (if \<not> nonblank event_id then Inl (ValueError ''event_id must be a nonblank string'')
      else if dr_mode signed_d \<noteq> SIGNED_STATE_ONLY
      then Inl (ValueError ''signed_state_only decision has the wrong mode'')
      else if dr_mode reduced \<noteq> SIGNED_PLUS_LOCAL_REDUCE
      then Inl (ValueError ''signed_plus_local_reduce decision has the wrong mode'')
      else if cls \<noteq> MODELED then Inl (ValueError ''historical replay decisions must remain modeled'')
      else Inr \<lparr>pd_event_id = event_id, pd_baseline_permit = bp, pd_baseline_reachable = br,
        pd_signed_state_only = signed_d, pd_signed_state_only_reachable = sr,
        pd_signed_plus_local_reduce = reduced, pd_signed_plus_local_reduce_reachable = lr,
        pd_evidence_class = cls\<rparr>)"

record ReplayReport =
  rr_scenario_id :: pstr
  rr_decisions :: "PairedDecision list"
  rr_evidence_class :: EvidenceClass

definition make_ReplayReport :: "pstr \<Rightarrow> PairedDecision list \<Rightarrow> EvidenceClass \<Rightarrow> ReplayReport res" where
  "make_ReplayReport scenario_id decisions cls =
     (if \<not> nonblank scenario_id then Inl (ValueError ''scenario_id must be a nonblank string'')
      else if decisions = [] then Inl (ValueError ''decisions must be a nonempty tuple'')
      else if cls \<noteq> MODELED then Inl (ValueError ''historical replay reports must remain modeled'')
      else Inr \<lparr>rr_scenario_id = scenario_id, rr_decisions = decisions, rr_evidence_class = cls\<rparr>)"

definition validate_event_evidence :: "ScenarioEvent \<Rightarrow> unit res" where
  "validate_event_evidence e =
     (if ar_request_id (se_request e) \<noteq> se_event_id e
      then Inl (ValueError ''event_id must match request_id'')
      else if lv_evidence_class (se_observed_summary e) \<noteq> OBSERVED
      then Inl (ValueError ''observed_summary must remain observed'')
      else if lv_evidence_class (se_control_assumption e) \<noteq> MODELED
      then Inl (ValueError ''control_assumption must remain modeled'')
      else if lv_evidence_class (se_state_assumption e) \<noteq> MODELED
      then Inl (ValueError ''state_assumption must remain modeled'')
      else if lv_evidence_class (se_local_evidence_assumption e) \<noteq> MODELED
      then Inl (ValueError ''local_evidence_assumption must remain modeled'')
      else Inr ())"

record ReplayState =
  rs_decisions :: "PairedDecision list"
  rs_baseline_success :: "pstr set"
  rs_signed_success :: "pstr set"
  rs_local_success :: "pstr set"
  rs_seen :: "pstr set"

definition replay_start :: ReplayState where
  "replay_start = \<lparr>rs_decisions = [], rs_baseline_success = {}, rs_signed_success = {},
     rs_local_success = {}, rs_seen = {}\<rparr>"

definition all_in :: "pstr list \<Rightarrow> pstr set \<Rightarrow> bool" where
  "all_in parents s \<longleftrightarrow> list_all (\<lambda>p. p \<in> s) parents"

definition decide_signed :: "ScenarioEvent \<Rightarrow> DecisionRecord res" where
  "decide_signed e =
     decide (se_request e) (lv_value (se_state_assumption e)) SIGNED_STATE_ONLY None None CLOSED"

definition decide_local :: "ReductionProfile \<Rightarrow> ScenarioEvent \<Rightarrow> DecisionRecord res" where
  "decide_local profile e =
     decide (se_request e) (lv_value (se_state_assumption e)) SIGNED_PLUS_LOCAL_REDUCE
       (Some (lv_value (se_local_evidence_assumption e))) (Some profile) CLOSED"

definition replay_step :: "ReductionProfile \<Rightarrow> ReplayState \<Rightarrow> ScenarioEvent \<Rightarrow> ReplayState res" where
  "replay_step profile st e =
     bind_r (validate_event_evidence e) (\<lambda>_.
     bind_r (ensure (se_event_id e \<notin> rs_seen st) (ValueError ''duplicate event_id'')) (\<lambda>_.
     bind_r (ensure (all_in (se_depends_on e) (rs_seen st))
       (ValueError ''event dependencies must reference earlier events'')) (\<lambda>_.
     let baseline_reachable = all_in (se_depends_on e) (rs_baseline_success st);
         signed_reachable = all_in (se_depends_on e) (rs_signed_success st);
         local_reachable = all_in (se_depends_on e) (rs_local_success st);
         baseline_permit = (fst (lv_value (se_control_assumption e))
           \<and> snd (lv_value (se_control_assumption e)))
     in
     bind_r (decide_signed e) (\<lambda>signed_d.
     bind_r (decide_local profile e) (\<lambda>reduced.
     bind_r (make_PairedDecision (se_event_id e) baseline_permit baseline_reachable signed_d
       signed_reachable reduced local_reachable MODELED) (\<lambda>decision.
     Inr \<lparr>rs_decisions = rs_decisions st @ [decision],
       rs_baseline_success = (if baseline_reachable \<and> baseline_permit
         then insert (se_event_id e) (rs_baseline_success st) else rs_baseline_success st),
       rs_signed_success = (if signed_reachable \<and> dr_outcome signed_d = PERMIT
         then insert (se_event_id e) (rs_signed_success st) else rs_signed_success st),
       rs_local_success = (if local_reachable \<and> dr_outcome reduced = PERMIT
         then insert (se_event_id e) (rs_local_success st) else rs_local_success st),
       rs_seen = insert (se_event_id e) (rs_seen st)\<rparr>))))))"

definition replay :: "Scenario \<Rightarrow> ReductionProfile \<Rightarrow> ReplayReport res" where
  "replay scenario profile =
     (if sc_events scenario = [] then Inl (ValueError ''scenario events must not be empty'')
      else bind_r (fold_r (replay_step profile) replay_start (sc_events scenario)) (\<lambda>st.
        make_ReplayReport (sc_scenario_id scenario) (rs_decisions st) MODELED))"

subsection \<open>One track over a dependency graph\<close>

definition dep_edges :: "('e \<Rightarrow> 'i) \<Rightarrow> ('e \<Rightarrow> 'i list) \<Rightarrow> 'e list \<Rightarrow> ('i \<times> 'i) set" where
  "dep_edges ident deps es = {(p, ident e) | p e. e \<in> set es \<and> p \<in> set (deps e)}"

text \<open>Every dependency names an earlier event, and no identifier is used twice.\<close>

fun ordered :: "('e \<Rightarrow> 'i) \<Rightarrow> ('e \<Rightarrow> 'i list) \<Rightarrow> 'i set \<Rightarrow> 'e list \<Rightarrow> bool" where
  "ordered ident deps seen [] \<longleftrightarrow> True"
| "ordered ident deps seen (e # es) \<longleftrightarrow> ident e \<notin> seen \<and> set (deps e) \<subseteq> seen
     \<and> ordered ident deps (insert (ident e) seen) es"

lemma ordered_append:
  "ordered ident deps seen (xs @ ys) \<longleftrightarrow>
     ordered ident deps seen xs \<and> ordered ident deps (ident ` set xs \<union> seen) ys"
  by (induction xs arbitrary: seen) auto

lemma dep_edges_snoc:
  "dep_edges ident deps (es @ [e]) = dep_edges ident deps es \<union> (\<lambda>p. (p, ident e)) ` set (deps e)"
  by (auto simp: dep_edges_def)

lemma ordered_sources:
  "ordered ident deps seen es \<Longrightarrow> (p, i) \<in> dep_edges ident deps es \<Longrightarrow> p \<in> ident ` set es \<union> seen"
  by (induction es arbitrary: seen) (fastforce simp: dep_edges_def)+

lemma dep_edges_targets: "(p, i) \<in> dep_edges ident deps es \<Longrightarrow> i \<in> ident ` set es"
  by (auto simp: dep_edges_def)

text \<open>A later event is no ancestor of an earlier one.\<close>

lemma ancestors_snoc:
  assumes "ordered ident deps {} (es @ [e])" "i \<in> ident ` set es"
  shows "(j, i) \<in> (dep_edges ident deps (es @ [e]))\<^sup>* \<longleftrightarrow> (j, i) \<in> (dep_edges ident deps es)\<^sup>*"
proof
  assume "(j, i) \<in> (dep_edges ident deps (es @ [e]))\<^sup>*"
  then have "i \<in> ident ` set es \<longrightarrow> (j, i) \<in> (dep_edges ident deps es)\<^sup>*"
  proof (induction rule: rtrancl_induct)
    case (step k l)
    show ?case
    proof
      assume l: "l \<in> ident ` set es"
      have new: "ident e \<notin> ident ` set es" using assms(1) by (simp add: ordered_append)
      with l have "l \<noteq> ident e" by blast
      then have kl: "(k, l) \<in> dep_edges ident deps es"
        using step.hyps(2) l by (auto simp: dep_edges_snoc)
      then have "k \<in> ident ` set es" using ordered_sources assms(1) by (fastforce simp: ordered_append)
      with step.IH kl show "(j, l) \<in> (dep_edges ident deps es)\<^sup>*" by (auto intro: rtrancl_into_rtrancl)
    qed
  qed simp
  with assms(2) show "(j, i) \<in> (dep_edges ident deps es)\<^sup>*" by simp
next
  assume "(j, i) \<in> (dep_edges ident deps es)\<^sup>*"
  then show "(j, i) \<in> (dep_edges ident deps (es @ [e]))\<^sup>*"
    by (rule rtrancl_mono [THEN subsetD, rotated]) (auto simp: dep_edges_snoc)
qed

lemma ancestors_append:
  assumes "ordered ident deps {} (es @ fs)" "i \<in> ident ` set es"
  shows "(j, i) \<in> (dep_edges ident deps (es @ fs))\<^sup>* \<longleftrightarrow> (j, i) \<in> (dep_edges ident deps es)\<^sup>*"
  using assms
proof (induction fs rule: rev_induct)
  case (snoc f fs)
  then show ?case
    using ancestors_snoc [of ident deps "es @ fs" f i j] by (auto simp: ordered_append)
qed simp

lemma ordered_distinct:
  "ordered ident deps seen xs \<Longrightarrow> distinct (map ident xs) \<and> ident ` set xs \<inter> seen = {}"
  by (induction xs arbitrary: seen) auto

locale dependency_track =
  fixes ident :: "'e \<Rightarrow> 'i" and deps :: "'e \<Rightarrow> 'i list" and permit :: "'e \<Rightarrow> bool"
    and succeeded :: "'e list \<Rightarrow> 'i set"
  assumes succeeded_Nil: "succeeded [] = {}"
    and succeeded_snoc: "succeeded (es @ [e]) =
      (if set (deps e) \<subseteq> succeeded es \<and> permit e then insert (ident e) (succeeded es)
       else succeeded es)"
begin

lemma succeeded_ids: "succeeded es \<subseteq> ident ` set es"
  by (induction es rule: rev_induct) (auto simp: succeeded_Nil succeeded_snoc)

text \<open>An event succeeds when it and all its ancestors are permitted.\<close>

lemma succeeded_iff:
  "ordered ident deps {} es \<Longrightarrow>
   i \<in> succeeded es \<longleftrightarrow>
     i \<in> ident ` set es \<and> (\<forall>a \<in> set es. (ident a, i) \<in> (dep_edges ident deps es)\<^sup>* \<longrightarrow> permit a)"
proof (induction es arbitrary: i rule: rev_induct)
  case Nil
  then show ?case by (simp add: succeeded_Nil)
next
  case (snoc e es)
  let ?E = "dep_edges ident deps es" and ?F = "dep_edges ident deps (es @ [e])"
  have ord: "ordered ident deps {} es" "ident e \<notin> ident ` set es" "set (deps e) \<subseteq> ident ` set es"
    using snoc.prems by (auto simp: ordered_append)
  note IH = snoc.IH [OF ord(1)]
  have src: "p \<in> ident ` set es" if "(p, k) \<in> ?F" for p k
    using that ordered_sources [OF ord(1)] ord(3) by (auto simp: dep_edges_snoc)
  have none: "(ident e, k) \<in> ?F\<^sup>* \<Longrightarrow> k = ident e" for k
    by (erule converse_rtranclE) (use src ord(2) in auto)
  show ?case
  proof (cases "i = ident e")
    case False
    then have "(ident e, i) \<notin> ?F\<^sup>*" using none by blast
    then show ?thesis
      using False IH [of i] ancestors_snoc [OF snoc.prems, of i] by (auto simp: succeeded_snoc)
  next
    case True
    have into: "(j, ident e) \<in> ?F\<^sup>* \<longleftrightarrow> j = ident e \<or> (\<exists>p \<in> set (deps e). (j, p) \<in> ?E\<^sup>*)" for j
    proof
      assume "(j, ident e) \<in> ?F\<^sup>*"
      then show "j = ident e \<or> (\<exists>p \<in> set (deps e). (j, p) \<in> ?E\<^sup>*)"
      proof (cases rule: rtranclE)
        case (step p)
        have "p \<in> set (deps e)"
          using step(2) dep_edges_targets [of p "ident e" ident deps es] ord(2)
          by (auto simp: dep_edges_snoc)
        then show ?thesis using step(1) ancestors_snoc [OF snoc.prems, of p j] ord(3) by auto
      qed simp
    next
      assume "j = ident e \<or> (\<exists>p \<in> set (deps e). (j, p) \<in> ?E\<^sup>*)"
      then show "(j, ident e) \<in> ?F\<^sup>*"
      proof
        assume "\<exists>p \<in> set (deps e). (j, p) \<in> ?E\<^sup>*"
        then obtain p where p: "p \<in> set (deps e)" "(j, p) \<in> ?E\<^sup>*" by blast
        then have "(j, p) \<in> ?F\<^sup>*" using ancestors_snoc [OF snoc.prems, of p j] ord(3) by auto
        moreover have "(p, ident e) \<in> ?F" using p(1) by (simp add: dep_edges_snoc)
        ultimately show ?thesis by (rule rtrancl_into_rtrancl)
      qed simp
    qed
    have self: "(ident a, p) \<in> ?E\<^sup>* \<longrightarrow> a \<noteq> e" if "p \<in> set (deps e)" for a p
      using that ord none ancestors_snoc [OF snoc.prems, of p "ident a"] by auto
    have ne: "a \<in> set es \<Longrightarrow> ident a \<noteq> ident e" for a
      using ord(2) by (metis imageI)
    have "ident e \<in> succeeded (es @ [e]) \<longleftrightarrow> permit e \<and> set (deps e) \<subseteq> succeeded es"
      using succeeded_ids [of es] ord(2) by (auto simp: succeeded_snoc)
    also have "\<dots> \<longleftrightarrow> permit e \<and> (\<forall>p \<in> set (deps e). \<forall>a \<in> set es. (ident a, p) \<in> ?E\<^sup>* \<longrightarrow> permit a)"
      using IH ord(3) by blast
    also have "\<dots> \<longleftrightarrow> (\<forall>a \<in> set (es @ [e]). (ident a, ident e) \<in> ?F\<^sup>* \<longrightarrow> permit a)"
      unfolding into using self ne by auto
    finally show ?thesis using True by simp
  qed
qed

text \<open>So an event is reachable when all its proper ancestors are permitted.\<close>

lemma reachable_iff:
  assumes "ordered ident deps {} (es @ e # fs)"
  shows "set (deps e) \<subseteq> succeeded es \<longleftrightarrow>
    (\<forall>a \<in> set (es @ e # fs). (ident a, ident e) \<in> (dep_edges ident deps (es @ e # fs))\<^sup>+ \<longrightarrow> permit a)"
proof -
  let ?E = "dep_edges ident deps es" and ?G = "dep_edges ident deps (es @ e # fs)"
  have ord: "ordered ident deps {} es" "set (deps e) \<subseteq> ident ` set es"
    using assms by (auto simp: ordered_append)
  have dist: "distinct (map ident (es @ e # fs))"
    using ordered_distinct [OF assms] by simp
  have early: "a \<in> set (es @ e # fs) \<Longrightarrow> ident a \<in> ident ` set es \<Longrightarrow> a \<in> set es" for a
    using dist by (auto simp: image_iff)
  have step: "(j, ident e) \<in> ?G\<^sup>+ \<longleftrightarrow> (\<exists>p \<in> set (deps e). (j, p) \<in> ?G\<^sup>*)" for j
  proof -
    have "(p, ident e) \<in> ?G \<longleftrightarrow> p \<in> set (deps e)" for p
    proof
      assume "(p, ident e) \<in> ?G"
      then have "\<exists>x \<in> set (es @ e # fs). ident x = ident e \<and> p \<in> set (deps x)"
        by (fastforce simp: dep_edges_def)
      then obtain x where x: "x \<in> set (es @ e # fs)" "ident x = ident e" "p \<in> set (deps x)"
        by blast
      moreover note dist
      ultimately have "x = e" by (metis distinct_map in_set_conv_decomp inj_onD)
      with x show "p \<in> set (deps e)" by simp
    qed (auto simp: dep_edges_def)
    then show ?thesis by (auto simp: trancl_unfold_right)
  qed
  have anc: "(j, p) \<in> ?G\<^sup>* \<longleftrightarrow> (j, p) \<in> ?E\<^sup>*" if "p \<in> set (deps e)" for j p
    using ancestors_append [OF assms] ord(2) that by auto
  have inside: "j \<in> ident ` set es" if "p \<in> set (deps e)" "(j, p) \<in> ?E\<^sup>*" for j p
    using that(2) by (rule converse_rtranclE) (use that(1) ord ordered_sources [OF ord(1)] in auto)
  have "set (deps e) \<subseteq> succeeded es \<longleftrightarrow>
      (\<forall>p \<in> set (deps e). \<forall>a \<in> set es. (ident a, p) \<in> ?E\<^sup>* \<longrightarrow> permit a)"
    using succeeded_iff [OF ord(1)] ord(2) by blast
  also have "\<dots> \<longleftrightarrow> (\<forall>a \<in> set (es @ e # fs). (ident a, ident e) \<in> ?G\<^sup>+ \<longrightarrow> permit a)"
    unfolding step using anc inside early by (metis Un_iff set_append)
  finally show ?thesis .
qed

end

subsection \<open>The three tracks of the replay\<close>

definition baseline_permit :: "ScenarioEvent \<Rightarrow> bool" where
  "baseline_permit e \<longleftrightarrow> fst (lv_value (se_control_assumption e)) \<and> snd (lv_value (se_control_assumption e))"

definition permits :: "DecisionRecord res \<Rightarrow> bool" where
  "permits m = (case m of Inl _ \<Rightarrow> False | Inr r \<Rightarrow> dr_outcome r = PERMIT)"

definition signed_permit :: "ScenarioEvent \<Rightarrow> bool" where
  "signed_permit e = permits (decide_signed e)"

definition local_permit :: "ReductionProfile \<Rightarrow> ScenarioEvent \<Rightarrow> bool" where
  "local_permit profile e = permits (decide_local profile e)"

text \<open>The events that succeeded on a track after a list of events.\<close>

definition track :: "(ScenarioEvent \<Rightarrow> bool) \<Rightarrow> ScenarioEvent list \<Rightarrow> pstr set" where
  "track permit es = fold (\<lambda>e s. if all_in (se_depends_on e) s \<and> permit e
     then insert (se_event_id e) s else s) es {}"

lemma all_in_iff: "all_in ps s \<longleftrightarrow> set ps \<subseteq> s"
  by (auto simp: all_in_def list_all_iff)

lemma track_snoc:
  "track permit (es @ [e]) = (if set (se_depends_on e) \<subseteq> track permit es \<and> permit e
     then insert (se_event_id e) (track permit es) else track permit es)"
  by (simp add: track_def all_in_iff)

interpretation baseline_track: dependency_track se_event_id se_depends_on baseline_permit "track baseline_permit"
  by unfold_locales (simp_all only: track_snoc, simp add: track_def)

interpretation signed_track: dependency_track se_event_id se_depends_on signed_permit "track signed_permit"
  by unfold_locales (simp_all only: track_snoc, simp add: track_def)

interpretation local_track: dependency_track se_event_id se_depends_on "local_permit profile"
    "track (local_permit profile)" for profile
  by unfold_locales (simp_all only: track_snoc, simp add: track_def)

lemma track_mono:
  assumes "\<And>e. e \<in> set es \<Longrightarrow> permit e \<Longrightarrow> permit' e"
  shows "track permit es \<subseteq> track permit' es"
  using assms by (induction es rule: rev_induct) (auto simp: track_snoc, simp add: track_def)

lemma wf_events_ordered: "wf_events seen es \<Longrightarrow> ordered se_event_id se_depends_on seen es"
  by (induction es arbitrary: seen) auto

lemma wf_events_wf: "wf_events seen es \<Longrightarrow> e \<in> set es \<Longrightarrow> wf_event e"
  by (induction es arbitrary: seen) auto

text \<open>The decision the replay appends for an event that follows the events \<open>es\<close>.\<close>

definition paired :: "ReductionProfile \<Rightarrow> ScenarioEvent list \<Rightarrow> ScenarioEvent \<Rightarrow> PairedDecision \<Rightarrow> bool" where
  "paired profile es e d \<longleftrightarrow> pd_event_id d = se_event_id e
     \<and> decide_signed e = Inr (pd_signed_state_only d)
     \<and> decide_local profile e = Inr (pd_signed_plus_local_reduce d)
     \<and> pd_baseline_permit d = baseline_permit e
     \<and> pd_baseline_reachable d = (set (se_depends_on e) \<subseteq> track baseline_permit es)
     \<and> pd_signed_state_only_reachable d = (set (se_depends_on e) \<subseteq> track signed_permit es)
     \<and> pd_signed_plus_local_reduce_reachable d
         = (set (se_depends_on e) \<subseteq> track (local_permit profile) es)"

definition replayed :: "ReductionProfile \<Rightarrow> ScenarioEvent list \<Rightarrow> ReplayState \<Rightarrow> bool" where
  "replayed profile es st \<longleftrightarrow>
     rs_baseline_success st = track baseline_permit es \<and> rs_signed_success st = track signed_permit es
     \<and> rs_local_success st = track (local_permit profile) es \<and> rs_seen st = se_event_id ` set es
     \<and> length (rs_decisions st) = length es
     \<and> (\<forall>i < length es. paired profile (take i es) (es ! i) (rs_decisions st ! i))"

lemma replayed_start: "replayed profile [] replay_start"
  by (simp add: replayed_def replay_start_def track_def)

lemma decide_event_ok:
  assumes "wf_event e" "wf_ReductionProfile profile"
  obtains s l where "decide_signed e = Inr s" "dr_mode s = SIGNED_STATE_ONLY"
    "decide_local profile e = Inr l" "dr_mode l = SIGNED_PLUS_LOCAL_REDUCE"
proof -
  have wf: "wf_ActionRequest (se_request e)" "wf_CompositeState (lv_value (se_state_assumption e))"
    "wf_evidence (Some (lv_value (se_local_evidence_assumption e))) (Some profile)"
    using assms by (simp_all add: wf_event_def)
  obtain s where "decide_signed e = Inr s" "dr_mode s = SIGNED_STATE_ONLY"
    unfolding decide_signed_def by (rule decide_ok [OF wf(1,2) wf_evidence_simps(1)])
  moreover obtain l where "decide_local profile e = Inr l" "dr_mode l = SIGNED_PLUS_LOCAL_REDUCE"
    unfolding decide_local_def by (rule decide_ok [OF wf])
  ultimately show thesis by (rule that)
qed

lemma replay_step_replayed:
  assumes "replayed profile es st" "wf_event e" "wf_ReductionProfile profile"
    "se_event_id e \<notin> se_event_id ` set es" "set (se_depends_on e) \<subseteq> se_event_id ` set es"
  shows "\<exists>st'. replay_step profile st e = Inr st' \<and> replayed profile (es @ [e]) st'"
proof -
  obtain s l where sl: "decide_signed e = Inr s" "dr_mode s = SIGNED_STATE_ONLY"
    "decide_local profile e = Inr l" "dr_mode l = SIGNED_PLUS_LOCAL_REDUCE"
    by (rule decide_event_ok [OF assms(2,3)])
  have v: "validate_event_evidence e = Inr ()" "nonblank (se_event_id e)"
    using assms(2) by (auto simp: validate_event_evidence_def wf_event_def)
  have p: "signed_permit e = (dr_outcome s = PERMIT)" "local_permit profile e = (dr_outcome l = PERMIT)"
    by (simp_all add: signed_permit_def local_permit_def permits_def sl)
  let ?deps = "set (se_depends_on e)"
  let ?d = "\<lparr>pd_event_id = se_event_id e, pd_baseline_permit = baseline_permit e,
    pd_baseline_reachable = (?deps \<subseteq> track baseline_permit es), pd_signed_state_only = s,
    pd_signed_state_only_reachable = (?deps \<subseteq> track signed_permit es),
    pd_signed_plus_local_reduce = l,
    pd_signed_plus_local_reduce_reachable = (?deps \<subseteq> track (local_permit profile) es),
    pd_evidence_class = MODELED\<rparr>"
  let ?st = "\<lparr>rs_decisions = rs_decisions st @ [?d],
    rs_baseline_success = track baseline_permit (es @ [e]),
    rs_signed_success = track signed_permit (es @ [e]),
    rs_local_success = track (local_permit profile) (es @ [e]),
    rs_seen = insert (se_event_id e) (se_event_id ` set es)\<rparr>"
  have sets: "rs_baseline_success st = track baseline_permit es" "rs_signed_success st = track signed_permit es"
    "rs_local_success st = track (local_permit profile) es" "rs_seen st = se_event_id ` set es"
    and dec: "length (rs_decisions st) = length es"
    "\<And>i. i < length es \<Longrightarrow> paired profile (take i es) (es ! i) (rs_decisions st ! i)"
    using assms(1) by (auto simp: replayed_def)
  have "replay_step profile st e = Inr ?st"
    using assms(4,5) v sl
    by (simp add: replay_step_def Let_def sets all_in_iff make_PairedDecision_def track_snoc p
        baseline_permit_def [of e, symmetric])
  moreover have "paired profile es e ?d"
    using sl by (simp add: paired_def)
  then have "replayed profile (es @ [e]) ?st"
    using dec by (auto simp: replayed_def nth_append less_Suc_eq)
  ultimately show ?thesis by blast
qed

lemma replay_fold:
  assumes "replayed profile es st" "wf_events (se_event_id ` set es) fs" "wf_ReductionProfile profile"
  shows "\<exists>st'. fold_r (replay_step profile) st fs = Inr st' \<and> replayed profile (es @ fs) st'"
  using assms(1,2)
proof (induction fs arbitrary: es st)
  case (Cons f fs)
  then obtain st1 where st1: "replay_step profile st f = Inr st1" "replayed profile (es @ [f]) st1"
    using replay_step_replayed [OF Cons.prems(1) _ assms(3), of f] by auto
  have "wf_events (se_event_id ` set (es @ [f])) fs" using Cons.prems(2) by simp
  from Cons.IH [OF st1(2) this] st1(1) show ?case by simp
qed simp

lemma replay_result:
  assumes "wf_scenario s" "wf_ReductionProfile profile"
  obtains r where "replay s profile = Inr r" "rr_scenario_id r = sc_scenario_id s"
    "length (rr_decisions r) = length (sc_events s)" "rr_evidence_class r = MODELED"
    "\<forall>i < length (sc_events s). paired profile (take i (sc_events s)) (sc_events s ! i) (rr_decisions r ! i)"
proof -
  have "wf_events (se_event_id ` set []) (sc_events s)" using assms(1) by (simp add: wf_scenario_def)
  from replay_fold [OF replayed_start this assms(2)]
  obtain st where st: "fold_r (replay_step profile) replay_start (sc_events s) = Inr st"
    "replayed profile (sc_events s) st" by auto
  have "rs_decisions st \<noteq> []" using st(2) assms(1) by (auto simp: replayed_def wf_scenario_def)
  with st assms(1) show thesis
    by (intro that [of "\<lparr>rr_scenario_id = sc_scenario_id s, rr_decisions = rs_decisions st,
        rr_evidence_class = MODELED\<rparr>"])
      (simp_all add: replay_def make_ReplayReport_def wf_scenario_def replayed_def)
qed

subsection \<open>Properties\<close>

lemma paired_at:
  assumes "wf_scenario s" "wf_ReductionProfile profile" "replay s profile = Inr r" "i < length (sc_events s)"
  shows "paired profile (take i (sc_events s)) (sc_events s ! i) (rr_decisions r ! i)"
  by (rule replay_result [OF assms(1,2)]) (use assms(3,4) in auto)

lemma reachable_ancestors:
  assumes "wf_scenario s" "i < length (sc_events s)"
    and "dependency_track se_event_id se_depends_on permit succeeded"
  shows "set (se_depends_on (sc_events s ! i)) \<subseteq> succeeded (take i (sc_events s)) \<longleftrightarrow>
    (\<forall>a \<in> set (sc_events s). (se_event_id a, se_event_id (sc_events s ! i))
       \<in> (dep_edges se_event_id se_depends_on (sc_events s))\<^sup>+ \<longrightarrow> permit a)"
proof -
  have split: "take i (sc_events s) @ sc_events s ! i # drop (Suc i) (sc_events s) = sc_events s"
    using assms(2) by (simp add: id_take_nth_drop [symmetric])
  have "ordered se_event_id se_depends_on {}
      (take i (sc_events s) @ sc_events s ! i # drop (Suc i) (sc_events s))"
    unfolding split using assms(1) by (simp add: wf_scenario_def wf_events_ordered)
  from dependency_track.reachable_iff [OF assms(3) this] show ?thesis unfolding split .
qed

text \<open>
  Claim C6: the strict loader's output replays. On every scenario the loader accepts and
  every profile that passes its constructor's checks, the replay never raises: it returns a
  report of the scenario, with one modeled decision per event, in the events' order, each
  holding the engine's two decisions on that event's request.
\<close>
theorem replay_of_loaded_total:
  assumes "load_scenario netloc_ok limit source = Inr s" "wf_ReductionProfile profile"
  shows "\<exists>r. replay s profile = Inr r \<and> rr_scenario_id r = sc_scenario_id s
     \<and> map pd_event_id (rr_decisions r) = map se_event_id (sc_events s)
     \<and> (\<forall>i < length (sc_events s).
          decide_signed (sc_events s ! i) = Inr (pd_signed_state_only (rr_decisions r ! i))
        \<and> decide_local profile (sc_events s ! i) = Inr (pd_signed_plus_local_reduce (rr_decisions r ! i)))"
proof -
  have wf: "wf_scenario s"
  proof -
    obtain raw vs where vs: "PList vs \<noteq> PList []" "nonblank (sc_scenario_id s)"
      "load_events (sc_primary_source s) {} vs = Inr (sc_events s)"
      by (rule load_scenario_cases [OF assms(1)]) blast
    then show ?thesis
      using load_events_wf [OF vs(3)] load_events_length [OF vs(3)]
      by (cases vs) (auto simp: wf_scenario_def)
  qed
  obtain r where r: "replay s profile = Inr r" "rr_scenario_id r = sc_scenario_id s"
    "length (rr_decisions r) = length (sc_events s)"
    "\<forall>i < length (sc_events s). paired profile (take i (sc_events s)) (sc_events s ! i) (rr_decisions r ! i)"
    by (rule replay_result [OF wf assms(2)]) blast
  have "map pd_event_id (rr_decisions r) = map se_event_id (sc_events s)"
    using r(3,4) by (auto intro!: nth_equalityI simp: paired_def)
  with r show ?thesis by (auto simp: paired_def)
qed

theorem replay_of_loaded_total_witness:
  "\<exists>s r. load_scenario (\<lambda>_. False) 1000 (SourceValue sample_scenario_value) = Inr s
     \<and> replay s sample_profile = Inr r \<and> length (rr_decisions r) = length (sc_events s)"
proof -
  obtain s where s: "load_scenario (\<lambda>_. False) 1000 (SourceValue sample_scenario_value) = Inr s"
    using sample_scenario_loads by (auto simp: is_ok_iff)
  from replay_of_loaded_total [OF s sample_wf(4)] s show ?thesis
    by (metis length_map)
qed

text \<open>
  Claim C4: reachability is the closure of the dependency graph. In the replay of a
  well-formed scenario, an event is reachable on a track exactly when every proper ancestor
  of it, through any number of dependencies, is permitted on that track: by the baseline
  controls, by the signed state, or by the signed state with local reduction.
\<close>
theorem replay_reachable_iff:
  assumes "wf_scenario s" "wf_ReductionProfile profile" "replay s profile = Inr r"
    and "i < length (sc_events s)"
  shows "(pd_baseline_reachable (rr_decisions r ! i) \<longleftrightarrow>
      (\<forall>a \<in> set (sc_events s). (se_event_id a, se_event_id (sc_events s ! i))
        \<in> (dep_edges se_event_id se_depends_on (sc_events s))\<^sup>+ \<longrightarrow> baseline_permit a))
    \<and> (pd_signed_state_only_reachable (rr_decisions r ! i) \<longleftrightarrow>
      (\<forall>a \<in> set (sc_events s). (se_event_id a, se_event_id (sc_events s ! i))
        \<in> (dep_edges se_event_id se_depends_on (sc_events s))\<^sup>+ \<longrightarrow> signed_permit a))
    \<and> (pd_signed_plus_local_reduce_reachable (rr_decisions r ! i) \<longleftrightarrow>
      (\<forall>a \<in> set (sc_events s). (se_event_id a, se_event_id (sc_events s ! i))
        \<in> (dep_edges se_event_id se_depends_on (sc_events s))\<^sup>+ \<longrightarrow> local_permit profile a))"
  using paired_at [OF assms]
    reachable_ancestors [OF assms(1,4) baseline_track.dependency_track_axioms]
    reachable_ancestors [OF assms(1,4) signed_track.dependency_track_axioms]
    reachable_ancestors [OF assms(1,4) local_track.dependency_track_axioms [of profile]]
  by (simp add: paired_def)

lemma local_permit_signed: "wf_event e \<Longrightarrow> wf_ReductionProfile profile \<Longrightarrow> local_permit profile e \<Longrightarrow> signed_permit e"
proof -
  assume e: "wf_event e" and p: "wf_ReductionProfile profile" and l: "local_permit profile e"
  obtain s l' where sl: "decide_signed e = Inr s" "decide_local profile e = Inr l'"
    by (rule decide_event_ok [OF e p])
  have wf: "wf_ActionRequest (se_request e)" "wf_CompositeState (lv_value (se_state_assumption e))"
    "wf_evidence (Some (lv_value (se_local_evidence_assumption e))) (Some profile)"
    using e p by (simp_all add: wf_event_def)
  from local_mode_reduces [OF wf sl(1) [unfolded decide_signed_def] sl(2) [unfolded decide_local_def]]
    l sl show ?thesis by (simp add: local_permit_def signed_permit_def permits_def)
qed

text \<open>
  Claim C5: the locally reduced track stays inside the signed track. In the replay of a
  well-formed scenario, an event the reduced mode reaches is reached by the signed state
  alone, and an event it reaches and permits is reached and permitted there.
\<close>
theorem replay_local_within_signed:
  assumes "wf_scenario s" "wf_ReductionProfile profile" "replay s profile = Inr r"
    and "d \<in> set (rr_decisions r)"
  shows "(pd_signed_plus_local_reduce_reachable d \<longrightarrow> pd_signed_state_only_reachable d)
     \<and> (dr_outcome (pd_signed_plus_local_reduce d) = PERMIT \<longrightarrow> dr_outcome (pd_signed_state_only d) = PERMIT)"
proof -
  obtain i where i: "i < length (sc_events s)" "d = rr_decisions r ! i"
    by (rule replay_result [OF assms(1,2)]) (use assms(3,4) in \<open>auto simp: in_set_conv_nth\<close>)
  note p = paired_at [OF assms(1-3) i(1)]
  have wf: "e \<in> set (sc_events s) \<Longrightarrow> wf_event e" for e
    using assms(1) wf_events_wf by (auto simp: wf_scenario_def)
  have "track (local_permit profile) (take i (sc_events s)) \<subseteq> track signed_permit (take i (sc_events s))"
    by (rule track_mono) (use wf local_permit_signed assms(2) in \<open>auto dest: in_set_takeD\<close>)
  moreover have "local_permit profile (sc_events s ! i) \<longrightarrow> signed_permit (sc_events s ! i)"
    using wf local_permit_signed assms(2) i(1) by simp
  ultimately show ?thesis
    using p i(2) by (auto simp: paired_def local_permit_def signed_permit_def permits_def)
qed

text \<open>Two events, the second of which depends on the first and is vetoed.\<close>

definition sample_event :: "string \<Rightarrow> string list \<Rightarrow> bool \<Rightarrow> ScenarioEvent" where
  "sample_event eid deps clear = \<lparr>se_event_id = u eid, se_phase = 1,
     se_request = sample_request\<lparr>ar_request_id := u eid\<rparr>,
     se_observed_summary = \<lparr>lv_value = u ''s'', lv_evidence_class = OBSERVED,
       lv_source_ref = PStr (u ''p''), lv_rationale = PNone, lv_run_id = PNone\<rparr>,
     se_control_assumption = \<lparr>lv_value = (True, True), lv_evidence_class = MODELED,
       lv_source_ref = PNone, lv_rationale = PStr (u ''r''), lv_run_id = PNone\<rparr>,
     se_depends_on = map u deps,
     se_state_assumption = \<lparr>lv_value = sample_state\<lparr>cs_veto_clear := clear\<rparr>, lv_evidence_class = MODELED,
       lv_source_ref = PNone, lv_rationale = PStr (u ''r''), lv_run_id = PNone\<rparr>,
     se_local_evidence_assumption = \<lparr>lv_value = sample_evidence, lv_evidence_class = MODELED,
       lv_source_ref = PNone, lv_rationale = PStr (u ''r''), lv_run_id = PNone\<rparr>\<rparr>"

definition sample_scenario :: Scenario where
  "sample_scenario = \<lparr>sc_schema_version = u SCENARIO_SCHEMA, sc_scenario_id = u ''demo'',
     sc_primary_source = u ''https://example.org'',
     sc_events = [sample_event ''e1'' [] False, sample_event ''e2'' [''e1''] True]\<rparr>"

lemma sample_scenario_wf: "wf_scenario sample_scenario"
  using sample_wf
  by (simp add: sample_scenario_def wf_scenario_def sample_event_def wf_event_def u_eq_iff is_space_def
      wf_ActionRequest_def wf_CompositeState_def sample_request_def sample_state_def)

lemma sample_scenario_replays: "\<exists>r. replay sample_scenario sample_profile = Inr r \<and> rr_decisions r \<noteq> []"
  by (rule replay_result [OF sample_scenario_wf sample_wf(4)]) (auto simp: sample_scenario_def)

theorem replay_reachable_iff_witness:
  "\<exists>r. replay sample_scenario sample_profile = Inr r \<and> (pd_signed_state_only_reachable (rr_decisions r ! 1) \<longleftrightarrow>
      (\<forall>a \<in> set (sc_events sample_scenario). (se_event_id a, se_event_id (sc_events sample_scenario ! 1))
        \<in> (dep_edges se_event_id se_depends_on (sc_events sample_scenario))\<^sup>+ \<longrightarrow> signed_permit a))"
proof -
  have "1 < length (sc_events sample_scenario)" by (simp add: sample_scenario_def)
  then show ?thesis
    using sample_scenario_replays replay_reachable_iff [OF sample_scenario_wf sample_wf(4)] by blast
qed

theorem replay_local_within_signed_witness:
  "\<exists>r d. replay sample_scenario sample_profile = Inr r \<and> d \<in> set (rr_decisions r)
     \<and> (pd_signed_plus_local_reduce_reachable d \<longrightarrow> pd_signed_state_only_reachable d)"
  using sample_scenario_replays replay_local_within_signed [OF sample_scenario_wf sample_wf(4)]
  by (metis list.set_sel(1))

end
