(* ===== verification/PyBytes.thy ===== *)
theory PyBytes
  imports PyText
begin

unbundle bit_operations_syntax

text \<open>
  The byte-level services of Python's standard library the code relies on: hexadecimal
  text, URL-safe base64 (\<^verbatim>\<open>urlsafe_b64encode\<close> without its padding, \<^verbatim>\<open>b64decode\<close> with
  \<^verbatim>\<open>validate=True\<close> and the alternative alphabet) with its round trip, and SHA-256.
\<close>

subsection \<open>Hexadecimal text\<close>

definition hex_char :: "nat \<Rightarrow> nat" where
  "hex_char n = (if n < 10 then 48 + n else 87 + n)"

definition hex_text :: "bytes \<Rightarrow> pstr" where
  "hex_text bs = concat (map (\<lambda>b. [hex_char (unat b div 16), hex_char (unat b mod 16)]) bs)"

lemma hex_char_is_hex: "n < 16 \<Longrightarrow> is_hex (hex_char n)"
  by (auto simp: hex_char_def is_hex_def is_digit_def)

lemma unat_byte_less: "unat (b :: 8 word) < 256"
  using unsigned_less [of b] by simp

lemma digits_less: "(x :: nat) < m \<Longrightarrow> y < k \<Longrightarrow> x * k + y < m * k"
proof -
  assume h: "x < m" "y < k"
  then have "x * k + y < Suc x * k" by simp
  also have "\<dots> \<le> m * k" by (rule mult_le_mono1) (use h in simp)
  finally show ?thesis .
qed

lemma hex_text_props: "length (hex_text bs) = 2 * length bs" "list_all is_hex (hex_text bs)"
proof -
  show "length (hex_text bs) = 2 * length bs"
    by (induction bs) (simp_all add: hex_text_def)
  have "unat b div 16 < 16" for b :: "8 word"
    using unat_byte_less [of b] by auto
  then show "list_all is_hex (hex_text bs)"
    by (induction bs) (simp_all add: hex_text_def hex_char_is_hex)
qed

subsection \<open>Base64\<close>

definition b64_char :: "nat \<Rightarrow> nat" where
  "b64_char n = (if n < 26 then 65 + n else if n < 52 then 71 + n else if n < 62 then n - 4
     else if n = 62 then 45 else 95)"

text \<open>The decoder accepts the alternative characters and the standard ones they replace.\<close>

definition b64_value :: "nat \<Rightarrow> nat option" where
  "b64_value c = (if is_upper c then Some (c - 65) else if is_lower c then Some (c - 71)
     else if is_digit c then Some (c + 4) else if c = 45 \<or> c = 43 then Some 62
     else if c = 95 \<or> c = 47 then Some 63 else None)"

fun b64_groups :: "nat list \<Rightarrow> nat list" where
  "b64_groups [] = []"
| "b64_groups [a] = [a div 4, a mod 4 * 16]"
| "b64_groups [a, b] = [a div 4, a mod 4 * 16 + b div 16, b mod 16 * 4]"
| "b64_groups (a # b # c # r) =
     a div 4 # (a mod 4 * 16 + b div 16) # (b mod 16 * 4 + c div 64) # c mod 64 # b64_groups r"

definition b64url_encode :: "bytes \<Rightarrow> pstr" where
  "b64url_encode bs = map b64_char (b64_groups (map unat bs))"

definition b64_quad :: "nat \<Rightarrow> nat \<Rightarrow> nat \<Rightarrow> nat \<Rightarrow> nat list option" where
  "b64_quad a b c d =
     (case (b64_value a, b64_value b, b64_value c, b64_value d) of
        (Some w, Some x, Some y, Some z) \<Rightarrow>
          Some [w * 4 + x div 16, x mod 16 * 16 + y div 4, y mod 4 * 64 + z]
      | _ \<Rightarrow> None)"

text \<open>\<^verbatim>\<open>b64decode(text, altchars=b"-_", validate=True)\<close>; 61 is the padding character.\<close>

fun b64_bytes :: "pstr \<Rightarrow> nat list option" where
  "b64_bytes [] = Some []"
| "b64_bytes (a # b # c # d # r) =
     (if r = [] \<and> c = 61 \<and> d = 61 then
        (case (b64_value a, b64_value b) of
           (Some w, Some x) \<Rightarrow> Some [w * 4 + x div 16] | _ \<Rightarrow> None)
      else if r = [] \<and> d = 61 then
        (case (b64_value a, b64_value b, b64_value c) of
           (Some w, Some x, Some y) \<Rightarrow> Some [w * 4 + x div 16, x mod 16 * 16 + y div 4] | _ \<Rightarrow> None)
      else (case b64_quad a b c d of
              None \<Rightarrow> None
            | Some q \<Rightarrow> map_option ((@) q) (b64_bytes r)))"
| "b64_bytes _ = None"

definition b64decode :: "pstr \<Rightarrow> bytes res" where
  "b64decode s = (case b64_bytes s of
     None \<Rightarrow> Inl (ValueError ''Incorrect base64 text'') | Some ns \<Rightarrow> Inr (map word_of_nat ns))"

text \<open>\<^verbatim>\<open>"=" * (-len(value) % 4)\<close>.\<close>

definition b64_padding :: "pstr \<Rightarrow> pstr" where
  "b64_padding s = replicate ((4 - length s mod 4) mod 4) 61"

lemma b64_value_char: "n < 64 \<Longrightarrow> b64_value (b64_char n) = Some n"
  by (auto simp: b64_value_def b64_char_def is_upper_def is_lower_def is_digit_def)

lemma b64_char_not_pad: "n < 64 \<Longrightarrow> b64_char n \<noteq> 61"
  by (auto simp: b64_char_def)

lemma b64_padding_step: "b64_padding (a # b # c # d # r) = b64_padding r"
  by (simp add: b64_padding_def)

lemma b64_bounds:
  assumes "a < (256 :: nat)" "b < (256 :: nat)" "c < (256 :: nat)"
  shows "a div 4 < 64" "a mod 4 * 16 + b div 16 < 64" "b mod 16 * 4 + c div 64 < 64"
    "c mod 64 < 64" "a mod 4 * 16 < 64" "b mod 16 * 4 < 64" "b div 16 < 16" "c div 64 < 4"
proof -
  show d: "a div 4 < 64" "b div 16 < 16" "c div 64 < 4" "c mod 64 < 64"
    using assms by (simp_all add: div_less_iff_less_mult)
  have m: "a mod 4 < 4" "b mod 16 < 16" by simp_all
  show "a mod 4 * 16 + b div 16 < 64" using digits_less [OF m(1) d(2)] by simp
  show "b mod 16 * 4 + c div 64 < 64" using digits_less [OF m(2) d(3)] by simp
  show "a mod 4 * 16 < 64" "b mod 16 * 4 < 64" using m by linarith+
qed

lemma b64_join:
  assumes "b div 16 < (16 :: nat)" "c div 64 < (4 :: nat)"
  shows "a div 4 * 4 + (a mod 4 * 16 + b div 16) div 16 = a"
    "(a mod 4 * 16 + b div 16) mod 16 * 16 + (b mod 16 * 4 + c div 64) div 4 = b"
    "(b mod 16 * 4 + c div 64) mod 4 * 64 + c mod 64 = c"
    "a div 4 * 4 + a mod 4 * 16 div 16 = a"
    "(a mod 4 * 16 + b div 16) mod 16 * 16 + b mod 16 * 4 div 4 = b"
  using assms by simp_all

lemma b64_quad_chars:
  assumes "a < 256" "b < 256" "c < 256"
  shows "b64_quad (b64_char (a div 4)) (b64_char (a mod 4 * 16 + b div 16))
    (b64_char (b mod 16 * 4 + c div 64)) (b64_char (c mod 64)) = Some [a, b, c]"
  by (simp only: b64_quad_def b64_value_char b64_bounds [OF assms] option.case prod.case
      b64_join [OF b64_bounds(7,8) [OF assms]])

lemma b64_round_trip_nat:
  "list_all (\<lambda>n. n < 256) ns \<Longrightarrow>
   b64_bytes (map b64_char (b64_groups ns) @ b64_padding (map b64_char (b64_groups ns))) = Some ns"
proof (induction ns rule: b64_groups.induct)
  case 1
  then show ?case by (simp add: b64_padding_def)
next
  case (2 a)
  then have a: "a < 256" by simp
  have "b64_padding [x, y] = [61, 61]" for x y
    by (simp add: b64_padding_def numeral_2_eq_2)
  then show ?case
    by (simp only: b64_groups.simps list.map append.simps b64_bytes.simps b64_value_char
        b64_bounds [OF a a a] option.case prod.case b64_join(4) [OF b64_bounds(7,8) [OF a a a]]
        simp_thms if_True)
next
  case (3 a b)
  then have ab: "a < 256" "b < 256" by simp_all
  have "b64_padding [x, y, z] = [61]" for x y z
    by (simp add: b64_padding_def)
  then show ?case
    by (simp only: b64_groups.simps list.map append.simps b64_bytes.simps b64_value_char
        b64_bounds [OF ab ab(2)] b64_char_not_pad option.case prod.case
        b64_join(1,5) [OF b64_bounds(7,8) [OF ab ab(2)]] simp_thms if_True if_False)
next
  case (4 a b c r)
  then have abc: "a < 256" "b < 256" "c < 256" by auto
  have "c mod 64 < 64" by simp
  then have np: "b64_char (c mod 64) \<noteq> 61" by (rule b64_char_not_pad)
  show ?case
    using 4 np b64_quad_chars [OF abc] by (simp add: b64_padding_step)
qed

lemma list_all_unat_byte: "list_all (\<lambda>n. n < 256) (map unat (bs :: bytes))"
  by (auto simp: list_all_iff unat_byte_less)

theorem b64_round_trip:
  "b64decode (b64url_encode bs @ b64_padding (b64url_encode bs)) = Inr bs"
proof -
  have "map word_of_nat (map unat bs) = bs" by (induction bs) simp_all
  then show ?thesis
    using b64_round_trip_nat [OF list_all_unat_byte [of bs]]
    by (simp add: b64decode_def b64url_encode_def)
qed

text \<open>The characters of encoded text: letters, digits, hyphen and underscore.\<close>

definition is_b64url :: "nat \<Rightarrow> bool" where
  "is_b64url c \<longleftrightarrow> is_alnum c \<or> c = 45 \<or> c = 95"

lemma b64_char_is_b64url: "n < 64 \<Longrightarrow> is_b64url (b64_char n)"
  by (auto simp: b64_char_def is_b64url_def char_classes)

lemma b64_groups_bound: "list_all (\<lambda>n. n < 256) ns \<Longrightarrow> list_all (\<lambda>n. n < 64) (b64_groups ns)"
proof (induction ns rule: b64_groups.induct)
  case (2 a)
  then show ?case using b64_bounds(1,5) [of a a a] by simp
next
  case (3 a b)
  then show ?case using b64_bounds(1,2,6) [of a b b] by simp
next
  case (4 a b c r)
  then show ?case using b64_bounds(1-4) [of a b c] by simp
qed simp

lemma b64url_chars: "list_all is_b64url (b64url_encode bs)"
  using b64_groups_bound [OF list_all_unat_byte [of bs]]
  by (auto simp: b64url_encode_def list_all_iff b64_char_is_b64url)

lemma is_b64url_ascii: "is_b64url c \<Longrightarrow> c < 128 \<and> c \<noteq> 46"
  by (auto simp: is_b64url_def char_classes)

lemma b64url_encode_eq_Nil [simp]: "b64url_encode bs = [] \<longleftrightarrow> bs = []"
proof (cases bs)
  case (Cons b r)
  then show ?thesis
    by (cases r; cases "tl r") (auto simp: b64url_encode_def)
qed (simp add: b64url_encode_def)

subsection \<open>SHA-256\<close>

type_synonym w32 = "32 word"

definition sha_k :: "w32 list" where
  "sha_k =
     [0x428A2F98, 0x71374491, 0xB5C0FBCF, 0xE9B5DBA5, 0x3956C25B, 0x59F111F1,
      0x923F82A4, 0xAB1C5ED5, 0xD807AA98, 0x12835B01, 0x243185BE, 0x550C7DC3,
      0x72BE5D74, 0x80DEB1FE, 0x9BDC06A7, 0xC19BF174, 0xE49B69C1, 0xEFBE4786,
      0x0FC19DC6, 0x240CA1CC, 0x2DE92C6F, 0x4A7484AA, 0x5CB0A9DC, 0x76F988DA,
      0x983E5152, 0xA831C66D, 0xB00327C8, 0xBF597FC7, 0xC6E00BF3, 0xD5A79147,
      0x06CA6351, 0x14292967, 0x27B70A85, 0x2E1B2138, 0x4D2C6DFC, 0x53380D13,
      0x650A7354, 0x766A0ABB, 0x81C2C92E, 0x92722C85, 0xA2BFE8A1, 0xA81A664B,
      0xC24B8B70, 0xC76C51A3, 0xD192E819, 0xD6990624, 0xF40E3585, 0x106AA070,
      0x19A4C116, 0x1E376C08, 0x2748774C, 0x34B0BCB5, 0x391C0CB3, 0x4ED8AA4A,
      0x5B9CCA4F, 0x682E6FF3, 0x748F82EE, 0x78A5636F, 0x84C87814, 0x8CC70208,
      0x90BEFFFA, 0xA4506CEB, 0xBEF9A3F7, 0xC67178F2]"

definition sha_init :: "w32 list" where
  "sha_init = [0x6A09E667, 0xBB67AE85, 0x3C6EF372, 0xA54FF53A, 0x510E527F, 0x9B05688C, 0x1F83D9AB, 0x5BE0CD19]"

definition sha_ch :: "w32 \<Rightarrow> w32 \<Rightarrow> w32 \<Rightarrow> w32" where
  "sha_ch x y z = xor (x AND y) (NOT x AND z)"

definition sha_maj :: "w32 \<Rightarrow> w32 \<Rightarrow> w32 \<Rightarrow> w32" where
  "sha_maj x y z = xor (xor (x AND y) (x AND z)) (y AND z)"

definition sha_big0 :: "w32 \<Rightarrow> w32" where
  "sha_big0 x = xor (xor (word_rotr 2 x) (word_rotr 13 x)) (word_rotr 22 x)"

definition sha_big1 :: "w32 \<Rightarrow> w32" where
  "sha_big1 x = xor (xor (word_rotr 6 x) (word_rotr 11 x)) (word_rotr 25 x)"

definition sha_small0 :: "w32 \<Rightarrow> w32" where
  "sha_small0 x = xor (xor (word_rotr 7 x) (word_rotr 18 x)) (drop_bit 3 x)"

definition sha_small1 :: "w32 \<Rightarrow> w32" where
  "sha_small1 x = xor (xor (word_rotr 17 x) (word_rotr 19 x)) (drop_bit 10 x)"

text \<open>The message schedule, latest word first: 48 words are added to the block's sixteen.\<close>

fun sha_extend :: "nat \<Rightarrow> w32 list \<Rightarrow> w32 list" where
  "sha_extend 0 ws = ws"
| "sha_extend (Suc n) ws =
     sha_extend n ((sha_small1 (ws ! 1) + ws ! 6 + sha_small0 (ws ! 14) + ws ! 15) # ws)"

fun sha_round :: "w32 list \<Rightarrow> w32 \<times> w32 \<Rightarrow> w32 list" where
  "sha_round [a, b, c, d, e, f, g, h] (k, w) =
     (let t1 = h + sha_big1 e + sha_ch e f g + k + w; t2 = sha_big0 a + sha_maj a b c
      in [t1 + t2, a, b, c, d + t1, e, f, g])"
| "sha_round st _ = st"

definition sha_block :: "w32 list \<Rightarrow> w32 list \<Rightarrow> w32 list" where
  "sha_block st block =
     (let ws = rev (sha_extend 48 (rev block))
      in map2 (+) st (foldl sha_round st (zip sha_k ws)))"

fun sha_words :: "bytes \<Rightarrow> w32 list" where
  "sha_words (a # b # c # d # r) =
     (push_bit 24 (ucast a) OR push_bit 16 (ucast b) OR push_bit 8 (ucast c) OR ucast d) # sha_words r"
| "sha_words _ = []"

definition sha_pad :: "bytes \<Rightarrow> bytes" where
  "sha_pad m = (let n = length m in
     m @ [0x80] @ replicate ((119 - n mod 64) mod 64) 0 @
     map (\<lambda>i. word_of_nat (8 * n div 256 ^ (7 - i))) [0..<8])"

function sha_blocks :: "w32 list \<Rightarrow> w32 list \<Rightarrow> w32 list" where
  "sha_blocks st ws = (if ws = [] then st else sha_blocks (sha_block st (take 16 ws)) (drop 16 ws))"
  by pat_completeness auto
termination
  by (relation "measure (\<lambda>(st, ws). length ws)") auto

declare sha_blocks.simps [simp del]

definition sha_bytes :: "w32 \<Rightarrow> bytes" where
  "sha_bytes w = [ucast (drop_bit 24 w), ucast (drop_bit 16 w), ucast (drop_bit 8 w), ucast w]"

definition sha256 :: "bytes \<Rightarrow> bytes" where
  "sha256 m = concat (map sha_bytes (sha_blocks sha_init (sha_words (sha_pad m))))"

text \<open>\<^verbatim>\<open>sha256(data).hexdigest()\<close>.\<close>

definition sha256_hex :: "bytes \<Rightarrow> pstr" where
  "sha256_hex m = hex_text (sha256 m)"

lemma length_sha_round [simp]: "length (sha_round st kw) = length st"
  by (induction st kw rule: sha_round.induct) (simp_all add: Let_def)

lemma length_sha_rounds: "length (foldl sha_round st kws) = length st"
  by (induction kws arbitrary: st) simp_all

lemma length_sha_blocks: "length (sha_blocks st ws) = length st"
proof (induction st ws rule: sha_blocks.induct)
  case (1 st ws)
  show ?case
    by (subst sha_blocks.simps) (use 1 in \<open>simp add: sha_block_def Let_def length_sha_rounds\<close>)
qed

lemma length_sha256: "length (sha256 m) = 32"
proof -
  have "length (concat (map sha_bytes ws)) = 4 * length ws" for ws
    by (induction ws) (simp_all add: sha_bytes_def)
  then show ?thesis by (simp add: sha256_def length_sha_blocks sha_init_def)
qed

lemma sha256_hex64: "hex64 (sha256_hex m)"
  by (simp add: hex64_def sha256_hex_def hex_text_props length_sha256)

lemma hex64_ascii: "hex64 s \<Longrightarrow> list_all (\<lambda>c. c < 128) s"
  by (auto simp: hex64_def list_all_iff is_hex_def is_digit_def)

end
