(* ===== verification/KilCanonical.thy ===== *)
theory KilCanonical
  imports PyJsonRoundTrip PyBytes
begin

text \<open>
  \<^verbatim>\<open>src/kil/canonical.py\<close>: the normal form of a value (enum members become their values,
  decimals a tagged pair of coefficient and exponent, records and dictionaries objects,
  tuples lists), its canonical JSON text and its digest. The item counter of \<^verbatim>\<open>_Traversal\<close>
  is threaded through; the set of active identities only serves to reject cyclic values,
  which a value of the model cannot be.
\<close>

definition MAX_DEPTH :: nat where "MAX_DEPTH = 64"
definition MAX_ITEMS :: nat where "MAX_ITEMS = 10000"
definition MAX_OUTPUT_BYTES :: nat where "MAX_OUTPUT_BYTES = 1000000"
definition DECIMAL_TAG :: string where "DECIMAL_TAG = ''$kil.decimal''"
definition MAX_INTEGER_BITS :: nat where "MAX_INTEGER_BITS = 4096"

text \<open>\<^verbatim>\<open>int.bit_length\<close>.\<close>

fun nat_bits :: "nat \<Rightarrow> nat" where
  "nat_bits n = (if n = 0 then 0 else Suc (nat_bits (n div 2)))"

declare nat_bits.simps [simp del]

definition bit_length :: "int \<Rightarrow> nat" where
  "bit_length n = nat_bits (nat \<bar>n\<bar>)"

lemma nat_bits_le_iff: "nat_bits n \<le> k \<longleftrightarrow> n < 2 ^ k"
proof (induction n arbitrary: k rule: nat_bits.induct)
  case (1 n)
  show ?case
  proof (cases "n = 0")
    case True
    then show ?thesis by (simp add: nat_bits.simps [of 0])
  next
    case False
    then have bits: "nat_bits n = Suc (nat_bits (n div 2))" by (simp add: nat_bits.simps [of n])
    show ?thesis
    proof (cases k)
      case 0
      then show ?thesis using bits False by simp
    next
      case (Suc j)
      have "n div 2 < 2 ^ j \<longleftrightarrow> n < 2 ^ k" by (simp add: Suc div_less_iff_less_mult mult.commute)
      then show ?thesis using 1 [OF False, of j] bits Suc by simp
    qed
  qed
qed

definition size_exceeded :: pyexc where
  "size_exceeded = ValueError ''canonical output size limit exceeded''"

definition validate_string :: "pstr \<Rightarrow> unit res" where
  "validate_string s = (case utf8_encode s of
     Inl _ \<Rightarrow> Inl (ValueError ''canonical strings must contain only Unicode scalar values'')
   | Inr encoded \<Rightarrow> ensure (length encoded \<le> MAX_OUTPUT_BYTES) size_exceeded)"

text \<open>The loop that pops trailing zeros off a nonzero coefficient.\<close>

fun pop_zeros :: "nat \<Rightarrow> int \<Rightarrow> nat \<times> int" where
  "pop_zeros c e = (if c mod 10 = 0 \<and> c \<noteq> 0 then pop_zeros (c div 10) (e + 1) else (c, e))"

declare pop_zeros.simps [simp del]

fun decimal_parts :: "decimal \<Rightarrow> pstr \<times> int" where
  "decimal_parts (Fin s c e) =
     (if c = 0 then (u ''0'', 0)
      else case pop_zeros c e of (k, x) \<Rightarrow> ((if s then [45] else []) @ nat_digits k, x))"
| "decimal_parts _ = ([], 0)"

definition normalize_decimal :: "decimal \<Rightarrow> pyval res" where
  "normalize_decimal d =
     (if \<not> is_finite d then Inl (ValueError ''canonical values require a finite Decimal'')
      else case decimal_parts d of (coefficient, exponent) \<Rightarrow>
        if length coefficient > MAX_OUTPUT_BYTES then Inl size_exceeded
        else Inr (PDict [(PStr (u DECIMAL_TAG), PList [PStr coefficient, PInt exponent])]))"

lemma map_state_r_cong [fundef_cong]:
  "xs = ys \<Longrightarrow> s = t \<Longrightarrow> (\<And>x s. x \<in> set ys \<Longrightarrow> f x s = g x s) \<Longrightarrow> map_state_r f xs s = map_state_r g ys t"
proof (induction ys arbitrary: xs s t)
  case (Cons y ys)
  then show ?case by (auto intro!: bind_r_cong split: prod.splits)
qed simp

definition on_fst :: "('a \<Rightarrow> 'b) \<Rightarrow> ('a \<times> nat) res \<Rightarrow> ('b \<times> nat) res" where
  "on_fst f m = bind_r m (\<lambda>(x, n). Inr (f x, n))"

function normalize_value :: "pyval \<Rightarrow> nat \<Rightarrow> nat \<Rightarrow> (pyval \<times> nat) res" where
  "normalize_value v depth items =
     (if depth > MAX_DEPTH then Inl (ValueError ''canonical depth limit exceeded'')
      else if items + 1 > MAX_ITEMS then Inl (ValueError ''canonical item limit exceeded'')
      else case v of
        PEnum _ s \<Rightarrow> normalize_value (PStr s) (depth + 1) (items + 1)
      | PDec d \<Rightarrow> bind_r (normalize_decimal d) (\<lambda>n. Inr (n, items + 1))
      | PStr s \<Rightarrow> bind_r (validate_string s) (\<lambda>_. Inr (PStr s, items + 1))
      | PNone \<Rightarrow> Inr (PNone, items + 1)
      | PBool b \<Rightarrow> Inr (PBool b, items + 1)
      | PInt n \<Rightarrow> if bit_length n > MAX_INTEGER_BITS
          then Inl (ValueError ''canonical integer exceeds supported size'')
          else Inr (PInt n, items + 1)
      | PRec _ fs \<Rightarrow> on_fst PDict (map_state_r
            (\<lambda>kv i. on_fst (Pair (PStr (fst kv))) (normalize_value (snd kv) (depth + 1) i)) fs (items + 1))
      | PDict kvs \<Rightarrow>
          if \<not> list_all (\<lambda>kv. is_str (fst kv)) kvs
          then Inl (TypeError ''canonical dictionary keys must be strings'')
          else bind_r (map_r (\<lambda>kv. validate_string (key_text (fst kv))) kvs) (\<lambda>_.
            if PStr (u DECIMAL_TAG) \<in> set (map fst kvs)
            then Inl (ValueError ''dictionary key uses a reserved canonical type tag'')
            else on_fst PDict (map_state_r
              (\<lambda>kv i. on_fst (Pair (fst kv)) (normalize_value (snd kv) (depth + 1) i))
              (sort_items kvs) (items + 1)))
      | PList vs \<Rightarrow> on_fst PList
            (map_state_r (\<lambda>x i. normalize_value x (depth + 1) i) vs (items + 1))
      | PTuple vs \<Rightarrow> on_fst PList
            (map_state_r (\<lambda>x i. normalize_value x (depth + 1) i) vs (items + 1))
      | _ \<Rightarrow> Inl (TypeError ''unsupported canonical value''))"
  by pat_completeness auto
termination
  by (relation "measure (\<lambda>(v, depth, items). Suc MAX_DEPTH - depth)") auto

declare normalize_value.simps [simp del]

definition canonical_json :: "pyval \<Rightarrow> pstr res" where
  "canonical_json v =
     bind_r (normalize_value v 0 0) (\<lambda>(n, _).
     bind_r (json_dumps n) (\<lambda>text.
     bind_r (utf8_encode text) (\<lambda>encoded.
     bind_r (ensure (length encoded \<le> MAX_OUTPUT_BYTES) size_exceeded) (\<lambda>_. Inr text))))"

definition canonical_digest :: "pyval \<Rightarrow> pstr res" where
  "canonical_digest v =
     bind_r (canonical_json v) (\<lambda>text. bind_r (utf8_encode text) (\<lambda>bs. Inr (sha256_hex bs)))"

subsection \<open>Decimals: one text per number\<close>

lemma ndigits_pos: "0 < ndigits n"
  by (simp add: ndigits.simps [of n])

lemma ndigits_le_iff: "ndigits n \<le> k \<longleftrightarrow> k > 0 \<and> n < 10 ^ k"
proof (induction n arbitrary: k rule: ndigits.induct)
  case (1 n)
  show ?case
  proof (cases "n < 10")
    case True
    then have "0 < k \<Longrightarrow> n < 10 ^ k" using self_le_power [of "10::nat" k] by simp
    with True show ?thesis by (auto simp: ndigits.simps [of n])
  next
    case False
    show ?thesis
    proof (cases k)
      case 0
      then show ?thesis using ndigits_pos [of n] by simp
    next
      case (Suc j)
      have "ndigits n \<le> k \<longleftrightarrow> ndigits (n div 10) \<le> j" using False Suc by (simp add: ndigits.simps [of n])
      also have "\<dots> \<longleftrightarrow> 0 < j \<and> n div 10 < 10 ^ j" using 1 False by simp
      also have "\<dots> \<longleftrightarrow> n < 10 ^ k"
        using False Suc by (cases j) (auto simp: div_less_iff_less_mult mult.commute)
      finally show ?thesis using Suc by simp
    qed
  qed
qed

lemma pop_zeros_props:
  assumes "c \<noteq> 0"
  shows "\<exists>k x. pop_zeros c e = (k, x) \<and> k mod 10 \<noteq> 0 \<and> of_nat c * 10 powi e = (of_nat k * 10 powi x :: rat)
     \<and> e \<le> x \<and> x < e + int (ndigits c)"
  using assms
proof (induction c e rule: pop_zeros.induct)
  case (1 c e)
  show ?case
  proof (cases "c mod 10 = 0")
    case True
    then have c: "c = 10 * (c div 10)" "c div 10 \<noteq> 0" "\<not> c < 10" using 1(2) by auto
    then obtain k x where IH: "pop_zeros (c div 10) (e + 1) = (k, x)" "k mod 10 \<noteq> 0"
      "of_nat (c div 10) * 10 powi (e + 1) = (of_nat k * 10 powi x :: rat)"
      "e + 1 \<le> x" "x < e + 1 + int (ndigits (c div 10))"
      using 1 True by auto
    have "(of_nat c :: rat) = 10 * of_nat (c div 10)"
      by (subst c(1)) (simp only: of_nat_mult of_nat_numeral)
    then have "of_nat c * 10 powi e = (of_nat k * 10 powi x :: rat)"
      using IH(3) by (simp add: power_int_add)
    moreover have "ndigits c = Suc (ndigits (c div 10))" using c(3) by (simp add: ndigits.simps [of c])
    ultimately show ?thesis using IH True 1(2) by (simp add: pop_zeros.simps [of c])
  next
    case False
    then show ?thesis using ndigits_pos [of c] by (simp add: pop_zeros.simps [of c])
  qed
qed

lemma scaled_eq_le:
  assumes "of_nat k * 10 powi x = (of_nat l * 10 powi y :: rat)" "k mod 10 \<noteq> 0" "x \<le> y"
  shows "k = l \<and> x = y"
proof -
  obtain n where y: "y = x + int n" using assms(3) zle_iff_zadd by blast
  have "(of_nat k :: rat) = of_nat l * 10 ^ n"
    using assms(1) by (simp add: y power_int_add)
  then have k: "k = l * 10 ^ n" by (metis of_nat_eq_iff of_nat_mult of_nat_numeral of_nat_power)
  show ?thesis using assms(2) k y by (cases n) (auto simp: mult.assoc [symmetric])
qed

lemma scaled_eq:
  assumes "of_nat k * 10 powi x = (of_nat l * 10 powi y :: rat)" "k mod 10 \<noteq> 0" "l mod 10 \<noteq> 0"
  shows "k = l \<and> x = y"
  using scaled_eq_le [OF assms(1,2)] scaled_eq_le [OF assms(1) [symmetric] assms(3)]
  by (cases "x \<le> y") auto

text \<open>The exponents the language's decimals can have.\<close>

fun dec_in_range :: "decimal \<Rightarrow> bool" where
  "dec_in_range (Fin s c e) \<longleftrightarrow> - 1999999999999999997 \<le> e \<and> e + int (ndigits c) \<le> 1000000000000000000"
| "dec_in_range _ \<longleftrightarrow> True"

text \<open>A nonzero number's sign and normal parts.\<close>

lemma decimal_parts_nonzero:
  assumes "c \<noteq> 0"
  obtains k x where "decimal_parts (Fin s c e) = ((if s then [45] else []) @ nat_digits k, x)"
    "k mod 10 \<noteq> 0" "dval (Fin s c e) = (if s then - 1 else 1) * (of_nat k * 10 powi x)"
    "e \<le> x" "x < e + int (ndigits c)"
proof -
  from pop_zeros_props [OF assms, of e] obtain k x where p: "pop_zeros c e = (k, x)" "k mod 10 \<noteq> 0"
    "of_nat c * 10 powi e = (of_nat k * 10 powi x :: rat)" "e \<le> x" "x < e + int (ndigits c)" by blast
  then show thesis using that [of k x] assms by auto
qed

lemma nat_digits_hd_digit: "nat_digits k = d # ds \<Longrightarrow> 48 \<le> d"
  using nat_digits_digit [of d k] by (auto simp: is_digit_def)

lemma signed_digits_inj:
  "(if s then [45] else []) @ nat_digits k = (if t then [45] else []) @ nat_digits l
    \<longleftrightarrow> s = t \<and> k = l"
proof
  assume eq: "(if s then [45] else []) @ nat_digits k = (if t then [45] else []) @ nat_digits l"
  have st: "s = t"
    using eq nat_digits_hd_digit [of k 45 "nat_digits l"] nat_digits_hd_digit [of l 45 "nat_digits k"]
    by (cases s; cases t) auto
  with eq have "nat_digits k = nat_digits l" by simp
  then have "digits_value (nat_digits k) = digits_value (nat_digits l)" by simp
  with st show "s = t \<and> k = l" by simp
qed auto

lemma nat_digits_ne_zero: "k mod 10 \<noteq> 0 \<Longrightarrow> nat_digits k \<noteq> [48]"
  using digits_value_nat_digits [of k] by (auto simp: digits_value_def)

lemma decimal_parts_zero_iff: "decimal_parts (Fin s c e) = (u ''0'', 0) \<longleftrightarrow> c = 0"
proof (cases "c = 0")
  case False
  obtain k x where "decimal_parts (Fin s c e) = ((if s then [45] else []) @ nat_digits k, x)" "k mod 10 \<noteq> 0"
    by (rule decimal_parts_nonzero [OF False, of s e])
  then show ?thesis using nat_digits_ne_zero [of k] False by (auto simp: u_def)
qed simp

lemma dval_zero_iff: "dval (Fin s c e) = 0 \<longleftrightarrow> c = 0"
  by simp

lemma decimal_parts_eq_iff:
  assumes "is_finite a" "is_finite b"
  shows "decimal_parts a = decimal_parts b \<longleftrightarrow> dval a = dval b"
proof -
  obtain s c e t d f where ab: "a = Fin s c e" "b = Fin t d f"
    using assms by (cases a; cases b) auto
  show ?thesis
  proof (cases "c = 0 \<or> d = 0")
    case True
    then show ?thesis
    proof
      assume "c = 0"
      then have a: "decimal_parts a = (u ''0'', 0)" "dval a = 0" by (simp_all add: ab)
      show ?thesis
        using decimal_parts_zero_iff [of t d f] dval_zero_iff [of t d f] unfolding a ab(2) by metis
    next
      assume "d = 0"
      then have b: "decimal_parts b = (u ''0'', 0)" "dval b = 0" by (simp_all add: ab)
      show ?thesis
        using decimal_parts_zero_iff [of s c e] dval_zero_iff [of s c e] unfolding b ab(1) by metis
    qed
  next
    case False
    obtain k x where kx: "decimal_parts a = ((if s then [45] else []) @ nat_digits k, x)"
      "k mod 10 \<noteq> 0" "dval a = (if s then - 1 else 1) * (of_nat k * 10 powi x)"
      using decimal_parts_nonzero [of c s e] False unfolding ab by blast
    obtain l y where ly: "decimal_parts b = ((if t then [45] else []) @ nat_digits l, y)"
      "l mod 10 \<noteq> 0" "dval b = (if t then - 1 else 1) * (of_nat l * 10 powi y)"
      using decimal_parts_nonzero [of d t f] False unfolding ab by blast
    have pos: "0 < (of_nat k * 10 powi x :: rat)" "0 < (of_nat l * 10 powi y :: rat)"
      using kx(2) ly(2) by (auto intro!: mult_pos_pos gr0I)
    have "dval a = dval b \<longleftrightarrow> s = t \<and> of_nat k * 10 powi x = (of_nat l * 10 powi y :: rat)"
      using kx(3) ly(3) pos by (cases s; cases t) (auto simp: less_le_trans)
    also have "\<dots> \<longleftrightarrow> s = t \<and> k = l \<and> x = y" using scaled_eq [OF _ kx(2) ly(2)] by auto
    also have "\<dots> \<longleftrightarrow> decimal_parts a = decimal_parts b"
      using kx(1) ly(1) signed_digits_inj [of s k t l] by auto
    finally show ?thesis by simp
  qed
qed

subsection \<open>What normalization returns\<close>

text \<open>The normal form as its text shows it: every object in the order of its keys.\<close>

function sorted_form :: "pyval \<Rightarrow> pyval" where
  "sorted_form (PDict kvs) = PDict (map (\<lambda>kv. (fst kv, sorted_form (snd kv))) (sort_items kvs))"
| "sorted_form (PList vs) = PList (map sorted_form vs)"
| "sorted_form PNone = PNone"
| "sorted_form (PBool b) = PBool b"
| "sorted_form (PInt n) = PInt n"
| "sorted_form (PFloat s) = PFloat s"
| "sorted_form (PStr s) = PStr s"
| "sorted_form (PBytes b) = PBytes b"
| "sorted_form (PDec d) = PDec d"
| "sorted_form (PEnum c s) = PEnum c s"
| "sorted_form (PTuple vs) = PTuple vs"
| "sorted_form (PRec c fs) = PRec c fs"
| "sorted_form (PObj c) = PObj c"
  by pat_completeness auto
termination
  by (relation "measure size") (auto dest: size_dict_value size_list_value)

definition normal_form :: "pyval \<Rightarrow> pyval res" where
  "normal_form v = bind_r (normalize_value v 0 0) (\<lambda>(n, _). Inr (sorted_form n))"

text \<open>
  A value as Python builds it: the keys of a dictionary and the fields of a record are
  distinct, and a decimal's exponent is in the language's range.
\<close>

lemma size_rec_value: "kv \<in> set fs \<Longrightarrow> size (snd kv) < Suc (size_list (size_prod (\<lambda>_. 0) size) fs)"
  using size_list_estimation' [of kv fs "size (snd kv)" "size_prod (\<lambda>_. 0) size"]
  by (cases kv) auto

function wf_value :: "pyval \<Rightarrow> bool" where
  "wf_value (PDec d) = dec_in_range d"
| "wf_value (PDict kvs) = (distinct (map fst kvs) \<and> list_all (\<lambda>kv. wf_value (snd kv)) kvs)"
| "wf_value (PRec c fs) = (distinct (map fst fs) \<and> list_all (\<lambda>kv. wf_value (snd kv)) fs)"
| "wf_value (PList vs) = list_all wf_value vs"
| "wf_value (PTuple vs) = list_all wf_value vs"
| "wf_value PNone = True"
| "wf_value (PBool _) = True"
| "wf_value (PInt _) = True"
| "wf_value (PFloat _) = True"
| "wf_value (PStr _) = True"
| "wf_value (PBytes _) = True"
| "wf_value (PEnum _ _) = True"
| "wf_value (PObj _) = True"
  by pat_completeness auto
termination
  by (relation "measure (\<lambda>v. size v)") (auto dest: size_dict_value size_list_value size_rec_value)

text \<open>The dump of a value and of its sorted form are the same text.\<close>

lemma insort_key_map: "insort_key f (g x) (map g xs) = map g (insort_key (f \<circ> g) x xs)"
  by (induction xs) simp_all

lemma sort_key_map: "sort_key f (map g xs) = map g (sort_key (f \<circ> g) xs)"
  by (induction xs) (simp_all add: insort_key_map comp_def)

lemma sort_items_map_snd:
  "sort_items (map (\<lambda>kv. (fst kv, f (snd kv))) kvs) = map (\<lambda>kv. (fst kv, f (snd kv))) (sort_items kvs)"
  by (simp add: sort_items_def sort_key_map comp_def)

lemma sort_items_idem [simp]: "sort_items (sort_items kvs) = sort_items kvs"
  by (simp add: sort_items_def sort_key_id_if_sorted)

lemma distinct_map_insort:
  "distinct (map g (insort_key f x xs)) \<longleftrightarrow> g x \<notin> g ` set xs \<and> distinct (map g xs)"
  by (induction xs) (auto simp: set_insort_key)

lemma distinct_sort_items [simp]: "distinct (map fst (sort_items kvs)) \<longleftrightarrow> distinct (map fst kvs)"
  unfolding sort_items_def by (induction kvs) (simp_all add: distinct_map_insort)

lemma sorted_sort_items [simp]: "sorted (map (key_text \<circ> fst) (sort_items kvs))"
  unfolding sort_items_def comp_def by (rule sorted_sort_key)

lemma dump_sorted_form: "dump_text (sorted_form v) = dump_text v"
proof (induction v rule: sorted_form.induct)
  case (1 kvs)
  then show ?case by (auto simp: sort_items_map_snd comp_def intro!: arg_cong [where f = "join_with [44]"])
next
  case (2 vs)
  then show ?case by (auto simp: comp_def intro!: arg_cong [where f = "join_with [44]"])
qed simp_all

lemma map_state_r_Inr:
  "map_state_r f xs s = Inr (ys, t) \<Longrightarrow> list_all2 (\<lambda>x y. \<exists>i j. f x i = Inr (y, j)) xs ys"
proof (induction xs arbitrary: s ys)
  case (Cons x xs)
  then show ?case by (fastforce simp: bind_r_eq_Inr)
qed auto

text \<open>The counter grows with every element.\<close>

lemma map_state_r_grows:
  assumes "map_state_r f xs s = Inr (ys, t)"
    and "\<And>x i y j. x \<in> set xs \<Longrightarrow> f x i = Inr (y, j) \<Longrightarrow> i < j \<and> j \<le> (m :: nat)"
  shows "s \<le> t \<and> (s \<le> m \<longrightarrow> t \<le> m)"
  using assms
proof (induction xs arbitrary: s ys)
  case (Cons x xs)
  from Cons.prems(1) obtain y i zs where "f x s = Inr (y, i)" "map_state_r f xs i = Inr (zs, t)"
    by (auto simp: bind_r_eq_Inr)
  with Cons.prems(2) [of x s y i] Cons.IH [of i zs] Cons.prems(2) show ?case by fastforce
qed simp

lemma on_fst_Inr: "on_fst f m = Inr (y, j) \<longleftrightarrow> (\<exists>x. m = Inr (x, j) \<and> y = f x)"
  by (auto simp: on_fst_def bind_r_eq_Inr)

text \<open>The object a loop over fields builds.\<close>

definition good :: "nat \<Rightarrow> pyval \<Rightarrow> bool" where
  "good k n \<longleftrightarrow> json_ok n \<and> canonical (sorted_form n) \<and> nesting (sorted_form n) \<le> k"

lemma good_simps [simp]:
  "good k PNone" "good k (PBool b)" "good k (PStr s)" "good k (PInt n) \<longleftrightarrow> int_ok n"
  by (simp_all add: good_def)

lemma good_list: "good (Suc k) (PList vs) \<longleftrightarrow> (\<forall>v \<in> set vs. good k v)"
  by (auto simp: good_def list_all_iff nesting_le_iff simp del: nesting.simps)

lemma good_dict:
  "good (Suc k) (PDict kvs) \<longleftrightarrow>
     distinct (map fst kvs) \<and> (\<forall>kv \<in> set kvs. is_str (fst kv) \<and> good k (snd kv))"
  by (auto simp: good_def list_all_iff nesting_le_iff comp_def sorted_sort_items [unfolded comp_def]
      simp del: nesting.simps)

lemma good_mono: "good k n \<Longrightarrow> k \<le> l \<Longrightarrow> good l n"
  by (auto simp: good_def)

lemma int_ok_bits: "bit_length n \<le> MAX_INTEGER_BITS \<Longrightarrow> int_ok n"
proof -
  assume "bit_length n \<le> MAX_INTEGER_BITS"
  then have "nat \<bar>n\<bar> < 2 ^ MAX_INTEGER_BITS"
    by (simp only: bit_length_def nat_bits_le_iff)
  also have "(2 :: nat) ^ MAX_INTEGER_BITS \<le> 10 ^ MAX_INTEGER_BITS" by (rule power_mono) simp_all
  also have "(10 :: nat) ^ MAX_INTEGER_BITS \<le> 10 ^ MAX_STR_DIGITS"
    by (rule power_increasing) (simp_all add: MAX_INTEGER_BITS_def MAX_STR_DIGITS_def)
  finally have "nat \<bar>n\<bar> < 10 ^ MAX_STR_DIGITS" .
  moreover have "0 < MAX_STR_DIGITS" by (simp add: MAX_STR_DIGITS_def)
  ultimately show ?thesis by (simp only: int_ok_def ndigits_le_iff)
qed

lemma int_ok_exponent: "\<bar>n\<bar> < 10 ^ 19 \<Longrightarrow> int_ok n"
proof -
  assume "\<bar>n\<bar> < 10 ^ 19"
  then have "nat \<bar>n\<bar> < 10 ^ 19" by (simp add: nat_less_iff)
  then have "ndigits (nat \<bar>n\<bar>) \<le> 19" unfolding ndigits_le_iff by simp
  then show ?thesis by (simp add: int_ok_def MAX_STR_DIGITS_def)
qed

lemma decimal_parts_exponent:
  assumes "dec_in_range d" "decimal_parts d = (c, x)"
  shows "int_ok x"
proof (cases d)
  case (Fin s k e)
  show ?thesis
  proof (cases "k = 0")
    case True
    then show ?thesis using assms Fin by (intro int_ok_exponent) simp
  next
    case False
    show ?thesis
      by (rule decimal_parts_nonzero [OF False, of s e]) (use assms Fin in \<open>auto intro!: int_ok_exponent\<close>)
  qed
qed (use assms in \<open>auto intro!: int_ok_exponent\<close>)

lemma normalize_decimal_good:
  "dec_in_range d \<Longrightarrow> normalize_decimal d = Inr n \<Longrightarrow> good 2 n"
  using decimal_parts_exponent [of d]
  by (auto simp: normalize_decimal_def good_dict good_list numeral_2_eq_2 split: if_splits prod.splits)

lemma list_all2_set_right: "list_all2 P xs ys \<Longrightarrow> y \<in> set ys \<Longrightarrow> \<exists>x \<in> set xs. P x y"
  by (induction xs ys rule: list_all2_induct) auto

lemma list_all2_map_fst:
  "list_all2 (\<lambda>x y. f x = fst y \<and> P x y) xs ys \<Longrightarrow> map fst ys = map f xs"
  by (induction xs ys rule: list_all2_induct) auto

text \<open>One field of an object, and the loop over the fields.\<close>

lemma normalize_fields_good:
  assumes "map_state_r (\<lambda>kv i. on_fst (Pair (f kv)) (g (snd kv) i)) kvs i = Inr (ns, j)"
    and "\<And>x i n j. x \<in> set kvs \<Longrightarrow> g (snd x) i = Inr (n, j) \<Longrightarrow> good k n \<and> i < j \<and> j \<le> (m :: nat)"
    and "distinct (map f kvs)" "\<forall>kv \<in> set kvs. is_str (f kv)" "i \<le> m"
  shows "good (Suc k) (PDict ns) \<and> i \<le> j \<and> j \<le> m"
proof -
  have all: "list_all2 (\<lambda>kv n. \<exists>i j. on_fst (Pair (f kv)) (g (snd kv) i) = Inr (n, j)) kvs ns"
    using map_state_r_Inr [OF assms(1)] .
  have fst: "map fst ns = map f kvs"
    by (rule list_all2_map_fst [where P = "\<lambda>_ _. True"], rule list_all2_mono [OF all])
      (auto simp: on_fst_Inr)
  have "good k (snd n)" if "n \<in> set ns" for n
    using list_all2_set_right [OF all that] assms(2) by (fastforce simp: on_fst_Inr)
  moreover have "is_str (fst n)" if "n \<in> set ns" for n
    using assms(4) fst that by (metis (no_types, lifting) image_iff list.set_map)
  ultimately show ?thesis
    using map_state_r_grows [OF assms(1), of m] assms fst by (auto simp: good_dict on_fst_Inr)
qed

lemma normalize_list_good:
  assumes "map_state_r g vs i = Inr (ns, j)"
    and "\<And>x i n j. x \<in> set vs \<Longrightarrow> g x i = Inr (n, j) \<Longrightarrow> good k n \<and> i < j \<and> j \<le> (m :: nat)" "i \<le> m"
  shows "good (Suc k) (PList ns) \<and> i \<le> j \<and> j \<le> m"
  using list_all2_set_right [OF map_state_r_Inr [OF assms(1)]] map_state_r_grows [OF assms(1), of m] assms(2,3)
  by (force simp: good_list)

lemma normalize_good:
  "wf_value v \<Longrightarrow> normalize_value v d i = Inr (n, j) \<Longrightarrow>
     d \<le> MAX_DEPTH \<and> good (MAX_DEPTH + 2 - d) n \<and> i < j \<and> j \<le> MAX_ITEMS"
proof (induction "Suc MAX_DEPTH - d" arbitrary: v d i n j rule: less_induct)
  case less
  note wf = less.prems(1)
  have ok: "d \<le> MAX_DEPTH" "i + 1 \<le> MAX_ITEMS"
    using less.prems(2) by (auto simp: normalize_value.simps [of v d i] split: if_splits)
  have IH: "wf_value x \<Longrightarrow> normalize_value x (d + 1) k = Inr (m, l) \<Longrightarrow>
      good (MAX_DEPTH + 1 - d) m \<and> k < l \<and> l \<le> MAX_ITEMS" for x k m l
    using less.hyps [of "d + 1" x k m l] ok(1) by auto
  note step = less.prems(2) [unfolded normalize_value.simps [of v d i]]
  have S: "MAX_DEPTH + 2 - d = Suc (MAX_DEPTH + 1 - d)" "2 \<le> MAX_DEPTH + 2 - d" using ok(1) by auto
  have "good (MAX_DEPTH + 2 - d) n \<and> i < j \<and> j \<le> MAX_ITEMS"
  proof (cases v)
    case (PEnum c s)
    then show ?thesis
      using step ok IH [of "PStr s" "i + 1" n j] good_mono [of "MAX_DEPTH + 1 - d" n] by auto
  next
    case (PDec x)
    then show ?thesis
      using step ok wf normalize_decimal_good [of x n] good_mono [OF _ S(2), of n] by auto
  next
    case (PRec c fs)
    then obtain ns where ns: "map_state_r (\<lambda>kv i. on_fst (Pair (PStr (fst kv)))
        (normalize_value (snd kv) (d + 1) i)) fs (i + 1) = Inr (ns, j)" "n = PDict ns"
      using step ok by (auto simp: on_fst_Inr)
    have "inj PStr" by (simp add: inj_def)
    then have "distinct (map (\<lambda>kv. PStr (fst kv)) fs)"
      using wf PRec by (auto simp: distinct_map comp_inj_on_iff inj_on_def)
    then show ?thesis
      using normalize_fields_good [OF ns(1), of "MAX_DEPTH + 1 - d" MAX_ITEMS] IH wf ns(2) PRec ok unfolding S(1)
      by (fastforce simp: list_all_iff)
  next
    case (PDict kvs)
    then obtain ns where ns: "map_state_r (\<lambda>kv i. on_fst (Pair (fst kv))
        (normalize_value (snd kv) (d + 1) i)) (sort_items kvs) (i + 1) = Inr (ns, j)" "n = PDict ns"
      and str: "list_all (\<lambda>kv. is_str (fst kv)) kvs"
      using step ok by (auto simp: on_fst_Inr split: if_splits)
    then show ?thesis
      using normalize_fields_good [OF ns(1), of "MAX_DEPTH + 1 - d" MAX_ITEMS] IH wf PDict ok unfolding S(1)
      by (fastforce simp: list_all_iff)
  next
    case (PList vs)
    then obtain ns where ns: "map_state_r (\<lambda>x i. normalize_value x (d + 1) i) vs (i + 1) = Inr (ns, j)"
      "n = PList ns"
      using step ok by (auto simp: on_fst_Inr)
    show ?thesis
      using normalize_list_good [OF ns(1), of "MAX_DEPTH + 1 - d" MAX_ITEMS] IH wf PList ok ns(2) unfolding S(1)
      by (fastforce simp: list_all_iff)
  next
    case (PTuple vs)
    then obtain ns where ns: "map_state_r (\<lambda>x i. normalize_value x (d + 1) i) vs (i + 1) = Inr (ns, j)"
      "n = PList ns"
      using step ok by (auto simp: on_fst_Inr)
    show ?thesis
      using normalize_list_good [OF ns(1), of "MAX_DEPTH + 1 - d" MAX_ITEMS] IH wf PTuple ok ns(2) unfolding S(1)
      by (fastforce simp: list_all_iff)
  next
    case (PInt k)
    then show ?thesis using step ok int_ok_bits [of k] by (auto split: if_splits)
  qed (use step ok in auto)
  with ok(1) show ?case by simp
qed

subsection \<open>Properties\<close>

lemma canonical_json_Inr:
  assumes "wf_value v" "canonical_json v = Inr t"
  obtains n j where "normalize_value v 0 0 = Inr (n, j)" "t = dump_text n" "good 66 n" "j \<le> MAX_ITEMS"
    "normal_form v = Inr (sorted_form n)"
proof -
  from assms(2) obtain n j where nj: "normalize_value v 0 0 = Inr (n, j)" "t = dump_text n"
    by (auto simp: canonical_json_def json_dumps_def bind_r_eq_Inr split: if_splits)
  then show thesis
    using that normalize_good [OF assms(1) nj(1)] by (simp add: normal_form_def MAX_DEPTH_def)
qed

text \<open>
  Claim C8: canonical text reads back. Whenever \<^verbatim>\<open>canonical_json\<close> serializes a value, the
  value's normal form exists and \<^verbatim>\<open>json.loads\<close> of the text, under any recursion limit of
  at least 66 nested containers, returns exactly that normal form; in particular values
  with the same text have the same normal form.
\<close>
theorem canonical_json_reads_back:
  assumes "wf_value v" "canonical_json v = Inr t" "66 \<le> limit"
  shows "\<exists>n. normal_form v = Inr n \<and> json_loads default_hook limit t = Inr n"
proof -
  obtain n j where n: "t = dump_text n" "good 66 n" "normal_form v = Inr (sorted_form n)"
    by (rule canonical_json_Inr [OF assms(1,2)])
  have "json_loads default_hook limit (dump_text (sorted_form n) @ []) = Inr (sorted_form n)"
    by (rule json_round_trip [OF default_hook_faithful])
      (use n(2) assms(3) in \<open>auto simp: good_def skip_ws_def\<close>)
  then show ?thesis using n by (simp add: dump_sorted_form)
qed

definition sample_value :: pyval where
  "sample_value = PDict [(PStr (u ''b''), PList [PDec (Fin True 1200 (-2)), PNone]),
     (PStr (u ''a''), PTuple [PBool True, PEnum ''ReasonCode'' (u ''permitted'')])]"

lemma sample_value_json:
  "canonical_json sample_value =
     Inr (u (''{'' @ [CHR 34] @ ''a'' @ [CHR 34] @ '':[true,'' @ [CHR 34] @ ''permitted'' @ [CHR 34]
       @ ''],'' @ [CHR 34] @ ''b'' @ [CHR 34] @ '':[{'' @ [CHR 34] @ ''$kil.decimal'' @ [CHR 34]
       @ '':['' @ [CHR 34] @ ''-12'' @ [CHR 34] @ '',0]},null]}''))"
  by code_simp

theorem canonical_json_reads_back_witness:
  "\<exists>t n. canonical_json sample_value = Inr t \<and> normal_form sample_value = Inr n
     \<and> json_loads default_hook 1000 t = Inr n"
proof -
  have "wf_value sample_value" by code_simp
  from canonical_json_reads_back [OF this sample_value_json, of 1000] sample_value_json
  show ?thesis by auto
qed

lemma normalize_value_PDec:
  "normalize_value (PDec d) 0 0 = bind_r (normalize_decimal d) (\<lambda>n. Inr (n, 1))"
  by (simp add: normalize_value.simps MAX_ITEMS_def)

lemma sorted_form_decimal:
  "normalize_decimal d = Inr n \<Longrightarrow> sorted_form n = n"
  by (auto simp: normalize_decimal_def sort_items_def split: if_splits prod.splits)

text \<open>
  Claim C9: one text per number. Two decimals that serialize have the same canonical
  text exactly when they are numerically equal, whatever their trailing zeros, exponents
  or the sign of a zero; so a digest over canonical text depends on the number alone.
\<close>
theorem canonical_decimal_numeric:
  assumes "dec_in_range a" "dec_in_range b"
    and "canonical_json (PDec a) = Inr s" "canonical_json (PDec b) = Inr t"
  shows "s = t \<longleftrightarrow> dval a = dval b"
proof -
  obtain m i where m: "normalize_value (PDec a) 0 0 = Inr (m, i)" "s = dump_text m" "good 66 m"
    by (rule canonical_json_Inr [OF _ assms(3)]) (use assms(1) in auto)
  obtain n j where n: "normalize_value (PDec b) 0 0 = Inr (n, j)" "t = dump_text n" "good 66 n"
    by (rule canonical_json_Inr [OF _ assms(4)]) (use assms(2) in auto)
  have mn: "normalize_decimal a = Inr m" "normalize_decimal b = Inr n"
    using m(1) n(1) by (auto simp: normalize_value_PDec)
  have "s = t \<longleftrightarrow> m = n"
    using dump_text_inj [of m n] m n mn [THEN sorted_form_decimal] by (auto simp: good_def)
  also have "\<dots> \<longleftrightarrow> decimal_parts a = decimal_parts b"
    using mn by (auto simp: normalize_decimal_def split: if_splits prod.splits)
  also have "\<dots> \<longleftrightarrow> dval a = dval b"
    by (rule decimal_parts_eq_iff) (use mn in \<open>auto simp: normalize_decimal_def split: if_splits\<close>)
  finally show ?thesis .
qed

theorem canonical_decimal_numeric_witness:
  "\<exists>t. canonical_json (PDec (Fin False 1500 (-3))) = Inr t \<and> canonical_json (PDec (Fin False 15 (-1))) = Inr t"
proof -
  have "is_ok (canonical_json (PDec (Fin False 1500 (-3))))" "is_ok (canonical_json (PDec (Fin False 15 (-1))))"
    by code_simp+
  then obtain s t where st: "canonical_json (PDec (Fin False 1500 (-3))) = Inr s"
    "canonical_json (PDec (Fin False 15 (-1))) = Inr t" by (auto simp: is_ok_iff)
  have "dec_in_range (Fin False 1500 (-3))" "dec_in_range (Fin False 15 (-1))" by code_simp+
  from canonical_decimal_numeric [OF this st] st show ?thesis by (simp add: power_int_minus)
qed

text \<open>Sorting forgets the order in which the keys were inserted.\<close>

lemma key_text_inj: "is_str a \<Longrightarrow> is_str b \<Longrightarrow> key_text a = key_text b \<Longrightarrow> a = b"
  by (cases a; cases b) auto

lemma sorted_keys_unique:
  assumes "sorted (map (key_text \<circ> fst) xs)" "sorted (map (key_text \<circ> fst) ys)"
    and "set xs = set ys" "distinct (map fst xs)" "distinct (map fst ys)"
    and "\<forall>kv \<in> set xs. is_str (fst kv)"
  shows "xs = ys"
proof -
  have inj: "inj_on (key_text \<circ> fst) (set xs)"
    using assms(4,6) by (auto simp: inj_on_def distinct_map dest!: key_text_inj)
  have d: "distinct xs" "distinct ys" using assms(4,5) by (simp_all add: distinct_map)
  have "map (key_text \<circ> fst) xs = map (key_text \<circ> fst) ys"
    by (rule sorted_distinct_set_unique)
      (use assms inj d in \<open>auto simp: distinct_map image_image [symmetric] image_comp [symmetric]\<close>)
  then show ?thesis using inj assms(3) by (simp add: inj_on_map_eq_map)
qed

lemma sort_items_cong:
  assumes "set kvs = set kvs'" "distinct (map fst kvs)" "distinct (map fst kvs')"
    "\<forall>kv \<in> set kvs. is_str (fst kv)"
  shows "sort_items kvs = sort_items kvs'"
  by (rule sorted_keys_unique) (use assms in auto)

lemma map_r_is_ok: "is_ok (map_r f xs) \<longleftrightarrow> (\<forall>x \<in> set xs. is_ok (f x))"
proof (induction xs)
  case (Cons x xs)
  then show ?case by (cases "f x"; cases "map_r f xs") auto
qed simp

text \<open>
  \<open>reordered v w\<close>: \<open>w\<close> is \<open>v\<close> with the items of its dictionaries, at every depth, inserted in
  some other order. The order of lists, tuples and record fields is kept.
\<close>

inductive reordered :: "pyval \<Rightarrow> pyval \<Rightarrow> bool" where
  same: "reordered v v"
| dict: "list_all2 (\<lambda>a b. fst a = fst b \<and> reordered (snd a) (snd b)) kvs mid \<Longrightarrow> distinct (map fst kvs) \<Longrightarrow>
     distinct (map fst kvs') \<Longrightarrow> set mid = set kvs' \<Longrightarrow> reordered (PDict kvs) (PDict kvs')"
| elements: "list_all2 reordered vs ws \<Longrightarrow> reordered (PList vs) (PList ws)"
| tuple: "list_all2 reordered vs ws \<Longrightarrow> reordered (PTuple vs) (PTuple ws)"
| object: "list_all2 (\<lambda>a b. fst a = fst b \<and> reordered (snd a) (snd b)) fs gs \<Longrightarrow> reordered (PRec c fs) (PRec c gs)"

lemma list_all2_insort_key:
  assumes "\<And>a b. R a b \<Longrightarrow> f a = f b" "list_all2 R xs ys" "R x y"
  shows "list_all2 R (insort_key f x xs) (insort_key f y ys)"
  using assms(2)
proof (induction xs ys rule: list_all2_induct)
  case (Cons a xs b ys)
  then show ?case using assms(1) [of a b] assms(1) [of x y] assms(3) by auto
qed (use assms(3) in simp)

lemma list_all2_sort_items:
  assumes "list_all2 (\<lambda>a b. fst a = fst b \<and> R (snd a) (snd b)) kvs mid"
  shows "list_all2 (\<lambda>a b. fst a = fst b \<and> R (snd a) (snd b)) (sort_items kvs) (sort_items mid)"
  unfolding sort_items_def using assms
proof (induction kvs mid rule: list_all2_induct)
  case (Cons a kvs b mid)
  then show ?case by (auto intro!: list_all2_insort_key)
qed simp

lemma map_state_r_list_all2:
  "list_all2 R xs ys \<Longrightarrow> (\<And>x y i z j. R x y \<Longrightarrow> x \<in> set xs \<Longrightarrow> f x i = Inr (z, j) \<Longrightarrow> g y i = Inr (z, j))
     \<Longrightarrow> map_state_r f xs i = Inr (zs, j) \<Longrightarrow> map_state_r g ys i = Inr (zs, j)"
proof (induction xs ys arbitrary: i zs rule: list_all2_induct)
  case (Cons x xs y ys)
  from Cons.prems(2) obtain z k zs' where "f x i = Inr (z, k)" "map_state_r f xs k = Inr (zs', j)" "zs = z # zs'"
    by (auto simp: bind_r_eq_Inr)
  with Cons.IH [of k zs'] Cons.prems(1) [of x y i z k] Cons.prems(1) Cons.hyps(1) show ?case by (auto simp: bind_r_eq_Inr)
qed simp

text \<open>Normalization does not see the order.\<close>

lemma normalize_reordered:
  "reordered v w \<Longrightarrow> normalize_value v depth items = Inr r \<Longrightarrow> normalize_value w depth items = Inr r"
proof (induction v w arbitrary: depth items r rule: reordered.induct)
  case (dict kvs mid kvs')
  let ?R = "\<lambda>a b. fst a = fst b \<and> reordered (snd a) (snd b)
    \<and> (\<forall>d i r. normalize_value (snd a) d i = Inr r \<longrightarrow> normalize_value (snd b) d i = Inr r)"
  let ?strings = "\<lambda>kvs. map_r (\<lambda>kv. validate_string (key_text (fst kv))) kvs"
  have rel: "list_all2 ?R kvs mid" by (rule list_all2_mono [OF dict.IH]) blast
  then have keys: "map fst kvs = map fst mid" by (induction rule: list_all2_induct) auto
  have keyset: "fst ` set kvs = fst ` set kvs'" using arg_cong [OF keys, of set] dict.hyps(3) by simp
  obtain n j where r: "r = (n, j)" by (cases r)
  note v = dict.prems [unfolded normalize_value.simps [of "PDict kvs"] r]
  from v have str: "\<forall>k \<in> fst ` set kvs. is_str k" by (auto simp: list_all_iff split: if_splits)
  from v have ok: "is_ok (?strings kvs)" by (auto simp: is_ok_iff bind_r_eq_Inr split: if_splits)
  have "is_ok (?strings kvs')" unfolding map_r_is_ok
  proof
    fix kv assume "kv \<in> set kvs'"
    then have "fst kv \<in> fst ` set kvs" by (simp add: keyset)
    then show "is_ok (validate_string (key_text (fst kv)))" using ok by (auto simp: map_r_is_ok)
  qed
  then obtain ws where ws: "?strings kvs' = Inr ws" by (auto simp: is_ok_iff)
  have "sort_items mid = sort_items kvs'"
    using dict.hyps keys str keyset by (intro sort_items_cong) (auto simp: image_iff)
  then have "list_all2 ?R (sort_items kvs) (sort_items kvs')"
    using list_all2_sort_items [of "\<lambda>a b. reordered a b \<and> (\<forall>d i r. normalize_value a d i = Inr r \<longrightarrow> normalize_value b d i = Inr r)" kvs mid] rel
    by simp
  then have items: "map_state_r (\<lambda>kv i. on_fst (Pair (fst kv)) (normalize_value (snd kv) (depth + 1) i)) (sort_items kvs) (items + 1) = Inr (xs, j)
      \<Longrightarrow> map_state_r (\<lambda>kv i. on_fst (Pair (fst kv)) (normalize_value (snd kv) (depth + 1) i)) (sort_items kvs') (items + 1) = Inr (xs, j)" for xs
    by (rule map_state_r_list_all2) (auto simp: on_fst_Inr)
  from v obtain xs where "n = PDict xs" "\<not> depth > MAX_DEPTH" "\<not> items + 1 > MAX_ITEMS" "PStr (u DECIMAL_TAG) \<notin> fst ` set kvs"
    "map_state_r (\<lambda>kv i. on_fst (Pair (fst kv)) (normalize_value (snd kv) (depth + 1) i)) (sort_items kvs) (items + 1) = Inr (xs, j)"
    by (auto simp: bind_r_eq_Inr on_fst_Inr split: if_splits)
  moreover have "list_all (\<lambda>kv. is_str (fst kv)) kvs'" using str keyset by (auto simp: list_all_iff)
  ultimately show ?case
    unfolding r normalize_value.simps [of "PDict kvs'"] using items ws keyset
    by (simp add: on_fst_def)
next
  case (elements vs ws)
  obtain n j where r: "r = (n, j)" by (cases r)
  from elements.prems obtain xs where xs: "n = PList xs" "\<not> depth > MAX_DEPTH" "\<not> items + 1 > MAX_ITEMS"
    "map_state_r (\<lambda>x i. normalize_value x (depth + 1) i) vs (items + 1) = Inr (xs, j)"
    unfolding normalize_value.simps [of "PList vs"] r by (auto simp: on_fst_Inr split: if_splits)
  have "map_state_r (\<lambda>x i. normalize_value x (depth + 1) i) ws (items + 1) = Inr (xs, j)"
    by (rule map_state_r_list_all2 [OF elements.IH _ xs(4)]) blast
  with xs show ?case unfolding r normalize_value.simps [of "PList ws"] by (simp add: on_fst_def)
next
  case (tuple vs ws)
  obtain n j where r: "r = (n, j)" by (cases r)
  from tuple.prems obtain xs where xs: "n = PList xs" "\<not> depth > MAX_DEPTH" "\<not> items + 1 > MAX_ITEMS"
    "map_state_r (\<lambda>x i. normalize_value x (depth + 1) i) vs (items + 1) = Inr (xs, j)"
    unfolding normalize_value.simps [of "PTuple vs"] r by (auto simp: on_fst_Inr split: if_splits)
  have "map_state_r (\<lambda>x i. normalize_value x (depth + 1) i) ws (items + 1) = Inr (xs, j)"
    by (rule map_state_r_list_all2 [OF tuple.IH _ xs(4)]) blast
  with xs show ?case unfolding r normalize_value.simps [of "PTuple ws"] by (simp add: on_fst_def)
next
  case (object fs gs c)
  let ?f = "\<lambda>kv i. on_fst (Pair (PStr (fst kv))) (normalize_value (snd kv) (depth + 1) i)"
  obtain n j where r: "r = (n, j)" by (cases r)
  from object.prems obtain xs where xs: "n = PDict xs" "\<not> depth > MAX_DEPTH" "\<not> items + 1 > MAX_ITEMS"
    "map_state_r ?f fs (items + 1) = Inr (xs, j)"
    unfolding normalize_value.simps [of "PRec c fs"] r by (auto simp: on_fst_Inr split: if_splits)
  have "map_state_r ?f gs (items + 1) = Inr (xs, j)"
    by (rule map_state_r_list_all2 [OF object.IH _ xs(4)]) (auto simp: on_fst_Inr)
  with xs show ?case unfolding r normalize_value.simps [of "PRec c gs"] by (simp add: on_fst_def)
qed

text \<open>
  Claim C10: key order does not matter. Two values that differ in the order in which the items
  of their dictionaries were inserted, at any depth, have the same canonical text and the same
  digest whenever one of them serializes.
\<close>
theorem canonical_json_key_order:
  assumes "reordered v w" "canonical_json v = Inr t"
  shows "canonical_json w = Inr t \<and> canonical_digest w = canonical_digest v"
proof -
  obtain n where "normalize_value v 0 0 = Inr n" using assms(2) by (auto simp: canonical_json_def bind_r_eq_Inr)
  with normalize_reordered [OF assms(1) this] have "canonical_json w = canonical_json v" by (simp add: canonical_json_def)
  then show ?thesis using assms(2) by (simp add: canonical_digest_def)
qed

text \<open>The order differs inside a dictionary in a list, and outside.\<close>

theorem canonical_json_key_order_witness:
  "\<exists>t. canonical_json (PDict [(PStr (u ''a''), PList [PDict [(PStr (u ''x''), PInt 1), (PStr (u ''y''), PInt 2)]]), (PStr (u ''b''), PInt 2)]) = Inr t
     \<and> canonical_json (PDict [(PStr (u ''b''), PInt 2), (PStr (u ''a''), PList [PDict [(PStr (u ''y''), PInt 2), (PStr (u ''x''), PInt 1)]])]) = Inr t"
proof -
  let ?d = "PDict [(PStr (u ''x''), PInt 1), (PStr (u ''y''), PInt 2)]"
  let ?e = "PDict [(PStr (u ''y''), PInt 2), (PStr (u ''x''), PInt 1)]"
  let ?v = "PDict [(PStr (u ''a''), PList [?d]), (PStr (u ''b''), PInt 2)]"
  let ?w = "PDict [(PStr (u ''b''), PInt 2), (PStr (u ''a''), PList [?e])]"
  have "reordered ?d ?e"
    by (rule reordered.dict [where mid = "[(PStr (u ''x''), PInt 1), (PStr (u ''y''), PInt 2)]"])
      (auto simp: u_eq_iff intro: reordered.same)
  then have "reordered (PList [?d]) (PList [?e])" by (intro reordered.elements) simp
  then have r: "reordered ?v ?w"
    by (intro reordered.dict [where mid = "[(PStr (u ''a''), PList [?e]), (PStr (u ''b''), PInt 2)]"])
      (auto simp: u_eq_iff intro: reordered.same)
  have "is_ok (canonical_json ?v)" by code_simp
  then obtain t where "canonical_json ?v = Inr t" by (auto simp: is_ok_iff)
  with canonical_json_key_order [OF r this] show ?thesis by blast
qed

lemma canonical_digest_hex64: "canonical_digest v = Inr h \<Longrightarrow> hex64 h"
  by (auto simp: canonical_digest_def bind_r_eq_Inr sha256_hex64)

lemma canonical_json_scalars: "canonical_json v = Inr t \<Longrightarrow> list_all is_scalar t"
  by (auto simp: canonical_json_def bind_r_eq_Inr utf8_encode_def split: if_splits)

lemma canonical_digest_ok: "canonical_json v = Inr t \<Longrightarrow> \<exists>h. canonical_digest v = Inr h"
  using canonical_json_scalars [of v t] by (auto simp: canonical_digest_def utf8_encode_def)

end
