(* ===== verification/KilQState.thy ===== *)
theory KilQState
  imports KilCanonical KilScenario
begin

text \<open>
  \<^verbatim>\<open>src/kil/q_state.py\<close>: the signed composite-state token. The Ed25519 primitives of the
  \<^verbatim>\<open>cryptography\<close> package are the parameter \<open>ed\<close>: the raw public key of a private key,
  signing and verifying; \<open>signature_law\<close> states what its documentation promises. Keys are
  their raw bytes. The decimal fields are visited in the order of the class here, where
  the code iterates over a set; only the wording of an error can depend on it.
\<close>

record Ed25519 =
  ed_public :: "bytes \<Rightarrow> bytes"
  ed_sign :: "bytes \<Rightarrow> bytes \<Rightarrow> bytes"
  ed_verify :: "bytes \<Rightarrow> bytes \<Rightarrow> bytes \<Rightarrow> bool"

text \<open>A signature made with a private key verifies under its public key, and is not empty.\<close>

definition signature_law :: "Ed25519 \<Rightarrow> bytes \<Rightarrow> bool" where
  "signature_law ed sk \<longleftrightarrow>
     (\<forall>m. ed_verify ed (ed_public ed sk) (ed_sign ed sk m) m \<and> ed_sign ed sk m \<noteq> [])"

definition Q_STATE_SCHEMA_VERSION :: string where "Q_STATE_SCHEMA_VERSION = ''kil.q-state.v0''"
definition MAX_VALIDITY_SECONDS :: int where "MAX_VALIDITY_SECONDS = 10"
definition MAX_DECIMAL_WIRE_LENGTH :: nat where "MAX_DECIMAL_WIRE_LENGTH = 64"

definition DECIMAL_FIELDS :: "string list" where
  "DECIMAL_FIELDS = [''charge'', ''threshold'', ''decay_rate'', ''maximum_charge'']"

subsection \<open>Decimals on the wire\<close>

fun decimal_wire_length :: "decimal \<Rightarrow> int" where
  "decimal_wire_length (Fin s c e) =
     (if c = 0 then 1
      else case pop_zeros c e of (k, x) \<Rightarrow>
        let n = int (ndigits k) in
        if x \<ge> 0 then n + x
        else if n + x > 0 then n + 1
        else 2 - (n + x) + n)"
| "decimal_wire_length _ = 0"

text \<open>\<^verbatim>\<open>format(value, "f")\<close> of a finite decimal.\<close>

fun format_f :: "decimal \<Rightarrow> pstr" where
  "format_f (Fin s c e) =
     (let ds = nat_digits c; sign = (if s then [45] else []) in
      if e \<ge> 0 then sign @ (if c = 0 then [48] else ds @ replicate (nat e) 48)
      else let padded = replicate (nat (- e) + 1 - length ds) 48 @ ds;
               k = length padded - nat (- e)
           in sign @ take k padded @ [46] @ drop k padded)"
| "format_f _ = []"

definition rstrip_char :: "nat \<Rightarrow> pstr \<Rightarrow> pstr" where
  "rstrip_char c s = rev (dropWhile (\<lambda>x. x = c) (rev s))"

definition decimal_wire :: "decimal \<Rightarrow> pstr" where
  "decimal_wire d =
     (if is_zero_dec d then u ''0''
      else let wire = format_f d in
        if 46 \<in> set wire then rstrip_char 46 (rstrip_char 48 wire) else wire)"

definition qs_require_decimal :: "string \<Rightarrow> pyval \<Rightarrow> decimal res" where
  "qs_require_decimal name v =
     bind_r (require_finite_decimal name v) (\<lambda>d.
     if is_zero_dec d \<and> is_signed d then Inl (ValueError (name @ '' cannot be negative zero''))
     else if d_less d dec_zero then Inl (ValueError (name @ '' must be nonnegative''))
     else if decimal_wire_length d > int MAX_DECIMAL_WIRE_LENGTH
     then Inl (ValueError (name @ '' exceeds maximum wire length''))
     else Inr d)"

text \<open>\<^verbatim>\<open>_DIGEST_PATTERN.fullmatch\<close> and \<^verbatim>\<open>_DECIMAL_PATTERN.fullmatch\<close>.\<close>

definition digest_text :: "pstr \<Rightarrow> bool" where
  "digest_text s \<longleftrightarrow> take 7 s = u ''sha256:'' \<and> hex64 (drop 7 s)"

definition decimal_text :: "pstr \<Rightarrow> bool" where
  "decimal_text s =
     (let ip = takeWhile is_digit s; rest = drop (length ip) s in
      (ip = [48] \<or> (ip \<noteq> [] \<and> hd ip \<noteq> 48)) \<and>
      (rest = [] \<or> (hd rest = 46 \<and> tl rest \<noteq> [] \<and> list_all is_digit (tl rest) \<and> last rest \<noteq> 48)))"

subsection \<open>Claims\<close>

record QStateClaims =
  qs_schema_version :: pstr
  qs_state_id :: pstr
  qs_issuer :: pstr
  qs_subject :: pstr
  qs_audience :: pstr
  qs_authority_class :: pstr
  qs_action_class :: pstr
  qs_issued_at_s :: int
  qs_not_before_s :: int
  qs_expires_at_s :: int
  qs_evidence_horizon_s :: int
  qs_trust_proof_id :: pstr
  qs_trust_proof_digest :: pstr
  qs_envelope_result_id :: pstr
  qs_envelope_result_digest :: pstr
  qs_deployment_profile :: pstr
  qs_charge :: decimal
  qs_threshold :: decimal
  qs_history_count :: int
  qs_minimum_history :: int
  qs_veto_clear :: bool
  qs_envelope_allows :: bool
  qs_decay_rate :: decimal
  qs_maximum_charge :: decimal
  qs_model_version :: pstr
  qs_parameter_version :: pstr

definition QSTATE_FIELDS :: "string list" where
  "QSTATE_FIELDS = [''schema_version'', ''state_id'', ''issuer'', ''subject'', ''audience'',
     ''authority_class'', ''action_class'', ''issued_at_s'', ''not_before_s'', ''expires_at_s'',
     ''evidence_horizon_s'', ''trust_proof_id'', ''trust_proof_digest'', ''envelope_result_id'',
     ''envelope_result_digest'', ''deployment_profile'', ''charge'', ''threshold'',
     ''history_count'', ''minimum_history'', ''veto_clear'', ''envelope_allows'', ''decay_rate'',
     ''maximum_charge'', ''model_version'', ''parameter_version'']"

definition require_digest :: "string \<Rightarrow> pyval \<Rightarrow> pstr res" where
  "require_digest name v = (case v of
     PStr s \<Rightarrow> if digest_text s then Inr s else Inl (ValueError (name @ '' must be a sha256 digest''))
   | _ \<Rightarrow> Inl (ValueError (name @ '' must be a sha256 digest'')))"

text \<open>The checks between the fields of a claim.\<close>

definition check_claims :: "QStateClaims \<Rightarrow> QStateClaims res" where
  "check_claims c =
     (if \<not> (qs_issued_at_s c \<le> qs_not_before_s c \<and> qs_not_before_s c < qs_expires_at_s c)
      then Inl (ValueError ''invalid state validity window'')
      else if qs_expires_at_s c - qs_issued_at_s c > MAX_VALIDITY_SECONDS
      then Inl (ValueError ''state validity cannot exceed ten seconds'')
      else if qs_evidence_horizon_s c > qs_issued_at_s c
      then Inl (ValueError ''evidence_horizon_s cannot be later than issuance'')
      else if qs_history_count c < 0 \<or> qs_minimum_history c < 0
      then Inl (ValueError ''history counts must be nonnegative'')
      else if d_less (qs_maximum_charge c) (qs_charge c)
      then Inl (ValueError ''charge exceeds maximum_charge'')
      else if d_less (qs_maximum_charge c) (qs_threshold c)
      then Inl (ValueError ''threshold exceeds maximum_charge'')
      else Inr c)"

text \<open>The constructor, on the fields by name.\<close>

definition make_QStateClaims :: "(string \<Rightarrow> pyval) \<Rightarrow> QStateClaims res" where
  "make_QStateClaims f =
     bind_r (ensure (f ''schema_version'' = PStr (u Q_STATE_SCHEMA_VERSION))
       (ValueError ''schema_version must be kil.q-state.v0'')) (\<lambda>_.
     bind_r (require_identifier ''state_id'' (f ''state_id'')) (\<lambda>state_id.
     bind_r (require_identifier ''issuer'' (f ''issuer'')) (\<lambda>issuer.
     bind_r (require_identifier ''subject'' (f ''subject'')) (\<lambda>subject.
     bind_r (require_identifier ''audience'' (f ''audience'')) (\<lambda>audience.
     bind_r (require_identifier ''authority_class'' (f ''authority_class'')) (\<lambda>authority_class.
     bind_r (require_identifier ''action_class'' (f ''action_class'')) (\<lambda>action_class.
     bind_r (require_identifier ''trust_proof_id'' (f ''trust_proof_id'')) (\<lambda>trust_proof_id.
     bind_r (require_identifier ''envelope_result_id'' (f ''envelope_result_id'')) (\<lambda>envelope_result_id.
     bind_r (require_identifier ''deployment_profile'' (f ''deployment_profile'')) (\<lambda>deployment_profile.
     bind_r (require_identifier ''model_version'' (f ''model_version'')) (\<lambda>model_version.
     bind_r (require_identifier ''parameter_version'' (f ''parameter_version'')) (\<lambda>parameter_version.
     bind_r (require_integer ''issued_at_s'' (f ''issued_at_s'')) (\<lambda>issued_at_s.
     bind_r (require_integer ''not_before_s'' (f ''not_before_s'')) (\<lambda>not_before_s.
     bind_r (require_integer ''expires_at_s'' (f ''expires_at_s'')) (\<lambda>expires_at_s.
     bind_r (require_integer ''evidence_horizon_s'' (f ''evidence_horizon_s'')) (\<lambda>evidence_horizon_s.
     bind_r (require_integer ''history_count'' (f ''history_count'')) (\<lambda>history_count.
     bind_r (require_integer ''minimum_history'' (f ''minimum_history'')) (\<lambda>minimum_history.
     bind_r (require_boolean ''veto_clear'' (f ''veto_clear'')) (\<lambda>veto_clear.
     bind_r (require_boolean ''envelope_allows'' (f ''envelope_allows'')) (\<lambda>envelope_allows.
     bind_r (qs_require_decimal ''charge'' (f ''charge'')) (\<lambda>charge.
     bind_r (qs_require_decimal ''threshold'' (f ''threshold'')) (\<lambda>threshold.
     bind_r (qs_require_decimal ''decay_rate'' (f ''decay_rate'')) (\<lambda>decay_rate.
     bind_r (qs_require_decimal ''maximum_charge'' (f ''maximum_charge'')) (\<lambda>maximum_charge.
     bind_r (require_digest ''trust_proof_digest'' (f ''trust_proof_digest'')) (\<lambda>trust_proof_digest.
     bind_r (require_digest ''envelope_result_digest'' (f ''envelope_result_digest''))
       (\<lambda>envelope_result_digest.
     check_claims \<lparr>qs_schema_version = u Q_STATE_SCHEMA_VERSION, qs_state_id = state_id,
       qs_issuer = issuer, qs_subject = subject, qs_audience = audience,
       qs_authority_class = authority_class, qs_action_class = action_class,
       qs_issued_at_s = issued_at_s, qs_not_before_s = not_before_s,
       qs_expires_at_s = expires_at_s, qs_evidence_horizon_s = evidence_horizon_s,
       qs_trust_proof_id = trust_proof_id, qs_trust_proof_digest = trust_proof_digest,
       qs_envelope_result_id = envelope_result_id,
       qs_envelope_result_digest = envelope_result_digest,
       qs_deployment_profile = deployment_profile, qs_charge = charge, qs_threshold = threshold,
       qs_history_count = history_count, qs_minimum_history = minimum_history,
       qs_veto_clear = veto_clear, qs_envelope_allows = envelope_allows,
       qs_decay_rate = decay_rate, qs_maximum_charge = maximum_charge,
       qs_model_version = model_version, qs_parameter_version = parameter_version\<rparr>))))))))))))))))))))))))))"

definition to_payload :: "QStateClaims \<Rightarrow> pydict" where
  "to_payload c = map (\<lambda>(k, v). (PStr (u k), v))
     [(''schema_version'', PStr (qs_schema_version c)), (''state_id'', PStr (qs_state_id c)),
      (''issuer'', PStr (qs_issuer c)), (''subject'', PStr (qs_subject c)),
      (''audience'', PStr (qs_audience c)), (''authority_class'', PStr (qs_authority_class c)),
      (''action_class'', PStr (qs_action_class c)), (''issued_at_s'', PInt (qs_issued_at_s c)),
      (''not_before_s'', PInt (qs_not_before_s c)), (''expires_at_s'', PInt (qs_expires_at_s c)),
      (''evidence_horizon_s'', PInt (qs_evidence_horizon_s c)),
      (''trust_proof_id'', PStr (qs_trust_proof_id c)),
      (''trust_proof_digest'', PStr (qs_trust_proof_digest c)),
      (''envelope_result_id'', PStr (qs_envelope_result_id c)),
      (''envelope_result_digest'', PStr (qs_envelope_result_digest c)),
      (''deployment_profile'', PStr (qs_deployment_profile c)),
      (''charge'', PStr (decimal_wire (qs_charge c))),
      (''threshold'', PStr (decimal_wire (qs_threshold c))),
      (''history_count'', PInt (qs_history_count c)),
      (''minimum_history'', PInt (qs_minimum_history c)),
      (''veto_clear'', PBool (qs_veto_clear c)), (''envelope_allows'', PBool (qs_envelope_allows c)),
      (''decay_rate'', PStr (decimal_wire (qs_decay_rate c))),
      (''maximum_charge'', PStr (decimal_wire (qs_maximum_charge c))),
      (''model_version'', PStr (qs_model_version c)),
      (''parameter_version'', PStr (qs_parameter_version c))]"

text \<open>A decimal field of a payload: a canonical fixed-point text becomes its number.\<close>

definition payload_decimal :: "pyval \<Rightarrow> decimal res" where
  "payload_decimal raw = (case raw of
     PStr s \<Rightarrow>
       if length s > MAX_DECIMAL_WIRE_LENGTH \<or> \<not> decimal_text s
       then Inl (ValueError ''must be canonical fixed-point decimal'')
       else (case parse_decimal s of
               None \<Rightarrow> Inl (ValueError ''must be canonical fixed-point decimal'') | Some d \<Rightarrow> Inr d)
   | _ \<Rightarrow> Inl (ValueError ''must be canonical fixed-point decimal''))"

definition payload_field :: "pydict \<Rightarrow> string \<Rightarrow> pyval" where
  "payload_field d k = (case dict_get d k of None \<Rightarrow> PNone | Some v \<Rightarrow> v)"

definition from_payload :: "pyval \<Rightarrow> QStateClaims res" where
  "from_payload payload = (case payload of
     PDict d \<Rightarrow>
       if has_unknown d QSTATE_FIELDS then Inl (ValueError ''unknown q-state payload fields'')
       else if has_missing d QSTATE_FIELDS then Inl (ValueError ''missing q-state payload fields'')
       else
         bind_r (payload_decimal (payload_field d ''charge'')) (\<lambda>charge.
         bind_r (payload_decimal (payload_field d ''threshold'')) (\<lambda>threshold.
         bind_r (payload_decimal (payload_field d ''decay_rate'')) (\<lambda>decay_rate.
         bind_r (payload_decimal (payload_field d ''maximum_charge'')) (\<lambda>maximum_charge.
         make_QStateClaims ((payload_field d)(''charge'' := PDec charge,
           ''threshold'' := PDec threshold, ''decay_rate'' := PDec decay_rate,
           ''maximum_charge'' := PDec maximum_charge))))))
   | _ \<Rightarrow> Inl (ValueError ''q-state payload must be an object''))"

definition to_composite_state :: "QStateClaims \<Rightarrow> CompositeState res" where
  "to_composite_state c = construct_CompositeState
     \<lparr>cs_state_id = qs_state_id c, cs_identity = qs_subject c,
      cs_authority_class = qs_authority_class c, cs_issued_at_s = qs_issued_at_s c,
      cs_not_before_s = qs_not_before_s c, cs_expires_at_s = qs_expires_at_s c,
      cs_charge = qs_charge c, cs_threshold = qs_threshold c,
      cs_history_count = qs_history_count c, cs_minimum_history = qs_minimum_history c,
      cs_authentic = True, cs_veto_clear = qs_veto_clear c,
      cs_envelope_allows = qs_envelope_allows c, cs_decay_rate = qs_decay_rate c,
      cs_maximum_charge = qs_maximum_charge c\<rparr>"

subsection \<open>Tokens\<close>

definition json_bytes :: "pyval \<Rightarrow> bytes res" where
  "json_bytes v = bind_r (json_dumps v) utf8_encode"

definition qs_b64decode :: "pstr \<Rightarrow> bytes res" where
  "qs_b64decode s =
     (if s = [] then Inl (QStateVerificationError ''malformed base64url'')
      else case b64decode (s @ b64_padding s) of
        Inl _ \<Rightarrow> Inl (QStateVerificationError ''malformed base64url'')
      | Inr decoded \<Rightarrow>
          if b64url_encode decoded \<noteq> s then Inl (QStateVerificationError ''non-canonical base64url'')
          else Inr decoded)"

definition key_id :: "bytes \<Rightarrow> pstr" where
  "key_id public_key = take 16 (sha256_hex public_key)"

definition token_header :: "pstr \<Rightarrow> pyval" where
  "token_header kid = PDict [(PStr (u ''alg''), PStr (u ''EdDSA'')), (PStr (u ''kid''), PStr kid),
     (PStr (u ''typ''), PStr (u ''KIL-Q+JWT''))]"

definition issue_q_state :: "Ed25519 \<Rightarrow> QStateClaims \<Rightarrow> bytes \<Rightarrow> pstr res" where
  "issue_q_state ed claims private_key =
     (let kid = key_id (ed_public ed private_key) in
      bind_r (json_bytes (token_header kid)) (\<lambda>header_bytes.
      bind_r (json_bytes (PDict (to_payload claims))) (\<lambda>payload_bytes.
      let header_part = b64url_encode header_bytes; payload_part = b64url_encode payload_bytes;
          signing_input = ascii_bytes (header_part @ [46] @ payload_part);
          signature_part = b64url_encode (ed_sign ed private_key signing_input)
      in Inr (header_part @ [46] @ payload_part @ [46] @ signature_part))))"

text \<open>Only undecodable bytes and malformed JSON are turned into a verification error.\<close>

definition qs_json_object :: "nat \<Rightarrow> bytes \<Rightarrow> string \<Rightarrow> pydict res" where
  "qs_json_object limit raw label =
     bind_r (try_r (bind_r (utf8_decode raw) (json_loads default_hook limit)) (\<lambda>e.
       if e = UnicodeError \<or> e = JSONDecodeError
       then Inl (QStateVerificationError (''malformed '' @ label)) else Inl e)) (\<lambda>v.
     case v of PDict d \<Rightarrow> Inr d | _ \<Rightarrow> Inl (QStateVerificationError (''malformed '' @ label)))"

record VerifiedQState =
  vq_claims :: QStateClaims
  vq_composite_state :: CompositeState
  vq_key_id :: pstr

definition check_header :: "pydict \<Rightarrow> pstr res" where
  "check_header header =
     (if \<not> keys_exact header [''alg'', ''kid'', ''typ'']
      then Inl (QStateVerificationError ''invalid protected header'')
      else if payload_field header ''alg'' \<noteq> PStr (u ''EdDSA'')
        \<or> payload_field header ''typ'' \<noteq> PStr (u ''KIL-Q+JWT'')
      then Inl (QStateVerificationError ''invalid protected header'')
      else case payload_field header ''kid'' of
          PStr kid \<Rightarrow> if kid = [] then Inl (QStateVerificationError ''invalid key identifier'') else Inr kid
        | _ \<Rightarrow> Inl (QStateVerificationError ''invalid key identifier''))"

definition check_binding ::
    "QStateClaims \<Rightarrow> int \<Rightarrow> pstr \<Rightarrow> pstr \<Rightarrow> pstr \<Rightarrow> pstr \<Rightarrow> pstr set \<Rightarrow> unit res" where
  "check_binding claims now_s subject audience authority_class action_class revoked =
     (if qs_state_id claims \<in> revoked then Inl (QStateVerificationError ''state revoked'')
      else if now_s < qs_not_before_s claims then Inl (QStateVerificationError ''state not yet valid'')
      else if now_s \<ge> qs_expires_at_s claims then Inl (QStateVerificationError ''state expired'')
      else if qs_subject claims \<noteq> subject then Inl (QStateVerificationError ''subject binding mismatch'')
      else if qs_audience claims \<noteq> audience then Inl (QStateVerificationError ''audience binding mismatch'')
      else if qs_authority_class claims \<noteq> authority_class
      then Inl (QStateVerificationError ''authority class binding mismatch'')
      else if qs_action_class claims \<noteq> action_class
      then Inl (QStateVerificationError ''action class binding mismatch'')
      else Inr ())"

definition verify_q_state ::
    "Ed25519 \<Rightarrow> nat \<Rightarrow> pstr \<Rightarrow> (pstr \<rightharpoonup> bytes) \<Rightarrow> int \<Rightarrow> pstr \<Rightarrow> pstr \<Rightarrow> pstr \<Rightarrow> pstr \<Rightarrow> pstr set \<Rightarrow>
     VerifiedQState res" where
  "verify_q_state ed limit token keys now_s subject audience authority_class action_class revoked =
     bind_r (ensure (token \<noteq> []) (QStateVerificationError ''malformed token'')) (\<lambda>_.
     bind_r (require_identifier ''expected_subject'' (PStr subject)) (\<lambda>_.
     bind_r (require_identifier ''expected_audience'' (PStr audience)) (\<lambda>_.
     bind_r (require_identifier ''expected_authority_class'' (PStr authority_class)) (\<lambda>_.
     bind_r (require_identifier ''expected_action_class'' (PStr action_class)) (\<lambda>_.
     bind_r (ensure ([] \<notin> revoked)
       (ValueError ''revoked_state_ids must be a frozenset of identifiers'')) (\<lambda>_.
     case split_on 46 token of
       [header_part, payload_part, signature_part] \<Rightarrow>
         bind_r (ensure (header_part \<noteq> [] \<and> payload_part \<noteq> [] \<and> signature_part \<noteq> [])
           (QStateVerificationError ''malformed compact JWS'')) (\<lambda>_.
         bind_r (qs_b64decode header_part) (\<lambda>header_bytes.
         bind_r (qs_b64decode payload_part) (\<lambda>payload_bytes.
         bind_r (qs_b64decode signature_part) (\<lambda>signature.
         bind_r (qs_json_object limit header_bytes ''protected header'') (\<lambda>header.
         bind_r (check_header header) (\<lambda>kid.
         case keys kid of
           None \<Rightarrow> Inl (QStateVerificationError ''verification key unavailable'')
         | Some public_key \<Rightarrow>
             bind_r (ensure (ed_verify ed public_key signature
                 (ascii_bytes (header_part @ [46] @ payload_part)))
               (QStateVerificationError ''signature verification failed'')) (\<lambda>_.
             bind_r (qs_json_object limit payload_bytes ''payload'') (\<lambda>payload.
             bind_r (try_r (from_payload (PDict payload)) (\<lambda>e. if is_value_error e
               then Inl (QStateVerificationError ''invalid q-state claims'') else Inl e)) (\<lambda>claims.
             bind_r (check_binding claims now_s subject audience authority_class action_class revoked) (\<lambda>_.
             bind_r (to_composite_state claims) (\<lambda>state.
             Inr \<lparr>vq_claims = claims, vq_composite_state = state, vq_key_id = kid\<rparr>)))))))))))
     | _ \<Rightarrow> Inl (QStateVerificationError ''malformed compact JWS'')))))))"

end
