(* ===== verification/KilQStateWire.thy ===== *)
theory KilQStateWire
  imports KilQState
begin

text \<open>
  The decimal wire format of \<^verbatim>\<open>src/kil/q_state.py\<close>: a nonnegative decimal is written in
  canonical fixed-point form, of exactly the length that was checked, and is read back as
  the same number.
\<close>

subsection \<open>Digits\<close>

lemma nat_digits_times: "k \<noteq> 0 \<Longrightarrow> nat_digits (k * 10 ^ j) = nat_digits k @ replicate j 48"
proof (induction j)
  case (Suc j)
  have "\<not> k * 10 ^ Suc j < 10"
  proof -
    have "10 * 1 \<le> 10 * (k * 10 ^ j)" using Suc.prems by (intro mult_le_mono) (simp_all add: Suc_le_eq)
    then show ?thesis by (simp add: mult.left_commute)
  qed
  then have "nat_digits (k * 10 ^ Suc j) = nat_digits (k * 10 ^ Suc j div 10) @ [48 + k * 10 ^ Suc j mod 10]"
    by (subst nat_digits.simps) simp
  moreover have "k * 10 ^ Suc j div 10 = k * 10 ^ j" "k * 10 ^ Suc j mod 10 = 0" by simp_all
  ultimately show ?case using Suc by (simp add: replicate_append_same)
qed simp

lemma last_nat_digits: "last (nat_digits k) = 48 + k mod 10"
  by (subst nat_digits.simps) simp

lemma pop_zeros_power:
  "c \<noteq> 0 \<Longrightarrow> \<exists>k j. pop_zeros c e = (k, e + int j) \<and> c = k * 10 ^ j \<and> k mod 10 \<noteq> 0"
proof (induction c e rule: pop_zeros.induct)
  case (1 c e)
  show ?case
  proof (cases "c mod 10 = 0")
    case True
    then have c: "c = 10 * (c div 10)" "c div 10 \<noteq> 0" using 1(2) by auto
    then obtain k j where kj: "pop_zeros (c div 10) (e + 1) = (k, e + 1 + int j)" "c div 10 = k * 10 ^ j"
      "k mod 10 \<noteq> 0" using 1 True by auto
    then have "c = k * 10 ^ Suc j" using c(1) by (metis mult.left_commute power_Suc)
    moreover have "pop_zeros c e = (k, e + int (Suc j))"
      using kj(1) True 1(2) by (simp add: pop_zeros.simps [of c])
    ultimately show ?thesis using kj(3) by blast
  next
    case False
    then have "pop_zeros c e = (c, e + int 0)" by (simp add: pop_zeros.simps [of c])
    then show ?thesis using False by (metis power_0 mult.right_neutral)
  qed
qed

lemma pop_zeros_times: "k mod 10 \<noteq> 0 \<Longrightarrow> pop_zeros (k * 10 ^ j) e = (k, e + int j)"
proof (induction j arbitrary: e)
  case 0
  then show ?case by (simp add: pop_zeros.simps [of k])
next
  case (Suc j)
  have "k * 10 ^ Suc j mod 10 = 0" "k * 10 ^ Suc j \<noteq> 0" "k * 10 ^ Suc j div 10 = k * 10 ^ j"
    using Suc.prems by (auto intro!: gr0I)
  then show ?case using Suc.IH [OF Suc.prems, of "e + 1"] by (subst pop_zeros.simps) simp
qed

lemma rstrip_char_append: "rstrip_char c (s @ replicate j c) = rstrip_char c s"
proof -
  have "dropWhile (\<lambda>x. x = c) (replicate j c @ t) = dropWhile (\<lambda>x. x = c) t" for t
    by (induction j) auto
  then show ?thesis by (simp add: rstrip_char_def)
qed

lemma rstrip_char_last: "s = [] \<or> last s \<noteq> c \<Longrightarrow> rstrip_char c s = s"
proof -
  assume a: "s = [] \<or> last s \<noteq> c"
  then have "dropWhile (\<lambda>x. x = c) (rev s) = rev s"
    by (cases "rev s") (auto simp: last_rev [symmetric] dest: arg_cong [where f = rev])
  then show ?thesis by (simp add: rstrip_char_def)
qed

subsection \<open>The wire text of a nonzero decimal\<close>

text \<open>The digits of a coefficient, padded so that at least one precedes the point.\<close>

definition padded :: "nat \<Rightarrow> nat \<Rightarrow> pstr" where
  "padded n k = replicate (n + 1 - length (nat_digits k)) 48 @ nat_digits k"

definition pointed :: "nat \<Rightarrow> nat \<Rightarrow> pstr" where
  "pointed n k = take (length (padded n k) - n) (padded n k) @ 46 # drop (length (padded n k) - n) (padded n k)"

lemma format_f_neg: "0 < n \<Longrightarrow> format_f (Fin False c (- int n)) = pointed n c"
  by (simp add: pointed_def padded_def Let_def)

lemma padded_length: "n < length (padded n k)"
  by (simp add: padded_def)

lemma padded_digits: "list_all is_digit (padded n k)"
  by (auto simp: padded_def list_all_iff is_digit_def dest: nat_digits_digit)

lemma padded_times:
  assumes "k \<noteq> 0"
  shows "padded (n + j) (k * 10 ^ j) = padded n k @ replicate j 48"
  using assms by (simp add: padded_def nat_digits_times)

lemma decimal_wire_neg:
  assumes "0 < n" "k mod 10 \<noteq> 0"
  shows "decimal_wire (Fin False (k * 10 ^ j) (- int (n + j))) = pointed n k"
proof -
  let ?P = "padded n k" and ?m = "length (padded n k) - n"
  have k: "k \<noteq> 0" using assms(2) by (intro notI) simp
  have m: "?m \<le> length ?P" "0 < ?m" "?m < length ?P" using padded_length [of n k] assms(1) by simp_all
  have "pointed (n + j) (k * 10 ^ j) = pointed n k @ replicate j 48"
    using m by (simp add: pointed_def padded_times [OF k])
  moreover have "last (pointed n k) \<noteq> 48"
  proof -
    have "last (pointed n k) = last ?P" using m by (simp add: pointed_def last_drop)
    also have "\<dots> = 48 + k mod 10" by (simp add: padded_def last_nat_digits)
    finally show ?thesis using assms(2) by simp
  qed
  moreover have "last (pointed n k) \<noteq> 46"
  proof -
    have "last (pointed n k) = last ?P" using m by (simp add: pointed_def last_drop)
    also have "\<dots> = 48 + k mod 10" by (simp add: padded_def last_nat_digits)
    finally show ?thesis by simp
  qed
  moreover have "46 \<in> set (pointed (n + j) (k * 10 ^ j))" by (simp add: pointed_def)
  moreover have "format_f (Fin False (k * 10 ^ j) (- int (n + j))) = pointed (n + j) (k * 10 ^ j)"
    by (rule format_f_neg) (use assms(1) in simp)
  ultimately show ?thesis
    using k by (simp add: decimal_wire_def rstrip_char_append rstrip_char_last del: format_f.simps of_nat_add)
qed

lemma no_point_digits: "46 \<notin> set (nat_digits k @ replicate j 48)"
  by (auto simp: is_digit_def dest: nat_digits_digit)

lemma decimal_wire_nonneg:
  assumes "k mod 10 \<noteq> 0"
  shows "decimal_wire (Fin False (k * 10 ^ j) (int x - int j)) = nat_digits k @ replicate x 48"
proof -
  have k: "k \<noteq> 0" using assms by (intro notI) simp
  show ?thesis
  proof (cases "j \<le> x")
    case True
    then have "format_f (Fin False (k * 10 ^ j) (int x - int j))
        = nat_digits k @ replicate j 48 @ replicate (x - j) 48"
      using k by (simp add: nat_digits_times nat_diff_distrib)
    also have "\<dots> = nat_digits k @ replicate x 48" using True by (simp add: replicate_add [symmetric])
    finally show ?thesis using k no_point_digits [of k x] by (simp add: decimal_wire_def del: format_f.simps)
  next
    case False
    define n where "n = j - x"
    have n: "0 < n" "j = x + n" using False by (simp_all add: n_def)
    have neg: "int x - int j = - int n" using n by simp
    have D: "padded n (k * 10 ^ j) = nat_digits k @ replicate x 48 @ replicate n 48"
      using k length_greater_0_conv [of "nat_digits k"]
      by (simp add: padded_def nat_digits_times n(2) replicate_add Suc_le_eq del: length_greater_0_conv)
    have "format_f (Fin False (k * 10 ^ j) (- int n)) = pointed n (k * 10 ^ j)"
      by (rule format_f_neg) (rule n(1))
    also have "\<dots> = (nat_digits k @ replicate x 48 @ [46]) @ replicate n 48"
      by (simp add: pointed_def D)
    finally have f: "format_f (Fin False (k * 10 ^ j) (int x - int j))
        = (nat_digits k @ replicate x 48 @ [46]) @ replicate n 48" unfolding neg .
    have "rstrip_char 48 ((nat_digits k @ replicate x 48 @ [46]) @ replicate n 48)
        = nat_digits k @ replicate x 48 @ [46]"
      unfolding rstrip_char_append by (rule rstrip_char_last) simp
    moreover have "rstrip_char 46 (nat_digits k @ replicate x 48 @ [46]) = nat_digits k @ replicate x 48"
    proof -
      have "rstrip_char 46 ((nat_digits k @ replicate x 48) @ replicate 1 46)
          = rstrip_char 46 (nat_digits k @ replicate x 48)" by (rule rstrip_char_append)
      also have "\<dots> = nat_digits k @ replicate x 48"
      proof (rule rstrip_char_last)
        have "last (nat_digits k @ replicate x 48) \<in> set (nat_digits k @ replicate x 48)"
          by (rule last_in_set) simp
        then show "nat_digits k @ replicate x 48 = [] \<or> last (nat_digits k @ replicate x 48) \<noteq> 46"
          using no_point_digits [of k x] by metis
      qed
      finally show ?thesis by simp
    qed
    ultimately show ?thesis
      using k by (simp add: decimal_wire_def f del: format_f.simps append_assoc)
  qed
qed

subsection \<open>Reading the wire text back\<close>

text \<open>The number as the reader represents it.\<close>

fun wire_normal :: "decimal \<Rightarrow> decimal" where
  "wire_normal (Fin s c e) =
     (if c = 0 then dec_zero
      else case pop_zeros c e of (k, x) \<Rightarrow>
        if x \<ge> 0 then Fin False (k * 10 ^ nat x) 0 else Fin False k x)"
| "wire_normal d = d"

text \<open>The two shapes of a nonzero decimal's wire text.\<close>

lemma wire_cases:
  assumes "c \<noteq> 0"
  obtains (whole) k x where "pop_zeros c e = (k, int x)" "k mod 10 \<noteq> 0"
      "decimal_wire (Fin False c e) = nat_digits (k * 10 ^ x)"
  | (pointed) k n where "pop_zeros c e = (k, - int n)" "0 < n" "k mod 10 \<noteq> 0"
      "decimal_wire (Fin False c e) = pointed n k"
proof -
  from pop_zeros_power [OF assms, of e] obtain k j where kj: "pop_zeros c e = (k, e + int j)"
    "c = k * 10 ^ j" "k mod 10 \<noteq> 0" by blast
  show thesis
  proof (cases "0 \<le> e + int j")
    case True
    then obtain x where x: "e + int j = int x" using nonneg_int_cases by blast
    then have e: "e = int x - int j" by simp
    have "k \<noteq> 0" using kj(3) by (intro notI) simp
    then show thesis
      using whole [of k x] kj x decimal_wire_nonneg [OF kj(3), of j x] by (simp add: e nat_digits_times)
  next
    case False
    define n where "n = nat (- (e + int j))"
    have n: "0 < n" "e + int j = - int n" "e = - int (n + j)" using False by (simp_all add: n_def)
    show thesis using pointed [of k n] kj n decimal_wire_neg [OF n(1) kj(3), of j] by simp
  qed
qed

lemma takeWhile_all_digits: "list_all is_digit s \<Longrightarrow> takeWhile is_digit s = s"
  by (simp add: list_all_iff takeWhile_eq_all_conv)

lemma nat_digits_all: "list_all is_digit (nat_digits k)"
  by (auto simp: list_all_iff dest: nat_digits_digit)

lemma not_minus_digits: "list_all is_digit s \<Longrightarrow> take 1 (s @ t) = [45] \<Longrightarrow> s = []"
  by (cases s) (auto simp: is_digit_def)

lemma parse_whole: "list_all is_digit s \<Longrightarrow> s \<noteq> [] \<Longrightarrow> parse_decimal s = Some (Fin False (digits_value s) 0)"
  using not_minus_digits [of s "[]"]
  by (auto simp: parse_decimal_def Let_def takeWhile_all_digits)

lemma parse_pointed:
  assumes "list_all is_digit a" "a \<noteq> []" "list_all is_digit b" "b \<noteq> []"
  shows "parse_decimal (a @ 46 # b) = Some (Fin False (digits_value (a @ b)) (- int (length b)))"
proof -
  have "takeWhile is_digit (a @ 46 # b) = a"
    using assms(1) by (subst takeWhile_append2) (auto simp: list_all_iff is_digit_def)
  moreover have "take 1 (a @ 46 # b) \<noteq> [45]" using not_minus_digits [OF assms(1), of "46 # b"] assms(2) by blast
  ultimately show ?thesis using assms by (simp add: parse_decimal_def Let_def)
qed

lemma digits_value_zeros: "digits_value (replicate n 48 @ ds) = digits_value ds"
  by (induction n) (simp_all add: digits_value_def)

lemma pointed_parts:
  assumes "0 < n"
  obtains a b where "pointed n k = a @ 46 # b" "a @ b = padded n k" "length b = n" "a \<noteq> []"
    "list_all is_digit a" "list_all is_digit b"
proof -
  let ?m = "length (padded n k) - n"
  have "take ?m (padded n k) @ drop ?m (padded n k) = padded n k" by simp
  moreover have "list_all is_digit (take ?m (padded n k))" "list_all is_digit (drop ?m (padded n k))"
    using padded_digits [of n k] by (auto simp: list_all_iff dest: in_set_takeD in_set_dropD)
  moreover have "take ?m (padded n k) \<noteq> []" using padded_length [of n k]
    by (metis length_0_conv length_take min.absorb2 diff_le_self zero_less_diff less_numeral_extra(3))
  moreover have "length (drop ?m (padded n k)) = n" using padded_length [of n k] by simp
  ultimately show thesis using that by (metis pointed_def)
qed

lemma digits_value_padded: "digits_value (padded n k) = k"
  by (simp add: padded_def digits_value_zeros)

lemma parse_wire:
  assumes "is_finite d" "\<not> is_signed d"
  shows "parse_decimal (decimal_wire d) = Some (wire_normal d)"
proof -
  obtain c e where d: "d = Fin False c e" using assms by (cases d) auto
  show ?thesis
  proof (cases "c = 0")
    case True
    then show ?thesis
      by (simp add: d decimal_wire_def dec_zero_def u_def parse_decimal_def is_digit_def digits_value_def)
  next
    case False
    then show ?thesis
    proof (cases rule: wire_cases [of c e])
      case (whole k x)
      then show ?thesis using False nat_digits_all [of "k * 10 ^ x"] by (simp add: d parse_whole)
    next
      case (pointed k n)
      from pointed_parts [OF pointed(2), of k] obtain a b where ab: "pointed n k = a @ 46 # b"
        "a @ b = padded n k" "length b = n" "a \<noteq> []" "list_all is_digit a" "list_all is_digit b" .
      have "b \<noteq> []" using ab(3) pointed(2) by auto
      then show ?thesis
        using False pointed ab parse_pointed [OF ab(5,4,6)] by (simp add: d digits_value_padded)
    qed
  qed
qed

lemma wire_normal_dval:
  assumes "is_finite d" "\<not> is_signed d"
  shows "dval (wire_normal d) = dval d"
proof -
  obtain c e where d: "d = Fin False c e" using assms by (cases d) auto
  show ?thesis
  proof (cases "c = 0")
    case False
    from pop_zeros_props [OF False, of e] obtain k x where kx: "pop_zeros c e = (k, x)"
      "of_nat c * 10 powi e = (of_nat k * 10 powi x :: rat)" by blast
    show ?thesis
    proof (cases "0 \<le> x")
      case True
      then obtain n where "x = int n" using nonneg_int_cases by blast
      then show ?thesis using kx False by (simp add: d)
    qed (use kx False in \<open>simp add: d\<close>)
  qed (simp add: d)
qed

lemma decimal_text_wire:
  assumes "is_finite d" "\<not> is_signed d"
  shows "decimal_text (decimal_wire d)"
proof -
  obtain c e where d: "d = Fin False c e" using assms by (cases d) auto
  show ?thesis
  proof (cases "c = 0")
    case True
    then show ?thesis by (simp add: d decimal_wire_def decimal_text_def u_def is_digit_def)
  next
    case False
    then show ?thesis
    proof (cases rule: wire_cases [of c e])
      case (whole k x)
      have "0 < k * 10 ^ x" using whole(2) by (intro gr0I) auto
      then show ?thesis
        using whole(3) hd_nat_digits [of "k * 10 ^ x"]
        by (simp add: d decimal_text_def Let_def takeWhile_all_digits nat_digits_all)
    next
      case (pointed k n)
      have k: "0 < k" using pointed(3) by (intro gr0I) auto
      from pointed_parts [OF pointed(2), of k] obtain a b where ab: "pointed n k = a @ 46 # b"
        "a @ b = padded n k" "length b = n" "a \<noteq> []" "list_all is_digit a" "list_all is_digit b" .
      have b: "b \<noteq> []" using ab(3) pointed(2) by auto
      have tw: "takeWhile is_digit (a @ 46 # b) = a"
        using ab(5) by (subst takeWhile_append2) (auto simp: list_all_iff is_digit_def)
      have "last b = last (padded n k)" using ab(2) b by (metis last_appendR)
      then have last: "last b \<noteq> 48" using pointed(3) by (simp add: padded_def last_nat_digits)
      have "a = [48] \<or> hd a \<noteq> 48"
      proof (cases "length (nat_digits k) \<le> n")
        case True
        then obtain p where p: "n + 1 - length (nat_digits k) = Suc p" by (metis Suc_diff_le Suc_eq_plus1)
        then have len: "length (padded n k) = n + 1" using True by (simp add: padded_def)
        have "length a = 1" using len ab(2,3) by (metis add_diff_cancel_left' add.commute length_append)
        then obtain y where y: "a = [y]" by (cases a) auto
        then have "padded n k = y # b" using ab(2) by simp
        moreover have "padded n k = 48 # replicate p 48 @ nat_digits k" using p by (simp add: padded_def)
        ultimately show ?thesis using y by simp
      next
        case F: False
        then have "padded n k = nat_digits k" by (simp add: padded_def)
        then have "hd a = hd (nat_digits k)" using ab(2,4) by (metis hd_append2)
        then show ?thesis using hd_nat_digits [OF k] by simp
      qed
      then show ?thesis
        using pointed(4) ab b last by (auto simp: d decimal_text_def Let_def tw)
    qed
  qed
qed

lemma decimal_wire_length_eq:
  assumes "is_finite d" "\<not> is_signed d"
  shows "int (length (decimal_wire d)) = decimal_wire_length d"
proof -
  obtain c e where d: "d = Fin False c e" using assms by (cases d) auto
  show ?thesis
  proof (cases "c = 0")
    case True
    then show ?thesis by (simp add: d decimal_wire_def)
  next
    case False
    then show ?thesis
    proof (cases rule: wire_cases [of c e])
      case (whole k x)
      have "k \<noteq> 0" using whole(2) by (intro notI) simp
      then show ?thesis
        using whole False by (simp add: d nat_digits_times length_nat_digits)
    next
      case (pointed k n)
      from pointed_parts [OF pointed(2), of k] obtain a b where ab: "pointed n k = a @ 46 # b"
        "a @ b = padded n k" .
      have "length (pointed n k) = length (padded n k) + 1" unfolding ab(1) ab(2) [symmetric] by simp
      then show ?thesis
        using pointed False by (auto simp: d padded_def length_nat_digits Let_def)
    qed
  qed
qed

lemma wire_normal_again:
  assumes "is_finite d" "\<not> is_signed d"
  shows "is_finite (wire_normal d) \<and> \<not> is_signed (wire_normal d)
     \<and> decimal_wire_length (wire_normal d) = decimal_wire_length d"
proof -
  obtain c e where d: "d = Fin False c e" using assms by (cases d) auto
  show ?thesis
  proof (cases "c = 0")
    case False
    from pop_zeros_props [OF False, of e] obtain k x where kx: "pop_zeros c e = (k, x)" "k mod 10 \<noteq> 0"
      by blast
    have k: "k \<noteq> 0" using kx(2) by (intro notI) simp
    show ?thesis
    proof (cases "0 \<le> x")
      case True
      then obtain n where "x = int n" using nonneg_int_cases by blast
      then show ?thesis using kx k False pop_zeros_times [OF kx(2), of n 0] by (simp add: d)
    next
      case neg: False
      then show ?thesis using kx k False pop_zeros_times [OF kx(2), of 0 x] by (simp add: d)
    qed
  qed (simp add: d dec_zero_def)
qed

text \<open>
  Claim C14: the wire form of a decimal. A nonnegative decimal is written as canonical
  fixed-point text (the pattern the reader insists on), of exactly the length the limit of
  64 characters is checked against before it is written, and the reader gets back a
  decimal of the same value.
\<close>
theorem decimal_wire_canonical:
  assumes "is_finite d" "\<not> is_signed d"
  shows "decimal_text (decimal_wire d) \<and> int (length (decimal_wire d)) = decimal_wire_length d
     \<and> (\<exists>d'. parse_decimal (decimal_wire d) = Some d' \<and> dval d' = dval d)"
  using decimal_text_wire [OF assms] decimal_wire_length_eq [OF assms] parse_wire [OF assms]
    wire_normal_dval [OF assms] by blast

theorem decimal_wire_canonical_witness:
  "decimal_wire (Fin False 120500 (-4)) = u ''12.05'' \<and> decimal_text (u ''12.05'')"
proof -
  have w: "decimal_wire (Fin False 120500 (-4)) = u ''12.05''" by code_simp
  have "is_finite (Fin False 120500 (-4))" "\<not> is_signed (Fin False 120500 (-4))" by simp_all
  from decimal_wire_canonical [OF this] w show ?thesis by metis
qed

end
