(* ===== verification/KilQStateVerify.thy ===== *)
theory KilQStateVerify
  imports KilQStateWire
begin

text \<open>
  What the verifier of \<^verbatim>\<open>src/kil/q_state.py\<close> promises: which tokens it accepts, what an
  accepted token is bound to, that an issued token verifies, and what it raises.
\<close>

subsection \<open>Well-formed claims\<close>

definition qs_decimal_ok :: "decimal \<Rightarrow> bool" where
  "qs_decimal_ok d \<longleftrightarrow> is_finite d \<and> \<not> is_signed d \<and> decimal_wire_length d \<le> int MAX_DECIMAL_WIRE_LENGTH"

definition wf_QStateClaims :: "QStateClaims \<Rightarrow> bool" where
  "wf_QStateClaims c \<longleftrightarrow>
     qs_schema_version c = u Q_STATE_SCHEMA_VERSION \<and>
     list_all nonblank [qs_state_id c, qs_issuer c, qs_subject c, qs_audience c, qs_authority_class c,
       qs_action_class c, qs_trust_proof_id c, qs_envelope_result_id c, qs_deployment_profile c,
       qs_model_version c, qs_parameter_version c] \<and>
     list_all qs_decimal_ok [qs_charge c, qs_threshold c, qs_decay_rate c, qs_maximum_charge c] \<and>
     digest_text (qs_trust_proof_digest c) \<and> digest_text (qs_envelope_result_digest c) \<and>
     qs_issued_at_s c \<le> qs_not_before_s c \<and> qs_not_before_s c < qs_expires_at_s c \<and>
     qs_expires_at_s c - qs_issued_at_s c \<le> MAX_VALIDITY_SECONDS \<and>
     qs_evidence_horizon_s c \<le> qs_issued_at_s c \<and>
     0 \<le> qs_history_count c \<and> 0 \<le> qs_minimum_history c \<and>
     \<not> d_less (qs_maximum_charge c) (qs_charge c) \<and> \<not> d_less (qs_maximum_charge c) (qs_threshold c)"

lemma unsigned_iff: "is_finite d \<Longrightarrow> \<not> (is_zero_dec d \<and> is_signed d) \<and> \<not> d_less d dec_zero \<longleftrightarrow> \<not> is_signed d"
  by (cases d) (auto simp: d_less_iff not_less mult_le_0_iff zero_less_mult_iff)

lemma qs_require_decimal_Inr [kil_defs]:
  "qs_require_decimal name v = Inr d \<longleftrightarrow> v = PDec d \<and> qs_decimal_ok d"
proof (cases v)
  case (PDec x)
  show ?thesis
  proof (cases "is_finite x")
    case True
    then show ?thesis
      using unsigned_iff [OF True]
      by (auto simp: qs_require_decimal_def require_finite_decimal_def qs_decimal_ok_def PDec)
  qed (auto simp: qs_require_decimal_def require_finite_decimal_def qs_decimal_ok_def PDec)
qed (simp_all add: qs_require_decimal_def require_finite_decimal_def)

lemma require_digest_Inr [kil_defs]: "require_digest name v = Inr s \<longleftrightarrow> v = PStr s \<and> digest_text s"
  by (cases v) (auto simp: require_digest_def)

lemma check_claims_Inr: "check_claims c = Inr c' \<longleftrightarrow> c' = c \<and>
     qs_issued_at_s c \<le> qs_not_before_s c \<and> qs_not_before_s c < qs_expires_at_s c \<and>
     qs_expires_at_s c - qs_issued_at_s c \<le> MAX_VALIDITY_SECONDS \<and>
     qs_evidence_horizon_s c \<le> qs_issued_at_s c \<and>
     0 \<le> qs_history_count c \<and> 0 \<le> qs_minimum_history c \<and>
     \<not> d_less (qs_maximum_charge c) (qs_charge c) \<and> \<not> d_less (qs_maximum_charge c) (qs_threshold c)"
  by (auto simp: check_claims_def)

lemma make_QStateClaims_wf: "make_QStateClaims f = Inr c \<Longrightarrow> wf_QStateClaims c"
  by (unfold make_QStateClaims_def, elim bind_rE,
      simp only: check_claims_Inr require_identifier_Inr require_integer_Inr require_boolean_Inr
        qs_require_decimal_Inr require_digest_Inr ensure_eq_Inr)
    (clarsimp simp: wf_QStateClaims_def)

lemma make_QStateClaims_of:
  assumes "wf_QStateClaims c"
    and "f ''schema_version'' = PStr (qs_schema_version c)" "f ''state_id'' = PStr (qs_state_id c)"
    "f ''issuer'' = PStr (qs_issuer c)" "f ''subject'' = PStr (qs_subject c)"
    "f ''audience'' = PStr (qs_audience c)" "f ''authority_class'' = PStr (qs_authority_class c)"
    "f ''action_class'' = PStr (qs_action_class c)" "f ''issued_at_s'' = PInt (qs_issued_at_s c)"
    "f ''not_before_s'' = PInt (qs_not_before_s c)" "f ''expires_at_s'' = PInt (qs_expires_at_s c)"
    "f ''evidence_horizon_s'' = PInt (qs_evidence_horizon_s c)"
    "f ''trust_proof_id'' = PStr (qs_trust_proof_id c)"
    "f ''trust_proof_digest'' = PStr (qs_trust_proof_digest c)"
    "f ''envelope_result_id'' = PStr (qs_envelope_result_id c)"
    "f ''envelope_result_digest'' = PStr (qs_envelope_result_digest c)"
    "f ''deployment_profile'' = PStr (qs_deployment_profile c)"
    "f ''charge'' = PDec (qs_charge c)" "f ''threshold'' = PDec (qs_threshold c)"
    "f ''history_count'' = PInt (qs_history_count c)" "f ''minimum_history'' = PInt (qs_minimum_history c)"
    "f ''veto_clear'' = PBool (qs_veto_clear c)" "f ''envelope_allows'' = PBool (qs_envelope_allows c)"
    "f ''decay_rate'' = PDec (qs_decay_rate c)" "f ''maximum_charge'' = PDec (qs_maximum_charge c)"
    "f ''model_version'' = PStr (qs_model_version c)"
    "f ''parameter_version'' = PStr (qs_parameter_version c)"
  shows "make_QStateClaims f = Inr c"
proof -
  have id: "require_identifier n (PStr s) = Inr s" if "nonblank s" for n s
    using that by (simp add: require_identifier_def)
  have int: "require_integer n (PInt i) = Inr i" "require_boolean n (PBool b) = Inr b" for n i b
    by (simp_all add: require_integer_def require_boolean_def)
  have dec: "qs_require_decimal n (PDec d) = Inr d" if "qs_decimal_ok d" for n d
    using that by (simp add: qs_require_decimal_Inr)
  have dig: "require_digest n (PStr s) = Inr s" if "digest_text s" for n s
    using that by (simp add: require_digest_def)
  have wf: "nonblank (qs_state_id c)" "nonblank (qs_issuer c)" "nonblank (qs_subject c)"
    "nonblank (qs_audience c)" "nonblank (qs_authority_class c)" "nonblank (qs_action_class c)"
    "nonblank (qs_trust_proof_id c)" "nonblank (qs_envelope_result_id c)" "nonblank (qs_deployment_profile c)"
    "nonblank (qs_model_version c)" "nonblank (qs_parameter_version c)"
    "qs_decimal_ok (qs_charge c)" "qs_decimal_ok (qs_threshold c)" "qs_decimal_ok (qs_decay_rate c)"
    "qs_decimal_ok (qs_maximum_charge c)" "digest_text (qs_trust_proof_digest c)"
    "digest_text (qs_envelope_result_digest c)" "qs_schema_version c = u Q_STATE_SCHEMA_VERSION"
    "check_claims c = Inr c"
    using assms(1) by (simp_all add: wf_QStateClaims_def check_claims_Inr)
  show ?thesis
    unfolding make_QStateClaims_def assms(2-) wf(18)
    by (simp only: id dec int dig wf ensure_True bind_r_Inr refl)
      (use wf(18,19) in \<open>cases c; simp\<close>)
qed

subsection \<open>Base64 and JSON parts\<close>

lemma qs_b64decode_Inr: "qs_b64decode s = Inr bs \<longleftrightarrow> bs \<noteq> [] \<and> s = b64url_encode bs"
proof
  assume "qs_b64decode s = Inr bs"
  then show "bs \<noteq> [] \<and> s = b64url_encode bs"
    by (auto simp: qs_b64decode_def split: if_splits sum.splits)
next
  assume "bs \<noteq> [] \<and> s = b64url_encode bs"
  then show "qs_b64decode s = Inr bs"
    using b64_round_trip [of bs] by (simp add: qs_b64decode_def)
qed

lemma map_of_sort_items: "distinct (map fst d) \<Longrightarrow> map_of (sort_items d) = map_of d"
  by (subst map_of_inject_set) simp_all

lemma payload_field_sort: "distinct (map fst d) \<Longrightarrow> payload_field (sort_items d) = payload_field d"
  by (simp add: fun_eq_iff payload_field_def dict_get_def map_of_sort_items)

lemma has_unknown_sort: "has_unknown (sort_items d) ks = has_unknown d ks"
  by (simp add: has_unknown_iff dict_keys_def)

lemma has_missing_sort: "has_missing (sort_items d) ks = has_missing d ks"
  by (simp add: has_missing_iff dict_keys_def)

fun scalar_value :: "pyval \<Rightarrow> bool" where
  "scalar_value (PStr _) = True"
| "scalar_value (PInt _) = True"
| "scalar_value (PBool _) = True"
| "scalar_value _ = False"

definition flat_dict :: "pydict \<Rightarrow> bool" where
  "flat_dict d \<longleftrightarrow> distinct (map fst d) \<and> list_all (\<lambda>kv. is_str (fst kv) \<and> scalar_value (snd kv)) d"

lemma scalar_sorted_form: "scalar_value v \<Longrightarrow> sorted_form v = v"
  by (cases v) auto

lemma scalar_canonical: "scalar_value v \<Longrightarrow> ints_ok v \<Longrightarrow> canonical v \<and> nesting v = 0"
  by (cases v) auto

text \<open>An object of scalars is read back from its serialization, with its keys in order.\<close>

lemma flat_dict_round_trip:
  assumes "flat_dict d" "json_bytes (PDict d) = Inr bs" "1 \<le> limit"
  shows "qs_json_object limit bs label = Inr (sort_items d)"
proof -
  have flat: "distinct (map fst d)" "\<forall>kv \<in> set d. is_str (fst kv) \<and> scalar_value (snd kv)"
    using assms(1) by (auto simp: flat_dict_def list_all_iff)
  have ints: "\<forall>kv \<in> set d. ints_ok (snd kv)" and enc: "utf8_encode (dump_text (PDict d)) = Inr bs"
    using assms(2) by (auto simp: json_bytes_def json_dumps_def list_all_iff split: if_splits)
  have "map (\<lambda>kv. (fst kv, sorted_form (snd kv))) (sort_items d) = sort_items d"
    by (rule map_idI) (use flat in \<open>auto simp: scalar_sorted_form\<close>)
  then have sf: "sorted_form (PDict d) = PDict (sort_items d)" by simp
  have canon: "canonical (PDict (sort_items d))"
    using flat ints by (auto simp: list_all_iff scalar_canonical)
  have nest: "nesting (PDict (sort_items d)) \<le> limit"
    unfolding nesting_le_iff using assms(3) flat ints by (auto simp: scalar_canonical)
  have "json_loads default_hook limit (dump_text (PDict (sort_items d)) @ []) = Inr (PDict (sort_items d))"
    by (rule json_round_trip [OF default_hook_faithful canon nest]) (simp_all add: skip_ws_def)
  then have "json_loads default_hook limit (dump_text (PDict d)) = Inr (PDict (sort_items d))"
    using dump_sorted_form [of "PDict d"] unfolding sf by simp
  then show ?thesis using utf8_round_trip [OF enc] by (simp add: qs_json_object_def)
qed

lemma json_bytes_not_Nil: "json_bytes (PDict d) = Inr bs \<Longrightarrow> bs \<noteq> []"
proof
  assume j: "json_bytes (PDict d) = Inr bs" and "bs = []"
  then have "utf8_encode (dump_text (PDict d)) = Inr []" by (auto simp: json_bytes_def json_dumps_def split: if_splits)
  from utf8_round_trip [OF this] have "utf8_decode [] = Inr (dump_text (PDict d))" .
  then show False by (simp add: utf8_decode_def)
qed

subsection \<open>Claims through their payload\<close>

lemma to_payload_keys: "map fst (to_payload c) = map (PStr \<circ> u) QSTATE_FIELDS"
  by (simp add: to_payload_def QSTATE_FIELDS_def)

lemma QSTATE_FIELDS_distinct: "distinct QSTATE_FIELDS"
  by code_simp

lemma inj_PStr_u: "inj (PStr \<circ> u)"
  by (auto simp: inj_def u_eq_iff)

lemma to_payload_flat: "flat_dict (to_payload c)"
proof -
  have "distinct (map fst (to_payload c))"
    unfolding to_payload_keys using QSTATE_FIELDS_distinct inj_PStr_u
    by (metis distinct_map inj_on_subset subset_UNIV)
  then show ?thesis by (simp add: flat_dict_def to_payload_def)
qed

lemma dict_get_map: "dict_get (map (\<lambda>(k, v). (PStr (u k), v)) xs) k = map_of xs k"
  by (induction xs) (auto simp: dict_get_def u_eq_iff)

lemma payload_field_map:
  "payload_field (map (\<lambda>(k, v). (PStr (u k), v)) xs) k = (case map_of xs k of None \<Rightarrow> PNone | Some v \<Rightarrow> v)"
  by (simp add: payload_field_def dict_get_map)

text \<open>The claims as they are read back: the decimals in the reader's representation.\<close>

definition wire_claims :: "QStateClaims \<Rightarrow> QStateClaims" where
  "wire_claims c = c\<lparr>qs_charge := wire_normal (qs_charge c), qs_threshold := wire_normal (qs_threshold c),
     qs_decay_rate := wire_normal (qs_decay_rate c), qs_maximum_charge := wire_normal (qs_maximum_charge c)\<rparr>"

lemma qs_decimal_ok_wire: "qs_decimal_ok d \<Longrightarrow> qs_decimal_ok (wire_normal d)"
  using wire_normal_again [of d] by (simp add: qs_decimal_ok_def)

lemma d_less_wire:
  "qs_decimal_ok a \<Longrightarrow> qs_decimal_ok b \<Longrightarrow> d_less (wire_normal a) (wire_normal b) \<longleftrightarrow> d_less a b"
  using wire_normal_again [of a] wire_normal_again [of b] wire_normal_dval [of a] wire_normal_dval [of b]
  by (simp add: qs_decimal_ok_def d_less_iff)

lemma wire_claims_wf: "wf_QStateClaims c \<Longrightarrow> wf_QStateClaims (wire_claims c)"
  by (simp add: wf_QStateClaims_def wire_claims_def qs_decimal_ok_wire d_less_wire)

lemma payload_decimal_wire:
  "qs_decimal_ok d \<Longrightarrow> payload_decimal (PStr (decimal_wire d)) = Inr (wire_normal d)"
  using parse_wire [of d] decimal_text_wire [of d] decimal_wire_length_eq [of d]
  by (simp add: payload_decimal_def qs_decimal_ok_def)

lemma to_payload_fields:
  "payload_field (to_payload c) ''schema_version'' = PStr (qs_schema_version c)"
  "payload_field (to_payload c) ''state_id'' = PStr (qs_state_id c)"
  "payload_field (to_payload c) ''issuer'' = PStr (qs_issuer c)"
  "payload_field (to_payload c) ''subject'' = PStr (qs_subject c)"
  "payload_field (to_payload c) ''audience'' = PStr (qs_audience c)"
  "payload_field (to_payload c) ''authority_class'' = PStr (qs_authority_class c)"
  "payload_field (to_payload c) ''action_class'' = PStr (qs_action_class c)"
  "payload_field (to_payload c) ''issued_at_s'' = PInt (qs_issued_at_s c)"
  "payload_field (to_payload c) ''not_before_s'' = PInt (qs_not_before_s c)"
  "payload_field (to_payload c) ''expires_at_s'' = PInt (qs_expires_at_s c)"
  "payload_field (to_payload c) ''evidence_horizon_s'' = PInt (qs_evidence_horizon_s c)"
  "payload_field (to_payload c) ''trust_proof_id'' = PStr (qs_trust_proof_id c)"
  "payload_field (to_payload c) ''trust_proof_digest'' = PStr (qs_trust_proof_digest c)"
  "payload_field (to_payload c) ''envelope_result_id'' = PStr (qs_envelope_result_id c)"
  "payload_field (to_payload c) ''envelope_result_digest'' = PStr (qs_envelope_result_digest c)"
  "payload_field (to_payload c) ''deployment_profile'' = PStr (qs_deployment_profile c)"
  "payload_field (to_payload c) ''charge'' = PStr (decimal_wire (qs_charge c))"
  "payload_field (to_payload c) ''threshold'' = PStr (decimal_wire (qs_threshold c))"
  "payload_field (to_payload c) ''history_count'' = PInt (qs_history_count c)"
  "payload_field (to_payload c) ''minimum_history'' = PInt (qs_minimum_history c)"
  "payload_field (to_payload c) ''veto_clear'' = PBool (qs_veto_clear c)"
  "payload_field (to_payload c) ''envelope_allows'' = PBool (qs_envelope_allows c)"
  "payload_field (to_payload c) ''decay_rate'' = PStr (decimal_wire (qs_decay_rate c))"
  "payload_field (to_payload c) ''maximum_charge'' = PStr (decimal_wire (qs_maximum_charge c))"
  "payload_field (to_payload c) ''model_version'' = PStr (qs_model_version c)"
  "payload_field (to_payload c) ''parameter_version'' = PStr (qs_parameter_version c)"
  by (simp_all add: to_payload_def payload_field_map del: list.map)

lemma from_payload_to_payload:
  assumes "wf_QStateClaims c"
  shows "from_payload (PDict (sort_items (to_payload c))) = Inr (wire_claims c)"
proof -
  have dist: "distinct (map fst (to_payload c))" using to_payload_flat by (simp add: flat_dict_def)
  have keys: "dict_keys (to_payload c) = key_set QSTATE_FIELDS"
    using arg_cong [OF to_payload_keys [of c], of set] by (simp add: dict_keys_def key_set_def)
  have dec: "qs_decimal_ok (qs_charge c)" "qs_decimal_ok (qs_threshold c)" "qs_decimal_ok (qs_decay_rate c)"
    "qs_decimal_ok (qs_maximum_charge c)" using assms by (simp_all add: wf_QStateClaims_def)
  let ?f = "(payload_field (to_payload c))(''charge'' := PDec (wire_normal (qs_charge c)),
    ''threshold'' := PDec (wire_normal (qs_threshold c)),
    ''decay_rate'' := PDec (wire_normal (qs_decay_rate c)),
    ''maximum_charge'' := PDec (wire_normal (qs_maximum_charge c)))"
  have "make_QStateClaims ?f = Inr (wire_claims c)"
    by (rule make_QStateClaims_of [OF wire_claims_wf [OF assms]])
      (simp_all add: wire_claims_def to_payload_fields)
  moreover have "\<not> has_unknown (to_payload c) QSTATE_FIELDS" "\<not> has_missing (to_payload c) QSTATE_FIELDS"
    by (simp_all add: has_unknown_iff has_missing_iff keys)
  ultimately show ?thesis
    using dec by (simp add: from_payload_def has_unknown_sort has_missing_sort
        payload_field_sort [OF dist] to_payload_fields payload_decimal_wire)
qed

lemma from_payload_wf: "from_payload v = Inr c \<Longrightarrow> wf_QStateClaims c"
  by (auto simp: from_payload_def split: pyval.splits if_splits dest: make_QStateClaims_wf)

subsection \<open>The header\<close>

lemma key_id_text: "key_id k \<noteq> []" "list_all (\<lambda>c. c < 128) (key_id k)"
proof -
  have "hex64 (sha256_hex k)" by (rule sha256_hex64)
  then have "length (sha256_hex k) = 64" "list_all (\<lambda>c. c < 128) (sha256_hex k)"
    using hex64_ascii by (simp_all add: hex64_def)
  then show "key_id k \<noteq> []" "list_all (\<lambda>c. c < 128) (key_id k)"
    by (auto simp: key_id_def list_all_iff dest: in_set_takeD)
qed

definition header_items :: "pstr \<Rightarrow> pydict" where
  "header_items kid = [(PStr (u ''alg''), PStr (u ''EdDSA'')), (PStr (u ''kid''), PStr kid),
     (PStr (u ''typ''), PStr (u ''KIL-Q+JWT''))]"

lemma header_flat: "flat_dict (header_items kid)"
  by (simp add: flat_dict_def header_items_def u_eq_iff)

lemma check_header_sorted:
  assumes "kid \<noteq> []"
  shows "check_header (sort_items (header_items kid)) = Inr kid"
proof -
  have dist: "distinct (map fst (header_items kid))" using header_flat by (simp add: flat_dict_def)
  have "keys_exact (sort_items (header_items kid)) [''alg'', ''kid'', ''typ'']"
    by (simp add: keys_exact_iff dict_keys_def key_set_def header_items_def)
  then show ?thesis
    using assms
    by (simp add: check_header_def payload_field_sort [OF dist])
      (simp add: header_items_def payload_field_def dict_get_def u_eq_iff)
qed

subsection \<open>What an accepted token is bound to\<close>

text \<open>The three parts of a compact token.\<close>

definition token_of :: "bytes \<Rightarrow> bytes \<Rightarrow> bytes \<Rightarrow> pstr" where
  "token_of h p s = b64url_encode h @ [46] @ b64url_encode p @ [46] @ b64url_encode s"

definition signing_input_of :: "bytes \<Rightarrow> bytes \<Rightarrow> bytes" where
  "signing_input_of h p = ascii_bytes (b64url_encode h @ [46] @ b64url_encode p)"

lemma split_join: "join_with [c] (split_on c s) = s"
proof (induction s)
  case (Cons x s)
  obtain w ws where "split_on c s = w # ws" by (cases "split_on c s") auto
  then show ?case using Cons by (cases ws) auto
qed simp

lemma no_point_b64: "46 \<notin> set (b64url_encode bs)"
  using b64url_chars [of bs] by (auto simp: list_all_iff dest: is_b64url_ascii)

lemma split_token: "split_on 46 (token_of h p s) = [b64url_encode h, b64url_encode p, b64url_encode s]"
  by (simp add: token_of_def split_on_append split_on_no_sep no_point_b64)

lemma verify_q_state_Inr:
  assumes "verify_q_state ed limit token keys now_s sub aud cls act revoked = Inr v"
  obtains h p s header payload k where
    "token = token_of h p s" "h \<noteq> []" "p \<noteq> []" "s \<noteq> []"
    "qs_json_object limit h ''protected header'' = Inr header" "check_header header = Inr (vq_key_id v)"
    "keys (vq_key_id v) = Some k" "ed_verify ed k s (signing_input_of h p)"
    "qs_json_object limit p ''payload'' = Inr payload"
    "from_payload (PDict payload) = Inr (vq_claims v)"
    "check_binding (vq_claims v) now_s sub aud cls act revoked = Inr ()"
    "to_composite_state (vq_claims v) = Inr (vq_composite_state v)"
proof -
  from assms obtain a b c where abc: "split_on 46 token = [a, b, c]"
    by (auto simp: verify_q_state_def split: list.splits)
  note * = assms [unfolded verify_q_state_def abc list.case]
  from * obtain h p s header kid k payload claims state where parts:
    "qs_b64decode a = Inr h" "qs_b64decode b = Inr p" "qs_b64decode c = Inr s"
    "qs_json_object limit h ''protected header'' = Inr header" "check_header header = Inr kid"
    "keys kid = Some k" "ed_verify ed k s (ascii_bytes (a @ [46] @ b))"
    "qs_json_object limit p ''payload'' = Inr payload"
    "try_r (from_payload (PDict payload)) (\<lambda>e. if is_value_error e
       then Inl (QStateVerificationError ''invalid q-state claims'') else Inl e) = Inr claims"
    "check_binding claims now_s sub aud cls act revoked = Inr ()"
    "to_composite_state claims = Inr state"
    "v = \<lparr>vq_claims = claims, vq_composite_state = state, vq_key_id = kid\<rparr>"
    by (elim bind_rE) (auto simp del: append.simps split: option.splits)
  have "token = a @ [46] @ b @ [46] @ c" using split_join [of 46 token] by (simp add: abc)
  then have "token = token_of h p s" using parts(1-3) by (simp add: qs_b64decode_Inr token_of_def)
  moreover have "from_payload (PDict payload) = Inr claims"
    using parts(9) by (auto simp: try_r_eq_Inr split: if_splits)
  ultimately show thesis
    using that parts by (auto simp: qs_b64decode_Inr signing_input_of_def)
qed

text \<open>
  Claim C11: an accepted token is bound to everything the caller asked for. If
  \<^verbatim>\<open>verify_q_state\<close> accepts, the token is the canonical base64url form of a header, a
  payload and a signature; the key it names is one of the caller's and the signature
  verifies under it over exactly those two parts; the state is not revoked; the current
  second lies in its validity window, which spans at most ten seconds; subject, audience,
  authority class and action class are the expected ones; and the composite state it
  yields is well formed, authentic, and carries that subject, class and window.
\<close>
theorem verify_q_state_sound:
  assumes "verify_q_state ed limit token keys now_s sub aud cls act revoked = Inr v"
  shows "(\<exists>h p s k. token = token_of h p s \<and> keys (vq_key_id v) = Some k
        \<and> ed_verify ed k s (signing_input_of h p))
     \<and> qs_state_id (vq_claims v) \<notin> revoked
     \<and> qs_not_before_s (vq_claims v) \<le> now_s \<and> now_s < qs_expires_at_s (vq_claims v)
     \<and> qs_expires_at_s (vq_claims v) - qs_issued_at_s (vq_claims v) \<le> 10
     \<and> qs_subject (vq_claims v) = sub \<and> qs_audience (vq_claims v) = aud
     \<and> qs_authority_class (vq_claims v) = cls \<and> qs_action_class (vq_claims v) = act
     \<and> wf_CompositeState (vq_composite_state v) \<and> cs_authentic (vq_composite_state v)
     \<and> cs_identity (vq_composite_state v) = sub \<and> cs_authority_class (vq_composite_state v) = cls
     \<and> cs_not_before_s (vq_composite_state v) = qs_not_before_s (vq_claims v)
     \<and> cs_expires_at_s (vq_composite_state v) = qs_expires_at_s (vq_claims v)"
proof -
  obtain h p s header payload k where v: "token = token_of h p s" "keys (vq_key_id v) = Some k"
    "ed_verify ed k s (signing_input_of h p)" "from_payload (PDict payload) = Inr (vq_claims v)"
    "check_binding (vq_claims v) now_s sub aud cls act revoked = Inr ()"
    "to_composite_state (vq_claims v) = Inr (vq_composite_state v)"
    by (rule verify_q_state_Inr [OF assms])
  have wf: "wf_QStateClaims (vq_claims v)" by (rule from_payload_wf [OF v(4)])
  let ?c = "vq_claims v"
  have state: "wf_CompositeState (vq_composite_state v)"
    "vq_composite_state v = \<lparr>cs_state_id = qs_state_id ?c, cs_identity = qs_subject ?c,
      cs_authority_class = qs_authority_class ?c, cs_issued_at_s = qs_issued_at_s ?c,
      cs_not_before_s = qs_not_before_s ?c, cs_expires_at_s = qs_expires_at_s ?c,
      cs_charge = qs_charge ?c, cs_threshold = qs_threshold ?c,
      cs_history_count = qs_history_count ?c, cs_minimum_history = qs_minimum_history ?c,
      cs_authentic = True, cs_veto_clear = qs_veto_clear ?c,
      cs_envelope_allows = qs_envelope_allows ?c, cs_decay_rate = qs_decay_rate ?c,
      cs_maximum_charge = qs_maximum_charge ?c\<rparr>"
    using v(6) make_CompositeState_wf
    by (auto simp: to_composite_state_def construct_CompositeState_def make_CompositeState_def kil_defs)
  have bind: "qs_state_id ?c \<notin> revoked" "qs_not_before_s ?c \<le> now_s" "now_s < qs_expires_at_s ?c"
    "qs_subject ?c = sub" "qs_audience ?c = aud" "qs_authority_class ?c = cls" "qs_action_class ?c = act"
    using v(5) by (auto simp: check_binding_def split: if_splits)
  show ?thesis
    using v(1-3) bind wf state by (auto simp: wf_QStateClaims_def MAX_VALIDITY_SECONDS_def)
qed

subsection \<open>Issued tokens verify\<close>

lemma header_items_sorted: "sort_items (header_items kid) = header_items kid"
  by (rule sort_items_sorted) (simp add: header_items_def u_def)

lemma is_scalar_escape: "is_scalar c \<Longrightarrow> list_all is_scalar (escape_char c)"
proof -
  assume c: "is_scalar c"
  have "c < 32 \<Longrightarrow> hex_digit (c div 16) < 128 \<and> hex_digit (c mod 16) < 128"
    by (auto simp: hex_digit_def)
  then show ?thesis using c by (auto simp: escape_char_def is_scalar_ascii)
qed

lemma string_text_scalars: "list_all is_scalar s \<Longrightarrow> list_all is_scalar (string_text s)"
  using is_scalar_escape by (auto simp: string_text_def list_all_iff is_scalar_ascii)

lemma json_bytes_header: "list_all is_scalar kid \<Longrightarrow> is_ok (json_bytes (token_header kid))"
proof -
  assume kid: "list_all is_scalar kid"
  have "sort_items (header_items kid) = header_items kid" by (rule header_items_sorted)
  then have "dump_text (token_header kid) =
      123 # string_text (u ''alg'') @ 58 # string_text (u ''EdDSA'') @ 44 # string_text (u ''kid'') @ 58 #
        string_text kid @ 44 # string_text (u ''typ'') @ 58 # string_text (u ''KIL-Q+JWT'') @ [125]"
    by (simp add: token_header_def header_items_def)
  moreover have "list_all is_scalar (u ''alg'')" "list_all is_scalar (u ''EdDSA'')"
    "list_all is_scalar (u ''kid'')" "list_all is_scalar (u ''typ'')" "list_all is_scalar (u ''KIL-Q+JWT'')"
    by (simp_all add: u_def is_scalar_def is_surrogate_def)
  ultimately have "list_all is_scalar (dump_text (token_header kid))"
    using kid by (simp add: string_text_scalars is_scalar_ascii)
  then show ?thesis by (simp add: json_bytes_def json_dumps_def token_header_def utf8_encode_def)
qed

lemma wire_state_ok:
  assumes "wf_QStateClaims c" "timestamp_ok (qs_issued_at_s c)" "timestamp_ok (qs_not_before_s c)"
    "timestamp_ok (qs_expires_at_s c)"
  shows "is_ok (to_composite_state (wire_claims c))"
proof -
  have wf: "wf_QStateClaims (wire_claims c)" using assms(1) by (rule wire_claims_wf)
  have nn: "qs_decimal_ok d \<Longrightarrow> nonneg_dec d" for d
    using unsigned_iff [of d] by (auto simp: qs_decimal_ok_def nonneg_dec_def)
  show ?thesis
    unfolding to_composite_state_def
    by (subst construct_CompositeState_wf)
      (use wf assms nn in \<open>auto simp: wf_CompositeState_def wf_QStateClaims_def\<close>,
       simp_all add: wire_claims_def)
qed

lemma issued_verifies:
  assumes "signature_law ed sk" "wf_QStateClaims c" "issue_q_state ed c sk = Inr token"
    and "keys (key_id (ed_public ed sk)) = Some (ed_public ed sk)"
    and "timestamp_ok (qs_issued_at_s c)" "timestamp_ok (qs_not_before_s c)" "timestamp_ok (qs_expires_at_s c)"
    and "qs_not_before_s c \<le> now_s" "now_s < qs_expires_at_s c"
    and "qs_state_id c \<notin> revoked" "[] \<notin> revoked" "1 \<le> limit"
  shows "\<exists>v. verify_q_state ed limit token keys now_s (qs_subject c) (qs_audience c)
      (qs_authority_class c) (qs_action_class c) revoked = Inr v
    \<and> vq_claims v = wire_claims c \<and> vq_key_id v = key_id (ed_public ed sk)
    \<and> dval (cs_charge (vq_composite_state v)) = dval (qs_charge c)
    \<and> dval (cs_threshold (vq_composite_state v)) = dval (qs_threshold c)"
proof -
  let ?kid = "key_id (ed_public ed sk)"
  from assms(3) obtain h p where hp: "json_bytes (token_header ?kid) = Inr h"
    "json_bytes (PDict (to_payload c)) = Inr p"
    "token = token_of h p (ed_sign ed sk (signing_input_of h p))"
    by (auto simp: issue_q_state_def Let_def token_of_def signing_input_of_def)
  let ?s = "ed_sign ed sk (signing_input_of h p)"
  have ne: "h \<noteq> []" "p \<noteq> []" "?s \<noteq> []"
    using hp(1,2) json_bytes_not_Nil assms(1) by (auto simp: token_header_def signature_law_def)
  have "PDict (header_items ?kid) = token_header ?kid" by (simp add: token_header_def header_items_def)
  then have head: "qs_json_object limit h ''protected header'' = Inr (sort_items (header_items ?kid))"
    using flat_dict_round_trip [OF header_flat] hp(1) assms(12) by simp
  have pay: "qs_json_object limit p ''payload'' = Inr (sort_items (to_payload c))"
    by (rule flat_dict_round_trip [OF to_payload_flat hp(2) assms(12)])
  obtain st where st: "to_composite_state (wire_claims c) = Inr st"
    using wire_state_ok [OF assms(2,5-7)] by (auto simp: is_ok_iff)
  have bind: "check_binding (wire_claims c) now_s (qs_subject c) (qs_audience c) (qs_authority_class c)
      (qs_action_class c) revoked = Inr ()"
    using assms(8-10) by (simp add: check_binding_def wire_claims_def)
  have nb: "require_identifier n (PStr (qs_subject c)) = Inr (qs_subject c)"
    "require_identifier n (PStr (qs_audience c)) = Inr (qs_audience c)"
    "require_identifier n (PStr (qs_authority_class c)) = Inr (qs_authority_class c)"
    "require_identifier n (PStr (qs_action_class c)) = Inr (qs_action_class c)" for n
    using assms(2) by (simp_all add: require_identifier_def wf_QStateClaims_def)
  have sig: "ed_verify ed (ed_public ed sk) ?s (signing_input_of h p)"
    using assms(1) by (simp add: signature_law_def)
  have sig2: "ed_verify ed (ed_public ed sk) ?s (ascii_bytes (b64url_encode h @ 46 # b64url_encode p))"
    using sig by (simp add: signing_input_of_def)
  have dec: "\<And>bs. bs \<noteq> [] \<Longrightarrow> qs_b64decode (b64url_encode bs) = Inr bs" by (simp add: qs_b64decode_Inr)
  have "token \<noteq> []" using hp(3) by (simp add: token_of_def)
  then have "verify_q_state ed limit token keys now_s (qs_subject c) (qs_audience c)
      (qs_authority_class c) (qs_action_class c) revoked
      = Inr \<lparr>vq_claims = wire_claims c, vq_composite_state = st, vq_key_id = ?kid\<rparr>"
    using assms(11) ne sig2
    by (simp add: verify_q_state_def hp(3) split_token nb dec head check_header_sorted key_id_text
        assms(4) pay from_payload_to_payload [OF assms(2)] bind st)
  moreover have "dval (cs_charge st) = dval (qs_charge c) \<and> dval (cs_threshold st) = dval (qs_threshold c)"
  proof -
    have "cs_charge st = wire_normal (qs_charge c)" "cs_threshold st = wire_normal (qs_threshold c)"
      using st by (auto simp: to_composite_state_def construct_CompositeState_def make_CompositeState_def
          kil_defs wire_claims_def)
    then show ?thesis using assms(2) wire_normal_dval by (simp add: wf_QStateClaims_def qs_decimal_ok_def)
  qed
  ultimately show ?thesis by auto
qed

definition sample_claims :: QStateClaims where
  "sample_claims = \<lparr>qs_schema_version = u Q_STATE_SCHEMA_VERSION, qs_state_id = u ''s1'',
     qs_issuer = u ''oracle'', qs_subject = u ''agent'', qs_audience = u ''kil-v3-signed'',
     qs_authority_class = u ''ops'', qs_action_class = u ''read'', qs_issued_at_s = 100,
     qs_not_before_s = 100, qs_expires_at_s = 110, qs_evidence_horizon_s = 90,
     qs_trust_proof_id = u ''p1'', qs_trust_proof_digest = u ''sha256:'' @ replicate 64 97,
     qs_envelope_result_id = u ''e1'', qs_envelope_result_digest = u ''sha256:'' @ replicate 64 98,
     qs_deployment_profile = u ''lab'', qs_charge = Fin False 8000 (-2), qs_threshold = Fin False 505 (-1),
     qs_history_count = 5, qs_minimum_history = 3, qs_veto_clear = True, qs_envelope_allows = True,
     qs_decay_rate = Fin False 0 0, qs_maximum_charge = Fin False 100 0, qs_model_version = u ''m1'',
     qs_parameter_version = u ''v1''\<rparr>"

text \<open>A concrete signature scheme that satisfies the law: the key and the message in clear.\<close>

definition sample_ed :: Ed25519 where
  "sample_ed = \<lparr>ed_public = id, ed_sign = (\<lambda>sk m. 1 # sk @ m), ed_verify = (\<lambda>k s m. s = 1 # k @ m)\<rparr>"

lemma sample_claims_wf: "wf_QStateClaims sample_claims"
  by code_simp

lemma sample_key: "[key_id [7] \<mapsto> [7]] (key_id (ed_public sample_ed [7])) = Some (ed_public sample_ed [7])"
  by (simp add: sample_ed_def)

lemma sample_times:
  "timestamp_ok (qs_issued_at_s sample_claims)" "timestamp_ok (qs_not_before_s sample_claims)"
  "timestamp_ok (qs_expires_at_s sample_claims)"
  by code_simp+

lemma sample_ed_law: "signature_law sample_ed sk"
  by (simp add: signature_law_def sample_ed_def)

lemma sample_token_issued: "is_ok (issue_q_state sample_ed sample_claims sk)"
proof -
  have "is_ok (json_bytes (PDict (to_payload sample_claims)))" by code_simp
  moreover have "list_all is_scalar (key_id k)" for k
    using key_id_text(2) [of k] by (auto simp: list_all_iff is_scalar_ascii)
  ultimately show ?thesis
    using json_bytes_header [of "key_id (ed_public sample_ed sk)"]
    by (auto simp: issue_q_state_def Let_def is_ok_iff)
qed

text \<open>
  Claim C12: an issued token verifies. A token \<^verbatim>\<open>issue_q_state\<close> makes from claims that pass
  their constructor, with timestamps of 64 bits, is accepted by \<^verbatim>\<open>verify_q_state\<close> under a
  mapping that holds the signer's public key, at any second of the validity window and for
  the token's own subject, audience, authority class and action class, unless its state is
  revoked; the claims it returns are the issued ones, each decimal with the value issued.
\<close>
theorem issued_q_state_verifies:
  assumes "signature_law ed sk" "wf_QStateClaims c" "issue_q_state ed c sk = Inr token"
    and "keys (key_id (ed_public ed sk)) = Some (ed_public ed sk)"
    and "timestamp_ok (qs_issued_at_s c)" "timestamp_ok (qs_not_before_s c)" "timestamp_ok (qs_expires_at_s c)"
    and "qs_not_before_s c \<le> now_s" "now_s < qs_expires_at_s c"
    and "qs_state_id c \<notin> revoked" "[] \<notin> revoked" "1 \<le> limit"
  shows "\<exists>v. verify_q_state ed limit token keys now_s (qs_subject c) (qs_audience c)
      (qs_authority_class c) (qs_action_class c) revoked = Inr v
    \<and> vq_claims v = wire_claims c \<and> vq_key_id v = key_id (ed_public ed sk)
    \<and> dval (cs_charge (vq_composite_state v)) = dval (qs_charge c)
    \<and> dval (cs_threshold (vq_composite_state v)) = dval (qs_threshold c)"
  by (rule issued_verifies [of ed sk c token keys]) (fact assms)+

theorem issued_q_state_verifies_witness:
  "\<exists>token v. issue_q_state sample_ed sample_claims [7] = Inr token
     \<and> verify_q_state sample_ed 100 token [key_id [7] \<mapsto> [7]] 105 (u ''agent'') (u ''kil-v3-signed'')
         (u ''ops'') (u ''read'') {} = Inr v"
proof -
  obtain token where t: "issue_q_state sample_ed sample_claims [7] = Inr token"
    using sample_token_issued by (auto simp: is_ok_iff)
  have "qs_not_before_s sample_claims \<le> 105" "105 < qs_expires_at_s sample_claims"
    by (simp_all add: sample_claims_def)
  from issued_q_state_verifies [where keys = "[key_id [7] \<mapsto> [7]]", OF sample_ed_law sample_claims_wf t sample_key
      sample_times this, of "{}" 100] t
  show ?thesis by (auto simp: sample_claims_def)
qed

lemma sample_token_verifies:
  "\<exists>token v. verify_q_state sample_ed 100 token [key_id [7] \<mapsto> [7]] 105 (u ''agent'') (u ''kil-v3-signed'')
         (u ''ops'') (u ''read'') {} = Inr v"
proof -
  obtain token where t: "issue_q_state sample_ed sample_claims [7] = Inr token"
    using sample_token_issued by (auto simp: is_ok_iff)
  have "qs_not_before_s sample_claims \<le> 105" "105 < qs_expires_at_s sample_claims"
    by (simp_all add: sample_claims_def)
  from issued_verifies [where keys = "[key_id [7] \<mapsto> [7]]", OF sample_ed_law sample_claims_wf t sample_key
      sample_times this, of "{}" 100] t
  show ?thesis by (auto simp: sample_claims_def)
qed

theorem verify_q_state_sound_witness:
  "\<exists>token v. verify_q_state sample_ed 100 token [key_id [7] \<mapsto> [7]] 105 (u ''agent'') (u ''kil-v3-signed'')
         (u ''ops'') (u ''read'') {} = Inr v \<and> cs_authentic (vq_composite_state v)"
proof -
  obtain token v where v: "verify_q_state sample_ed 100 token [key_id [7] \<mapsto> [7]] 105 (u ''agent'')
      (u ''kil-v3-signed'') (u ''ops'') (u ''read'') {} = Inr v"
    using sample_token_verifies by blast
  from verify_q_state_sound [OF v] v show ?thesis by blast
qed

subsection \<open>What the verifier raises\<close>

definition verification_error :: "pyexc \<Rightarrow> bool" where
  "verification_error e = (case e of QStateVerificationError _ \<Rightarrow> True | _ \<Rightarrow> False)"

lemma verification_error_iff: "verification_error e \<longleftrightarrow> (\<exists>m. e = QStateVerificationError m)"
  by (cases e) (simp_all add: verification_error_def)

lemma qs_b64decode_raises: "only_raises verification_error (qs_b64decode s)"
  by (auto simp: qs_b64decode_def only_raises_def verification_error_iff split: sum.splits if_splits)

lemma qs_json_object_raises:
  "only_raises (\<lambda>e. verification_error e \<or> (json_error e \<and> e \<noteq> JSONDecodeError)) (qs_json_object limit raw label)"
proof (cases "bind_r (utf8_decode raw) (json_loads default_hook limit)")
  case (Inl e)
  then have "e = UnicodeError \<or> json_error e"
    by (auto simp: bind_r_eq_Inl utf8_decode_def default_hook_def split: option.splits dest: json_loads_error)
  then show ?thesis using Inl by (auto simp: qs_json_object_def verification_error_iff)
next
  case (Inr v)
  then show ?thesis by (cases v) (simp_all add: qs_json_object_def verification_error_iff)
qed

lemma check_header_raises: "only_raises verification_error (check_header h)"
  by (auto simp: check_header_def only_raises_def verification_error_iff split: pyval.splits if_splits)

lemma check_binding_raises: "only_raises verification_error (check_binding c n s a k t r)"
  by (auto simp: check_binding_def only_raises_def verification_error_iff split: if_splits)

lemma qs_fields_raises [raises]:
  "only_raises is_value_error (qs_require_decimal name v)"
  "only_raises is_value_error (require_digest name v)"
  "only_raises is_value_error (payload_decimal v)"
  unfolding qs_require_decimal_def require_digest_def payload_decimal_def
  by (rule raises | simp split: pyval.splits option.splits)+

lemma check_claims_raises [raises]: "only_raises is_value_error (check_claims c)"
  by (simp add: check_claims_def)

lemma make_QStateClaims_raises [raises]: "only_raises is_value_error (make_QStateClaims f)"
  unfolding make_QStateClaims_def by (rule raises | simp)+

lemma from_payload_raises: "only_raises is_value_error (from_payload v)"
  unfolding from_payload_def
  by (cases v) (simp_all, (rule raises impI | simp)+)

lemma to_composite_state_raises: "only_raises is_value_error (to_composite_state c)"
  unfolding to_composite_state_def construct_CompositeState_def by (rule raises)

lemma only_raises_weaken: "only_raises P m \<Longrightarrow> (\<And>e. P e \<Longrightarrow> Q e) \<Longrightarrow> only_raises Q m"
  by (simp add: only_raises_def)

text \<open>
  Claim C13: how verification fails. With nonblank expectations and a proper revocation
  set, the verifier raises a QStateVerificationError, except in two cases. Either reading the
  JSON of the header, or of a signed payload, raised that very error: it nests too deep or
  holds an integer beyond the language's conversion limit. Or the token is signed by a
  trusted key, its payload decodes to claims that pass every comparison with the caller's
  expectations, and the error is the one of building their composite state, a plain
  ValueError.
\<close>
theorem verify_q_state_raises:
  assumes "verify_q_state ed limit token keys now_s sub aud cls act revoked = Inl e"
    and "nonblank sub" "nonblank aud" "nonblank cls" "nonblank act" "[] \<notin> revoked"
  shows "verification_error e
    \<or> (\<exists>h p s. token = token_of h p s \<and> json_error e \<and> e \<noteq> JSONDecodeError
        \<and> (qs_json_object limit h ''protected header'' = Inl e
           \<or> (\<exists>kid k. keys kid = Some k \<and> ed_verify ed k s (signing_input_of h p)
                \<and> qs_json_object limit p ''payload'' = Inl e)))
    \<or> (\<exists>h p s kid k payload claims. token = token_of h p s \<and> keys kid = Some k \<and> ed_verify ed k s (signing_input_of h p)
        \<and> qs_json_object limit p ''payload'' = Inr payload \<and> from_payload (PDict payload) = Inr claims
        \<and> check_binding claims now_s sub aud cls act revoked = Inr ()
        \<and> to_composite_state claims = Inl e \<and> is_value_error e)"
proof (cases "verification_error e")
  case False
  have none: "only_raises verification_error m \<Longrightarrow> m \<noteq> Inl e" for m :: "'x res"
    using False by (auto simp: only_raises_def)
  have id: "require_identifier n (PStr x) = Inr x" if "nonblank x" for n x
    using that by (simp add: require_identifier_def)
  have bad: "e \<noteq> QStateVerificationError m" for m using False by (auto simp: verification_error_iff)
  note v = assms(1) [unfolded verify_q_state_def]
  obtain a b c where abc: "split_on 46 token = [a, b, c]"
    using v assms(2-) by (auto simp: id bind_r_eq_Inl bad split: list.splits)
  have tok: "token = a @ [46] @ b @ [46] @ c" using split_join [of 46 token] by (simp add: abc)
  note v = v [unfolded abc list.case]
  obtain h p s where parts: "qs_b64decode a = Inr h" "qs_b64decode b = Inr p" "qs_b64decode c = Inr s"
    and rest: "bind_r (qs_json_object limit h ''protected header'') (\<lambda>header.
      bind_r (check_header header) (\<lambda>kid.
      case keys kid of
        None \<Rightarrow> Inl (QStateVerificationError ''verification key unavailable'')
      | Some k \<Rightarrow>
          bind_r (ensure (ed_verify ed k s (ascii_bytes (a @ [46] @ b))) (QStateVerificationError ''signature verification failed'')) (\<lambda>_.
          bind_r (qs_json_object limit p ''payload'') (\<lambda>payload.
          bind_r (try_r (from_payload (PDict payload)) (\<lambda>e. if is_value_error e
            then Inl (QStateVerificationError ''invalid q-state claims'') else Inl e)) (\<lambda>claims.
          bind_r (check_binding claims now_s sub aud cls act revoked) (\<lambda>_.
          bind_r (to_composite_state claims) (\<lambda>state.
          Inr \<lparr>vq_claims = claims, vq_composite_state = state, vq_key_id = kid\<rparr>))))))) = Inl e"
    using v assms(2-) none [OF qs_b64decode_raises] by (auto simp: id bind_r_eq_Inl bad simp del: append.simps)
  have t: "token = token_of h p s" "ascii_bytes (a @ [46] @ b) = signing_input_of h p"
    using tok parts by (simp_all add: qs_b64decode_Inr token_of_def signing_input_of_def)
  note rest = rest [unfolded t(2)]
  have json: "json_error e \<and> e \<noteq> JSONDecodeError" if "qs_json_object limit raw label = Inl e" for raw label
    using only_raisesD [OF qs_json_object_raises that] False by blast
  show ?thesis
  proof (cases "qs_json_object limit h ''protected header''")
    case (Inl e')
    with rest json t(1) show ?thesis by auto
  next
    case (Inr header)
    with rest none [OF check_header_raises] obtain kid where "check_header header = Inr kid"
      by (auto simp: bind_r_eq_Inl)
    with rest Inr bad obtain k where k: "keys kid = Some k" "ed_verify ed k s (signing_input_of h p)"
      by (auto simp: bind_r_eq_Inl split: option.splits)
    note rest = rest [unfolded Inr bind_r_Inr \<open>check_header header = Inr kid\<close> k(1) option.case]
    show ?thesis
    proof (cases "qs_json_object limit p ''payload''")
      case (Inl e')
      with rest k have "e' = e" by (simp add: ensure_def)
      with Inl json t(1) k show ?thesis by blast
    next
      case payload: (Inr payload)
      have conv: "try_r (from_payload (PDict payload)) (\<lambda>e. if is_value_error e
          then Inl (QStateVerificationError ''invalid q-state claims'') else Inl e) \<noteq> Inl e"
        using from_payload_raises [of "PDict payload"] bad
        by (auto simp: only_raises_def try_r_def split: sum.splits)
      from rest k payload conv obtain claims where "from_payload (PDict payload) = Inr claims"
        "bind_r (check_binding claims now_s sub aud cls act revoked) (\<lambda>_. bind_r (to_composite_state claims) (\<lambda>state.
          Inr \<lparr>vq_claims = claims, vq_composite_state = state, vq_key_id = kid\<rparr>)) = Inl e"
        by (auto simp: ensure_def bind_r_eq_Inl try_r_eq_Inr split: if_splits)
      moreover from this(2) none [OF check_binding_raises] have "check_binding claims now_s sub aud cls act revoked = Inr ()"
        "to_composite_state claims = Inl e"
        by (auto simp: bind_r_eq_Inl)
      moreover from this(2) have "is_value_error e" using to_composite_state_raises by (rule only_raisesD [rotated])
      ultimately show ?thesis using t(1) k payload by blast
    qed
  qed
qed simp

theorem verify_q_state_raises_witness:
  "\<exists>e. verify_q_state sample_ed 100 (u ''a.b'') Map.empty 105 (u ''agent'') (u ''aud'') (u ''ops'') (u ''read'') {} = Inl e
     \<and> verification_error e"
proof -
  have nb: "nonblank (u ''agent'')" "nonblank (u ''aud'')" "nonblank (u ''ops'')" "nonblank (u ''read'')"
    by (simp_all add: nonblank_iff u_def is_space_def)
  have v: "verify_q_state sample_ed 100 (u ''a.b'') Map.empty 105 (u ''agent'') (u ''aud'') (u ''ops'') (u ''read'') {}
      = Inl (QStateVerificationError ''malformed compact JWS'')"
    by (simp add: verify_q_state_def require_identifier_def nb) (simp add: u_def)
  from verify_q_state_raises [OF v nb] v show ?thesis by (auto simp: verification_error_iff)
qed

subsection \<open>A ValueError before any signature is checked\<close>

lemma digits_ones: "takeWhile is_digit (replicate n 49 @ 125 # r) = replicate n 49"
  by (induction n) (simp_all add: is_digit_def)

lemma json_scalar_ones:
  assumes "MAX_STR_DIGITS < n"
  shows "json_scalar (replicate n 49 @ [125]) = Inl (ValueError ''Exceeds the limit for integer string conversion'')"
proof -
  obtain m where n: "n = Suc m" using assms by (cases n) auto
  have ip: "int_part (replicate n 49 @ [125]) = replicate n 49"
    using digits_ones [of n "[]"] by (simp add: int_part_def n)
  have tail: "scan_fraction [125] = []" "scan_exponent [125] = []"
    by (simp_all add: scan_fraction_def scan_exponent_def)
  have "scan_unsigned False (replicate n 49 @ [125])
      = Inl (ValueError ''Exceeds the limit for integer string conversion'')"
    using assms by (simp add: scan_unsigned_def Let_def ip tail)
  moreover have "json_scalar (replicate n 49 @ [125]) = scan_number (replicate n 49 @ [125])"
    using not_starts_digit [of 49 "replicate m 49 @ [125]"]
    by (simp add: json_scalar_def n is_digit_def starts_with_def u_def)
  ultimately show ?thesis by (simp add: scan_number_def n)
qed

definition oversized_header :: bytes where
  "oversized_header = ascii_bytes ([123, 34, 97, 34, 58] @ replicate 5000 49 @ [125])"

lemma oversized_header_json:
  "qs_json_object (Suc limit) oversized_header label
     = Inl (ValueError ''Exceeds the limit for integer string conversion'')"
proof -
  let ?s = "[123, 34, 97, 34, 58] @ replicate 5000 49 @ [125] :: pstr"
  have "list_all (\<lambda>c. c < 128) ?s" by (simp add: list_all_iff)
  from utf8_encode_ascii [OF this] have dec: "utf8_decode oversized_header = Inr ?s"
    unfolding oversized_header_def by (rule utf8_round_trip)
  have ones: "replicate 5000 49 = 49 # replicate 4999 (49 :: nat)"
  proof -
    have "(5000 :: nat) = Suc 4999" by simp
    then show ?thesis by (simp only: replicate_Suc)
  qed
  have val: "json_value default_hook limit (replicate 5000 49 @ [125])
      = Inl (ValueError ''Exceeds the limit for integer string conversion'')"
    using json_scalar_ones [of 5000] by (cases limit) (simp_all add: MAX_STR_DIGITS_def ones)
  have sc: "scan_string (97 # 34 # r) = Inr ([97], r)" for r
    by (simp add: scan_string.simps(2))
  have "json_members (json_value default_hook limit) (Suc n) (34 # 97 # 34 # 58 # 49 # replicate 4999 49 @ [125])
      = Inl (ValueError ''Exceeds the limit for integer string conversion'')" for n
    using val by (simp add: skip_ws_def json_ws_def sc ones)
  from this [of 5004] have mem: "json_members (json_value default_hook limit) 5005
      (34 # 97 # 34 # 58 # 49 # replicate 4999 49 @ [125])
      = Inl (ValueError ''Exceeds the limit for integer string conversion'')"
    by (simp only: Suc_numeral semiring_norm)
  have "json_loads default_hook (Suc limit) ?s
      = Inl (ValueError ''Exceeds the limit for integer string conversion'')"
    using mem by (simp add: json_loads_def skip_ws_def json_ws_def json_object_def Let_def ones
        del: json_members.simps)
  then show ?thesis using dec by (simp add: qs_json_object_def)
qed

text \<open>
  The escape needs no key. For every signature scheme, key mapping and
  expectation there is a token, signed by nobody, on which the verifier raises a plain
  ValueError and not a QStateVerificationError: its header holds an integer of more than
  4300 digits, and the header is parsed before the signature is checked.
\<close>
theorem unsigned_token_escapes:
  "\<exists>token. \<forall>ed keys. verify_q_state ed 1000 token keys now_s (u ''agent'') (u ''aud'') (u ''ops'') (u ''read'') {}
     = Inl (ValueError ''Exceeds the limit for integer string conversion'')"
proof -
  let ?t = "token_of oversized_header [0] [0]"
  have ne: "oversized_header \<noteq> []" by (simp add: oversized_header_def ascii_bytes_def)
  have dec: "bs \<noteq> [] \<Longrightarrow> qs_b64decode (b64url_encode bs) = Inr bs" for bs by (simp add: qs_b64decode_Inr)
  have id: "require_identifier n (PStr (u ''agent'')) = Inr (u ''agent'')"
    "require_identifier n (PStr (u ''aud'')) = Inr (u ''aud'')"
    "require_identifier n (PStr (u ''ops'')) = Inr (u ''ops'')"
    "require_identifier n (PStr (u ''read'')) = Inr (u ''read'')" for n
    by (simp_all add: require_identifier_def nonblank_iff u_def is_space_def)
  have "?t \<noteq> []" by (simp add: token_of_def)
  then have "verify_q_state ed 1000 ?t keys now_s (u ''agent'') (u ''aud'') (u ''ops'') (u ''read'') {}
     = Inl (ValueError ''Exceeds the limit for integer string conversion'')" for ed keys
    using oversized_header_json [of 999] ne by (simp add: verify_q_state_def split_token id dec)
  then show ?thesis by blast
qed

end
