(* ===== verification/KilRecords.thy ===== *)
theory KilRecords
  imports KilReplay KilCanonical
begin

text \<open>
  The dataclass instances as \<^verbatim>\<open>canonical.py\<close> sees them: \<^verbatim>\<open>fields(value)\<close> lists a record's
  fields in the order of its class, and the serializer takes each by name.
\<close>

definition pv_field :: "string \<Rightarrow> pyval \<Rightarrow> pstr \<times> pyval" where
  "pv_field name v = (u name, v)"

definition pv_ActionRequest :: "ActionRequest \<Rightarrow> pyval" where
  "pv_ActionRequest r = PRec ''ActionRequest''
     [pv_field ''request_id'' (PStr (ar_request_id r)), pv_field ''identity'' (PStr (ar_identity r)),
      pv_field ''authority_class'' (PStr (ar_authority_class r)),
      pv_field ''timestamp_s'' (PInt (ar_timestamp_s r))]"

definition pv_CompositeState :: "CompositeState \<Rightarrow> pyval" where
  "pv_CompositeState s = PRec ''CompositeState''
     [pv_field ''state_id'' (PStr (cs_state_id s)), pv_field ''identity'' (PStr (cs_identity s)),
      pv_field ''authority_class'' (PStr (cs_authority_class s)),
      pv_field ''issued_at_s'' (PInt (cs_issued_at_s s)),
      pv_field ''not_before_s'' (PInt (cs_not_before_s s)),
      pv_field ''expires_at_s'' (PInt (cs_expires_at_s s)), pv_field ''charge'' (PDec (cs_charge s)),
      pv_field ''threshold'' (PDec (cs_threshold s)),
      pv_field ''history_count'' (PInt (cs_history_count s)),
      pv_field ''minimum_history'' (PInt (cs_minimum_history s)),
      pv_field ''authentic'' (PBool (cs_authentic s)), pv_field ''veto_clear'' (PBool (cs_veto_clear s)),
      pv_field ''envelope_allows'' (PBool (cs_envelope_allows s)),
      pv_field ''decay_rate'' (PDec (cs_decay_rate s)),
      pv_field ''maximum_charge'' (PDec (cs_maximum_charge s))]"

definition pv_LocalEvidence :: "LocalEvidence \<Rightarrow> pyval" where
  "pv_LocalEvidence e = PRec ''LocalEvidence''
     [pv_field ''divergence'' (PDec (le_divergence e)), pv_field ''coupled_loss'' (PDec (le_coupled_loss e)),
      pv_field ''fresh'' (PBool (le_fresh e))]"

definition pv_EvidenceClass :: "EvidenceClass \<Rightarrow> pyval" where
  "pv_EvidenceClass c = PEnum ''EvidenceClass'' (u (EvidenceClass_value c))"

definition pv_LabeledValue :: "('a \<Rightarrow> pyval) \<Rightarrow> 'a LabeledValue \<Rightarrow> pyval" where
  "pv_LabeledValue f l = PRec ''LabeledValue''
     [pv_field ''value'' (f (lv_value l)), pv_field ''evidence_class'' (pv_EvidenceClass (lv_evidence_class l)),
      pv_field ''source_ref'' (lv_source_ref l), pv_field ''rationale'' (lv_rationale l),
      pv_field ''run_id'' (lv_run_id l)]"

definition pv_ScenarioEvent :: "ScenarioEvent \<Rightarrow> pyval" where
  "pv_ScenarioEvent e = PRec ''ScenarioEvent''
     [pv_field ''event_id'' (PStr (se_event_id e)), pv_field ''phase'' (PInt (se_phase e)),
      pv_field ''request'' (pv_ActionRequest (se_request e)),
      pv_field ''observed_summary'' (pv_LabeledValue PStr (se_observed_summary e)),
      pv_field ''control_assumption''
        (pv_LabeledValue (\<lambda>(a, b). PTuple [PBool a, PBool b]) (se_control_assumption e)),
      pv_field ''depends_on'' (PTuple (map PStr (se_depends_on e))),
      pv_field ''state_assumption'' (pv_LabeledValue pv_CompositeState (se_state_assumption e)),
      pv_field ''local_evidence_assumption''
        (pv_LabeledValue pv_LocalEvidence (se_local_evidence_assumption e))]"

definition pv_Scenario :: "Scenario \<Rightarrow> pyval" where
  "pv_Scenario s = PRec ''Scenario''
     [pv_field ''schema_version'' (PStr (sc_schema_version s)),
      pv_field ''scenario_id'' (PStr (sc_scenario_id s)),
      pv_field ''primary_source'' (PStr (sc_primary_source s)),
      pv_field ''events'' (PTuple (map pv_ScenarioEvent (sc_events s)))]"

definition pv_DecisionRecord :: "DecisionRecord \<Rightarrow> pyval" where
  "pv_DecisionRecord d = PRec ''DecisionRecord''
     [pv_field ''request_id'' (PStr (dr_request_id d)), pv_field ''state_id'' (PStr (dr_state_id d)),
      pv_field ''mode'' (PEnum ''EnforcementMode'' (u (EnforcementMode_value (dr_mode d)))),
      pv_field ''outcome'' (PEnum ''DecisionOutcome'' (u (DecisionOutcome_value (dr_outcome d)))),
      pv_field ''reasons'' (PTuple (map (\<lambda>r. PEnum ''ReasonCode'' (u (ReasonCode_value r))) (dr_reasons d))),
      pv_field ''signed_charge'' (PDec (dr_signed_charge d)),
      pv_field ''decayed_charge'' (PDec (dr_decayed_charge d)),
      pv_field ''effective_charge'' (PDec (dr_effective_charge d))]"

definition pv_PairedDecision :: "PairedDecision \<Rightarrow> pyval" where
  "pv_PairedDecision d = PRec ''PairedDecision''
     [pv_field ''event_id'' (PStr (pd_event_id d)), pv_field ''baseline_permit'' (PBool (pd_baseline_permit d)),
      pv_field ''baseline_reachable'' (PBool (pd_baseline_reachable d)),
      pv_field ''signed_state_only'' (pv_DecisionRecord (pd_signed_state_only d)),
      pv_field ''signed_state_only_reachable'' (PBool (pd_signed_state_only_reachable d)),
      pv_field ''signed_plus_local_reduce'' (pv_DecisionRecord (pd_signed_plus_local_reduce d)),
      pv_field ''signed_plus_local_reduce_reachable'' (PBool (pd_signed_plus_local_reduce_reachable d)),
      pv_field ''evidence_class'' (pv_EvidenceClass (pd_evidence_class d))]"

definition pv_ReplayReport :: "ReplayReport \<Rightarrow> pyval" where
  "pv_ReplayReport r = PRec ''ReplayReport''
     [pv_field ''scenario_id'' (PStr (rr_scenario_id r)),
      pv_field ''decisions'' (PTuple (map pv_PairedDecision (rr_decisions r))),
      pv_field ''evidence_class'' (pv_EvidenceClass (rr_evidence_class r))]"

end
