(* ===== verification/KilLiveAuthz.thy ===== *)
theory KilLiveAuthz
  imports KilQStateVerify KilRecords
begin

text \<open>
  \<^verbatim>\<open>src/kil/live_authz.py\<close>: the adapter that decides one request on one fixed track. The
  track belongs to the adapter; what a request carries can only be recorded.
\<close>

datatype LiveTrack = CREDENTIAL_POLICY_BASELINE | TRACK_SIGNED_STATE_ONLY | TRACK_SIGNED_PLUS_LOCAL_REDUCE

fun LiveTrack_value :: "LiveTrack \<Rightarrow> string" where
  "LiveTrack_value CREDENTIAL_POLICY_BASELINE = ''credential_policy_baseline''"
| "LiveTrack_value TRACK_SIGNED_STATE_ONLY = ''signed_state_only''"
| "LiveTrack_value TRACK_SIGNED_PLUS_LOCAL_REDUCE = ''signed_plus_local_reduce''"

text \<open>The audience a track expects; the baseline track has none and never asks for one.\<close>

fun TRACK_AUDIENCE :: "LiveTrack \<Rightarrow> string" where
  "TRACK_AUDIENCE TRACK_SIGNED_STATE_ONLY = ''kil-v3-signed''"
| "TRACK_AUDIENCE TRACK_SIGNED_PLUS_LOCAL_REDUCE = ''kil-v3-local''"
| "TRACK_AUDIENCE CREDENTIAL_POLICY_BASELINE = []"

record LiveFixture =
  lf_request :: ActionRequest
  lf_action_class :: pstr
  lf_credential_valid :: bool
  lf_policy_allows_action :: bool
  lf_q_state_jws :: "pstr option"
  lf_local_evidence :: "LocalEvidence option"
  lf_reduction_profile :: "ReductionProfile option"
  lf_untrusted_headers :: "(pstr \<times> pstr) list"

definition make_LiveFixture :: "LiveFixture \<Rightarrow> LiveFixture res" where
  "make_LiveFixture f =
     bind_r (ensure (nonblank (lf_action_class f)) (ValueError ''action_class must be a nonblank string'')) (\<lambda>_.
     bind_r (case lf_q_state_jws f of None \<Rightarrow> Inr ()
       | Some jws \<Rightarrow> ensure (nonblank jws) (ValueError ''q_state_jws must be a nonblank string'')) (\<lambda>_.
     Inr f))"

record LiveDecision =
  ld_request_id :: pstr
  ld_track :: LiveTrack
  ld_outcome :: DecisionOutcome
  ld_adapter_reasons :: "pstr list"
  ld_engine_record :: "DecisionRecord option"
  ld_decision_digest :: pstr

record AuthorizationAdapter =
  aa_track :: LiveTrack
  aa_keys :: "(pstr \<times> bytes) list"
  aa_revoked_state_ids :: "pstr set"

definition make_AuthorizationAdapter ::
    "LiveTrack \<Rightarrow> (pstr \<times> bytes) list option \<Rightarrow> pstr set \<Rightarrow> AuthorizationAdapter res" where
  "make_AuthorizationAdapter trk keys revoked =
     (let copied = (case keys of None \<Rightarrow> [] | Some ks \<Rightarrow> ks) in
      if list_ex (\<lambda>(kid, _). \<not> nonblank kid) copied
      then Inl (ValueError ''key identifier must be a nonblank string'')
      else if [] \<in> revoked
      then Inl (ValueError ''revoked_state_ids must be a frozenset of identifiers'')
      else if trk \<noteq> CREDENTIAL_POLICY_BASELINE \<and> copied = []
      then Inl (ValueError ''KIL tracks require at least one verification key'')
      else Inr \<lparr>aa_track = trk, aa_keys = copied, aa_revoked_state_ids = revoked\<rparr>)"

text \<open>\<^verbatim>\<open>__setattr__\<close> on a constructed adapter: the attributes of the object are set already.\<close>

definition adapter_setattr :: "AuthorizationAdapter \<Rightarrow> string \<Rightarrow> pyval \<Rightarrow> AuthorizationAdapter res" where
  "adapter_setattr a name v =
     (if name \<in> {''_keys'', ''_revoked_state_ids'', ''_track'', ''track'', ''evaluate'', ''_result''}
      then Inl (AttributeError ''AuthorizationAdapter configuration is immutable'')
      else Inl (AttributeError ''AuthorizationAdapter object has no attribute''))"

definition adapter_result ::
    "AuthorizationAdapter \<Rightarrow> LiveFixture \<Rightarrow> DecisionOutcome \<Rightarrow> pstr list \<Rightarrow> DecisionRecord option \<Rightarrow>
     LiveDecision res" where
  "adapter_result a f outcome reasons engine_record =
     bind_r (canonical_digest (PDict
       [(PStr (u ''request_id''), PStr (ar_request_id (lf_request f))),
        (PStr (u ''track''), PEnum ''LiveTrack'' (u (LiveTrack_value (aa_track a)))),
        (PStr (u ''outcome''), PEnum ''DecisionOutcome'' (u (DecisionOutcome_value outcome))),
        (PStr (u ''adapter_reasons''), PTuple (map PStr reasons)),
        (PStr (u ''engine_record''),
          (case engine_record of None \<Rightarrow> PNone | Some r \<Rightarrow> pv_DecisionRecord r))])) (\<lambda>digest.
     Inr \<lparr>ld_request_id = ar_request_id (lf_request f), ld_track = aa_track a, ld_outcome = outcome,
       ld_adapter_reasons = reasons, ld_engine_record = engine_record, ld_decision_digest = digest\<rparr>)"

definition ignored_reasons :: "LiveFixture \<Rightarrow> pstr list" where
  "ignored_reasons f =
     (if list_ex (\<lambda>(name, _). lower name = u ''x-kil-mode'') (lf_untrusted_headers f)
      then [u ''untrusted_mode_header_ignored''] else [])"

definition evaluate_baseline :: "AuthorizationAdapter \<Rightarrow> LiveFixture \<Rightarrow> LiveDecision res" where
  "evaluate_baseline a f =
     (let reasons = ignored_reasons f
        @ (if \<not> lf_credential_valid f then [u ''credential_invalid''] else [])
        @ (if \<not> lf_policy_allows_action f then [u ''policy_denied''] else [])
      in if reasons \<noteq> [] \<and> reasons \<noteq> [u ''untrusted_mode_header_ignored'']
         then adapter_result a f DENY reasons None
         else adapter_result a f PERMIT (reasons @ [u ''baseline_permitted'']) None)"

definition verify_fixture ::
    "Ed25519 \<Rightarrow> nat \<Rightarrow> AuthorizationAdapter \<Rightarrow> LiveFixture \<Rightarrow> pstr \<Rightarrow> VerifiedQState res" where
  "verify_fixture ed limit a f jws =
     verify_q_state ed limit jws (map_of (aa_keys a)) (ar_timestamp_s (lf_request f))
       (ar_identity (lf_request f)) (u (TRACK_AUDIENCE (aa_track a)))
       (ar_authority_class (lf_request f)) (lf_action_class f) (aa_revoked_state_ids a)"

definition decide_track ::
    "LiveTrack \<Rightarrow> LiveFixture \<Rightarrow> CompositeState \<Rightarrow> DecisionRecord res" where
  "decide_track trk f state =
     (if trk = TRACK_SIGNED_STATE_ONLY
      then decide (lf_request f) state SIGNED_STATE_ONLY None None CLOSED
      else decide (lf_request f) state SIGNED_PLUS_LOCAL_REDUCE (lf_local_evidence f)
             (lf_reduction_profile f) CLOSED)"

definition evaluate :: "Ed25519 \<Rightarrow> nat \<Rightarrow> AuthorizationAdapter \<Rightarrow> LiveFixture \<Rightarrow> LiveDecision res" where
  "evaluate ed limit a f =
     (if aa_track a = CREDENTIAL_POLICY_BASELINE then evaluate_baseline a f
      else case lf_q_state_jws f of
        None \<Rightarrow> adapter_result a f DENY (ignored_reasons f @ [u ''q_state_missing'']) None
      | Some jws \<Rightarrow>
          (case verify_fixture ed limit a f jws of
             Inl e \<Rightarrow>
               if verification_error e
               then adapter_result a f DENY (ignored_reasons f @ [u ''q_state_verification_failed'']) None
               else Inl e
           | Inr verified \<Rightarrow>
               bind_r (decide_track (aa_track a) f (vq_composite_state verified)) (\<lambda>r.
                 adapter_result a f (dr_outcome r) (ignored_reasons f) (Some r))))"

subsection \<open>Well-formed fixtures and adapters\<close>

definition wf_LiveFixture :: "LiveFixture \<Rightarrow> bool" where
  "wf_LiveFixture f \<longleftrightarrow> wf_ActionRequest (lf_request f) \<and> nonblank (lf_action_class f)
     \<and> (\<forall>jws. lf_q_state_jws f = Some jws \<longrightarrow> nonblank jws)
     \<and> wf_evidence (lf_local_evidence f) (lf_reduction_profile f)"

definition wf_adapter :: "AuthorizationAdapter \<Rightarrow> bool" where
  "wf_adapter a \<longleftrightarrow> [] \<notin> aa_revoked_state_ids a
     \<and> (aa_track a \<noteq> CREDENTIAL_POLICY_BASELINE \<longrightarrow> aa_keys a \<noteq> [])"

lemma make_AuthorizationAdapter_wf: "make_AuthorizationAdapter t ks r = Inr a \<Longrightarrow> wf_adapter a \<and> aa_track a = t"
  by (auto simp: make_AuthorizationAdapter_def wf_adapter_def Let_def split: if_splits)

lemma adapter_result_Inr:
  "adapter_result a f out rs er = Inr d \<Longrightarrow> ld_outcome d = out \<and> ld_engine_record d = er
     \<and> ld_track d = aa_track a \<and> ld_request_id d = ar_request_id (lf_request f)
     \<and> ld_adapter_reasons d = rs \<and> hex64 (ld_decision_digest d)"
  by (auto simp: adapter_result_def dest: canonical_digest_hex64)

lemma baseline_reasons_permit:
  "(let reasons = ignored_reasons f
        @ (if \<not> lf_credential_valid f then [u ''credential_invalid''] else [])
        @ (if \<not> lf_policy_allows_action f then [u ''policy_denied''] else [])
    in reasons \<noteq> [] \<and> reasons \<noteq> [u ''untrusted_mode_header_ignored''])
    \<longleftrightarrow> \<not> (lf_credential_valid f \<and> lf_policy_allows_action f)"
  by (auto simp: ignored_reasons_def)

lemma evaluate_baseline_outcome:
  "evaluate_baseline a f = Inr d \<Longrightarrow>
     ld_outcome d = (if lf_credential_valid f \<and> lf_policy_allows_action f then PERMIT else DENY)
     \<and> ld_track d = aa_track a \<and> ld_engine_record d = None"
  using baseline_reasons_permit [of f]
  by (auto simp: evaluate_baseline_def Let_def dest!: adapter_result_Inr split: if_splits)

lemma evaluate_track: "evaluate ed limit a f = Inr d \<Longrightarrow> ld_track d = aa_track a \<and> ld_request_id d = ar_request_id (lf_request f)"
  by (auto simp: evaluate_def evaluate_baseline_def Let_def dest!: adapter_result_Inr
      split: if_splits option.splits sum.splits)

text \<open>The verified state's decision, when the token verifies.\<close>

definition track_permits :: "Ed25519 \<Rightarrow> nat \<Rightarrow> AuthorizationAdapter \<Rightarrow> LiveFixture \<Rightarrow> bool" where
  "track_permits ed limit a f \<longleftrightarrow>
     (if aa_track a = CREDENTIAL_POLICY_BASELINE then lf_credential_valid f \<and> lf_policy_allows_action f
      else (case lf_q_state_jws f of None \<Rightarrow> False
        | Some jws \<Rightarrow> (case verify_fixture ed limit a f jws of Inl _ \<Rightarrow> False
            | Inr v \<Rightarrow> permits (decide_track (aa_track a) f (vq_composite_state v)))))"

lemma evaluate_permit:
  assumes "evaluate ed limit a f = Inr d"
  shows "ld_outcome d = PERMIT \<longleftrightarrow> track_permits ed limit a f"
proof (cases "aa_track a = CREDENTIAL_POLICY_BASELINE")
  case True
  then show ?thesis
    using assms evaluate_baseline_outcome [of a f d] by (simp add: evaluate_def track_permits_def)
next
  case kil: False
  show ?thesis
  proof (cases "lf_q_state_jws f")
    case None
    then have "ld_outcome d = DENY" using assms kil adapter_result_Inr by (fastforce simp: evaluate_def)
    then show ?thesis using None kil by (simp add: track_permits_def)
  next
    case (Some jws)
    show ?thesis
    proof (cases "verify_fixture ed limit a f jws")
      case (Inl e)
      then have "ld_outcome d = DENY"
        using assms kil Some by (auto simp: evaluate_def dest!: adapter_result_Inr split: if_splits)
      then show ?thesis using Inl Some kil by (simp add: track_permits_def)
    next
      case (Inr v)
      from assms kil Some Inr obtain r where r: "decide_track (aa_track a) f (vq_composite_state v) = Inr r"
        "adapter_result a f (dr_outcome r) (ignored_reasons f) (Some r) = Inr d"
        by (auto simp: evaluate_def)
      then show ?thesis
        using Inr Some kil adapter_result_Inr [OF r(2)] by (simp add: track_permits_def permits_def)
    qed
  qed
qed

lemma verified_state_wf: "verify_q_state ed limit token keys now s a c t r = Inr v \<Longrightarrow> wf_CompositeState (vq_composite_state v)"
  by (erule verify_q_state_Inr, unfold to_composite_state_def construct_CompositeState_def,
      erule make_CompositeState_wf)

lemma decide_track_ok:
  assumes "wf_LiveFixture f" "wf_CompositeState s"
  shows "is_ok (decide_track trk f s)"
proof -
  have wf: "wf_ActionRequest (lf_request f)" "wf_evidence (lf_local_evidence f) (lf_reduction_profile f)"
    using assms(1) by (simp_all add: wf_LiveFixture_def)
  obtain r1 r2 where "decide (lf_request f) s SIGNED_STATE_ONLY None None CLOSED = Inr r1"
    "decide (lf_request f) s SIGNED_PLUS_LOCAL_REDUCE (lf_local_evidence f) (lf_reduction_profile f) CLOSED = Inr r2"
    by (rule decide_ok [OF wf(1) assms(2) wf_evidence_simps(1), of SIGNED_STATE_ONLY CLOSED],
        rule decide_ok [OF wf(1) assms(2) wf(2), of SIGNED_PLUS_LOCAL_REDUCE CLOSED])
  then show ?thesis by (simp add: decide_track_def)
qed

subsection \<open>Properties\<close>

text \<open>
  The headers of a request cannot change its decision. For the same adapter,
  changing nothing but the untrusted headers changes neither the outcome nor the engine's
  record nor the track of the decision; at most the ignored mode header is recorded.
\<close>
theorem evaluate_ignores_headers:
  assumes "evaluate ed limit a f = Inr d" "evaluate ed limit a (f\<lparr>lf_untrusted_headers := hs\<rparr>) = Inr d'"
  shows "ld_outcome d' = ld_outcome d \<and> ld_engine_record d' = ld_engine_record d \<and> ld_track d' = aa_track a"
proof -
  let ?g = "f\<lparr>lf_untrusted_headers := hs\<rparr>"
  have same: "verify_fixture ed limit a ?g jws = verify_fixture ed limit a f jws"
    "decide_track trk ?g s = decide_track trk f s" for jws trk s
    by (simp_all add: verify_fixture_def decide_track_def)
  show ?thesis
  proof (cases "aa_track a = CREDENTIAL_POLICY_BASELINE")
    case True
    then show ?thesis
      using assms evaluate_baseline_outcome [of a f d] evaluate_baseline_outcome [of a ?g d']
      by (simp add: evaluate_def)
  next
    case kil: False
    show ?thesis
    proof (cases "lf_q_state_jws f")
      case None
      then show ?thesis
        using assms kil adapter_result_Inr [of a f] adapter_result_Inr [of a ?g]
        by (simp add: evaluate_def)
    next
      case (Some jws)
      show ?thesis
      proof (cases "verify_fixture ed limit a f jws")
        case (Inl e)
        then show ?thesis
          using assms kil Some adapter_result_Inr [of a f] adapter_result_Inr [of a ?g]
          by (simp add: evaluate_def same split: if_splits)
      next
        case (Inr v)
        then obtain r where r: "decide_track (aa_track a) f (vq_composite_state v) = Inr r"
          using assms(1) kil Some by (auto simp: evaluate_def)
        then show ?thesis
          using assms kil Some Inr adapter_result_Inr [of a f] adapter_result_Inr [of a ?g]
          by (simp add: evaluate_def same)
      qed
    qed
  qed
qed

text \<open>
  What a permit on a KIL track means. The request carried a token
  signed by one of the adapter's keys over its exact header and payload; the token's
  subject, authority class and action class are the request's, its audience is the one of
  the adapter's track, its state is not revoked and the request's second lies in its
  window; and the engine permitted the request on that state, so its vetoes and envelope
  are clear and its effective charge reaches the threshold.
\<close>
lemma evaluate_permit_bound:
  assumes "wf_LiveFixture f" "aa_track a \<noteq> CREDENTIAL_POLICY_BASELINE"
    and "evaluate ed limit a f = Inr d" "ld_outcome d = PERMIT"
  shows "\<exists>h p s k v. lf_q_state_jws f = Some (token_of h p s) \<and> verify_fixture ed limit a f (token_of h p s) = Inr v
     \<and> (vq_key_id v, k) \<in> set (aa_keys a) \<and> ed_verify ed k s (signing_input_of h p)
     \<and> qs_subject (vq_claims v) = ar_identity (lf_request f)
     \<and> qs_authority_class (vq_claims v) = ar_authority_class (lf_request f)
     \<and> qs_action_class (vq_claims v) = lf_action_class f
     \<and> qs_audience (vq_claims v) = u (TRACK_AUDIENCE (aa_track a))
     \<and> qs_state_id (vq_claims v) \<notin> aa_revoked_state_ids a
     \<and> qs_not_before_s (vq_claims v) \<le> ar_timestamp_s (lf_request f)
     \<and> ar_timestamp_s (lf_request f) < qs_expires_at_s (vq_claims v)
     \<and> (\<exists>header payload. qs_json_object limit h ''protected header'' = Inr header \<and> check_header header = Inr (vq_key_id v)
          \<and> qs_json_object limit p ''payload'' = Inr payload \<and> from_payload (PDict payload) = Inr (vq_claims v))
     \<and> to_composite_state (vq_claims v) = Inr (vq_composite_state v)
     \<and> (\<exists>r. ld_engine_record d = Some r \<and> dr_outcome r = PERMIT \<and> dr_reasons r = [PERMITTED]
          \<and> decide_track (aa_track a) f (vq_composite_state v) = Inr r
          \<and> cs_veto_clear (vq_composite_state v) \<and> cs_envelope_allows (vq_composite_state v)
          \<and> \<not> d_less (dr_effective_charge r) (cs_threshold (vq_composite_state v)))"
proof -
  have tp: "track_permits ed limit a f" using evaluate_permit [OF assms(3)] assms(4) by simp
  then obtain jws v r where v: "lf_q_state_jws f = Some jws" "verify_fixture ed limit a f jws = Inr v"
    "decide_track (aa_track a) f (vq_composite_state v) = Inr r" "dr_outcome r = PERMIT"
    using assms(2) by (auto simp: track_permits_def permits_def split: option.splits sum.splits)
  note vq = v(2) [unfolded verify_fixture_def]
  obtain h p s header payload k where parts: "jws = token_of h p s"
    "map_of (aa_keys a) (vq_key_id v) = Some k" "ed_verify ed k s (signing_input_of h p)"
    "check_binding (vq_claims v) (ar_timestamp_s (lf_request f)) (ar_identity (lf_request f))
      (u (TRACK_AUDIENCE (aa_track a))) (ar_authority_class (lf_request f)) (lf_action_class f)
      (aa_revoked_state_ids a) = Inr ()"
    "qs_json_object limit h ''protected header'' = Inr header" "check_header header = Inr (vq_key_id v)"
    "qs_json_object limit p ''payload'' = Inr payload" "from_payload (PDict payload) = Inr (vq_claims v)"
    "to_composite_state (vq_claims v) = Inr (vq_composite_state v)"
    by (rule verify_q_state_Inr [OF vq])
  have st: "wf_CompositeState (vq_composite_state v)" by (rule verified_state_wf [OF vq])
  have wf: "wf_ActionRequest (lf_request f)" "wf_evidence (lf_local_evidence f) (lf_reduction_profile f)"
    using assms(1) by (simp_all add: wf_LiveFixture_def)
  obtain mode ev prof where dec: "decide (lf_request f) (vq_composite_state v) mode ev prof CLOSED = Inr r"
    "wf_evidence ev prof"
    using v(3) wf(2) wf_evidence_simps(1) unfolding decide_track_def by (auto split: if_splits)
  have eng: "dr_reasons r = [PERMITTED] \<and> cs_veto_clear (vq_composite_state v)
      \<and> cs_envelope_allows (vq_composite_state v)
      \<and> \<not> d_less (dr_effective_charge r) (cs_threshold (vq_composite_state v))"
    by (rule decide_shape [OF wf(1) st dec(2), of mode CLOSED])
      (use dec(1) v(4) in \<open>auto simp: outcome_of_PERMIT state_reasons_Nil charge_reasons_Nil\<close>)
  have "ld_engine_record d = Some r"
    using assms(2,3) v(1-3) by (auto simp: evaluate_def dest!: adapter_result_Inr)
  with parts v eng show ?thesis
    by (intro exI [of _ h] exI [of _ p] exI [of _ s] exI [of _ k] exI [of _ v])
      (auto simp: check_binding_def dest: map_of_SomeD split: if_splits)
qed

text \<open>
  When the adapter raises. On a well-formed fixture and adapter it answers with a
  decision, denials of missing and invalid tokens included, unless the token makes the
  verifier raise something other than a QStateVerificationError, or the decision itself has
  no canonical digest.
\<close>
theorem evaluate_raises:
  assumes "wf_LiveFixture f" "wf_adapter a" "evaluate ed limit a f = Inl e"
  shows "(\<exists>jws. lf_q_state_jws f = Some jws \<and> verify_fixture ed limit a f jws = Inl e \<and> \<not> verification_error e)
     \<or> (\<exists>v. canonical_digest v = Inl e)"
proof -
  have res: "adapter_result a f out rs er = Inl e \<Longrightarrow> \<exists>v. canonical_digest v = Inl e" for out rs er
    by (auto simp: adapter_result_def bind_r_eq_Inl)
  show ?thesis
  proof (cases "aa_track a = CREDENTIAL_POLICY_BASELINE")
    case True
    then show ?thesis using assms(3) res by (auto simp: evaluate_def evaluate_baseline_def Let_def split: if_splits)
  next
    case kil: False
    show ?thesis
    proof (cases "lf_q_state_jws f")
      case None
      then show ?thesis using assms(3) kil res by (auto simp: evaluate_def)
    next
      case (Some jws)
      show ?thesis
      proof (cases "verify_fixture ed limit a f jws")
        case (Inl x)
        then show ?thesis using assms(3) kil Some res by (auto simp: evaluate_def split: if_splits)
      next
        case (Inr v)
        have "wf_CompositeState (vq_composite_state v)"
          using Inr unfolding verify_fixture_def by (rule verified_state_wf)
        then obtain r where "decide_track (aa_track a) f (vq_composite_state v) = Inr r"
          using decide_track_ok [OF assms(1)] by (auto simp: is_ok_iff)
        then show ?thesis using assms(3) kil Some Inr res by (auto simp: evaluate_def)
      qed
    qed
  qed
qed

subsection \<open>A signed request, for the witnesses\<close>

definition sample_fixture :: "pstr option \<Rightarrow> LiveFixture" where
  "sample_fixture jws = \<lparr>lf_request = sample_request, lf_action_class = u ''read'',
     lf_credential_valid = True, lf_policy_allows_action = True, lf_q_state_jws = jws,
     lf_local_evidence = None, lf_reduction_profile = None,
     lf_untrusted_headers = [(u ''X-KIL-Mode'', u ''off'')]\<rparr>"

definition sample_adapter :: AuthorizationAdapter where
  "sample_adapter = \<lparr>aa_track = TRACK_SIGNED_STATE_ONLY, aa_keys = [(key_id [7], [7])],
     aa_revoked_state_ids = {}\<rparr>"

definition baseline_adapter :: AuthorizationAdapter where
  "baseline_adapter = \<lparr>aa_track = CREDENTIAL_POLICY_BASELINE, aa_keys = [], aa_revoked_state_ids = {}\<rparr>"

definition sample_verified_state :: CompositeState where
  "sample_verified_state = sample_state\<lparr>cs_threshold := Fin False 505 (-1)\<rparr>"

lemma sample_composite: "to_composite_state (wire_claims sample_claims) = Inr sample_verified_state"
  by code_simp

lemma nonblank_token: "token_of h p s \<noteq> [] \<Longrightarrow> nonblank (token_of h p s)"
  by (auto simp: nonblank_iff token_of_def is_space_def)

lemma sample_fixture_wf: "wf_LiveFixture (sample_fixture None)" "wf_LiveFixture (sample_fixture (Some (token_of h p s)))"
  using sample_wf(1) nonblank_token
  by (simp_all add: wf_LiveFixture_def sample_fixture_def is_space_def, simp_all add: token_of_def)

lemma sample_fixture_verifies:
  obtains h p s v where
    "verify_fixture sample_ed 100 sample_adapter (sample_fixture (Some (token_of h p s))) (token_of h p s) = Inr v"
    "vq_composite_state v = sample_verified_state"
proof -
  obtain token where t: "issue_q_state sample_ed sample_claims [7] = Inr token"
    using sample_token_issued by (auto simp: is_ok_iff)
  have "qs_not_before_s sample_claims \<le> 105" "105 < qs_expires_at_s sample_claims"
    by (simp_all add: sample_claims_def)
  from issued_verifies [where keys = "[key_id [7] \<mapsto> [7]]", OF sample_ed_law sample_claims_wf t sample_key
      sample_times this, of "{}" 100]
  obtain v where v: "verify_q_state sample_ed 100 token [key_id [7] \<mapsto> [7]] 105 (u ''agent'') (u ''kil-v3-signed'')
      (u ''ops'') (u ''read'') {} = Inr v" "vq_claims v = wire_claims sample_claims"
    by (auto simp: sample_claims_def)
  obtain h p s where "token = token_of h p s" "to_composite_state (vq_claims v) = Inr (vq_composite_state v)"
    by (rule verify_q_state_Inr [OF v(1)])
  with v that [of h p s v] sample_composite show thesis
    by (simp add: verify_fixture_def sample_fixture_def sample_adapter_def sample_request_def)
qed

definition sample_record :: DecisionRecord where
  "sample_record = \<lparr>dr_request_id = u ''r1'', dr_state_id = u ''s1'', dr_mode = SIGNED_STATE_ONLY,
     dr_outcome = PERMIT, dr_reasons = [PERMITTED], dr_signed_charge = Fin False 80 0,
     dr_decayed_charge = Fin False 80 0, dr_effective_charge = Fin False 80 0\<rparr>"

lemma sample_decision: "decide_track TRACK_SIGNED_STATE_ONLY (sample_fixture jws) sample_verified_state = Inr sample_record"
proof -
  have s: "charge_step sample_request sample_verified_state SIGNED_STATE_ONLY None None
      = Inr (Fin False 80 0, Fin False 80 0, [])"
    by (simp add: charge_step_def charge_body_def elapsed_of_def sample_verified_state_def sample_state_def
        sample_request_def sample_passive_decay)
  have r: "state_reasons sample_request sample_verified_state = []"
    by (simp add: state_reasons_def sample_verified_state_def sample_state_def sample_request_def)
  have c: "charge_reasons sample_verified_state (Fin False 80 0) = []"
    by (simp add: charge_reasons_def sample_verified_state_def sample_state_def signed_coeff_def)
  have w: "wf_DecisionRecord sample_record" by code_simp
  show ?thesis
    using w
    by (simp add: decide_track_def sample_fixture_def decide_def s r c Let_def outcome_of_def make_DecisionRecord_Inr)
      (simp add: sample_record_def sample_verified_state_def sample_state_def sample_request_def)
qed

lemma adapter_result_ok: "is_ok (adapter_result a f out rs er)"
  if "is_ok (canonical_json (PDict
       [(PStr (u ''request_id''), PStr (ar_request_id (lf_request f))),
        (PStr (u ''track''), PEnum ''LiveTrack'' (u (LiveTrack_value (aa_track a)))),
        (PStr (u ''outcome''), PEnum ''DecisionOutcome'' (u (DecisionOutcome_value out))),
        (PStr (u ''adapter_reasons''), PTuple (map PStr rs)),
        (PStr (u ''engine_record''),
          (case er of None \<Rightarrow> PNone | Some r \<Rightarrow> pv_DecisionRecord r))]))"
  using that canonical_digest_ok by (fastforce simp: adapter_result_def is_ok_iff)

lemma sample_evaluates:
  obtains h p s d where "evaluate sample_ed 100 sample_adapter (sample_fixture (Some (token_of h p s))) = Inr d"
    "ld_outcome d = PERMIT"
proof -
  obtain h p s v where v:
    "verify_fixture sample_ed 100 sample_adapter (sample_fixture (Some (token_of h p s))) (token_of h p s) = Inr v"
    "vq_composite_state v = sample_verified_state"
    by (rule sample_fixture_verifies)
  let ?f = "sample_fixture (Some (token_of h p s))"
  have ig: "ignored_reasons ?f = [u ''untrusted_mode_header_ignored'']"
    unfolding ignored_reasons_def sample_fixture_def by (simp, code_simp)
  have "is_ok (adapter_result sample_adapter ?f PERMIT [u ''untrusted_mode_header_ignored''] (Some sample_record))"
    by (rule adapter_result_ok)
      (simp only: sample_fixture_def LiveFixture.select_convs sample_adapter_def AuthorizationAdapter.select_convs, code_simp)
  then obtain d where d: "adapter_result sample_adapter ?f PERMIT [u ''untrusted_mode_header_ignored''] (Some sample_record) = Inr d"
    by (auto simp: is_ok_iff)
  have "evaluate sample_ed 100 sample_adapter ?f = Inr d"
    using v sample_decision [of "Some (token_of h p s)"] d ig
    by (simp add: evaluate_def sample_adapter_def) (simp add: sample_fixture_def sample_record_def)
  with that adapter_result_Inr [OF d] show thesis by blast
qed

lemma baseline_evaluates:
  "\<exists>d. evaluate sample_ed 100 baseline_adapter (sample_fixture None) = Inr d
     \<and> ld_outcome d = PERMIT"
proof -
  let ?f = "sample_fixture None"
  have ig: "ignored_reasons ?f = [u ''untrusted_mode_header_ignored'']" by code_simp
  have "is_ok (adapter_result baseline_adapter ?f PERMIT
      [u ''untrusted_mode_header_ignored'', u ''baseline_permitted''] None)"
    by (rule adapter_result_ok) code_simp
  then obtain d where d: "adapter_result baseline_adapter ?f PERMIT
      [u ''untrusted_mode_header_ignored'', u ''baseline_permitted''] None = Inr d"
    by (auto simp: is_ok_iff)
  have "evaluate sample_ed 100 baseline_adapter ?f = Inr d"
    using d ig by (simp add: evaluate_def evaluate_baseline_def baseline_adapter_def Let_def)
      (simp add: sample_fixture_def)
  with adapter_result_Inr [OF d] show ?thesis by blast
qed

theorem evaluate_ignores_headers_witness:
  "\<exists>d d'. evaluate sample_ed 100 baseline_adapter (sample_fixture None) = Inr d
     \<and> evaluate sample_ed 100 baseline_adapter ((sample_fixture None)\<lparr>lf_untrusted_headers := []\<rparr>) = Inr d'
     \<and> ld_outcome d' = ld_outcome d"
proof -
  obtain d where d: "evaluate sample_ed 100 baseline_adapter (sample_fixture None) = Inr d"
    using baseline_evaluates by blast
  let ?g = "(sample_fixture None)\<lparr>lf_untrusted_headers := []\<rparr>"
  have "is_ok (adapter_result baseline_adapter ?g PERMIT [u ''baseline_permitted''] None)"
    by (rule adapter_result_ok) code_simp
  moreover have "evaluate sample_ed 100 baseline_adapter ?g = adapter_result baseline_adapter ?g PERMIT [u ''baseline_permitted''] None"
    by (simp add: evaluate_def evaluate_baseline_def baseline_adapter_def ignored_reasons_def sample_fixture_def)
  ultimately obtain d' where d': "evaluate sample_ed 100 baseline_adapter ?g = Inr d'" by (auto simp: is_ok_iff)
  from evaluate_ignores_headers [OF d d'] d d' show ?thesis by blast
qed

text \<open>A request id with a lone surrogate has no canonical digest.\<close>

theorem evaluate_raises_witness:
  "\<exists>e. evaluate sample_ed 100 baseline_adapter
      ((sample_fixture None)\<lparr>lf_request := sample_request\<lparr>ar_request_id := [55296]\<rparr>\<rparr>) = Inl e
     \<and> (\<exists>v. canonical_digest v = Inl e)"
proof -
  let ?f = "(sample_fixture None)\<lparr>lf_request := sample_request\<lparr>ar_request_id := [55296]\<rparr>\<rparr>"
  have f: "wf_LiveFixture ?f"
  proof -
    have "nonblank [55296]" by (simp add: nonblank_iff is_space_def)
    then show ?thesis
      using sample_wf(1) by (simp add: wf_LiveFixture_def sample_fixture_def wf_ActionRequest_def is_space_def)
  qed
  have a: "wf_adapter baseline_adapter" by (simp add: wf_adapter_def baseline_adapter_def)
  have "\<not> is_ok (evaluate_baseline baseline_adapter ?f)" by code_simp
  then have "\<not> is_ok (evaluate sample_ed 100 baseline_adapter ?f)"
    by (simp add: evaluate_def) (simp add: baseline_adapter_def)
  then obtain e where e: "evaluate sample_ed 100 baseline_adapter ?f = Inl e"
    by (cases "evaluate sample_ed 100 baseline_adapter ?f") auto
  from evaluate_raises [OF f a e] e show ?thesis by (auto simp: sample_fixture_def)
qed

end
