(* ===== verification/KilGateway.thy ===== *)
theory KilGateway
  imports KilLiveAuthz
begin

text \<open>
  \<^verbatim>\<open>src/kil/reference_gateway.py\<close>: the process gate that forwards a request to its target
  exactly when the adapter permits it, and proves it with the records of a harmless marker.
  The locale \<open>guarded_effect\<close> is the contract of such a gate: one step adds the record of a
  permitted input and nothing else; what a whole run leaves behind follows from it.
\<close>

record TargetRecord =
  tr_request_id :: pstr
  tr_track :: LiveTrack
  tr_action_class :: pstr

type_synonym TargetMarker = "TargetRecord list"

definition target_invoke :: "TargetMarker \<Rightarrow> LiveFixture \<Rightarrow> LiveTrack \<Rightarrow> TargetMarker \<times> TargetRecord" where
  "target_invoke records f trk =
     (let r = \<lparr>tr_request_id = ar_request_id (lf_request f), tr_track = trk,
                tr_action_class = lf_action_class f\<rparr>
      in (records @ [r], r))"

record GatewayResult =
  gr_decision :: LiveDecision
  gr_forwarded :: bool
  gr_marker_count :: nat
  gr_proof_valid :: bool
  gr_target_records :: "TargetRecord list"

text \<open>\<^verbatim>\<open>ReferenceGateway.handle\<close>, on the adapter's decision: the target's new records and the
  result. An exception of the adapter leaves the target as it is.\<close>

definition handle :: "Ed25519 \<Rightarrow> nat \<Rightarrow> AuthorizationAdapter \<Rightarrow> TargetMarker \<Rightarrow> LiveFixture \<Rightarrow> (GatewayResult \<times> TargetMarker) res" where
  "handle ed limit a records f =
     bind_r (evaluate ed limit a f) (\<lambda>decision.
     let (records', forwarded) = (if ld_outcome decision = PERMIT
           then (fst (target_invoke records f (ld_track decision)), True) else (records, False));
         matching = filter (\<lambda>r. tr_request_id r = ar_request_id (lf_request f)
           \<and> tr_track r = ld_track decision) records';
         marker_count = length matching;
         proof_valid = (ld_outcome decision = PERMIT \<and> forwarded \<and> marker_count = 1
           \<or> ld_outcome decision \<noteq> PERMIT \<and> \<not> forwarded \<and> marker_count = 0)
     in Inr (\<lparr>gr_decision = decision, gr_forwarded = forwarded, gr_marker_count = marker_count,
               gr_proof_valid = proof_valid, gr_target_records = matching\<rparr>, records'))"

text \<open>The target after one request, and after a list of them.\<close>

definition target_after :: "Ed25519 \<Rightarrow> nat \<Rightarrow> AuthorizationAdapter \<Rightarrow> TargetMarker \<Rightarrow> LiveFixture \<Rightarrow> TargetMarker" where
  "target_after ed limit a records f =
     (case handle ed limit a records f of Inl _ \<Rightarrow> records | Inr (_, records') \<Rightarrow> records')"

definition serve :: "Ed25519 \<Rightarrow> nat \<Rightarrow> AuthorizationAdapter \<Rightarrow> TargetMarker \<Rightarrow> LiveFixture list \<Rightarrow> TargetMarker" where
  "serve ed limit a records fs = foldl (target_after ed limit a) records fs"

subsection \<open>The contract of a guarded effect\<close>

locale guarded_effect =
  fixes step :: "'s \<Rightarrow> 'i \<Rightarrow> 's" and effects :: "'s \<Rightarrow> 'r list"
    and permitted :: "'i \<Rightarrow> bool" and record_of :: "'i \<Rightarrow> 'r"
  assumes effects_step: "effects (step s i) = effects s @ (if permitted i then [record_of i] else [])"
begin

lemma effects_run: "effects (foldl step s is) = effects s @ map record_of (filter permitted is)"
  by (induction "is" arbitrary: s) (auto simp: effects_step)

lemma effect_permitted:
  "effects s = [] \<Longrightarrow> r \<in> set (effects (foldl step s is)) \<Longrightarrow> \<exists>i \<in> set is. permitted i \<and> record_of i = r"
  by (auto simp: effects_run)

lemma effects_length: "length (effects (foldl step s is)) = length (effects s) + length (filter permitted is)"
  by (simp add: effects_run)

lemma effects_prefix: "\<exists>rs. effects (foldl step s is) = effects s @ rs"
  by (simp add: effects_run)

end

definition fixture_record :: "AuthorizationAdapter \<Rightarrow> LiveFixture \<Rightarrow> TargetRecord" where
  "fixture_record a f = \<lparr>tr_request_id = ar_request_id (lf_request f), tr_track = aa_track a,
     tr_action_class = lf_action_class f\<rparr>"

definition gate_permits :: "Ed25519 \<Rightarrow> nat \<Rightarrow> AuthorizationAdapter \<Rightarrow> LiveFixture \<Rightarrow> bool" where
  "gate_permits ed limit a f =
     (case evaluate ed limit a f of Inl _ \<Rightarrow> False | Inr d \<Rightarrow> ld_outcome d = PERMIT)"

lemma handle_Inr:
  "handle ed limit a records f = Inr (g, records') \<longleftrightarrow>
     (\<exists>d. evaluate ed limit a f = Inr d \<and> gr_decision g = d
        \<and> gr_forwarded g = (ld_outcome d = PERMIT)
        \<and> records' = records @ (if ld_outcome d = PERMIT then [fixture_record a f] else [])
        \<and> gr_target_records g = filter (\<lambda>r. tr_request_id r = ar_request_id (lf_request f)
             \<and> tr_track r = aa_track a) records'
        \<and> gr_marker_count g = length (gr_target_records g)
        \<and> gr_proof_valid g = (gr_marker_count g = (if ld_outcome d = PERMIT then 1 else 0)))"
proof (cases "evaluate ed limit a f")
  case (Inl e)
  then show ?thesis by (simp add: handle_def)
next
  case (Inr d)
  note trk = evaluate_track [OF Inr, THEN conjunct1]
  show ?thesis
    by (cases "ld_outcome d = PERMIT"; cases g)
      (auto simp: handle_def Inr Let_def target_invoke_def fixture_record_def trk)
qed

lemma target_after_step:
  "target_after ed limit a records f
     = records @ (if gate_permits ed limit a f then [fixture_record a f] else [])"
proof (cases "evaluate ed limit a f")
  case (Inl e)
  then show ?thesis by (simp add: target_after_def handle_def gate_permits_def)
next
  case (Inr d)
  then show ?thesis
    using evaluate_track [OF Inr]
    by (simp add: target_after_def handle_def gate_permits_def Let_def target_invoke_def fixture_record_def)
qed

interpretation gateway: guarded_effect "target_after ed limit a" "\<lambda>records. records"
    "gate_permits ed limit a" "fixture_record a" for ed limit a
  by unfold_locales (rule target_after_step)

subsection \<open>Properties\<close>

text \<open>
  Forward or withhold. On every request the gate answers, it forwards exactly
  when the adapter's decision is a permit; the target then has one more record, the
  request's, on the adapter's track, and otherwise the same records; and the proof in the
  result is valid exactly when the target held no earlier record of that request and track.
\<close>
theorem handle_forwards_iff:
  assumes "handle ed limit a records f = Inr (g, records')"
  shows "evaluate ed limit a f = Inr (gr_decision g)
     \<and> gr_forwarded g = (ld_outcome (gr_decision g) = PERMIT)
     \<and> records' = records @ (if gr_forwarded g then [fixture_record a f] else [])
     \<and> (gr_proof_valid g \<longleftrightarrow> (\<forall>r \<in> set records. \<not> (tr_request_id r = ar_request_id (lf_request f)
          \<and> tr_track r = aa_track a)))"
proof -
  have "filter P xs = [] \<longleftrightarrow> (\<forall>x \<in> set xs. \<not> P x)" for P and xs :: "TargetRecord list"
    by (simp add: filter_empty_conv)
  then show ?thesis
    using assms by (auto simp: handle_Inr fixture_record_def)
qed

lemma sample_handles:
  obtains h p s g records where
    "handle sample_ed 100 sample_adapter [] (sample_fixture (Some (token_of h p s))) = Inr (g, records)"
    "ld_outcome (gr_decision g) = PERMIT"
proof -
  obtain h p s d where d: "evaluate sample_ed 100 sample_adapter (sample_fixture (Some (token_of h p s))) = Inr d"
    "ld_outcome d = PERMIT"
    by (rule sample_evaluates)
  then have "is_ok (handle sample_ed 100 sample_adapter [] (sample_fixture (Some (token_of h p s))))"
    by (simp add: handle_def Let_def)
  then obtain g records where g: "handle sample_ed 100 sample_adapter [] (sample_fixture (Some (token_of h p s))) = Inr (g, records)"
    by (auto simp: is_ok_iff)
  then have "gr_decision g = d" using d(1) by (auto simp: handle_Inr)
  with g d(2) that show thesis by blast
qed

theorem handle_forwards_iff_witness:
  "\<exists>h p s g records. handle sample_ed 100 sample_adapter [] (sample_fixture (Some (token_of h p s))) = Inr (g, records)
     \<and> gr_forwarded g \<and> gr_proof_valid g \<and> length records = 1"
proof -
  obtain h p s g records where g:
    "handle sample_ed 100 sample_adapter [] (sample_fixture (Some (token_of h p s))) = Inr (g, records)"
    "ld_outcome (gr_decision g) = PERMIT"
    by (rule sample_handles)
  have "gr_forwarded g \<and> gr_proof_valid g \<and> length records = 1"
    using handle_forwards_iff [OF g(1)] g(2) by auto
  with g(1) show ?thesis by blast
qed

text \<open>
  Claim C19: nothing reaches the target without a permit. After any sequence of requests,
  answered or failing, from a fresh target, the target's records are exactly the records of
  the permitted requests in the order they came: none is lost, repeated, reordered or
  forwarded on a denial or an exception.
\<close>
theorem served_records:
  shows "serve ed limit a [] fs = map (fixture_record a) (filter (gate_permits ed limit a) fs)"
  using gateway.effects_run [of ed limit a "[]" fs] by (simp add: serve_def)

text \<open>
  Proofs are valid for fresh requests. If the request ids of a sequence are
  distinct, then every request that the gate answers, served in its turn, gets a result
  whose proof is valid.
\<close>
theorem served_proofs_valid:
  assumes "distinct (map (ar_request_id \<circ> lf_request) (fs @ [f]))"
    and "handle ed limit a (serve ed limit a [] fs) f = Inr (g, records)"
  shows "gr_proof_valid g"
proof -
  have "serve ed limit a [] fs = map (fixture_record a) (filter (gate_permits ed limit a) fs)"
    using gateway.effects_run [of ed limit a "[]" fs] by (simp add: serve_def)
  then have "\<forall>r \<in> set (serve ed limit a [] fs). tr_request_id r \<noteq> ar_request_id (lf_request f)"
    using assms(1) by (auto simp: fixture_record_def) (metis image_eqI)
  then have "filter (\<lambda>r. tr_request_id r = ar_request_id (lf_request f) \<and> tr_track r = aa_track a)
      (serve ed limit a [] fs) = []"
    by (auto simp: filter_empty_conv)
  then show ?thesis using assms(2) by (auto simp: handle_Inr fixture_record_def)
qed

theorem served_proofs_valid_witness:
  "\<exists>h p s g records. handle sample_ed 100 sample_adapter (serve sample_ed 100 sample_adapter [] [])
       (sample_fixture (Some (token_of h p s))) = Inr (g, records) \<and> gr_proof_valid g"
proof -
  obtain h p s g records where g:
    "handle sample_ed 100 sample_adapter [] (sample_fixture (Some (token_of h p s))) = Inr (g, records)"
    by (rule sample_handles)
  have nil: "serve sample_ed 100 sample_adapter [] [] = []" by (simp add: serve_def)
  have "gr_proof_valid g"
    by (rule served_proofs_valid [of "[]" "sample_fixture (Some (token_of h p s))" sample_ed 100 sample_adapter g records])
      (use g nil in simp_all)
  with g nil show ?thesis by metis
qed

end
