(* ===== verification/KilFlat.thy ===== *)
theory KilFlat
  imports KilCanonical
begin

text \<open>
  Canonical text of flat records: objects whose fields are constants, bounded integers and
  short strings of printable ASCII, as the target's ledger and the request driver write
  them. Such an object is its own normal form, so its text is the dump of its fields, and
  a canonical text whose object is flat is read back exactly. Also the values
  \<^verbatim>\<open>json.loads\<close> builds under a hook that refuses duplicate fields.
\<close>

lemma list_all_memD: "list_all P xs \<Longrightarrow> x \<in> set xs \<Longrightarrow> P x"
  by (simp add: list_all_iff)

subsection \<open>Plain strings\<close>

text \<open>Printable ASCII without quotes and backslashes is its own escape.\<close>

definition plain :: "pstr \<Rightarrow> bool" where
  "plain s \<longleftrightarrow> (\<forall>c \<in> set s. 32 \<le> c \<and> c < 127 \<and> c \<noteq> 34 \<and> c \<noteq> 92)"

lemma plain_string_text: "plain s \<Longrightarrow> string_text s = 34 # s @ [34]"
proof -
  assume p: "plain s"
  have "plain s \<Longrightarrow> concat (map escape_char s) = s"
    by (induction s) (auto simp: plain_def escape_char_def)
  with p show ?thesis by (simp add: string_text_def)
qed

definition printable :: "nat \<Rightarrow> bool" where
  "printable c \<longleftrightarrow> 32 \<le> c \<and> c < 127"

lemma plain_printable: "plain s \<Longrightarrow> list_all printable s"
  by (auto simp: plain_def printable_def list_all_iff)

lemma printable_ascii: "list_all printable s \<Longrightarrow> utf8_encode s = Inr (ascii_bytes s)"
  by (rule utf8_encode_ascii) (auto simp: list_all_iff printable_def)

lemma normalize_plain:
  "plain s \<Longrightarrow> length s \<le> 1000 \<Longrightarrow> d \<le> 63 \<Longrightarrow> i < 100 \<Longrightarrow> normalize_value (PStr s) d i = Inr (PStr s, Suc i)"
proof -
  assume s: "plain s" "length s \<le> 1000" "d \<le> 63" "i < 100"
  then have "utf8_encode s = Inr (ascii_bytes s)"
    by (intro utf8_encode_ascii) (auto simp: plain_def list_all_iff)
  then have "validate_string s = Inr ()"
    using s(2) by (simp add: validate_string_def ascii_bytes_def MAX_OUTPUT_BYTES_def)
  then show ?thesis using s by (subst normalize_value.simps) (simp add: MAX_DEPTH_def MAX_ITEMS_def)
qed

lemma normalize_enum:
  "plain s \<Longrightarrow> length s \<le> 1000 \<Longrightarrow> d \<le> 62 \<Longrightarrow> i < 99 \<Longrightarrow> normalize_value (PEnum c s) d i = Inr (PStr s, Suc (Suc i))"
  by (subst normalize_value.simps) (simp add: normalize_plain MAX_DEPTH_def MAX_ITEMS_def)

lemma normalize_int:
  "d \<le> 63 \<Longrightarrow> i < 100 \<Longrightarrow> normalize_value (PInt n) d i =
     (if bit_length n \<le> MAX_INTEGER_BITS then Inr (PInt n, Suc i) else Inl (ValueError ''canonical integer exceeds supported size''))"
  by (subst normalize_value.simps) (simp add: MAX_DEPTH_def MAX_ITEMS_def)

subsection \<open>Integers\<close>

lemma digits_bound: "bit_length n \<le> MAX_INTEGER_BITS \<Longrightarrow> ndigits (nat \<bar>n\<bar>) \<le> 1400"
proof -
  assume "bit_length n \<le> MAX_INTEGER_BITS"
  then have "nat \<bar>n\<bar> < 2 ^ MAX_INTEGER_BITS" by (simp add: bit_length_def nat_bits_le_iff)
  also have "(2 :: nat) ^ MAX_INTEGER_BITS \<le> 2 ^ (3 * 1400)" by (rule power_increasing) (simp_all add: MAX_INTEGER_BITS_def)
  also have "(2 :: nat) ^ (3 * 1400) = 8 ^ 1400" by (simp only: power_mult) simp
  also have "(8 :: nat) ^ 1400 \<le> 10 ^ 1400" by (rule power_mono) simp_all
  finally have b: "nat \<bar>n\<bar> < 10 ^ 1400" .
  have "0 < (1400 :: nat)" by simp
  then show ?thesis by (rule ndigits_le_iff [THEN iffD2, OF conjI, OF _ b])
qed

subsection \<open>Flat objects\<close>

fun flat_value :: "pyval \<Rightarrow> bool" where
  "flat_value PNone = True"
| "flat_value (PBool _) = True"
| "flat_value (PInt n) = (bit_length n \<le> MAX_INTEGER_BITS)"
| "flat_value (PStr s) = (plain s \<and> length s \<le> 1000)"
| "flat_value _ = False"

fun flat_key :: "pyval \<Rightarrow> bool" where
  "flat_key (PStr s) = (plain s \<and> length s \<le> 100 \<and> s \<noteq> u DECIMAL_TAG)"
| "flat_key _ = False"

definition flat_fields :: "pydict \<Rightarrow> bool" where
  "flat_fields kvs \<longleftrightarrow> length kvs < 90 \<and> list_all (\<lambda>kv. flat_key (fst kv) \<and> flat_value (snd kv)) kvs
     \<and> distinct (map fst kvs) \<and> sorted (map (key_text \<circ> fst) kvs)"

lemma flat_value_cases:
  assumes "flat_value v"
  obtains "v = PNone" | b where "v = PBool b" | n where "v = PInt n" "bit_length n \<le> MAX_INTEGER_BITS"
  | s where "v = PStr s" "plain s" "length s \<le> 1000"
  using assms by (cases v) auto

lemma flat_key_str: "flat_key k \<Longrightarrow> is_str k"
  by (cases k) auto

lemma normalize_flat_value:
  assumes "flat_value v" "i < 100" "d \<le> 63"
  shows "normalize_value v d i = Inr (v, Suc i)"
  using assms(1)
proof (cases rule: flat_value_cases)
  case 1
  with assms show ?thesis by (subst normalize_value.simps) (simp add: MAX_DEPTH_def MAX_ITEMS_def)
next
  case 2
  with assms show ?thesis by (subst normalize_value.simps) (simp add: MAX_DEPTH_def MAX_ITEMS_def)
qed (use assms in \<open>simp_all add: normalize_int normalize_plain\<close>)

lemma normalize_flat_fields:
  assumes "list_all (\<lambda>kv. flat_value (snd kv)) kvs" "i + length kvs \<le> 100" "d \<le> 63"
  shows "map_state_r (\<lambda>kv i. on_fst (Pair (fst kv)) (normalize_value (snd kv) d i)) kvs i = Inr (kvs, i + length kvs)"
  using assms
proof (induction kvs arbitrary: i)
  case (Cons kv kvs)
  then show ?case by (simp add: on_fst_def normalize_flat_value)
qed simp

lemma validate_plain: "plain s \<Longrightarrow> length s \<le> 100 \<Longrightarrow> validate_string s = Inr ()"
proof -
  assume s: "plain s" "length s \<le> 100"
  then have "utf8_encode s = Inr (ascii_bytes s)"
    by (intro utf8_encode_ascii) (auto simp: plain_def list_all_iff)
  then show ?thesis using s by (simp add: validate_string_def ascii_bytes_def MAX_OUTPUT_BYTES_def)
qed

lemma validate_flat_keys:
  "list_all (\<lambda>kv. flat_key (fst kv)) kvs \<Longrightarrow> is_ok (map_r (\<lambda>kv. validate_string (key_text (fst kv))) kvs)"
proof (induction kvs)
  case (Cons kv kvs)
  then show ?case by (cases "fst kv") (auto simp: validate_plain is_ok_iff)
qed simp

text \<open>The fields may be given in any order.\<close>

lemma normalize_flat_sorted:
  assumes "flat_fields d" "sort_items kvs = d"
  shows "normalize_value (PDict kvs) 0 0 = Inr (PDict d, Suc (length d))"
proof -
  have set: "set kvs = set d" using set_sort_items [of kvs] assms(2) by simp
  have f: "length d < 90" "list_all (\<lambda>kv. flat_key (fst kv)) kvs" "list_all (\<lambda>kv. flat_value (snd kv)) d"
    using assms(1) by (auto simp: flat_fields_def list_all_iff set)
  have k: "list_all (\<lambda>kv. is_str (fst kv)) kvs" "PStr (u DECIMAL_TAG) \<notin> fst ` set kvs"
    using f(2) by (auto simp: list_all_iff flat_key_str dest!: bspec)
  obtain ys where "map_r (\<lambda>kv. validate_string (key_text (fst kv))) kvs = Inr ys"
    using validate_flat_keys [OF f(2)] by (auto simp: is_ok_iff)
  then show ?thesis
    using f(1,3) k normalize_flat_fields [of d 1 1] assms(2)
    by (subst normalize_value.simps) (simp add: MAX_DEPTH_def MAX_ITEMS_def on_fst_def)
qed

lemma normalize_flat: "flat_fields kvs \<Longrightarrow> normalize_value (PDict kvs) 0 0 = Inr (PDict kvs, Suc (length kvs))"
  by (intro normalize_flat_sorted sort_items_sorted) (simp_all add: flat_fields_def)

text \<open>The length of the text of a field, and of the whole object.\<close>

fun item_size :: "pyval \<times> pyval \<Rightarrow> nat" where
  "item_size (k, v) = length (key_text k) + 4 + (case v of PStr s \<Rightarrow> length s + 2
     | PInt n \<Rightarrow> 1 + ndigits (nat \<bar>n\<bar>) | _ \<Rightarrow> 5)"

lemma length_join_commas: "length (join_with [44 :: nat] ws) \<le> sum_list (map length ws) + length ws"
  by (induction "[44 :: nat]" ws rule: join_with.induct) simp_all

lemma sum_list_le: "(\<And>x. x \<in> set xs \<Longrightarrow> f x \<le> (g x :: nat)) \<Longrightarrow> sum_list (map f xs) \<le> sum_list (map g xs)"
  by (rule sum_list_mono) simp

lemma length_int_text: "length (int_text n) \<le> 1 + ndigits (nat \<bar>n\<bar>)"
  by (simp add: int_text_def length_nat_digits)

lemma length_flat_item:
  "flat_key (fst kv) \<Longrightarrow> flat_value (snd kv) \<Longrightarrow> Suc (length (item_text kv)) \<le> item_size kv"
  using length_int_text
  by (cases kv; cases "fst kv"; cases "snd kv") (auto simp: plain_string_text u_def)

lemma length_flat_text:
  assumes "flat_fields kvs"
  shows "length (dump_text (PDict kvs)) \<le> 2 + sum_list (map item_size kvs)"
proof -
  have s: "sort_items kvs = kvs" using assms by (intro sort_items_sorted) (simp add: flat_fields_def)
  have "sum_list (map (\<lambda>kv. Suc (length (item_text kv))) kvs) \<le> sum_list (map item_size kvs)"
    using assms by (intro sum_list_le length_flat_item) (auto simp: flat_fields_def list_all_iff)
  moreover have "sum_list (map (\<lambda>kv. Suc (length (item_text kv))) kvs) = sum_list (map length (map item_text kvs)) + length kvs"
    by (induction kvs) simp_all
  ultimately show ?thesis
    using length_join_commas [of "map item_text kvs"] unfolding dump_text.simps(9) s
    by simp
qed

lemma item_size_bound: "flat_key (fst kv) \<Longrightarrow> flat_value (snd kv) \<Longrightarrow> item_size kv \<le> 1600"
  using digits_bound by (cases kv; cases "fst kv"; cases "snd kv") fastforce+

lemma dump_flat_chars:
  assumes "flat_fields kvs"
  shows "list_all printable (dump_text (PDict kvs))"
proof -
  have s: "sort_items kvs = kvs" using assms by (intro sort_items_sorted) (simp add: flat_fields_def)
  have dig: "list_all printable (nat_digits n)" for n
    using nat_digits_digit [of _ n] by (force simp: list_all_iff printable_def is_digit_def)
  have "list_all printable (item_text kv)" if "kv \<in> set kvs" for kv
  proof -
    have "flat_key (fst kv)" "flat_value (snd kv)" using assms that by (auto simp: flat_fields_def list_all_iff)
    then show ?thesis
      by (cases kv; cases "fst kv"; cases "snd kv")
        (auto simp: plain_string_text plain_printable int_text_def dig u_def, auto simp: printable_def)
  qed
  then have "\<forall>w \<in> set (map item_text kvs). list_all printable w" by simp
  moreover have "\<forall>w \<in> set ws. list_all printable w \<Longrightarrow> list_all printable (join_with [44] ws)" for ws
    by (induction "[44 :: nat]" ws rule: join_with.induct) (auto simp: printable_def)
  ultimately have "list_all printable (join_with [44] (map item_text kvs))" by blast
  then show ?thesis unfolding dump_text.simps(9) s by (simp add: printable_def)
qed

lemma flat_json_dumps: "flat_fields kvs \<Longrightarrow> json_dumps (PDict kvs) = Inr (dump_text (PDict kvs))"
proof -
  assume f: "flat_fields kvs"
  have "json_ok v \<and> ints_ok v" if "flat_value v" for v
    using that by (cases v) (auto simp: int_ok_bits)
  with f show ?thesis
    by (auto simp: json_dumps_def flat_fields_def list_all_iff flat_key_str)
qed

lemma flat_normal_json:
  assumes "normalize_value v 0 0 = Inr (PDict d, n)" "flat_fields d"
  shows "canonical_json v = Inr (dump_text (PDict d))"
proof -
  have "sum_list (map item_size d) \<le> sum_list (map (\<lambda>_. 1600) d)"
    using assms(2) by (intro sum_list_le item_size_bound) (auto simp: flat_fields_def list_all_iff)
  then have "length (dump_text (PDict d)) \<le> MAX_OUTPUT_BYTES"
    using length_flat_text [OF assms(2)] assms(2)
    by (simp add: sum_list_triv flat_fields_def MAX_OUTPUT_BYTES_def)
  then show ?thesis
    using assms(1) flat_json_dumps [OF assms(2)] printable_ascii [OF dump_flat_chars [OF assms(2)]]
    by (simp add: canonical_json_def ascii_bytes_def)
qed

lemma flat_canonical_json_sorted:
  "flat_fields d \<Longrightarrow> sort_items kvs = d \<Longrightarrow> canonical_json (PDict kvs) = Inr (dump_text (PDict d))"
  using flat_normal_json [OF normalize_flat_sorted] by simp

theorem flat_canonical_json: "flat_fields kvs \<Longrightarrow> canonical_json (PDict kvs) = Inr (dump_text (PDict kvs))"
  by (intro flat_canonical_json_sorted sort_items_sorted) (simp_all add: flat_fields_def)

lemma flat_canonical: "flat_fields kvs \<Longrightarrow> canonical (PDict kvs) \<and> nesting (PDict kvs) \<le> 1"
proof -
  assume f: "flat_fields kvs"
  have v: "canonical v \<and> nesting v = 0" if "flat_value v" for v
    using that by (cases v) (auto simp: int_ok_bits)
  show ?thesis
  proof (rule conjI)
    show "canonical (PDict kvs)" using f v by (auto simp: flat_fields_def list_all_iff flat_key_str)
    show "nesting (PDict kvs) \<le> 1"
      unfolding nesting_le_iff using f v by (auto simp: flat_fields_def list_all_iff)
  qed
qed

theorem flat_json_loads:
  assumes "flat_fields kvs" "faithful_hook hook" "1 \<le> limit"
  shows "json_loads hook limit (dump_text (PDict kvs) @ [10]) = Inr (PDict kvs)"
  using flat_canonical [OF assms(1)] assms(2,3)
  by (intro json_round_trip) (auto simp: skip_ws_def json_ws_def follow_ok_def scan_fraction_def scan_exponent_def is_digit_def)

subsection \<open>Values read under a closed hook\<close>

lemma json_elems_all:
  assumes "json_elems p n s = Inr (vs, q)" "\<And>s v r. p s = Inr (v, r) \<Longrightarrow> P v"
  shows "list_all P vs"
  using assms(1)
proof (induction n arbitrary: s vs)
  case (Suc n)
  from Suc.prems obtain v s1 where v: "p s = Inr (v, s1)" by auto
  obtain c s2 where c: "skip_ws s1 = c # s2" using Suc.prems v by (cases "skip_ws s1") auto
  show ?case using Suc.prems v c Suc.IH assms(2) [OF v] by (auto split: if_splits)
qed simp

lemma json_members_all:
  assumes "json_members p n s = Inr (kvs, q)" "\<And>s v r. p s = Inr (v, r) \<Longrightarrow> P v"
  shows "list_all (\<lambda>kv. P (snd kv)) kvs"
  using assms(1)
proof (induction n arbitrary: s kvs)
  case (Suc n)
  from Suc.prems obtain k s1 where k: "take 1 s = [34]" "scan_string (drop 1 s) = Inr (k, s1)"
    by (auto split: if_splits)
  obtain c s2 where c: "skip_ws s1 = c # s2" using Suc.prems k by (cases "skip_ws s1") auto
  obtain v s3 where v: "c = 58" "p (skip_ws s2) = Inr (v, s3)" using Suc.prems k c by (auto split: if_splits)
  obtain d s4 where d: "skip_ws s3 = d # s4" using Suc.prems k c v by (cases "skip_ws s3") auto
  show ?case using Suc.prems k c v d Suc.IH assms(2) [OF v(2)] by (auto split: if_splits)
qed simp

lemma json_scalar_wf: "json_scalar s = Inr (v, r) \<Longrightarrow> wf_value v"
  by (auto simp: json_scalar_def scan_number_def scan_unsigned_def Let_def bind_r_eq_Inr split: if_splits)

lemma closed_hook_Inr: "closed_hook e kvs = Inr v \<longleftrightarrow> distinct (map fst kvs) \<and> v = PDict kvs"
  by (auto simp: closed_hook_def)

lemma json_value_wf:
  "json_value (closed_hook e) f s = Inr (v, r) \<Longrightarrow> wf_value v"
proof (induction f arbitrary: s v r)
  case 0
  then show ?case by (auto dest: json_scalar_wf split: if_splits)
next
  case (Suc f)
  have el: "list_all wf_value vs" if "json_elems (json_value (closed_hook e) f) n t = Inr (vs, q)" for n t vs q
    using that by (rule json_elems_all) (rule Suc.IH)
  have me: "list_all (\<lambda>kv. wf_value (snd kv)) kvs"
    if "json_members (json_value (closed_hook e) f) n t = Inr (kvs, q)" for n t kvs q
    using that by (rule json_members_all) (rule Suc.IH)
  from Suc.prems show ?case
    by (auto simp: json_object_def json_array_def Let_def bind_r_eq_Inr closed_hook_Inr
        dest: json_scalar_wf el me split: if_splits)
qed

lemma json_loads_wf: "json_loads (closed_hook e) f s = Inr v \<Longrightarrow> wf_value v"
  by (auto simp: json_loads_def bind_r_eq_Inr dest: json_value_wf split: if_splits)

text \<open>A value read from its own canonical text, with a final line feed, is in canonical form.\<close>

theorem canonical_line_value:
  assumes "json_loads (closed_hook e) limit (t @ [10]) = Inr v" "canonical_json v = Inr t" "66 \<le> limit"
  shows "canonical v \<and> t = dump_text v"
proof -
  obtain n j where n: "t = dump_text n" "good 66 n"
    by (rule canonical_json_Inr [OF json_loads_wf [OF assms(1)] assms(2)])
  have "json_loads (closed_hook e) limit (dump_text (sorted_form n) @ [10]) = Inr (sorted_form n)"
    using n(2) assms(3) closed_hook_faithful
    by (intro json_round_trip) (auto simp: good_def skip_ws_def json_ws_def)
  with assms(1) n have "v = sorted_form n" by (simp add: dump_sorted_form)
  with n show ?thesis by (simp add: good_def dump_sorted_form)
qed

subsection \<open>What canonicalization raises\<close>

definition canonical_error :: "pyexc \<Rightarrow> bool" where
  "canonical_error e \<longleftrightarrow> is_value_error e \<or> (\<exists>s. e = TypeError s)"

lemma canonical_error_simps [simp]:
  "canonical_error (ValueError s)" "canonical_error (TypeError s)" "canonical_error UnicodeError"
  by (simp_all add: canonical_error_def)

lemma only_raises_map_r:
  "(\<And>x. x \<in> set xs \<Longrightarrow> only_raises P (f x)) \<Longrightarrow> only_raises P (map_r f xs)"
  by (induction xs) (auto intro!: only_raises_bind)

lemma only_raises_map_state_r:
  "(\<And>x s. x \<in> set xs \<Longrightarrow> only_raises P (f x s)) \<Longrightarrow> only_raises P (map_state_r f xs s)"
  by (induction xs arbitrary: s) (auto intro!: only_raises_bind)

lemma only_raises_on_fst: "only_raises P m \<Longrightarrow> only_raises P (on_fst f m)"
  by (auto simp: on_fst_def intro!: only_raises_bind)

lemma validate_string_raises: "only_raises canonical_error (validate_string s)"
  by (auto simp: validate_string_def utf8_encode_def size_exceeded_def)

lemma normalize_value_raises: "only_raises canonical_error (normalize_value v d i)"
proof (induction "Suc MAX_DEPTH - d" arbitrary: v d i rule: less_induct)
  case less
  show ?case
  proof (cases "d \<le> MAX_DEPTH")
    case False
    then show ?thesis by (subst normalize_value.simps) simp
  next
    case True
    then have IH: "only_raises canonical_error (normalize_value v (d + 1) i)" for v i
      by (intro less) simp
    show ?thesis
      by (subst normalize_value.simps, cases v)
        (auto simp: normalize_decimal_def size_exceeded_def intro!: only_raises_on_fst only_raises_map_state_r only_raises_bind
          only_raises_map_r validate_string_raises IH [simplified] split: prod.splits)
  qed
qed

lemma canonical_json_raises: "only_raises canonical_error (canonical_json v)"
  unfolding canonical_json_def
  by (auto simp: json_dumps_def utf8_encode_def size_exceeded_def
      intro!: only_raises_bind normalize_value_raises split: prod.splits)

end
