(* ===== verification/KilRunBundle.thy ===== *)
theory KilRunBundle
  imports KilRecords KilFlat
begin

text \<open>
  \<^verbatim>\<open>src/kil/run_bundle.py\<close>: the publication of a replay as a directory of files with their
  checksums. The output root is a map from directory names to their files; \<open>io k\<close> is the
  outcome of the \<open>k\<close>-th call to the file system (None is success): 0 makes the output root, 1
  the temporary directory, then one call per file, the rename and, after a failure, the removal
  of the temporary directory. \<open>suffix\<close> is what \<^verbatim>\<open>mkdtemp\<close> adds to its prefix. A failing
  write leaves its file out and a failing removal leaves all files; only where the removal
  fails can the difference be seen.
\<close>

type_synonym files = "(pstr \<times> bytes) list"
type_synonym dirs = "pstr \<rightharpoonup> files"

definition KTP_CITATION_URL :: string where
  "KTP_CITATION_URL = ''https://github.com/nmcitra/ktp-rfc/blob/main/CITATION.cff''"

definition MAX_METADATA_BYTES :: nat where "MAX_METADATA_BYTES = 256"

definition bundle_metadata :: "string \<Rightarrow> pyval \<Rightarrow> pstr res" where
  "bundle_metadata name v =
     bind_r (require_identifier name v) (\<lambda>s.
     case utf8_encode s of
       Inl _ \<Rightarrow> Inl (ValueError (name @ '' must contain valid UTF-8 text''))
     | Inr encoded \<Rightarrow>
         if length encoded > MAX_METADATA_BYTES then Inl (ValueError (name @ '' exceeds the supported size''))
         else Inr s)"

definition validate_alignment :: "ReplayReport \<Rightarrow> Scenario \<Rightarrow> unit res" where
  "validate_alignment report scenario =
     (if rr_evidence_class report \<noteq> MODELED
      then Inl (ValueError ''historical report evidence_class must remain modeled'')
      else if rr_scenario_id report \<noteq> sc_scenario_id scenario
      then Inl (ValueError ''report and scenario scenario_id values must match'')
      else if map pd_event_id (rr_decisions report) \<noteq> map se_event_id (sc_events scenario)
      then Inl (ValueError ''report decisions must align with scenario event order'')
      else Inr ())"

definition count_decisions :: "(PairedDecision \<Rightarrow> bool) \<Rightarrow> ReplayReport \<Rightarrow> nat" where
  "count_decisions P report = length (filter P (rr_decisions report))"

definition pv_count :: "(PairedDecision \<Rightarrow> bool) \<Rightarrow> ReplayReport \<Rightarrow> pyval" where
  "pv_count P report = PInt (int (count_decisions P report))"

definition json_line :: "pyval \<Rightarrow> pstr res" where
  "json_line v = bind_r (canonical_json v) (\<lambda>t. Inr (t @ [10]))"

definition bundle_summary :: "ReplayReport \<Rightarrow> pstr \<Rightarrow> pstr" where
  "bundle_summary report run_id =
     (let n = (\<lambda>P. nat_digits (count_decisions P report)) in
      u ''# KIL modeled replay '' @ run_id @ [10, 10]
      @ u ''Scenario: `'' @ rr_scenario_id report @ u ''`  '' @ [10]
      @ u ''Events: '' @ nat_digits (length (rr_decisions report)) @ u ''  '' @ [10]
      @ u ''Baseline permits: '' @ n pd_baseline_permit @ u ''  '' @ [10]
      @ u ''Signed-state-only denials: '' @ n (\<lambda>d. dr_outcome (pd_signed_state_only d) = DENY) @ u ''  '' @ [10]
      @ u ''Signed-plus-local-reduction denials: ''
      @ n (\<lambda>d. dr_outcome (pd_signed_plus_local_reduce d) = DENY) @ [10, 10]
      @ u ''These historical counterfactual decisions are modeled, not validated.'' @ [10, 10]
      @ u ''KTP citation: [canonical `CITATION.cff`]('' @ u KTP_CITATION_URL @ u '').'' @ [10])"

definition artifact_contents ::
    "ReplayReport \<Rightarrow> Scenario \<Rightarrow> pstr \<Rightarrow> pstr \<Rightarrow> pstr \<Rightarrow> (pstr \<times> pstr) list res" where
  "artifact_contents report scenario run_id implementation_version profile_id =
     bind_r (json_line (PDict
       [(PStr (u ''run_id''), PStr run_id), (PStr (u ''scenario_id''), PStr (rr_scenario_id report)),
        (PStr (u ''implementation_version''), PStr implementation_version),
        (PStr (u ''profile_id''), PStr profile_id),
        (PStr (u ''evidence_class''), pv_EvidenceClass (rr_evidence_class report)),
        (PStr (u ''ktp_citation''), PStr (u KTP_CITATION_URL))])) (\<lambda>manifest.
     bind_r (json_line (pv_Scenario scenario)) (\<lambda>scenario_text.
     bind_r (map_r (\<lambda>e. json_line (pv_LabeledValue pv_CompositeState (se_state_assumption e)))
       (sc_events scenario)) (\<lambda>states.
     bind_r (map_r (\<lambda>d. json_line (pv_PairedDecision d)) (rr_decisions report)) (\<lambda>decisions.
     bind_r (json_line (PDict
       [(PStr (u ''event_count''), PInt (int (length (rr_decisions report)))),
        (PStr (u ''baseline_permits''), pv_count pd_baseline_permit report),
        (PStr (u ''baseline_reachable_permits''),
          pv_count (\<lambda>d. pd_baseline_reachable d \<and> pd_baseline_permit d) report),
        (PStr (u ''signed_state_only_denies''),
          pv_count (\<lambda>d. dr_outcome (pd_signed_state_only d) = DENY) report),
        (PStr (u ''signed_plus_local_reduce_denies''),
          pv_count (\<lambda>d. dr_outcome (pd_signed_plus_local_reduce d) = DENY) report),
        (PStr (u ''signed_state_only_unreachable''),
          pv_count (\<lambda>d. \<not> pd_signed_state_only_reachable d) report),
        (PStr (u ''signed_plus_local_reduce_unreachable''),
          pv_count (\<lambda>d. \<not> pd_signed_plus_local_reduce_reachable d) report),
        (PStr (u ''evidence_class''), pv_EvidenceClass (rr_evidence_class report))])) (\<lambda>metrics.
     Inr [(u ''manifest.json'', manifest), (u ''scenario.json'', scenario_text),
       (u ''states.jsonl'', concat states), (u ''decisions.jsonl'', concat decisions),
       (u ''metrics.json'', metrics), (u ''summary.md'', bundle_summary report run_id)])))))"

definition io_call :: "(nat \<Rightarrow> pyexc option) \<Rightarrow> nat \<Rightarrow> unit res" where
  "io_call io k = (case io k of None \<Rightarrow> Inr () | Some e \<Rightarrow> Inl e)"

text \<open>The loops inside the \<^verbatim>\<open>try\<close>: what was written so far is returned with an exception.\<close>

fun write_artifacts ::
    "(nat \<Rightarrow> pyexc option) \<Rightarrow> nat \<Rightarrow> files \<Rightarrow> (pstr \<times> pstr) list \<Rightarrow> unit res \<times> files" where
  "write_artifacts io k written [] = (Inr (), written)"
| "write_artifacts io k written ((name, content) # rest) =
     (case bind_r (io_call io k) (\<lambda>_. utf8_encode content) of
        Inl e \<Rightarrow> (Inl e, written)
      | Inr bs \<Rightarrow> write_artifacts io (Suc k) (written @ [(name, bs)]) rest)"

definition checksum_line :: "pstr \<Rightarrow> bytes \<Rightarrow> pstr" where
  "checksum_line name bs = sha256_hex bs @ [32, 32] @ name"

fun read_checksums ::
    "(nat \<Rightarrow> pyexc option) \<Rightarrow> nat \<Rightarrow> files \<Rightarrow> pstr list \<Rightarrow> pstr list res" where
  "read_checksums io k written [] = Inr []"
| "read_checksums io k written (name # rest) =
     bind_r (io_call io k) (\<lambda>_.
     case map_of written name of
       None \<Rightarrow> Inl (OSError ''FileNotFoundError'' (Some 2))
     | Some bs \<Rightarrow> bind_r (read_checksums io (Suc k) written rest) (\<lambda>ls. Inr (checksum_line name bs # ls)))"

definition fill_bundle ::
    "(nat \<Rightarrow> pyexc option) \<Rightarrow> (pstr \<times> pstr) list \<Rightarrow> unit res \<times> files" where
  "fill_bundle io artifacts =
     (case write_artifacts io 2 [] artifacts of
        (Inl e, written) \<Rightarrow> (Inl e, written)
      | (Inr _, written) \<Rightarrow>
          (case read_checksums io (2 + length artifacts) written (sort (map fst artifacts)) of
             Inl e \<Rightarrow> (Inl e, written)
           | Inr checksums \<Rightarrow>
               write_artifacts io (2 + 2 * length artifacts) written
                 [(u ''SHA256SUMS'', join_with [10] checksums @ [10])]))"

definition publish ::
    "(nat \<Rightarrow> pyexc option) \<Rightarrow> pstr \<Rightarrow> pstr \<Rightarrow> (pstr \<times> pstr) list \<Rightarrow> dirs \<Rightarrow> pstr res \<times> dirs" where
  "publish io temporary run_id artifacts dirs =
     (let (filled, written) = fill_bundle io artifacts;
          renamed = bind_r filled (\<lambda>_. io_call io (3 + 2 * length artifacts))
      in case renamed of
        Inr _ \<Rightarrow> (Inr run_id, dirs(run_id \<mapsto> written))
      | Inl e \<Rightarrow>
          (case io_call io (4 + 2 * length artifacts) of
             Inr _ \<Rightarrow> (Inl e, dirs)
           | Inl e' \<Rightarrow> (Inl e', dirs(temporary \<mapsto> written))))"

definition bundle_identity :: "ReplayReport \<Rightarrow> Scenario \<Rightarrow> pstr \<Rightarrow> pstr \<Rightarrow> pyval" where
  "bundle_identity report scenario implementation_version profile_id = PDict
     [(PStr (u ''scenario_id''), PStr (rr_scenario_id report)),
      (PStr (u ''implementation_version''), PStr implementation_version),
      (PStr (u ''profile_id''), PStr profile_id), (PStr (u ''scenario''), pv_Scenario scenario),
      (PStr (u ''report''), pv_ReplayReport report)]"

definition temporary_name :: "pstr \<Rightarrow> pstr \<Rightarrow> pstr" where
  "temporary_name run_id suffix = u ''.'' @ run_id @ u ''-'' @ suffix"

definition write_run_bundle ::
    "(nat \<Rightarrow> pyexc option) \<Rightarrow> pstr \<Rightarrow> ReplayReport \<Rightarrow> Scenario \<Rightarrow> pyval \<Rightarrow> pyval \<Rightarrow> dirs \<Rightarrow>
     pstr res \<times> dirs" where
  "write_run_bundle io suffix report scenario implementation_version profile_id dirs =
     (case bind_r (validate_alignment report scenario) (\<lambda>_.
           bind_r (bundle_metadata ''implementation_version'' implementation_version) (\<lambda>version.
           bind_r (bundle_metadata ''profile_id'' profile_id) (\<lambda>profile.
           bind_r (canonical_digest (bundle_identity report scenario version profile)) (\<lambda>digest.
           let run_id = take 16 digest in
           bind_r (io_call io 0) (\<lambda>_.
           bind_r (ensure (dirs run_id = None) (OSError ''FileExistsError'' None)) (\<lambda>_.
           bind_r (artifact_contents report scenario run_id version profile) (\<lambda>artifacts.
           bind_r (io_call io 1) (\<lambda>_. Inr (run_id, artifacts))))))))) of
        Inl e \<Rightarrow> (Inl e, dirs)
      | Inr (run_id, artifacts) \<Rightarrow> publish io (temporary_name run_id suffix) run_id artifacts dirs)"

subsection \<open>What a bundle holds\<close>

lemma write_artifacts_Inr:
  "write_artifacts io k written artifacts = (Inr (), files) \<Longrightarrow>
     \<exists>encs. map_r (\<lambda>(name, content). bind_r (utf8_encode content) (\<lambda>bs. Inr (name, bs))) artifacts = Inr encs
       \<and> files = written @ encs"
proof (induction io k written artifacts rule: write_artifacts.induct)
  case (2 io k written name content rest)
  obtain bs where bs: "io_call io k = Inr ()" "utf8_encode content = Inr bs"
    "write_artifacts io (Suc k) (written @ [(name, bs)]) rest = (Inr (), files)"
    using "2.prems" by (auto simp: bind_r_def split: sum.splits)
  then show ?case using "2.IH" [of bs] by auto
qed simp

lemma map_r_names:
  "map_r (\<lambda>(name, content). bind_r (utf8_encode content) (\<lambda>bs. Inr (name, bs))) artifacts = Inr encs
     \<Longrightarrow> map fst encs = map fst artifacts"
  by (induction artifacts arbitrary: encs) auto

lemma read_checksums_Inr:
  "read_checksums io k written names = Inr ls \<Longrightarrow>
     list_all2 (\<lambda>name l. \<exists>bs. map_of written name = Some bs \<and> l = checksum_line name bs) names ls"
  by (induction names arbitrary: k ls) (auto split: option.splits)

lemma fill_bundle_Inr:
  assumes "fill_bundle io artifacts = (Inr (), files)"
  obtains encs checksums sumsfile where
    "map_r (\<lambda>(name, content). bind_r (utf8_encode content) (\<lambda>bs. Inr (name, bs))) artifacts = Inr encs"
    "list_all2 (\<lambda>name l. \<exists>bs. map_of encs name = Some bs \<and> l = checksum_line name bs)
       (sort (map fst artifacts)) checksums"
    "utf8_encode (join_with [10] checksums @ [10]) = Inr sumsfile"
    "files = encs @ [(u ''SHA256SUMS'', sumsfile)]"
proof -
  from assms obtain written where w: "write_artifacts io 2 [] artifacts = (Inr (), written)"
    by (auto simp: fill_bundle_def split: prod.splits sum.splits)
  with assms obtain checksums where c:
    "read_checksums io (2 + length artifacts) written (sort (map fst artifacts)) = Inr checksums"
    "write_artifacts io (2 + 2 * length artifacts) written
       [(u ''SHA256SUMS'', join_with [10] checksums @ [10])] = (Inr (), files)"
    by (auto simp: fill_bundle_def split: sum.splits)
  from write_artifacts_Inr [OF w] obtain encs where e:
    "map_r (\<lambda>(name, content). bind_r (utf8_encode content) (\<lambda>bs. Inr (name, bs))) artifacts = Inr encs"
    "written = encs" by auto
  from write_artifacts_Inr [OF c(2)] obtain sumsfile where
    "utf8_encode (join_with [10] checksums @ [10]) = Inr sumsfile" "files = written @ [(u ''SHA256SUMS'', sumsfile)]"
    by auto
  with that e read_checksums_Inr [OF c(1)] show thesis by blast
qed

text \<open>
  \<open>published artifacts files\<close>: \<open>files\<close> holds the UTF-8 bytes of each artifact and, last, one
  checksum line for each.
\<close>

definition published :: "(pstr \<times> pstr) list \<Rightarrow> files \<Rightarrow> bool" where
  "published artifacts files \<longleftrightarrow> (\<exists>encs checksums sumsfile.
     map_r (\<lambda>(name, content). bind_r (utf8_encode content) (\<lambda>bs. Inr (name, bs))) artifacts = Inr encs
     \<and> map fst encs = map fst artifacts
     \<and> list_all2 (\<lambda>name l. \<exists>bs. map_of encs name = Some bs \<and> l = checksum_line name bs)
         (sort (map fst artifacts)) checksums
     \<and> utf8_encode (join_with [10] checksums @ [10]) = Inr sumsfile
     \<and> files = encs @ [(u ''SHA256SUMS'', sumsfile)])"

lemma fill_bundle_published: "fill_bundle io artifacts = (Inr (), files) \<Longrightarrow> published artifacts files"
  by (elim fill_bundle_Inr) (unfold published_def, blast dest: map_r_names)

lemma bundle_metadata_Inr: "bundle_metadata name v = Inr s \<Longrightarrow> v = PStr s"
  by (auto simp: bundle_metadata_def require_identifier_def split: if_splits sum.splits pyval.splits)

text \<open>What the calls before the temporary directory determine.\<close>

definition bundle_plan ::
    "ReplayReport \<Rightarrow> Scenario \<Rightarrow> pyval \<Rightarrow> pyval \<Rightarrow> pstr \<Rightarrow> (pstr \<times> pstr) list \<Rightarrow> bool" where
  "bundle_plan report scenario version profile run_id artifacts \<longleftrightarrow>
     (\<exists>v p digest. version = PStr v \<and> profile = PStr p
       \<and> canonical_digest (bundle_identity report scenario v p) = Inr digest \<and> run_id = take 16 digest
       \<and> artifact_contents report scenario run_id v p = Inr artifacts)"

lemma write_run_bundle_cases:
  assumes "write_run_bundle io suffix report scenario version profile dirs = (res, dirs')"
  obtains (early) e where "res = Inl e" "dirs' = dirs"
  | (planned) run_id artifacts where "bundle_plan report scenario version profile run_id artifacts" "dirs run_id = None"
      "publish io (temporary_name run_id suffix) run_id artifacts dirs = (res, dirs')"
proof -
  let ?plan = "bind_r (validate_alignment report scenario) (\<lambda>_.
     bind_r (bundle_metadata ''implementation_version'' version) (\<lambda>v.
     bind_r (bundle_metadata ''profile_id'' profile) (\<lambda>p.
     bind_r (canonical_digest (bundle_identity report scenario v p)) (\<lambda>digest.
     let run_id = take 16 digest in
     bind_r (io_call io 0) (\<lambda>_.
     bind_r (ensure (dirs run_id = None) (OSError ''FileExistsError'' None)) (\<lambda>_.
     bind_r (artifact_contents report scenario run_id v p) (\<lambda>artifacts.
     bind_r (io_call io 1) (\<lambda>_. Inr (run_id, artifacts)))))))))"
  show thesis
  proof (cases ?plan)
    case (Inl e)
    with assms have "Inl e = res \<and> dirs = dirs'" unfolding write_run_bundle_def by simp
    then show thesis by (intro early [of e]) simp_all
  next
    case (Inr plan)
    obtain run_id artifacts where plan: "plan = (run_id, artifacts)" by (cases plan)
    from Inr plan have "bundle_plan report scenario version profile run_id artifacts \<and> dirs run_id = None"
      unfolding bundle_plan_def by (auto simp: bind_r_eq_Inr Let_def dest!: bundle_metadata_Inr)
    then show thesis using assms planned [of run_id artifacts] Inr plan unfolding write_run_bundle_def by simp
  qed
qed

lemma publish_cases:
  assumes "publish io temporary run_id artifacts dirs = (res, dirs')"
  obtains (whole) files where "fill_bundle io artifacts = (Inr (), files)" "res = Inr run_id" "dirs' = dirs(run_id \<mapsto> files)"
  | (clean) e where "res = Inl e" "dirs' = dirs"
  | (left) e files where "res = Inl e" "io (4 + 2 * length artifacts) = Some e" "dirs' = dirs(temporary \<mapsto> files)"
  using assms
  by (auto simp: publish_def Let_def io_call_def split: sum.splits prod.splits option.splits)

text \<open>
  Claim C28: a bundle is published whole or not at all. If publication succeeds, the run id is
  the first 16 characters of the identity's digest, no directory had that name, and the only
  change to the output root is a new directory of that name; it holds the UTF-8 text of every
  artifact of the run and, last, a checksum file with one line for each of them: the SHA-256
  of the very bytes written, two spaces and the name. If it raises, nothing is published under
  the run id and the output root is unchanged, unless removing the temporary directory failed:
  then its error is the one raised and that directory, under its own hidden name, is all that
  is left behind.
\<close>
theorem write_run_bundle_atomic:
  assumes "write_run_bundle io suffix report scenario version profile dirs = (res, dirs')"
  shows "case res of
     Inr run_id \<Rightarrow> dirs run_id = None \<and> (\<exists>v p digest artifacts files.
         version = PStr v \<and> profile = PStr p
         \<and> canonical_digest (bundle_identity report scenario v p) = Inr digest \<and> run_id = take 16 digest
         \<and> artifact_contents report scenario run_id v p = Inr artifacts
         \<and> published artifacts files \<and> dirs' = dirs(run_id \<mapsto> files))
   | Inl e \<Rightarrow> dirs' = dirs \<or> (\<exists>v p digest artifacts files.
         version = PStr v \<and> profile = PStr p
         \<and> canonical_digest (bundle_identity report scenario v p) = Inr digest
         \<and> artifact_contents report scenario (take 16 digest) v p = Inr artifacts
         \<and> dirs (take 16 digest) = None \<and> dirs' (take 16 digest) = None
         \<and> io (4 + 2 * length artifacts) = Some e
         \<and> dirs' = dirs(u ''.'' @ take 16 digest @ u ''-'' @ suffix \<mapsto> files))"
  using assms
proof (cases rule: write_run_bundle_cases)
  case (planned run_id artifacts)
  then obtain v p digest where plan: "version = PStr v" "profile = PStr p"
    "canonical_digest (bundle_identity report scenario v p) = Inr digest" "run_id = take 16 digest"
    "artifact_contents report scenario run_id v p = Inr artifacts" by (auto simp: bundle_plan_def)
  have other: "temporary_name run_id suffix \<noteq> run_id"
    by (rule notI, drule arg_cong [of _ _ length]) (simp add: temporary_name_def u_def)
  from planned(3) show ?thesis
  proof (cases rule: publish_cases)
    case (whole files)
    then show ?thesis using plan planned(2) fill_bundle_published [OF whole(1)] by auto
  next
    case (left e files)
    have "dirs' run_id = None" using left(3) planned(2) other by simp
    then show ?thesis
      unfolding left(1) sum.case
      using plan planned(2) left(2,3)
      by (intro disjI2 exI [of _ v] exI [of _ p] exI [of _ digest] exI [of _ artifacts] exI [of _ files])
        (simp add: temporary_name_def)
  qed simp
qed simp

subsection \<open>A bundle that is published\<close>

definition encodable :: "(pstr \<times> pstr) list \<Rightarrow> bool" where
  "encodable artifacts \<longleftrightarrow> list_all (\<lambda>(name, content). list_all is_scalar name \<and> list_all is_scalar content) artifacts"

lemma write_artifacts_ok:
  "encodable artifacts \<Longrightarrow> \<exists>files. write_artifacts (\<lambda>_. None) k written artifacts = (Inr (), written @ files)
     \<and> map fst files = map fst artifacts"
proof (induction artifacts arbitrary: k written)
  case (Cons a artifacts)
  obtain name content where a: "a = (name, content)" by (cases a)
  with Cons.prems obtain bs where bs: "utf8_encode content = Inr bs"
    by (auto simp: encodable_def utf8_encode_def)
  have "encodable artifacts" using Cons.prems by (simp add: encodable_def)
  from Cons.IH [OF this, of "Suc k" "written @ [(name, bs)]"] show ?case
    by (auto simp: a bs io_call_def)
qed simp

lemma read_checksums_ok:
  "set names \<subseteq> fst ` set written \<Longrightarrow> list_all (list_all is_scalar) names \<Longrightarrow>
     \<exists>ls. read_checksums (\<lambda>_. None) k written names = Inr ls \<and> list_all (list_all is_scalar) ls"
proof (induction names arbitrary: k)
  case (Cons name names)
  then obtain bs where bs: "map_of written name = Some bs" by (cases "map_of written name") (auto simp: map_of_eq_None_iff)
  obtain ls where "read_checksums (\<lambda>_. None) (Suc k) written names = Inr ls" "list_all (list_all is_scalar) ls"
    using Cons.IH [of "Suc k"] Cons.prems by auto
  moreover have "list_all is_scalar (checksum_line name bs)"
    using hex64_ascii [OF sha256_hex64 [of bs]] Cons.prems
    by (auto simp: checksum_line_def list_all_iff is_scalar_def is_surrogate_def)
  ultimately show ?case by (simp add: bs io_call_def)
qed simp

lemma join_lines_scalar: "list_all (list_all is_scalar) ls \<Longrightarrow> list_all is_scalar (join_with [10] ls)"
  by (induction "[10 :: nat]" ls rule: join_with.induct) (auto simp: is_scalar_def is_surrogate_def)

lemma fill_bundle_ok:
  assumes "encodable artifacts"
  shows "\<exists>files. fill_bundle (\<lambda>_. None) artifacts = (Inr (), files)"
proof -
  obtain files where files: "write_artifacts (\<lambda>_. None) 2 [] artifacts = (Inr (), files)" "map fst files = map fst artifacts"
    using write_artifacts_ok [OF assms, of 2 "[]"] by auto
  have "set (map fst files) = set (map fst artifacts)" using files(2) by simp
  then have "set (sort (map fst artifacts)) \<subseteq> fst ` set files" by simp
  moreover have "list_all (list_all is_scalar) (sort (map fst artifacts))"
    using assms by (auto simp: encodable_def list_all_iff)
  ultimately obtain ls where ls: "read_checksums (\<lambda>_. None) (2 + length artifacts) files (sort (map fst artifacts)) = Inr ls"
    "list_all (list_all is_scalar) ls" using read_checksums_ok by blast
  have "encodable [(u ''SHA256SUMS'', join_with [10] ls @ [10])]"
    using join_lines_scalar [OF ls(2)] by (simp add: encodable_def is_scalar_def is_surrogate_def u_def)
  from write_artifacts_ok [OF this, of "2 + 2 * length artifacts" files] show ?thesis
    using files(1) ls(1) by (auto simp: fill_bundle_def)
qed

lemma publish_ok: "encodable artifacts \<Longrightarrow> fst (publish (\<lambda>_. None) temporary run_id artifacts dirs) = Inr run_id"
  using fill_bundle_ok [of artifacts] by (auto simp: publish_def io_call_def)

text \<open>The replay of a scenario without events, and its manifest for a run id not computed here.\<close>

definition sample_report :: ReplayReport where
  "sample_report = \<lparr>rr_scenario_id = u ''a'', rr_decisions = [], rr_evidence_class = MODELED\<rparr>"

definition sample_scenario :: Scenario where
  "sample_scenario = \<lparr>sc_schema_version = u ''1'', sc_scenario_id = u ''a'', sc_primary_source = u ''t'', sc_events = []\<rparr>"

lemma sample_manifest:
  assumes "plain r" "length r \<le> 16"
  shows "is_ok (canonical_json (PDict
       [(PStr (u ''run_id''), PStr r), (PStr (u ''scenario_id''), PStr (u ''a'')),
        (PStr (u ''implementation_version''), PStr (u ''v'')), (PStr (u ''profile_id''), PStr (u ''p'')),
        (PStr (u ''evidence_class''), pv_EvidenceClass MODELED), (PStr (u ''ktp_citation''), PStr (u KTP_CITATION_URL))]))"
    (is "is_ok (canonical_json (PDict ?kvs))")
proof -
  let ?sorted = "\<lambda>c. [(PStr (u ''evidence_class''), c), (PStr (u ''implementation_version''), PStr (u ''v'')),
     (PStr (u ''ktp_citation''), PStr (u KTP_CITATION_URL)), (PStr (u ''profile_id''), PStr (u ''p'')),
     (PStr (u ''run_id''), PStr r), (PStr (u ''scenario_id''), PStr (u ''a''))]"
  let ?c = "PStr (u (EvidenceClass_value MODELED))"
  have sorted: "sort_items ?kvs = ?sorted (pv_EvidenceClass MODELED)"
    by (simp add: sort_items_def u_def)
  have flat: "flat_fields (?sorted ?c)"
    using assms by (simp add: flat_fields_def) (simp add: plain_def u_def KTP_CITATION_URL_def DECIMAL_TAG_def)
  have strings: "plain (u ''v'')" "plain (u ''p'')" "plain (u ''a'')" "plain (u KTP_CITATION_URL)" "plain (u (EvidenceClass_value MODELED))"
    "length (u KTP_CITATION_URL) \<le> 1000" "length (u (EvidenceClass_value MODELED)) \<le> 1000"
    by code_simp+
  have keys: "is_ok (map_r (\<lambda>kv. validate_string (key_text (fst kv))) ?kvs)"
    by (rule validate_flat_keys) (simp, code_simp)
  then obtain ws where ws: "map_r (\<lambda>kv. validate_string (key_text (fst kv))) ?kvs = Inr ws" by (auto simp: is_ok_iff)
  have "\<exists>n. normalize_value (PDict ?kvs) 0 0 = Inr (PDict (?sorted ?c), n)"
    unfolding normalize_value.simps [of "PDict ?kvs"] pyval.case ws sorted
    using strings assms
    by (simp add: on_fst_def normalize_plain normalize_enum pv_EvidenceClass_def MAX_DEPTH_def MAX_ITEMS_def)
      (simp add: DECIMAL_TAG_def)
  then obtain n where "normalize_value (PDict ?kvs) 0 0 = Inr (PDict (?sorted ?c), n)" ..
  from flat_normal_json [OF this flat] show ?thesis by simp
qed

lemma json_line_ok: "is_ok (canonical_json v) \<Longrightarrow> \<exists>t. json_line v = Inr t \<and> list_all is_scalar t"
  using canonical_json_scalars [of v] by (auto simp: is_ok_iff json_line_def is_scalar_def is_surrogate_def)

lemma sample_artifacts:
  assumes "plain r" "length r \<le> 16"
  shows "\<exists>artifacts. artifact_contents sample_report sample_scenario r (u ''v'') (u ''p'') = Inr artifacts
    \<and> length artifacts = 6 \<and> encodable artifacts"
proof -
  have "is_ok (canonical_json (pv_Scenario sample_scenario))" by code_simp
  then obtain s where s: "json_line (pv_Scenario sample_scenario) = Inr s" "list_all is_scalar s"
    using json_line_ok by blast
  have "is_ok (canonical_json (PDict
       [(PStr (u ''event_count''), PInt (int (length (rr_decisions sample_report)))),
        (PStr (u ''baseline_permits''), pv_count pd_baseline_permit sample_report),
        (PStr (u ''baseline_reachable_permits''),
          pv_count (\<lambda>d. pd_baseline_reachable d \<and> pd_baseline_permit d) sample_report),
        (PStr (u ''signed_state_only_denies''),
          pv_count (\<lambda>d. dr_outcome (pd_signed_state_only d) = DENY) sample_report),
        (PStr (u ''signed_plus_local_reduce_denies''),
          pv_count (\<lambda>d. dr_outcome (pd_signed_plus_local_reduce d) = DENY) sample_report),
        (PStr (u ''signed_state_only_unreachable''),
          pv_count (\<lambda>d. \<not> pd_signed_state_only_reachable d) sample_report),
        (PStr (u ''signed_plus_local_reduce_unreachable''),
          pv_count (\<lambda>d. \<not> pd_signed_plus_local_reduce_reachable d) sample_report),
        (PStr (u ''evidence_class''), pv_EvidenceClass (rr_evidence_class sample_report))]))" (is "is_ok (canonical_json ?metrics)")
    by code_simp
  then obtain m where m: "json_line ?metrics = Inr m" "list_all is_scalar m" using json_line_ok by blast
  obtain f where f: "json_line (PDict
       [(PStr (u ''run_id''), PStr r), (PStr (u ''scenario_id''), PStr (u ''a'')),
        (PStr (u ''implementation_version''), PStr (u ''v'')), (PStr (u ''profile_id''), PStr (u ''p'')),
        (PStr (u ''evidence_class''), pv_EvidenceClass MODELED), (PStr (u ''ktp_citation''), PStr (u KTP_CITATION_URL))]) = Inr f"
    "list_all is_scalar f" using json_line_ok [OF sample_manifest [OF assms]] by blast
  have run: "list_all is_scalar r" using assms(1) by (auto simp: plain_def list_all_iff is_scalar_def is_surrogate_def)
  have rest: "bundle_summary sample_report r = u ''# KIL modeled replay '' @ r @ drop 21 (bundle_summary sample_report [])"
    by (simp add: bundle_summary_def Let_def u_def)
  have "list_all is_scalar (u ''# KIL modeled replay '') \<and> list_all is_scalar (drop 21 (bundle_summary sample_report []))"
    by code_simp
  then have summary: "list_all is_scalar (bundle_summary sample_report r)" using run by (simp add: rest)
  have names: "list_all (list_all is_scalar) (map u [''manifest.json'', ''scenario.json'', ''states.jsonl'', ''decisions.jsonl'', ''metrics.json'', ''summary.md''])"
    by code_simp
  show ?thesis
    using f s m summary names
    by (simp add: artifact_contents_def encodable_def) (simp add: sample_report_def sample_scenario_def)
qed

theorem write_run_bundle_atomic_witness:
  "\<exists>run_id dirs'. write_run_bundle (\<lambda>_. None) (u ''x'') sample_report sample_scenario (PStr (u ''v'')) (PStr (u ''p'')) (\<lambda>_. None)
       = (Inr run_id, dirs')
     \<and> (\<exists>artifacts files. artifact_contents sample_report sample_scenario run_id (u ''v'') (u ''p'') = Inr artifacts
          \<and> length artifacts = 6 \<and> published artifacts files \<and> dirs' = [run_id \<mapsto> files])"
proof -
  have "is_ok (canonical_json (bundle_identity sample_report sample_scenario (u ''v'') (u ''p'')))" by code_simp
  then obtain digest where digest: "canonical_digest (bundle_identity sample_report sample_scenario (u ''v'') (u ''p'')) = Inr digest"
    using canonical_digest_ok by (auto simp: is_ok_iff)
  let ?r = "take 16 digest"
  have "plain ?r"
    using canonical_digest_hex64 [OF digest] by (auto simp: hex64_def plain_def list_all_iff is_hex_def is_digit_def dest!: in_set_takeD)
  then obtain artifacts where artifacts: "artifact_contents sample_report sample_scenario ?r (u ''v'') (u ''p'') = Inr artifacts"
    "length artifacts = 6" "encodable artifacts" using sample_artifacts [of ?r] by auto
  have metadata: "bundle_metadata ''implementation_version'' (PStr (u ''v'')) = Inr (u ''v'')"
    "bundle_metadata ''profile_id'' (PStr (u ''p'')) = Inr (u ''p'')" "validate_alignment sample_report sample_scenario = Inr ()"
    by code_simp+
  obtain dirs' where run: "write_run_bundle (\<lambda>_. None) (u ''x'') sample_report sample_scenario (PStr (u ''v'')) (PStr (u ''p'')) (\<lambda>_. None)
       = (Inr ?r, dirs')"
    using publish_ok [OF artifacts(3), of "temporary_name ?r (u ''x'')" ?r "\<lambda>_. None"]
    by (cases "publish (\<lambda>_. None) (temporary_name ?r (u ''x'')) ?r artifacts (\<lambda>_. None)")
      (simp add: write_run_bundle_def metadata digest artifacts(1) io_call_def)
  from write_run_bundle_atomic [OF run] artifacts(1,2) run show ?thesis by auto
qed

end
