(* ===== verification/KilHttp.thy ===== *)
theory KilHttp
  imports KilLiveAuthz
begin

text \<open>
  The bounded HTTP facts of \<^verbatim>\<open>src/kil/ext_authz_http.py\<close>, which \<^verbatim>\<open>src/kil/target_http.py\<close>
  imports or repeats: requests, responses, header groups, what a handler writes to its
  client, the check of a server's address, and the closed JSON object of a configuration.
\<close>

definition MAX_HEADER_BYTES :: nat where "MAX_HEADER_BYTES = 16 * 1024"
definition MAX_HEADER_COUNT :: nat where "MAX_HEADER_COUNT = 64"
definition MAX_PATH_BYTES :: nat where "MAX_PATH_BYTES = 2048"
definition MAX_BODY_BYTES :: nat where "MAX_BODY_BYTES = 1024 * 1024"

text \<open>\<^verbatim>\<open>_HEADER_NAME\<close>, \<^verbatim>\<open>_METHOD\<close> and \<^verbatim>\<open>_REQUEST_ID\<close> (the target's \<^verbatim>\<open>_IDENTIFIER\<close>), matched in full.\<close>

definition header_name_char :: "nat \<Rightarrow> bool" where
  "header_name_char c \<longleftrightarrow> is_alnum c \<or> c = 39 \<or> one_of ''!#$%&*+.^_`|~-'' c"

definition header_name :: "pstr \<Rightarrow> bool" where
  "header_name s \<longleftrightarrow> s \<noteq> [] \<and> list_all header_name_char s"

definition method_text :: "pstr \<Rightarrow> bool" where
  "method_text s \<longleftrightarrow> s \<noteq> [] \<and> length s \<le> 16 \<and> list_all is_upper s"

definition id_char :: "nat \<Rightarrow> bool" where
  "id_char c \<longleftrightarrow> is_alnum c \<or> one_of ''._:-'' c"

definition request_id_text :: "pstr \<Rightarrow> bool" where
  "request_id_text s \<longleftrightarrow> s \<noteq> [] \<and> length s \<le> 128 \<and> list_all id_char s"

text \<open>Carriage return, line feed and NUL.\<close>

definition has_control :: "pstr \<Rightarrow> bool" where
  "has_control s \<longleftrightarrow> 13 \<in> set s \<or> 10 \<in> set s \<or> 0 \<in> set s"

subsection \<open>Requests\<close>

record HttpRequest =
  hq_method :: pstr
  hq_path :: pstr
  hq_headers :: "(pstr \<times> pstr) list"
  hq_body :: bytes

definition path_size :: "pstr \<Rightarrow> nat res" where
  "path_size p = bind_r (utf8_encode p) (\<lambda>bs. Inr (length bs))"

definition header_size :: "nat \<Rightarrow> pstr \<times> pstr \<Rightarrow> nat res" where
  "header_size acc h =
     (if \<not> header_name (fst h) \<or> has_control (snd h)
      then Inl (ValueError ''header entries must be valid string pairs'')
      else case utf8_encode (snd h) of
        Inl _ \<Rightarrow> Inl (ValueError ''header encoding is invalid'')
      | Inr bs \<Rightarrow> Inr (acc + length (fst h) + (length bs + 4)))"

definition make_HttpRequest ::
    "pstr \<Rightarrow> pstr \<Rightarrow> (pstr \<times> pstr) list \<Rightarrow> bytes \<Rightarrow> HttpRequest res" where
  "make_HttpRequest mth path headers body =
     bind_r (ensure (method_text mth) (ValueError ''method must be an uppercase HTTP token'')) (\<lambda>_.
     bind_r (ensure (starts_with [47] path \<and> \<not> has_control path)
       (ValueError ''path is invalid or exceeds the path limit'')) (\<lambda>_.
     bind_r (path_size path) (\<lambda>n.
     bind_r (ensure (n \<le> MAX_PATH_BYTES) (ValueError ''path is invalid or exceeds the path limit'')) (\<lambda>_.
     bind_r (ensure (length headers \<le> MAX_HEADER_COUNT) (ValueError ''headers must be a bounded tuple'')) (\<lambda>_.
     bind_r (fold_r header_size 0 headers) (\<lambda>header_bytes.
     bind_r (ensure (header_bytes \<le> MAX_HEADER_BYTES) (ValueError ''request exceeds the total header limit'')) (\<lambda>_.
     bind_r (ensure (length body \<le> MAX_BODY_BYTES) (ValueError ''body must be bounded bytes'')) (\<lambda>_.
     Inr \<lparr>hq_method = mth, hq_path = path, hq_headers = headers, hq_body = body\<rparr>))))))))"

definition wf_HttpRequest :: "HttpRequest \<Rightarrow> bool" where
  "wf_HttpRequest q \<longleftrightarrow> make_HttpRequest (hq_method q) (hq_path q) (hq_headers q) (hq_body q) = Inr q"

lemma make_HttpRequest_wf:
  "make_HttpRequest m p hs b = Inr q \<Longrightarrow>
     wf_HttpRequest q \<and> hq_method q = m \<and> hq_path q = p \<and> hq_headers q = hs \<and> hq_body q = b"
  unfolding wf_HttpRequest_def by (auto simp: make_HttpRequest_def)

lemma fold_header_size_names:
  "fold_r header_size n hs = Inr m \<Longrightarrow> (k, v) \<in> set hs \<Longrightarrow> header_name k \<and> \<not> has_control v \<and> list_all is_scalar v"
  by (induction hs arbitrary: n) (auto simp: header_size_def utf8_encode_def split: if_splits sum.splits)

lemma wf_HttpRequest_header:
  "wf_HttpRequest q \<Longrightarrow> (k, v) \<in> set (hq_headers q) \<Longrightarrow> header_name k \<and> \<not> has_control v \<and> list_all is_scalar v"
  unfolding wf_HttpRequest_def make_HttpRequest_def by (auto dest: fold_header_size_names)

lemma wf_HttpRequest_fields:
  assumes "wf_HttpRequest q"
  shows "method_text (hq_method q)" "list_all is_scalar (hq_path q)" "length (hq_headers q) \<le> MAX_HEADER_COUNT"
  using assms by (auto simp: wf_HttpRequest_def make_HttpRequest_def path_size_def utf8_encode_def split: if_splits)

lemma make_HttpRequest_raises [raises]: "only_raises is_value_error (make_HttpRequest m p hs b)"
proof -
  have "only_raises is_value_error (fold_r header_size n hs)" for n
    by (induction hs arbitrary: n) (auto intro!: raises simp: header_size_def split: sum.splits)
  moreover have "only_raises is_value_error (path_size p)"
    by (auto simp: path_size_def utf8_encode_def)
  ultimately show ?thesis
    unfolding make_HttpRequest_def by (intro only_raises_bind) simp_all
qed

subsection \<open>Responses\<close>

record HttpResponse =
  hr_status :: int
  hr_headers :: "(pstr \<times> pstr) list"
  hr_body :: bytes

definition copy_header :: "(pstr \<times> pstr) list \<Rightarrow> pstr \<times> pstr \<Rightarrow> (pstr \<times> pstr) list res" where
  "copy_header copied h =
     (if \<not> header_name (fst h) \<or> has_control (snd h)
      then Inl (ValueError ''response headers must be valid string pairs'')
      else if lower (fst h) \<in> set (map fst copied) then Inl (ValueError ''response headers must be unique'')
      else Inr (copied @ [(lower (fst h), snd h)]))"

definition make_HttpResponse :: "int \<Rightarrow> (pstr \<times> pstr) list \<Rightarrow> bytes \<Rightarrow> HttpResponse res" where
  "make_HttpResponse status headers body =
     bind_r (ensure (100 \<le> status \<and> status \<le> 599) (ValueError ''status must be an HTTP status integer'')) (\<lambda>_.
     bind_r (fold_r copy_header [] headers) (\<lambda>copied.
     Inr \<lparr>hr_status = status, hr_headers = copied, hr_body = body\<rparr>))"

definition text_bytes :: "string \<Rightarrow> bytes" where
  "text_bytes s = ascii_bytes (u s)"

definition unavailable :: "HttpResponse" where
  "unavailable = \<lparr>hr_status = 503, hr_headers = [], hr_body = text_bytes ''unavailable'' @ [10]\<rparr>"

lemma make_HttpResponse_plain [simp]:
  "100 \<le> st \<Longrightarrow> st \<le> 599 \<Longrightarrow> make_HttpResponse st [] b = Inr \<lparr>hr_status = st, hr_headers = [], hr_body = b\<rparr>"
  by (simp add: make_HttpResponse_def)

lemma hex64_no_control: "hex64 s \<Longrightarrow> \<not> has_control s"
  by (auto simp: hex64_def has_control_def list_all_iff char_classes)

lemma digest_header_ok: "header_name (u ''x-kil-decision-digest'') \<and> lower (u ''x-kil-decision-digest'') = u ''x-kil-decision-digest''"
  by code_simp

lemma make_HttpResponse_digest [simp]:
  "100 \<le> st \<Longrightarrow> st \<le> 599 \<Longrightarrow> hex64 d \<Longrightarrow>
     make_HttpResponse st [(u ''x-kil-decision-digest'', d)] b
       = Inr \<lparr>hr_status = st, hr_headers = [(u ''x-kil-decision-digest'', d)], hr_body = b\<rparr>"
  using digest_header_ok by (simp add: make_HttpResponse_def copy_header_def hex64_no_control)

subsection \<open>Header groups\<close>

type_synonym header_groups = "(pstr \<times> pstr list) list"

text \<open>\<^verbatim>\<open>grouped.setdefault(name.lower(), []).append(value)\<close>.\<close>

fun group_add :: "header_groups \<Rightarrow> pstr \<Rightarrow> pstr \<Rightarrow> header_groups" where
  "group_add [] k v = [(k, [v])]"
| "group_add ((k', vs) # g) k v = (if k' = k then (k', vs @ [v]) # g else (k', vs) # group_add g k v)"

definition group_headers :: "(pstr \<times> pstr) list \<Rightarrow> header_groups" where
  "group_headers hs = foldl (\<lambda>g (k, v). group_add g (lower k) v) [] hs"

definition group_get :: "header_groups \<Rightarrow> pstr \<Rightarrow> pstr list" where
  "group_get g k = (case map_of g k of None \<Rightarrow> [] | Some vs \<Rightarrow> vs)"

definition in_group :: "header_groups \<Rightarrow> pstr \<Rightarrow> bool" where
  "in_group g k \<longleftrightarrow> k \<in> set (map fst g)"

text \<open>A body is announced: more than one length, or one that is not zero.\<close>

definition announces_body :: "header_groups \<Rightarrow> bool" where
  "announces_body g = (case group_get g (u ''content-length'') of
     [] \<Rightarrow> False | [v] \<Rightarrow> strip v \<noteq> u ''0'' | _ \<Rightarrow> True)"

lemma group_get_add: "group_get (group_add g k v) n = (if n = k then group_get g n @ [v] else group_get g n)"
  by (induction g k v rule: group_add.induct) (auto simp: group_get_def split: option.splits)

lemma group_add_keys: "fst ` set (group_add g k v) = insert k (fst ` set g)"
  by (induction g k v rule: group_add.induct) auto

lemma group_add_distinct: "distinct (map fst g) \<Longrightarrow> distinct (map fst (group_add g k v))"
  by (induction g k v rule: group_add.induct) (auto simp: group_add_keys)

lemma group_foldl:
  "group_get (foldl (\<lambda>g (k, v). group_add g (lower k) v) g hs) n
     = group_get g n @ map snd (filter (\<lambda>(k, _). lower k = n) hs)"
  "fst ` set (foldl (\<lambda>g (k, v). group_add g (lower k) v) g hs) = fst ` set g \<union> (lower \<circ> fst) ` set hs"
  "distinct (map fst g) \<Longrightarrow> distinct (map fst (foldl (\<lambda>g (k, v). group_add g (lower k) v) g hs))"
proof (induction hs arbitrary: g)
  case (Cons h hs)
  obtain k v where h: "h = (k, v)" by (cases h)
  case 1
  show ?case by (simp add: h Cons(1) group_get_add)
  case 2
  show ?case by (simp add: h Cons(2) group_add_keys)
  case 3
  then show ?case by (simp add: h Cons(3) group_add_distinct)
qed simp_all

lemma group_get_headers: "group_get (group_headers hs) n = map snd (filter (\<lambda>(k, _). lower k = n) hs)"
  by (simp add: group_headers_def group_foldl) (simp add: group_get_def)

lemma in_group_headers: "in_group (group_headers hs) n \<longleftrightarrow> (\<exists>(k, _) \<in> set hs. lower k = n)"
  by (force simp: in_group_def group_headers_def group_foldl image_iff)

lemma group_headers_distinct: "distinct (map fst (group_headers hs))"
  by (simp add: group_headers_def group_foldl)

subsection \<open>The connection\<close>

text \<open>What \<^verbatim>\<open>_send\<close> writes: the status, the headers in order and the bytes of the body.\<close>

record SentResponse =
  sn_status :: int
  sn_headers :: "(pstr \<times> pstr) list"
  sn_body :: bytes

definition send_response :: "pstr \<Rightarrow> HttpResponse \<Rightarrow> SentResponse" where
  "send_response command r = \<lparr>sn_status = hr_status r,
     sn_headers = hr_headers r @ [(u ''content-length'', nat_digits (length (hr_body r))),
       (u ''connection'', u ''close'')],
     sn_body = (if command \<noteq> u ''HEAD'' \<and> hr_body r \<noteq> [] then hr_body r else [])\<rparr>"

definition HANDLED_METHODS :: "string list" where
  "HANDLED_METHODS = [''GET'', ''POST'', ''PUT'', ''PATCH'', ''DELETE'', ''HEAD'', ''OPTIONS'', ''CONNECT'', ''TRACE'']"

record BoundServer =
  bs_host :: string
  bs_port :: int

definition make_server :: "string \<Rightarrow> int \<Rightarrow> BoundServer res" where
  "make_server host port =
     (if host \<notin> {''0.0.0.0'', ''127.0.0.1''}
      then Inl (ValueError ''server host must be an approved container or test bind'')
      else if \<not> (0 \<le> port \<and> port \<le> 65535) then Inl (ValueError ''server port is invalid'')
      else Inr \<lparr>bs_host = host, bs_port = port\<rparr>)"

text \<open>\<^verbatim>\<open>LiveTrack(value)\<close>.\<close>

definition track_of_value :: "pstr \<Rightarrow> LiveTrack option" where
  "track_of_value s = find (\<lambda>t. u (LiveTrack_value t) = s)
     [CREDENTIAL_POLICY_BASELINE, TRACK_SIGNED_STATE_ONLY, TRACK_SIGNED_PLUS_LOCAL_REDUCE]"

subsection \<open>Configuration files\<close>

text \<open>What the loader sees of a configuration file: the outcome of its checks and its content.\<close>

record ConfigFile =
  cf_regular :: bool
  cf_mode :: nat
  cf_size :: nat
  cf_content :: "bytes res"

text \<open>\<^verbatim>\<open>mode & 0o222\<close>: some class of user may write.\<close>

definition writable_mode :: "nat \<Rightarrow> bool" where
  "writable_mode mode \<longleftrightarrow> bit mode 1 \<or> bit mode 4 \<or> bit mode 7"

text \<open>The text of an exception, and the guard that rewraps a \<^verbatim>\<open>ValueError\<close>.\<close>

fun exc_text :: "pyexc \<Rightarrow> string" where
  "exc_text (ValueError s) = s"
| "exc_text (ConfigError s) = s"
| "exc_text (TargetConfigError s) = s"
| "exc_text _ = []"

definition rewrap :: "(string \<Rightarrow> pyexc) \<Rightarrow> 'a res \<Rightarrow> 'a res" where
  "rewrap err m = try_r m (\<lambda>e. Inl (if is_value_error e then err (exc_text e) else e))"

lemma rewrap_Inr [simp]: "rewrap err (Inr x) = Inr x"
  by (simp add: rewrap_def)

lemma rewrap_eq_Inr [simp]: "rewrap err m = Inr x \<longleftrightarrow> m = Inr x"
  by (simp add: rewrap_def try_r_eq_Inr)

lemma rewrap_raises:
  "only_raises is_value_error m \<Longrightarrow> (\<And>s. P (err s)) \<Longrightarrow> only_raises P (rewrap err m)"
  by (cases m) (simp_all add: rewrap_def)

text \<open>
  Reading a configuration: the file checks, the size limit, and the JSON value of its text
  under the hook that refuses duplicate fields with \<open>err\<close>.
\<close>

definition load_config_value ::
    "(string \<Rightarrow> pyexc) \<Rightarrow> nat \<Rightarrow> nat \<Rightarrow> ConfigFile \<Rightarrow> pyval res" where
  "load_config_value err max_bytes limit file =
     (if \<not> cf_regular file then Inl (err ''config path must be a regular file'')
      else if writable_mode (cf_mode file) then Inl (err ''config path must be read-only'')
      else if cf_size file = 0 \<or> cf_size file > max_bytes
      then Inl (err ''config file exceeds the configured size limit'')
      else try_r (bind_r (cf_content file) (\<lambda>bs. bind_r (utf8_decode bs) (\<lambda>text.
             json_loads (closed_hook (err ''duplicate config field'')) limit (universal_newlines text))))
        (\<lambda>e. if is_os_error e \<or> e = UnicodeError \<or> e = JSONDecodeError
             then Inl (err ''config file is not valid UTF-8 JSON'') else Inl e))"

end
