(* ===== verification/KilAppendLog.thy ===== *)
theory KilAppendLog
  imports KilCanonical
begin

text \<open>
  The append of one canonical record to a JSONL file, which \<^verbatim>\<open>src/kil/ext_authz_http.py\<close> and
  \<^verbatim>\<open>src/kil/target_http.py\<close> both write as: open, write until all bytes are out, fsync,
  close. A file is its content, or None before it exists. The operating system is an
  environment: the outcome of the open, of the \<open>k\<close>-th write (the number of bytes taken), of
  the fsync and of the close. The locale \<open>append_log\<close> is the contract of such a log.
\<close>

record AppendEnv =
  ae_open :: "pyexc option"
  ae_write :: "nat \<Rightarrow> int res"
  ae_fsync :: "pyexc option"
  ae_close :: "pyexc option"

type_synonym log_file = "bytes option"

fun log_content :: "log_file \<Rightarrow> bytes" where
  "log_content None = []"
| "log_content (Some c) = c"

text \<open>The loop over \<^verbatim>\<open>os.write\<close>: a write that takes nothing is an error.\<close>

function write_loop ::
    "string \<Rightarrow> (nat \<Rightarrow> int res) \<Rightarrow> nat \<Rightarrow> bytes \<Rightarrow> nat \<Rightarrow> bytes \<Rightarrow> unit res \<times> bytes" where
  "write_loop msg w k payload offset content =
     (if offset < length payload then
        (case w k of
           Inl e \<Rightarrow> (Inl e, content)
         | Inr n \<Rightarrow>
             if n \<le> 0 then (Inl (OSError msg None), content)
             else write_loop msg w (Suc k) payload (offset + nat n)
                    (content @ take (nat n) (drop offset payload)))
      else (Inr (), content))"
  by pat_completeness auto
termination
  by (relation "measure (\<lambda>(msg, w, k, payload, offset, content). length payload - offset)") auto

declare write_loop.simps [simp del]

definition append_payload :: "string \<Rightarrow> AppendEnv \<Rightarrow> bytes \<Rightarrow> log_file \<Rightarrow> unit res \<times> log_file" where
  "append_payload msg env payload file =
     (case ae_open env of
        Some e \<Rightarrow> (Inl e, file)
      | None \<Rightarrow>
          (case write_loop msg (ae_write env) 0 payload 0 (log_content file) of (r, content) \<Rightarrow>
            let synced = bind_r r (\<lambda>_. case ae_fsync env of None \<Rightarrow> Inr () | Some e \<Rightarrow> Inl e)
            in (case ae_close env of None \<Rightarrow> synced | Some e \<Rightarrow> Inl e, Some content)))"

text \<open>\<^verbatim>\<open>(canonical_json(record) + "\n").encode("utf-8")\<close>.\<close>

definition record_line :: "pyval \<Rightarrow> bytes res" where
  "record_line v = bind_r (canonical_json v) (\<lambda>t. utf8_encode (t @ [10]))"

definition append_value :: "string \<Rightarrow> AppendEnv \<Rightarrow> pyval \<Rightarrow> log_file \<Rightarrow> unit res \<times> log_file" where
  "append_value msg env v file =
     (case record_line v of Inl e \<Rightarrow> (Inl e, file) | Inr payload \<Rightarrow> append_payload msg env payload file)"

subsection \<open>The loop\<close>

lemma write_loop_Inr:
  "write_loop msg w k payload offset content = (Inr (), c) \<Longrightarrow> c = content @ drop offset payload"
proof (induction msg w k payload offset content rule: write_loop.induct)
  case (1 msg w k payload offset content)
  show ?case
  proof (cases "offset < length payload")
    case True
    with "1.prems" obtain n where n: "w k = Inr n" "0 < n"
      "write_loop msg w (Suc k) payload (offset + nat n) (content @ take (nat n) (drop offset payload)) = (Inr (), c)"
      by (subst (asm) write_loop.simps) (auto split: sum.splits if_splits)
    have "c = (content @ take (nat n) (drop offset payload)) @ drop (offset + nat n) payload"
      by (rule "1.IH" [OF True n(1)]) (use n in auto)
    also have "\<dots> = content @ drop offset payload"
      using append_take_drop_id [of "nat n" "drop offset payload"] by (simp add: add.commute)
    finally show ?thesis .
  next
    case False
    then show ?thesis using "1.prems" by (subst (asm) write_loop.simps) simp
  qed
qed

lemma write_loop_prefix:
  "\<exists>m. snd (write_loop msg w k payload offset content) = content @ take m (drop offset payload)"
proof (induction msg w k payload offset content rule: write_loop.induct)
  case (1 msg w k payload offset content)
  have stop: "\<exists>m. content = content @ take m (drop offset payload)" by (rule exI [of _ 0]) simp
  show ?case
  proof (cases "offset < length payload \<and> (\<exists>n > 0. w k = Inr n)")
    case True
    then obtain n where n: "offset < length payload" "w k = Inr n" "0 < n" by auto
    obtain m where m: "snd (write_loop msg w (Suc k) payload (offset + nat n) (content @ take (nat n) (drop offset payload)))
        = content @ take (nat n) (drop offset payload) @ take m (drop (offset + nat n) payload)"
      using "1.IH" [OF n(1,2)] n(3) by auto
    have "take (nat n) (drop offset payload) @ take m (drop (offset + nat n) payload)
        = take (nat n + m) (drop offset payload)"
      using take_add [of "nat n" m "drop offset payload"] by (simp add: add.commute)
    with m n have "snd (write_loop msg w k payload offset content) = content @ take (nat n + m) (drop offset payload)"
      by (subst write_loop.simps) simp
    then show ?thesis by blast
  next
    case False
    then have "snd (write_loop msg w k payload offset content) = content"
      by (subst write_loop.simps) (auto split: sum.splits simp: not_less)
    then show ?thesis using stop by simp
  qed
qed

lemma write_loop_progress:
  "(\<And>j. \<exists>n > 0. w j = Inr n) \<Longrightarrow> fst (write_loop msg w k payload offset content) = Inr ()"
proof (induction msg w k payload offset content rule: write_loop.induct)
  case (1 msg w k payload offset content)
  obtain n where n: "w k = Inr n" "0 < n" using "1.prems" [of k] by auto
  show ?case
  proof (cases "offset < length payload")
    case True
    have "fst (write_loop msg w (Suc k) payload (offset + nat n) (content @ take (nat n) (drop offset payload))) = Inr ()"
      by (rule "1.IH" [OF True n(1)]) (use n "1.prems" in auto)
    then show ?thesis using n True by (subst write_loop.simps) simp
  next
    case False
    then show ?thesis by (subst write_loop.simps) simp
  qed
qed

subsection \<open>One append\<close>

lemma append_payload_Inr:
  "append_payload msg env payload file = (Inr (), file') \<Longrightarrow> file' = Some (log_content file @ payload)"
  by (auto simp: append_payload_def Let_def dest!: write_loop_Inr split: option.splits prod.splits)

lemma append_payload_prefix:
  "\<exists>m. log_content (snd (append_payload msg env payload file)) = log_content file @ take m payload"
proof (cases "ae_open env")
  case None
  obtain m where "snd (write_loop msg (ae_write env) 0 payload 0 (log_content file)) = log_content file @ take m (drop 0 payload)"
    using write_loop_prefix by blast
  then show ?thesis using None by (auto simp: append_payload_def Let_def split: prod.splits)
next
  case (Some e)
  then show ?thesis by (auto simp: append_payload_def intro: exI [of _ 0])
qed

text \<open>An environment in which no call fails and every write takes some bytes.\<close>

definition env_works :: "AppendEnv \<Rightarrow> bool" where
  "env_works env \<longleftrightarrow> ae_open env = None \<and> ae_fsync env = None \<and> ae_close env = None
     \<and> (\<forall>k. \<exists>n > 0. ae_write env k = Inr n)"

lemma append_payload_works:
  assumes "env_works env"
  shows "append_payload msg env payload file = (Inr (), Some (log_content file @ payload))"
proof -
  obtain c where c: "write_loop msg (ae_write env) 0 payload 0 (log_content file) = (Inr (), c)"
    using write_loop_progress [of "ae_write env" msg 0 payload 0 "log_content file"] assms
    by (auto simp: env_works_def prod_eq_iff)
  then have "append_payload msg env payload file = (Inr (), Some c)"
    using assms by (simp add: append_payload_def env_works_def)
  with append_payload_Inr [OF this] show ?thesis by simp
qed

lemma append_value_Inr:
  "append_value msg env v file = (Inr (), file') \<Longrightarrow>
     \<exists>l. record_line v = Inr l \<and> file' = Some (log_content file @ l)"
  by (auto simp: append_value_def dest: append_payload_Inr split: sum.splits)

lemma append_value_prefix:
  "\<exists>m l. (record_line v = Inr l \<or> l = []) \<and>
     log_content (snd (append_value msg env v file)) = log_content file @ take m l"
proof (cases "record_line v")
  case (Inl e)
  then show ?thesis by (auto simp: append_value_def)
next
  case (Inr l)
  then show ?thesis using append_payload_prefix [of msg env l "file"] by (auto simp: append_value_def)
qed

subsection \<open>The contract of a log\<close>

locale append_log =
  fixes append :: "'s \<Rightarrow> 'e \<Rightarrow> 'a \<Rightarrow> 'b res \<times> 's" and content :: "'s \<Rightarrow> bytes" and line :: "'a \<Rightarrow> bytes res"
  assumes append_Inr: "append s e a = (Inr b, s') \<Longrightarrow> \<exists>l. line a = Inr l \<and> content s' = content s @ l"
    and append_prefix: "\<exists>m l. (line a = Inr l \<or> l = []) \<and> content (snd (append s e a)) = content s @ take m l"
begin

definition run :: "'s \<Rightarrow> ('e \<times> 'a) list \<Rightarrow> 's" where
  "run s ops = foldl (\<lambda>s (e, a). snd (append s e a)) s ops"

fun appended :: "'s \<Rightarrow> ('e \<times> 'a) list \<Rightarrow> bool" where
  "appended s [] = True"
| "appended s ((e, a) # ops) = (is_ok (fst (append s e a)) \<and> appended (snd (append s e a)) ops)"

lemma run_extends: "\<exists>rest. content (run s ops) = content s @ rest"
proof (induction ops arbitrary: s)
  case Nil
  then show ?case by (simp add: run_def)
next
  case (Cons op ops)
  obtain e a where op: "op = (e, a)" by (cases op)
  obtain rest where "content (run (snd (append s e a)) ops) = content (snd (append s e a)) @ rest"
    using Cons.IH by blast
  moreover obtain m l where "content (snd (append s e a)) = content s @ take m l"
    using append_prefix by blast
  ultimately show ?case by (simp add: run_def op)
qed

lemma run_lines:
  "appended s ops \<Longrightarrow> \<exists>ls. map_r (\<lambda>op. line (snd op)) ops = Inr ls \<and> content (run s ops) = content s @ concat ls"
proof (induction ops arbitrary: s)
  case Nil
  then show ?case by (simp add: run_def)
next
  case (Cons op ops)
  obtain e a where op: "op = (e, a)" by (cases op)
  obtain b s' where b: "append s e a = (Inr b, s')"
    using Cons.prems by (cases "append s e a") (auto simp: op is_ok_iff)
  obtain l where l: "line a = Inr l" "content s' = content s @ l"
    using append_Inr [OF b] by auto
  obtain ls where "map_r (\<lambda>op. line (snd op)) ops = Inr ls" "content (run s' ops) = content s' @ concat ls"
    using Cons.IH [of s'] Cons.prems by (simp add: op b) blast
  with l show ?case by (auto simp: run_def op b)
qed

end

interpretation value_log: append_log "\<lambda>file env v. append_value msg env v file" log_content record_line for msg
proof unfold_locales
  fix f :: log_file and env v b f'
  assume "append_value msg env v f = (Inr b, f')"
  then show "\<exists>l. record_line v = Inr l \<and> log_content f' = log_content f @ l"
    by (cases b) (auto dest: append_value_Inr)
qed (rule append_value_prefix)

end
