(* ===== verification/KilAuthzHttp.thy ===== *)
theory KilAuthzHttp
  imports KilHttp KilAppendLog
begin

text \<open>
  \<^verbatim>\<open>src/kil/ext_authz_http.py\<close>: the authorization service. A request selects a server-side
  fixture by its id; the adapter decides; the decision is recorded in the JSONL file and in
  memory before it is answered; every failure is answered 503. The clocks and the file
  system are an environment per request; the two calls of \<^verbatim>\<open>monotonic_ns\<close> and the two appends
  a request can make have each their own outcome.
\<close>

definition AUTHZ_RECORD_SCHEMA :: string where "AUTHZ_RECORD_SCHEMA = ''kil.v3b-authz-record.v1''"

definition TRUSTED_HEADERS :: "string list" where
  "TRUSTED_HEADERS = [''x-request-id'', ''authorization'', ''x-kil-q-state'']"

definition IGNORED_TRANSPORT_HEADERS :: "string list" where
  "IGNORED_TRANSPORT_HEADERS =
     [''host'', ''content-length'', ''x-envoy-expected-rq-timeout-ms'', ''x-envoy-internal'']"

definition PROHIBITED_BODY_HEADERS :: "string list" where
  "PROHIBITED_BODY_HEADERS = [''transfer-encoding'', ''content-encoding'']"

subsection \<open>Fixtures and records\<close>

record ServerFixture =
  sf_request_id :: pstr
  sf_method :: pstr
  sf_path :: pstr
  sf_identity :: pstr
  sf_authority_class :: pstr
  sf_action_class :: pstr
  sf_expected_authorization_sha256 :: pstr
  sf_policy_allows_action :: bool
  sf_local_evidence :: "LocalEvidence option"
  sf_reduction_profile :: "ReductionProfile option"

definition make_ServerFixture :: "ServerFixture \<Rightarrow> ServerFixture res" where
  "make_ServerFixture f =
     bind_r (ensure (request_id_text (sf_request_id f)) (ValueError ''request_id is invalid'')) (\<lambda>_.
     bind_r (ensure (method_text (sf_method f)) (ValueError ''fixture method is invalid'')) (\<lambda>_.
     bind_r (ensure (starts_with [47] (sf_path f)) (ValueError ''fixture path is invalid'')) (\<lambda>_.
     bind_r (path_size (sf_path f)) (\<lambda>n.
     bind_r (ensure (n \<le> MAX_PATH_BYTES) (ValueError ''fixture path is invalid'')) (\<lambda>_.
     bind_r (require_identifier ''identity'' (PStr (sf_identity f))) (\<lambda>_.
     bind_r (require_identifier ''authority_class'' (PStr (sf_authority_class f))) (\<lambda>_.
     bind_r (require_identifier ''action_class'' (PStr (sf_action_class f))) (\<lambda>_.
     bind_r (ensure (hex64 (sf_expected_authorization_sha256 f))
       (ValueError ''expected_authorization_sha256 must be a digest'')) (\<lambda>_.
     Inr f)))))))))"

record AuthorizationHttpRecord =
  rc_schema_version :: pstr
  rc_request_id :: "pstr option"
  rc_track :: LiveTrack
  rc_method :: pstr
  rc_path :: pstr
  rc_outcome :: pstr
  rc_http_status :: int
  rc_decision_digest :: "pstr option"
  rc_adapter_reasons :: "pstr list"
  rc_engine_reasons :: "pstr list"
  rc_untrusted_header_names :: "pstr list"
  rc_monotonic_ns :: int

definition pv_optional :: "pstr option \<Rightarrow> pyval" where
  "pv_optional x = (case x of None \<Rightarrow> PNone | Some s \<Rightarrow> PStr s)"

definition pv_AuthorizationHttpRecord :: "AuthorizationHttpRecord \<Rightarrow> pyval" where
  "pv_AuthorizationHttpRecord r = PRec ''AuthorizationHttpRecord''
     [pv_field ''schema_version'' (PStr (rc_schema_version r)),
      pv_field ''request_id'' (pv_optional (rc_request_id r)),
      pv_field ''track'' (PEnum ''LiveTrack'' (u (LiveTrack_value (rc_track r)))),
      pv_field ''method'' (PStr (rc_method r)), pv_field ''path'' (PStr (rc_path r)),
      pv_field ''outcome'' (PStr (rc_outcome r)), pv_field ''http_status'' (PInt (rc_http_status r)),
      pv_field ''decision_digest'' (pv_optional (rc_decision_digest r)),
      pv_field ''adapter_reasons'' (PTuple (map PStr (rc_adapter_reasons r))),
      pv_field ''engine_reasons'' (PTuple (map PStr (rc_engine_reasons r))),
      pv_field ''untrusted_header_names'' (PTuple (map PStr (rc_untrusted_header_names r))),
      pv_field ''monotonic_ns'' (PInt (rc_monotonic_ns r))]"

subsection \<open>The application\<close>

record AuthorizationHttpApp =
  hp_adapter :: AuthorizationAdapter
  hp_fixtures :: "(pstr \<times> ServerFixture) list"
  hp_recorder :: bool
  hp_records :: "AuthorizationHttpRecord list"
  hp_file :: log_file

definition make_AuthorizationHttpApp ::
    "AuthorizationAdapter \<Rightarrow> (pstr \<times> ServerFixture) list \<Rightarrow> bool \<Rightarrow> log_file \<Rightarrow> AuthorizationHttpApp res" where
  "make_AuthorizationHttpApp adapter fixtures recorder existing =
     (if fixtures = [] then Inl (ValueError ''fixtures must be a nonempty mapping'')
      else if list_ex (\<lambda>(rid, f). rid \<noteq> sf_request_id f) fixtures
      then Inl (ValueError ''fixture mapping does not match request IDs'')
      else Inr \<lparr>hp_adapter = adapter, hp_fixtures = fixtures, hp_recorder = recorder,
                hp_records = [], hp_file = existing\<rparr>)"

record RequestEnv =
  re_clock_s :: "int res"
  re_monotonic_ns :: "int res"
  re_append :: AppendEnv
  re_error_monotonic_ns :: "int res"
  re_error_append :: AppendEnv

definition checked_groups :: "HttpRequest \<Rightarrow> header_groups res" where
  "checked_groups request =
     (let grouped = group_headers (hq_headers request) in
      if list_ex (\<lambda>n. length (group_get grouped (u n)) > 1) TRUSTED_HEADERS
      then Inl (ValueError ''duplicate trusted header'')
      else if list_ex (\<lambda>n. in_group grouped (u n)) PROHIBITED_BODY_HEADERS
      then Inl (ValueError ''body-bearing transport headers are prohibited'')
      else if announces_body grouped then Inl (ValueError ''request body must be zero bytes'')
      else Inr grouped)"

definition untrusted_names :: "header_groups \<Rightarrow> pstr list" where
  "untrusted_names grouped = sort (filter (\<lambda>n. n \<notin> set (map u TRUSTED_HEADERS)
     \<and> n \<notin> set (map u IGNORED_TRANSPORT_HEADERS)) (map fst grouped))"

definition safe_request_id :: "header_groups \<Rightarrow> pstr option" where
  "safe_request_id grouped = (case group_get grouped (u ''x-request-id'') of
     [v] \<Rightarrow> if request_id_text v then Some v else None | _ \<Rightarrow> None)"

definition append_memory :: "AuthorizationHttpRecord \<Rightarrow> AuthorizationHttpApp \<Rightarrow> AuthorizationHttpApp" where
  "append_memory r app = app\<lparr>hp_records := hp_records app @ [r]\<rparr>"

definition recorder_append ::
    "AppendEnv \<Rightarrow> AuthorizationHttpRecord \<Rightarrow> AuthorizationHttpApp \<Rightarrow> unit res \<times> AuthorizationHttpApp" where
  "recorder_append env r app =
     (if \<not> hp_recorder app then (Inr (), app)
      else case append_value ''decision record append made no progress'' env
                  (pv_AuthorizationHttpRecord r) (hp_file app) of
        (res, content) \<Rightarrow> (res, app\<lparr>hp_file := content\<rparr>))"

definition commit_record ::
    "AppendEnv \<Rightarrow> AuthorizationHttpRecord \<Rightarrow> AuthorizationHttpApp \<Rightarrow> unit res \<times> AuthorizationHttpApp" where
  "commit_record env r app = (case recorder_append env r app of
     (Inl e, app1) \<Rightarrow> (Inl e, app1) | (Inr _, app1) \<Rightarrow> (Inr (), append_memory r app1))"

definition commit_error_best_effort ::
    "AppendEnv \<Rightarrow> AuthorizationHttpRecord \<Rightarrow> AuthorizationHttpApp \<Rightarrow> unit res \<times> AuthorizationHttpApp" where
  "commit_error_best_effort env r app = (case recorder_append env r app of
     (Inl e, app1) \<Rightarrow> if is_os_error e then (Inr (), append_memory r app1) else (Inl e, app1)
   | (Inr _, app1) \<Rightarrow> (Inr (), append_memory r app1))"

definition error_response ::
    "RequestEnv \<Rightarrow> AuthorizationHttpApp \<Rightarrow> HttpRequest \<Rightarrow> header_groups \<Rightarrow> pstr option \<Rightarrow>
     HttpResponse res \<times> AuthorizationHttpApp" where
  "error_response env app request grouped digest =
     (case re_error_monotonic_ns env of
        Inl e \<Rightarrow> (Inl e, app)
      | Inr ns \<Rightarrow>
          (let r = \<lparr>rc_schema_version = u AUTHZ_RECORD_SCHEMA, rc_request_id = safe_request_id grouped,
                 rc_track = aa_track (hp_adapter app), rc_method = hq_method request,
                 rc_path = hq_path request, rc_outcome = u ''error'', rc_http_status = 503,
                 rc_decision_digest = digest, rc_adapter_reasons = [], rc_engine_reasons = [],
                 rc_untrusted_header_names = untrusted_names grouped, rc_monotonic_ns = ns\<rparr>
           in case commit_error_best_effort (re_error_append env) r app of
                (Inl e, app1) \<Rightarrow> (Inl e, app1)
              | (Inr _, app1) \<Rightarrow>
                  (make_HttpResponse 503
                     (case digest of None \<Rightarrow> [] | Some d \<Rightarrow> [(u ''x-kil-decision-digest'', d)])
                     (hr_body unavailable), app1)))"

text \<open>The checks that select the fixture of a request.\<close>

definition select_fixture ::
    "AuthorizationHttpApp \<Rightarrow> HttpRequest \<Rightarrow> header_groups \<Rightarrow> (pstr \<times> ServerFixture) res" where
  "select_fixture app request grouped =
     (case safe_request_id grouped of
        None \<Rightarrow> Inl (ValueError ''x-request-id is required'')
      | Some rid \<Rightarrow>
          (case map_of (hp_fixtures app) rid of
             None \<Rightarrow> Inl (ValueError ''unknown request fixture'')
           | Some f \<Rightarrow>
               if hq_method request \<noteq> sf_method f \<or> hq_path request \<noteq> sf_path f
               then Inl (ValueError ''request does not match server-side fixture'')
               else Inr (rid, f)))"

definition credential_matches :: "ServerFixture \<Rightarrow> header_groups \<Rightarrow> bool res" where
  "credential_matches f grouped =
     (let authorization = (case group_get grouped (u ''authorization'') of [] \<Rightarrow> [] | v # _ \<Rightarrow> v) in
      bind_r (utf8_encode authorization) (\<lambda>bs.
      Inr (sha256_hex bs = sf_expected_authorization_sha256 f)))"

text \<open>The facts handed to the adapter.\<close>

definition live_fixture ::
    "RequestEnv \<Rightarrow> header_groups \<Rightarrow> pstr \<Rightarrow> ServerFixture \<Rightarrow> LiveFixture res" where
  "live_fixture env grouped rid f =
     bind_r (credential_matches f grouped) (\<lambda>credential_valid.
     bind_r (re_clock_s env) (\<lambda>now.
     bind_r (make_ActionRequest (PStr rid) (PStr (sf_identity f)) (PStr (sf_authority_class f)) (PInt now))
       (\<lambda>action_request.
     make_LiveFixture \<lparr>lf_request = action_request, lf_action_class = sf_action_class f,
       lf_credential_valid = credential_valid, lf_policy_allows_action = sf_policy_allows_action f,
       lf_q_state_jws = (case group_get grouped (u ''x-kil-q-state'') of [] \<Rightarrow> None | v # _ \<Rightarrow> Some v),
       lf_local_evidence = sf_local_evidence f, lf_reduction_profile = sf_reduction_profile f,
       lf_untrusted_headers = map (\<lambda>n. (n, u ''[ignored]'')) (untrusted_names grouped)\<rparr>)))"

text \<open>Everything up to the adapter's decision.\<close>

definition decide_request ::
    "Ed25519 \<Rightarrow> nat \<Rightarrow> RequestEnv \<Rightarrow> AuthorizationHttpApp \<Rightarrow> HttpRequest \<Rightarrow> header_groups \<Rightarrow>
     (pstr \<times> LiveDecision) res" where
  "decide_request ed limit env app request grouped =
     bind_r (select_fixture app request grouped) (\<lambda>(rid, f).
     bind_r (live_fixture env grouped rid f) (\<lambda>facts.
     bind_r (evaluate ed limit (hp_adapter app) facts) (\<lambda>decision.
     Inr (rid, decision))))"

definition decision_status :: "LiveDecision \<Rightarrow> int" where
  "decision_status d = (if ld_outcome d = PERMIT then 200 else 403)"

definition decision_record :: "HttpRequest \<Rightarrow> header_groups \<Rightarrow> pstr \<Rightarrow> LiveDecision \<Rightarrow> int \<Rightarrow> AuthorizationHttpRecord" where
  "decision_record request grouped rid d ns =
     \<lparr>rc_schema_version = u AUTHZ_RECORD_SCHEMA, rc_request_id = Some rid, rc_track = ld_track d,
      rc_method = hq_method request, rc_path = hq_path request,
      rc_outcome = u (DecisionOutcome_value (ld_outcome d)), rc_http_status = decision_status d,
      rc_decision_digest = Some (ld_decision_digest d), rc_adapter_reasons = ld_adapter_reasons d,
      rc_engine_reasons = (case ld_engine_record d of None \<Rightarrow> []
        | Some r \<Rightarrow> map (u \<circ> ReasonCode_value) (dr_reasons r)),
      rc_untrusted_header_names = untrusted_names grouped, rc_monotonic_ns = ns\<rparr>"

text \<open>Recording and answering a decision.\<close>

definition answer_decision ::
    "RequestEnv \<Rightarrow> AuthorizationHttpApp \<Rightarrow> HttpRequest \<Rightarrow> header_groups \<Rightarrow> pstr \<Rightarrow> LiveDecision \<Rightarrow>
     HttpResponse res \<times> AuthorizationHttpApp" where
  "answer_decision env app request grouped rid d =
     (case re_monotonic_ns env of
        Inl e \<Rightarrow> (Inl e, app)
      | Inr ns \<Rightarrow>
          (case commit_record (re_append env) (decision_record request grouped rid d ns) app of
             (Inl e, app1) \<Rightarrow> (Inl e, app1)
           | (Inr _, app1) \<Rightarrow>
               (make_HttpResponse (decision_status d) [(u ''x-kil-decision-digest'', ld_decision_digest d)]
                  (if ld_outcome d = PERMIT then [] else text_bytes ''denied'' @ [10]), app1)))"

definition is_health :: "HttpRequest \<Rightarrow> bool" where
  "is_health request \<longleftrightarrow> hq_method request = u ''GET'' \<and> hq_path request = u ''/healthz''"

text \<open>\<^verbatim>\<open>AuthorizationHttpApp.handle\<close>.\<close>

definition authz_handle ::
    "Ed25519 \<Rightarrow> nat \<Rightarrow> RequestEnv \<Rightarrow> AuthorizationHttpApp \<Rightarrow> HttpRequest \<Rightarrow>
     HttpResponse res \<times> AuthorizationHttpApp" where
  "authz_handle ed limit env app request =
     (if is_health request then
        (if hq_body request = [] \<and> is_ok (checked_groups request)
         then make_HttpResponse 200 [] (text_bytes ''ok'' @ [10]) else Inr unavailable, app)
      else case bind_r (ensure (hq_body request = []) (ValueError ''request body must be zero bytes''))
                  (\<lambda>_. checked_groups request) of
        Inl _ \<Rightarrow> error_response env app request [] None
      | Inr grouped \<Rightarrow>
          (case decide_request ed limit env app request grouped of
             Inl _ \<Rightarrow> error_response env app request grouped None
           | Inr (rid, d) \<Rightarrow>
               (case answer_decision env app request grouped rid d of
                  (Inl _, app1) \<Rightarrow> error_response env app1 request grouped (Some (ld_decision_digest d))
                | (Inr response, app1) \<Rightarrow> (Inr response, app1))))"

text \<open>
  The handler of a connection: the request is built from the command, the path and the raw
  headers, and any exception is answered 503; so is a command without a handler. \<open>sent\<close> is
  None when writing to the client fails.
\<close>

definition authz_serve ::
    "Ed25519 \<Rightarrow> nat \<Rightarrow> RequestEnv \<Rightarrow> bool \<Rightarrow> AuthorizationHttpApp \<Rightarrow> pstr \<Rightarrow> pstr \<Rightarrow> (pstr \<times> pstr) list \<Rightarrow>
     SentResponse option \<times> AuthorizationHttpApp" where
  "authz_serve ed limit env client_ok app command path headers =
     (case (if command \<notin> set (map u HANDLED_METHODS) then (Inr unavailable, app)
            else case make_HttpRequest command path headers [] of
              Inl _ \<Rightarrow> (Inr unavailable, app)
            | Inr request \<Rightarrow> authz_handle ed limit env app request) of
        (res, app1) \<Rightarrow>
          (let response = (case res of Inl _ \<Rightarrow> unavailable | Inr r \<Rightarrow> r)
           in (if client_ok then Some (send_response command response) else None, app1)))"

subsection \<open>Recording\<close>

lemma evaluate_digest: "evaluate ed limit a f = Inr d \<Longrightarrow> hex64 (ld_decision_digest d)"
  by (auto simp: evaluate_def evaluate_baseline_def Let_def dest!: adapter_result_Inr
      split: if_splits option.splits sum.splits)

text \<open>What a successful append to the file leaves: the record's line, complete, at the end.\<close>

definition recorded :: "AuthorizationHttpApp \<Rightarrow> AuthorizationHttpRecord \<Rightarrow> AuthorizationHttpApp \<Rightarrow> bool" where
  "recorded app r app' \<longleftrightarrow> hp_records app' = hp_records app @ [r]
     \<and> hp_adapter app' = hp_adapter app \<and> hp_fixtures app' = hp_fixtures app \<and> hp_recorder app' = hp_recorder app
     \<and> (hp_recorder app \<longrightarrow> (\<exists>l. record_line (pv_AuthorizationHttpRecord r) = Inr l
          \<and> hp_file app' = Some (log_content (hp_file app) @ l)))"

lemma recorder_append_fields:
  "recorder_append env r app = (res, app') \<Longrightarrow> hp_records app' = hp_records app
     \<and> hp_adapter app' = hp_adapter app \<and> hp_fixtures app' = hp_fixtures app \<and> hp_recorder app' = hp_recorder app"
  by (auto simp: recorder_append_def split: if_splits prod.splits)

lemma commit_record_recorded: "commit_record env r app = (Inr (), app') \<Longrightarrow> recorded app r app'"
  by (auto simp: commit_record_def recorder_append_def recorded_def append_memory_def
      dest!: append_value_Inr split: if_splits prod.splits sum.splits)

lemma commit_record_fails: "commit_record env r app = (Inl e, app') \<Longrightarrow> hp_records app' = hp_records app
     \<and> hp_adapter app' = hp_adapter app \<and> hp_fixtures app' = hp_fixtures app \<and> hp_recorder app' = hp_recorder app"
  by (auto simp: commit_record_def dest: recorder_append_fields split: prod.splits sum.splits)

lemma error_response_Inr:
  assumes "error_response env app request grouped digest = (Inr resp, app')"
    and "\<And>d. digest = Some d \<Longrightarrow> hex64 d"
  shows "hr_status resp = 503 \<and> (\<exists>r. hp_records app' = hp_records app @ [r] \<and> rc_outcome r = u ''error''
    \<and> rc_http_status r = 503 \<and> rc_decision_digest r = digest \<and> rc_request_id r = safe_request_id grouped)"
proof (cases digest)
  case None
  with assms(1) show ?thesis
    by (auto simp: error_response_def Let_def commit_error_best_effort_def append_memory_def
        dest!: recorder_append_fields split: sum.splits prod.splits if_splits)
next
  case (Some d)
  with assms show ?thesis
    by (auto simp: error_response_def Let_def commit_error_best_effort_def append_memory_def
        dest!: recorder_append_fields split: sum.splits prod.splits if_splits)
qed

lemma answer_decision_Inr:
  assumes "answer_decision env app request grouped rid d = (Inr resp, app')" "hex64 (ld_decision_digest d)"
  shows "hr_status resp = decision_status d
    \<and> hr_headers resp = [(u ''x-kil-decision-digest'', ld_decision_digest d)]
    \<and> (\<exists>ns. re_monotonic_ns env = Inr ns \<and> recorded app (decision_record request grouped rid d ns) app')"
proof -
  obtain ns where ns: "re_monotonic_ns env = Inr ns"
    "commit_record (re_append env) (decision_record request grouped rid d ns) app = (Inr (), app')"
    "make_HttpResponse (decision_status d) [(u ''x-kil-decision-digest'', ld_decision_digest d)]
       (if ld_outcome d = PERMIT then [] else text_bytes ''denied'' @ [10]) = Inr resp"
    using assms(1) by (auto simp: answer_decision_def split: sum.splits prod.splits)
  have "100 \<le> decision_status d" "decision_status d \<le> 599" by (simp_all add: decision_status_def)
  with ns assms(2) commit_record_recorded [OF ns(2)] show ?thesis by auto
qed

lemma answer_decision_Inl:
  assumes "answer_decision env app request grouped rid d = (Inl e, app')" "hex64 (ld_decision_digest d)"
  shows "hp_records app' = hp_records app"
proof -
  have st: "100 \<le> decision_status d" "decision_status d \<le> 599" by (simp_all add: decision_status_def)
  show ?thesis
    using assms
    by (auto simp: answer_decision_def make_HttpResponse_digest [OF st assms(2)] dest: commit_record_fails
        split: sum.splits prod.splits)
qed

text \<open>The two ways a request other than a health check is answered.\<close>

lemma authz_handle_cases:
  assumes "authz_handle ed limit env app request = (Inr resp, app')" "\<not> is_health request"
  obtains
    (decided) grouped rid d ns where "checked_groups request = Inr grouped" "hq_body request = []"
      "decide_request ed limit env app request grouped = Inr (rid, d)"
      "recorded app (decision_record request grouped rid d ns) app'" "hr_status resp = decision_status d"
      "hr_headers resp = [(u ''x-kil-decision-digest'', ld_decision_digest d)]"
  | (failed) r where "hr_status resp = 503" "hp_records app' = hp_records app @ [r]" "rc_outcome r = u ''error''"
      "rc_http_status r = 503"
proof (cases "bind_r (ensure (hq_body request = []) (ValueError ''request body must be zero bytes'')) (\<lambda>_. checked_groups request)")
  case (Inl e)
  then have "error_response env app request [] None = (Inr resp, app')"
    using assms by (simp add: authz_handle_def)
  from error_response_Inr [OF this] show thesis using failed by auto
next
  case (Inr grouped)
  show thesis
  proof (cases "decide_request ed limit env app request grouped")
    case (Inl e)
    then have "error_response env app request grouped None = (Inr resp, app')"
      using assms Inr by (simp add: authz_handle_def)
    from error_response_Inr [OF this] show thesis using failed by auto
  next
    fix x assume x: "decide_request ed limit env app request grouped = Inr x"
    obtain rid d where rd: "x = (rid, d)" by (cases x)
    have dig: "hex64 (ld_decision_digest d)"
      using x rd by (auto simp: decide_request_def split: prod.splits dest: evaluate_digest)
    obtain m app1 where m: "answer_decision env app request grouped rid d = (m, app1)" by fastforce
    show thesis
    proof (cases m)
      fix y assume y: "m = Inr y"
      then have "y = resp" "app1 = app'" using assms Inr x rd m by (auto simp: authz_handle_def)
      with answer_decision_Inr [OF m [unfolded y] dig] decided [of grouped rid d] Inr x rd show thesis by auto
    next
      fix e assume e: "m = Inl e"
      then have "error_response env app1 request grouped (Some (ld_decision_digest d)) = (Inr resp, app')"
        using assms Inr x rd m by (simp add: authz_handle_def)
      from error_response_Inr [OF this] dig answer_decision_Inl [OF m [unfolded e] dig]
      show thesis using failed by auto
    qed
  qed
qed

text \<open>Without a recorder and with a clock, a decision is answered with its status.\<close>

lemma authz_handle_decided:
  assumes "checked_groups request = Inr grouped" "hq_body request = []" "\<not> is_health request"
    and "decide_request ed limit env app request grouped = Inr (rid, d)" "hex64 (ld_decision_digest d)"
    and "\<not> hp_recorder app" "re_monotonic_ns env = Inr ns"
  shows "\<exists>resp app'. authz_handle ed limit env app request = (Inr resp, app') \<and> hr_status resp = decision_status d"
  using assms
  by (cases "ld_outcome d = PERMIT")
    (simp_all add: authz_handle_def answer_decision_def commit_record_def recorder_append_def decision_status_def)

subsection \<open>Properties\<close>

lemma decision_status_permit: "decision_status d = 200 \<longleftrightarrow> ld_outcome d = PERMIT"
  by (simp add: decision_status_def)

lemma error_ne_outcome: "u (DecisionOutcome_value out) \<noteq> u ''error''"
  by (cases out) simp_all

lemma checked_groups_Inr:
  "checked_groups request = Inr grouped \<Longrightarrow> grouped = group_headers (hq_headers request)
     \<and> length (group_get grouped (u ''authorization'')) \<le> 1 \<and> length (group_get grouped (u ''x-kil-q-state'')) \<le> 1"
  by (auto simp: checked_groups_def Let_def TRUSTED_HEADERS_def split: if_splits)

lemma select_fixture_Inr:
  "select_fixture app request grouped = Inr (rid, f) \<Longrightarrow>
     group_get grouped (u ''x-request-id'') = [rid] \<and> request_id_text rid
     \<and> map_of (hp_fixtures app) rid = Some f \<and> hq_method request = sf_method f \<and> hq_path request = sf_path f"
  by (auto simp: select_fixture_def safe_request_id_def split: option.splits list.splits if_splits)

text \<open>\<open>decided_by\<close>: the facts a decision rests on are the server's, selected by the request id.\<close>

definition decided_by ::
    "Ed25519 \<Rightarrow> nat \<Rightarrow> RequestEnv \<Rightarrow> AuthorizationHttpApp \<Rightarrow> HttpRequest \<Rightarrow> header_groups \<Rightarrow> ServerFixture \<Rightarrow>
     LiveFixture \<Rightarrow> LiveDecision \<Rightarrow> bool" where
  "decided_by ed limit env app request grouped f facts d \<longleftrightarrow>
     grouped = group_headers (hq_headers request)
     \<and> (\<exists>rid. group_get grouped (u ''x-request-id'') = [rid] \<and> map_of (hp_fixtures app) rid = Some f
          \<and> ar_request_id (lf_request facts) = rid)
     \<and> hq_method request = sf_method f \<and> hq_path request = sf_path f
     \<and> ar_identity (lf_request facts) = sf_identity f
     \<and> ar_authority_class (lf_request facts) = sf_authority_class f
     \<and> re_clock_s env = Inr (ar_timestamp_s (lf_request facts))
     \<and> lf_action_class facts = sf_action_class f
     \<and> lf_policy_allows_action facts = sf_policy_allows_action f
     \<and> lf_local_evidence facts = sf_local_evidence f \<and> lf_reduction_profile facts = sf_reduction_profile f
     \<and> credential_matches f grouped = Inr (lf_credential_valid facts)
     \<and> evaluate ed limit (hp_adapter app) facts = Inr d"

lemma decide_request_decided_by:
  assumes "decide_request ed limit env app request grouped = Inr (rid, d)" "checked_groups request = Inr grouped"
  obtains f facts where "decided_by ed limit env app request grouped f facts d"
    "group_get grouped (u ''x-request-id'') = [rid]"
proof -
  obtain f facts where f: "select_fixture app request grouped = Inr (rid, f)"
    "live_fixture env grouped rid f = Inr facts" "evaluate ed limit (hp_adapter app) facts = Inr d"
    using assms(1) by (auto simp: decide_request_def split: prod.splits)
  have "ar_request_id (lf_request facts) = rid \<and> ar_identity (lf_request facts) = sf_identity f
     \<and> ar_authority_class (lf_request facts) = sf_authority_class f
     \<and> re_clock_s env = Inr (ar_timestamp_s (lf_request facts))
     \<and> lf_action_class facts = sf_action_class f \<and> lf_policy_allows_action facts = sf_policy_allows_action f
     \<and> lf_local_evidence facts = sf_local_evidence f \<and> lf_reduction_profile facts = sf_reduction_profile f
     \<and> credential_matches f grouped = Inr (lf_credential_valid facts)"
    using f(2) by (auto simp: live_fixture_def make_LiveFixture_def make_ActionRequest_Inr)
  with that f(3) select_fixture_Inr [OF f(1)] checked_groups_Inr [OF assms(2)] show thesis
    by (auto simp: decided_by_def)
qed

text \<open>
  Claim C16: fail closed. Whatever a connection sends, if it is answered 200 and the request
  is not the health check, then the request id selected a server-side fixture of the same
  method and path, the adapter evaluated that fixture's facts (identity, class, policy,
  evidence, the credential's digest compared with the fixture's, the service's clock) to a
  permit, the response carries the digest of that decision, and the decision was recorded
  before the answer: in memory and, with a recorder, as a complete line at the end of the
  file.
\<close>
theorem authz_allows_sound:
  assumes "authz_serve ed limit env client_ok app command path headers = (Some sent, app')"
    and "sn_status sent = 200" and "\<not> (command = u ''GET'' \<and> path = u ''/healthz'')"
  shows "\<exists>request grouped f facts d ns.
     make_HttpRequest command path headers [] = Inr request
     \<and> decided_by ed limit env app request grouped f facts d \<and> ld_outcome d = PERMIT
     \<and> recorded app (decision_record request grouped (ar_request_id (lf_request facts)) d ns) app'
     \<and> (u ''x-kil-decision-digest'', ld_decision_digest d) \<in> set (sn_headers sent)"
proof -
  obtain request resp where req: "make_HttpRequest command path headers [] = Inr request"
    "authz_handle ed limit env app request = (Inr resp, app')" "sent = send_response command resp"
    using assms(1,2)
    by (auto simp: authz_serve_def Let_def send_response_def unavailable_def
        split: if_splits prod.splits sum.splits)
  have "\<not> is_health request"
    using make_HttpRequest_wf [OF req(1)] assms(3) by (auto simp: is_health_def)
  with req(2) show ?thesis
  proof (cases rule: authz_handle_cases)
    case (decided grouped rid d ns)
    obtain f facts where f: "decided_by ed limit env app request grouped f facts d"
      "group_get grouped (u ''x-request-id'') = [rid]"
      by (rule decide_request_decided_by [OF decided(3,1)])
    then have "ar_request_id (lf_request facts) = rid" by (auto simp: decided_by_def)
    moreover have "ld_outcome d = PERMIT"
      using assms(2) decided(5) by (simp add: req(3) send_response_def decision_status_permit)
    moreover have "(u ''x-kil-decision-digest'', ld_decision_digest d) \<in> set (sn_headers sent)"
      by (simp add: req(3) send_response_def decided(6))
    ultimately show ?thesis using req(1) f(1) decided(4) by blast
  next
    case (failed r)
    then show ?thesis using assms(2) by (simp add: req(3) send_response_def)
  qed
qed

text \<open>
  One record per answer. Every request the application answers, the health check
  apart, appends exactly one record to its memory, with the status of the response; the
  status is 200 exactly if the recorded outcome is a permit, 503 exactly if it is an error,
  and 403 for every other decision.
\<close>
theorem authz_one_record:
  assumes "authz_handle ed limit env app request = (Inr resp, app')" and "\<not> is_health request"
  shows "\<exists>r. hp_records app' = hp_records app @ [r] \<and> rc_http_status r = hr_status resp
     \<and> (if rc_outcome r = u (DecisionOutcome_value PERMIT) then hr_status resp = 200
        else if rc_outcome r = u ''error'' then hr_status resp = 503 else hr_status resp = 403)"
  using assms
proof (cases rule: authz_handle_cases)
  case (decided grouped rid d ns)
  let ?r = "decision_record request grouped rid d ns"
  have "hp_records app' = hp_records app @ [?r]" using decided(4) by (simp add: recorded_def)
  moreover have "rc_http_status ?r = hr_status resp" using decided(5) by (simp add: decision_record_def)
  moreover have "rc_outcome ?r = u (DecisionOutcome_value (ld_outcome d))" by (simp add: decision_record_def)
  moreover have "u (DecisionOutcome_value (ld_outcome d)) = u (DecisionOutcome_value PERMIT) \<longleftrightarrow> ld_outcome d = PERMIT"
    by (cases "ld_outcome d") simp_all
  ultimately show ?thesis
    using decided(5) error_ne_outcome [of "ld_outcome d"] by (auto simp: decision_status_def)
next
  case (failed r)
  then show ?thesis by auto
qed

text \<open>
  Claim C31: the service always answers. If the client can be written to, every command,
  path and header list gets a response, also when a clock, the adapter or the file system
  raises; its status is 200, 403 or 503, its content length is the length of the body of
  the response, and the bytes sent are that body, or none to a HEAD request.
\<close>
theorem authz_always_answers:
  shows "\<exists>sent app' body. authz_serve ed limit env True app command path headers = (Some sent, app')
     \<and> sn_status sent \<in> {200, 403, 503}
     \<and> (u ''content-length'', nat_digits (length body)) \<in> set (sn_headers sent)
     \<and> sn_body sent = (if command = u ''HEAD'' then [] else body)"
proof -
  obtain resp app' where r: "authz_serve ed limit env True app command path headers = (Some (send_response command resp), app')"
    "resp = unavailable \<or> (\<exists>request. authz_handle ed limit env app request = (Inr resp, app'))"
  proof -
    let ?m = "if command \<notin> set (map u HANDLED_METHODS) then (Inr unavailable, app)
            else case make_HttpRequest command path headers [] of
              Inl _ \<Rightarrow> (Inr unavailable, app)
            | Inr request \<Rightarrow> authz_handle ed limit env app request"
    obtain res app1 where m: "?m = (res, app1)" by (cases ?m)
    have s: "authz_serve ed limit env True app command path headers
        = (Some (send_response command (case res of Inl _ \<Rightarrow> unavailable | Inr r \<Rightarrow> r)), app1)"
      unfolding authz_serve_def m by simp
    show thesis
      by (rule that [OF s]) (use m in \<open>cases res; auto split: if_splits sum.splits\<close>)
  qed
  have "hr_status resp \<in> {200, 403, 503}"
    using r(2)
  proof (elim disjE exE)
    fix request assume h: "authz_handle ed limit env app request = (Inr resp, app')"
    show ?thesis
    proof (cases "is_health request")
      case True
      then show ?thesis using h by (auto simp: authz_handle_def unavailable_def split: if_splits)
    next
      case False
      with h show ?thesis by (cases rule: authz_handle_cases) (auto simp: decision_status_def)
    qed
  qed (simp add: unavailable_def)
  with r(1) show ?thesis
    by (intro exI [of _ "send_response command resp"] exI [of _ app'] exI [of _ "hr_body resp"])
      (simp add: send_response_def)
qed

subsection \<open>A served request, for the witnesses\<close>

definition sample_server_fixture :: ServerFixture where
  "sample_server_fixture = \<lparr>sf_request_id = u ''r1'', sf_method = u ''GET'', sf_path = u ''/benign/read'',
     sf_identity = u ''agent'', sf_authority_class = u ''ops'', sf_action_class = u ''read'',
     sf_expected_authorization_sha256 = sha256_hex (text_bytes ''Bearer t''), sf_policy_allows_action = True,
     sf_local_evidence = None, sf_reduction_profile = None\<rparr>"

definition sample_app :: AuthorizationHttpApp where
  "sample_app = \<lparr>hp_adapter = baseline_adapter, hp_fixtures = [(u ''r1'', sample_server_fixture)],
     hp_recorder = False, hp_records = [], hp_file = None\<rparr>"

definition sample_append_env :: AppendEnv where
  "sample_append_env = \<lparr>ae_open = None, ae_write = (\<lambda>_. Inr 100), ae_fsync = None, ae_close = None\<rparr>"

definition sample_request_env :: RequestEnv where
  "sample_request_env = \<lparr>re_clock_s = Inr 105, re_monotonic_ns = Inr 1, re_append = sample_append_env,
     re_error_monotonic_ns = Inr 2, re_error_append = sample_append_env\<rparr>"

definition sample_headers :: "(pstr \<times> pstr) list" where
  "sample_headers = [(u ''X-Request-Id'', u ''r1''), (u ''Authorization'', u ''Bearer t'')]"

definition sample_http_request :: HttpRequest where
  "sample_http_request = \<lparr>hq_method = u ''GET'', hq_path = u ''/benign/read'', hq_headers = sample_headers, hq_body = []\<rparr>"

lemma sample_http_request_built:
  "make_HttpRequest (u ''GET'') (u ''/benign/read'') sample_headers [] = Inr sample_http_request"
  "\<not> is_health sample_http_request"
  "checked_groups sample_http_request = Inr (group_headers sample_headers)"
  by code_simp+

lemma sample_groups:
  "group_get (group_headers sample_headers) (u ''authorization'') = [u ''Bearer t'']"
  "group_get (group_headers sample_headers) (u ''x-kil-q-state'') = []"
  "safe_request_id (group_headers sample_headers) = Some (u ''r1'')"
  "untrusted_names (group_headers sample_headers) = []"
  by code_simp+

definition sample_facts :: LiveFixture where
  "sample_facts = \<lparr>lf_request = \<lparr>ar_request_id = u ''r1'', ar_identity = u ''agent'', ar_authority_class = u ''ops'',
     ar_timestamp_s = 105\<rparr>, lf_action_class = u ''read'', lf_credential_valid = True, lf_policy_allows_action = True,
     lf_q_state_jws = None, lf_local_evidence = None, lf_reduction_profile = None, lf_untrusted_headers = []\<rparr>"

lemma sample_live_fixture:
  "live_fixture sample_request_env (group_headers sample_headers) (u ''r1'') sample_server_fixture = Inr sample_facts"
proof -
  have "utf8_encode (u ''Bearer t'') = Inr (text_bytes ''Bearer t'')" by code_simp
  then have c: "credential_matches sample_server_fixture (group_headers sample_headers) = Inr True"
    by (simp add: credential_matches_def sample_groups sample_server_fixture_def)
  have a: "make_ActionRequest (PStr (u ''r1'')) (PStr (u ''agent'')) (PStr (u ''ops'')) (PInt 105)
      = Inr \<lparr>ar_request_id = u ''r1'', ar_identity = u ''agent'', ar_authority_class = u ''ops'', ar_timestamp_s = 105\<rparr>"
    by code_simp
  have m: "make_LiveFixture sample_facts = Inr sample_facts" by code_simp
  show ?thesis
    unfolding live_fixture_def c sample_groups
    using a m by (simp add: sample_request_env_def sample_server_fixture_def sample_facts_def)
qed

lemma sample_served:
  obtains d where "decide_request sample_ed 100 sample_request_env sample_app sample_http_request
      (group_headers sample_headers) = Inr (u ''r1'', d)"
    "ld_outcome d = PERMIT" "hex64 (ld_decision_digest d)"
proof -
  have s: "select_fixture sample_app sample_http_request (group_headers sample_headers) = Inr (u ''r1'', sample_server_fixture)"
    by (simp add: select_fixture_def sample_groups sample_app_def sample_http_request_def)
      (simp add: sample_server_fixture_def)
  have "is_ok (adapter_result baseline_adapter sample_facts PERMIT [u ''baseline_permitted''] None)"
    by (rule adapter_result_ok) code_simp
  then obtain d where d: "adapter_result baseline_adapter sample_facts PERMIT [u ''baseline_permitted''] None = Inr d"
    by (auto simp: is_ok_iff)
  have "evaluate sample_ed 100 baseline_adapter sample_facts = Inr d"
    using d by (simp add: evaluate_def evaluate_baseline_def baseline_adapter_def ignored_reasons_def)
      (simp add: sample_facts_def)
  then have "decide_request sample_ed 100 sample_request_env sample_app sample_http_request
      (group_headers sample_headers) = Inr (u ''r1'', d)"
    by (simp add: decide_request_def s sample_live_fixture) (simp add: sample_app_def)
  with that adapter_result_Inr [OF d] show thesis by blast
qed

lemma sample_handled:
  obtains resp app' where "authz_handle sample_ed 100 sample_request_env sample_app sample_http_request = (Inr resp, app')"
    "hr_status resp = 200"
proof -
  obtain d where d: "decide_request sample_ed 100 sample_request_env sample_app sample_http_request
      (group_headers sample_headers) = Inr (u ''r1'', d)" "ld_outcome d = PERMIT" "hex64 (ld_decision_digest d)"
    by (rule sample_served)
  have "hq_body sample_http_request = []" "\<not> hp_recorder sample_app" "re_monotonic_ns sample_request_env = Inr 1"
    by (simp_all add: sample_http_request_def sample_app_def sample_request_env_def)
  then show thesis
    using that d(2) authz_handle_decided [OF sample_http_request_built(3) _ sample_http_request_built(2) d(1,3)]
    by (auto simp: decision_status_def)
qed

theorem authz_one_record_witness:
  "\<exists>resp app'. authz_handle sample_ed 100 sample_request_env sample_app sample_http_request = (Inr resp, app')
     \<and> hr_status resp = 200 \<and> (\<exists>r. hp_records app' = [r] \<and> rc_http_status r = 200)"
proof -
  obtain resp app' where h: "authz_handle sample_ed 100 sample_request_env sample_app sample_http_request = (Inr resp, app')"
    "hr_status resp = 200"
    by (rule sample_handled)
  from authz_one_record [OF h(1) sample_http_request_built(2)] h show ?thesis
    by (auto simp: sample_app_def)
qed

theorem authz_allows_sound_witness:
  "\<exists>sent app' facts d. authz_serve sample_ed 100 sample_request_env True sample_app (u ''GET'') (u ''/benign/read'')
       sample_headers = (Some sent, app') \<and> sn_status sent = 200
     \<and> evaluate sample_ed 100 baseline_adapter facts = Inr d \<and> ld_outcome d = PERMIT
     \<and> (u ''x-kil-decision-digest'', ld_decision_digest d) \<in> set (sn_headers sent)"
proof -
  obtain resp app' where h: "authz_handle sample_ed 100 sample_request_env sample_app sample_http_request = (Inr resp, app')"
    "hr_status resp = 200"
    by (rule sample_handled)
  have "u ''GET'' \<in> set (map u HANDLED_METHODS)" by (simp add: HANDLED_METHODS_def)
  then have s: "authz_serve sample_ed 100 sample_request_env True sample_app (u ''GET'') (u ''/benign/read'') sample_headers
      = (Some (send_response (u ''GET'') resp), app')"
    using sample_http_request_built(1) h by (simp add: authz_serve_def)
  have "sn_status (send_response (u ''GET'') resp) = 200" using h(2) by (simp add: send_response_def)
  from authz_allows_sound [OF s this] this s show ?thesis
    by (auto simp: decided_by_def sample_app_def)
qed

end
