(* ===== verification/KilAuthzConfig.thy ===== *)
theory KilAuthzConfig
  imports KilAuthzHttp
begin

text \<open>
  \<^verbatim>\<open>src/kil/ext_authz_http.py\<close>, the loader of the closed, read-only configuration of the
  authorization service. \<open>key_ok\<close> stands for the check of
  \<^verbatim>\<open>Ed25519PublicKey.from_public_bytes\<close> (it raises a \<^verbatim>\<open>ValueError\<close> on bytes that are no raw
  public key), \<open>paths\<close> for what the file system says of a path.
\<close>

definition AUTHZ_CONFIG_SCHEMA :: string where "AUTHZ_CONFIG_SCHEMA = ''kil.v3b-authz-http.v1''"
definition MAX_CONFIG_BYTES :: nat where "MAX_CONFIG_BYTES = 1024 * 1024"
definition MAX_FIXTURES :: nat where "MAX_FIXTURES = 10000"
definition MAX_PUBLIC_KEYS :: nat where "MAX_PUBLIC_KEYS = 32"

record PathFacts =
  pf_absolute :: bool
  pf_parent_dir :: bool
  pf_symlink :: bool

definition make_JsonlDecisionRecorder :: "PathFacts \<Rightarrow> unit res" where
  "make_JsonlDecisionRecorder p =
     (if \<not> pf_absolute p then Inl (ValueError ''record path must be absolute'')
      else if \<not> pf_parent_dir p then Inl (ValueError ''record parent directory must exist'')
      else if pf_symlink p then Inl (ValueError ''record path must not be a symbolic link'')
      else Inr ())"

definition exact_fields :: "string \<Rightarrow> pyval \<Rightarrow> string list \<Rightarrow> pydict res" where
  "exact_fields name v expected = (case v of
     PDict d \<Rightarrow>
       if has_unknown d expected then Inl (ConfigError (''unknown '' @ name @ '' fields''))
       else if has_missing d expected then Inl (ConfigError (''missing '' @ name @ '' fields''))
       else Inr d
   | _ \<Rightarrow> Inl (ConfigError (name @ '' must be an object'')))"

definition config_string :: "string \<Rightarrow> pyval \<Rightarrow> pstr res" where
  "config_string name v = rewrap ConfigError (require_identifier name v)"

definition config_decimal :: "string \<Rightarrow> pyval \<Rightarrow> decimal res" where
  "config_decimal name v = (case v of
     PStr s \<Rightarrow>
       if decimal_text s then
         (case parse_decimal s of
            None \<Rightarrow> Inl (ConfigError (name @ '' must be a canonical decimal'')) | Some d \<Rightarrow> Inr d)
       else Inl (ConfigError (name @ '' must be a canonical nonnegative decimal''))
   | _ \<Rightarrow> Inl (ConfigError (name @ '' must be a canonical nonnegative decimal'')))"

text \<open>The text field \<open>key\<close> of an item, through \<^verbatim>\<open>_config_string\<close>.\<close>

definition config_field :: "pydict \<Rightarrow> string \<Rightarrow> pstr res" where
  "config_field item key = bind_r (dict_item item key) (config_string key)"

definition optional_local_evidence :: "pyval \<Rightarrow> LocalEvidence option res" where
  "optional_local_evidence v =
     (if v = PNone then Inr None
      else bind_r (exact_fields ''local_evidence'' v [''divergence'', ''coupled_loss'', ''fresh'']) (\<lambda>item.
        bind_r (dict_item item ''fresh'') (\<lambda>fresh.
        bind_r (case fresh of PBool b \<Rightarrow> Inr b
          | _ \<Rightarrow> Inl (ConfigError ''local_evidence.fresh must be a boolean'')) (\<lambda>b.
        rewrap ConfigError
          (bind_r (bind_r (dict_item item ''divergence'') (config_decimal ''local_evidence.divergence'')) (\<lambda>dv.
           bind_r (bind_r (dict_item item ''coupled_loss'') (config_decimal ''local_evidence.coupled_loss'')) (\<lambda>cl.
           bind_r (make_LocalEvidence (PDec dv) (PDec cl) (PBool b)) (\<lambda>e. Inr (Some e)))))))))"

definition optional_reduction_profile :: "pyval \<Rightarrow> ReductionProfile option res" where
  "optional_reduction_profile v =
     (if v = PNone then Inr None
      else bind_r (exact_fields ''reduction_profile'' v [''divergence_threshold'', ''loss_rate'', ''exponent'']) (\<lambda>item.
        bind_r (dict_item item ''exponent'') (\<lambda>exponent.
        bind_r (case exponent of PInt n \<Rightarrow> Inr n
          | _ \<Rightarrow> Inl (ConfigError ''reduction_profile.exponent must be an integer'')) (\<lambda>n.
        rewrap ConfigError
          (bind_r (bind_r (dict_item item ''divergence_threshold'')
             (config_decimal ''reduction_profile.divergence_threshold'')) (\<lambda>th.
           bind_r (bind_r (dict_item item ''loss_rate'') (config_decimal ''reduction_profile.loss_rate'')) (\<lambda>lr.
           bind_r (make_ReductionProfile (PDec th) (PDec lr) (PInt n)) (\<lambda>p. Inr (Some p)))))))))"

definition add_public_key ::
    "(bytes \<Rightarrow> bool) \<Rightarrow> (pstr \<times> bytes) list \<Rightarrow> pyval \<Rightarrow> (pstr \<times> bytes) list res" where
  "add_public_key key_ok keys raw_item =
     bind_r (exact_fields ''public key'' raw_item [''key_id'', ''raw_base64url'']) (\<lambda>item.
     bind_r (config_field item ''key_id'') (\<lambda>identifier.
     bind_r (config_field item ''raw_base64url'') (\<lambda>encoded.
     if 61 \<in> set encoded \<or> \<not> list_all is_b64url encoded
     then Inl (ConfigError ''public key must use canonical base64url'')
     else case b64decode (encoded @ b64_padding encoded) of
       Inl _ \<Rightarrow> Inl (ConfigError ''public key is not a valid Ed25519 key'')
     | Inr raw_key \<Rightarrow>
         if \<not> key_ok raw_key then Inl (ConfigError ''public key is not a valid Ed25519 key'')
         else if key_id raw_key \<noteq> identifier
         then Inl (ConfigError ''public key identifier does not match key bytes'')
         else if identifier \<in> set (map fst keys) then Inl (ConfigError ''duplicate public key identifier'')
         else Inr (keys @ [(identifier, raw_key)]))))"

definition load_public_keys :: "(bytes \<Rightarrow> bool) \<Rightarrow> pyval \<Rightarrow> (pstr \<times> bytes) list res" where
  "load_public_keys key_ok v = (case v of
     PList items \<Rightarrow>
       if length items > MAX_PUBLIC_KEYS then Inl (ConfigError ''public_keys must be a bounded list'')
       else fold_r (add_public_key key_ok) [] items
   | _ \<Rightarrow> Inl (ConfigError ''public_keys must be a bounded list''))"

definition FIXTURE_FIELDS :: "string list" where
  "FIXTURE_FIELDS = [''request_id'', ''method'', ''path'', ''identity'', ''authority_class'', ''action_class'',
     ''expected_authorization_sha256'', ''policy_allows_action'', ''local_evidence'', ''reduction_profile'']"

definition add_fixture :: "(pstr \<times> ServerFixture) list \<Rightarrow> pyval \<Rightarrow> (pstr \<times> ServerFixture) list res" where
  "add_fixture fixtures raw_item =
     bind_r (exact_fields ''fixture'' raw_item FIXTURE_FIELDS) (\<lambda>item.
     bind_r (dict_item item ''policy_allows_action'') (\<lambda>policy.
     bind_r (case policy of PBool b \<Rightarrow> Inr b
       | _ \<Rightarrow> Inl (ConfigError ''policy_allows_action must be a boolean'')) (\<lambda>allows.
     bind_r (rewrap ConfigError
       (bind_r (config_field item ''request_id'') (\<lambda>rid.
        bind_r (config_field item ''method'') (\<lambda>mth.
        bind_r (config_field item ''path'') (\<lambda>path.
        bind_r (config_field item ''identity'') (\<lambda>identity.
        bind_r (config_field item ''authority_class'') (\<lambda>cls.
        bind_r (config_field item ''action_class'') (\<lambda>act.
        bind_r (config_field item ''expected_authorization_sha256'') (\<lambda>digest.
        bind_r (bind_r (dict_item item ''local_evidence'') optional_local_evidence) (\<lambda>le.
        bind_r (bind_r (dict_item item ''reduction_profile'') optional_reduction_profile) (\<lambda>rp.
        make_ServerFixture \<lparr>sf_request_id = rid, sf_method = mth, sf_path = path, sf_identity = identity,
          sf_authority_class = cls, sf_action_class = act, sf_expected_authorization_sha256 = digest,
          sf_policy_allows_action = allows, sf_local_evidence = le, sf_reduction_profile = rp\<rparr>))))))))))) (\<lambda>fixture.
     if sf_request_id fixture \<in> set (map fst fixtures) then Inl (ConfigError ''duplicate fixture request_id'')
     else Inr (fixtures @ [(sf_request_id fixture, fixture)])))))"

definition load_fixtures :: "pyval \<Rightarrow> (pstr \<times> ServerFixture) list res" where
  "load_fixtures v = (case v of
     PList items \<Rightarrow>
       if items = [] \<or> length items > MAX_FIXTURES
       then Inl (ConfigError ''fixtures must be a nonempty bounded list'')
       else fold_r add_fixture [] items
   | _ \<Rightarrow> Inl (ConfigError ''fixtures must be a nonempty bounded list''))"

definition load_revoked :: "pyval \<Rightarrow> pstr set res" where
  "load_revoked v = (case v of
     PList items \<Rightarrow>
       if list_ex (\<lambda>x. \<not> is_str x \<or> x = PStr []) items
       then Inl (ConfigError ''revoked_state_ids must be a list of identifiers'')
       else if \<not> distinct items then Inl (ConfigError ''revoked_state_ids must be unique'')
       else Inr (set (map str_of items))
   | _ \<Rightarrow> Inl (ConfigError ''revoked_state_ids must be a list of identifiers''))"

record AuthorizationServiceRuntime =
  rt_app :: AuthorizationHttpApp
  rt_bind_host :: string
  rt_bind_port :: int

definition AUTHZ_CONFIG_FIELDS :: "string list" where
  "AUTHZ_CONFIG_FIELDS = [''schema_version'', ''track'', ''bind_host'', ''bind_port'', ''records_path'',
     ''public_keys'', ''revoked_state_ids'', ''fixtures'']"

definition load_service_config ::
    "(bytes \<Rightarrow> bool) \<Rightarrow> nat \<Rightarrow> (pstr \<Rightarrow> PathFacts) \<Rightarrow> (pstr \<Rightarrow> log_file) \<Rightarrow> ConfigFile \<Rightarrow>
     AuthorizationServiceRuntime res" where
  "load_service_config key_ok limit paths files file =
     bind_r (load_config_value ConfigError MAX_CONFIG_BYTES limit file) (\<lambda>raw.
     bind_r (exact_fields ''config'' raw AUTHZ_CONFIG_FIELDS) (\<lambda>cfg.
     bind_r (dict_item cfg ''schema_version'') (\<lambda>version.
     bind_r (ensure (version = PStr (u AUTHZ_CONFIG_SCHEMA)) (ConfigError ''unsupported config schema_version'')) (\<lambda>_.
     bind_r (rewrap (\<lambda>_. ConfigError ''track must be a fixed LiveTrack value'')
       (bind_r (config_field cfg ''track'') (\<lambda>s. case track_of_value s of
          None \<Rightarrow> Inl (ValueError ''not a valid LiveTrack'') | Some t \<Rightarrow> Inr t))) (\<lambda>trk.
     bind_r (dict_item cfg ''bind_host'') (\<lambda>host.
     bind_r (ensure (host = PStr (u ''0.0.0.0'')) (ConfigError ''bind_host must be 0.0.0.0 inside the container'')) (\<lambda>_.
     bind_r (dict_item cfg ''bind_port'') (\<lambda>port.
     bind_r (ensure (port = PInt 8080) (ConfigError ''bind_port must be 8080'')) (\<lambda>_.
     bind_r (config_field cfg ''records_path'') (\<lambda>records_path.
     bind_r (rewrap ConfigError (make_JsonlDecisionRecorder (paths records_path))) (\<lambda>_.
     bind_r (bind_r (dict_item cfg ''public_keys'') (load_public_keys key_ok)) (\<lambda>keys.
     bind_r (bind_r (dict_item cfg ''revoked_state_ids'') load_revoked) (\<lambda>revoked.
     bind_r (rewrap ConfigError
       (bind_r (make_AuthorizationAdapter trk (Some keys) revoked) (\<lambda>adapter.
        bind_r (bind_r (dict_item cfg ''fixtures'') load_fixtures) (\<lambda>fixtures.
        make_AuthorizationHttpApp adapter fixtures True (files records_path))))) (\<lambda>app.
     Inr \<lparr>rt_app = app, rt_bind_host = ''0.0.0.0'', rt_bind_port = 8080\<rparr>))))))))))))))"

subsection \<open>What a loaded configuration satisfies\<close>

definition wf_ServerFixture :: "ServerFixture \<Rightarrow> bool" where
  "wf_ServerFixture f \<longleftrightarrow> request_id_text (sf_request_id f) \<and> method_text (sf_method f)
     \<and> starts_with [47] (sf_path f) \<and> (\<exists>n. path_size (sf_path f) = Inr n \<and> n \<le> MAX_PATH_BYTES)
     \<and> nonblank (sf_identity f) \<and> nonblank (sf_authority_class f) \<and> nonblank (sf_action_class f)
     \<and> hex64 (sf_expected_authorization_sha256 f)
     \<and> wf_evidence (sf_local_evidence f) (sf_reduction_profile f)"

definition wf_keys :: "(bytes \<Rightarrow> bool) \<Rightarrow> (pstr \<times> bytes) list \<Rightarrow> bool" where
  "wf_keys key_ok keys \<longleftrightarrow> distinct (map fst keys) \<and> (\<forall>(kid, k) \<in> set keys. kid = key_id k \<and> key_ok k)"

definition wf_fixtures :: "(pstr \<times> ServerFixture) list \<Rightarrow> bool" where
  "wf_fixtures fixtures \<longleftrightarrow> distinct (map fst fixtures)
     \<and> (\<forall>(rid, f) \<in> set fixtures. rid = sf_request_id f \<and> wf_ServerFixture f)"

definition wf_runtime :: "(bytes \<Rightarrow> bool) \<Rightarrow> AuthorizationServiceRuntime \<Rightarrow> bool" where
  "wf_runtime key_ok rt \<longleftrightarrow> rt_bind_host rt = ''0.0.0.0'' \<and> rt_bind_port rt = 8080
     \<and> wf_adapter (hp_adapter (rt_app rt)) \<and> wf_keys key_ok (aa_keys (hp_adapter (rt_app rt)))
     \<and> length (aa_keys (hp_adapter (rt_app rt))) \<le> MAX_PUBLIC_KEYS
     \<and> hp_fixtures (rt_app rt) \<noteq> [] \<and> length (hp_fixtures (rt_app rt)) \<le> MAX_FIXTURES
     \<and> wf_fixtures (hp_fixtures (rt_app rt)) \<and> hp_recorder (rt_app rt) \<and> hp_records (rt_app rt) = []"

lemma optional_evidence_wf:
  "optional_local_evidence v = Inr le \<Longrightarrow> optional_reduction_profile w = Inr rp \<Longrightarrow> wf_evidence le rp"
proof -
  assume "optional_local_evidence v = Inr le" "optional_reduction_profile w = Inr rp"
  then have "\<forall>e. le = Some e \<longrightarrow> wf_LocalEvidence e" "\<forall>p. rp = Some p \<longrightarrow> wf_ReductionProfile p"
    by (auto simp: optional_local_evidence_def optional_reduction_profile_def make_LocalEvidence_Inr
        make_ReductionProfile_Inr split: if_splits)
  then show ?thesis by (simp add: wf_evidence_def)
qed

lemma make_ServerFixture_Inr:
  "make_ServerFixture f = Inr g \<Longrightarrow> g = f
     \<and> (wf_evidence (sf_local_evidence f) (sf_reduction_profile f) \<longrightarrow> wf_ServerFixture f)"
  by (auto simp: make_ServerFixture_def wf_ServerFixture_def kil_defs)

lemma add_fixture_Inr:
  assumes "add_fixture fixtures raw = Inr fixtures'"
  obtains f where "fixtures' = fixtures @ [(sf_request_id f, f)]" "wf_ServerFixture f"
    "sf_request_id f \<notin> set (map fst fixtures)"
proof -
  from assms obtain a1 a2 a3 a4 a5 a6 a7 a8 le rp v w f where
    f: "make_ServerFixture \<lparr>sf_request_id = a1, sf_method = a2, sf_path = a3, sf_identity = a4,
      sf_authority_class = a5, sf_action_class = a6, sf_expected_authorization_sha256 = a7,
      sf_policy_allows_action = a8, sf_local_evidence = le, sf_reduction_profile = rp\<rparr> = Inr f"
    "optional_local_evidence v = Inr le" "optional_reduction_profile w = Inr rp"
    and rest: "(if sf_request_id f \<in> set (map fst fixtures) then Inl (ConfigError ''duplicate fixture request_id'')
     else Inr (fixtures @ [(sf_request_id f, f)])) = Inr fixtures'"
    unfolding add_fixture_def rewrap_eq_Inr by (elim bind_rE) (simp only: rewrap_eq_Inr, elim bind_rE, blast)
  have "wf_ServerFixture f"
    using make_ServerFixture_Inr [OF f(1)] optional_evidence_wf [OF f(2,3)] by simp
  with rest that show thesis by (auto split: if_splits)
qed

lemma load_fixtures_wf:
  assumes "load_fixtures v = Inr fixtures"
  shows "fixtures \<noteq> [] \<and> length fixtures \<le> MAX_FIXTURES \<and> wf_fixtures fixtures"
proof -
  obtain items where items: "items \<noteq> []" "length items \<le> MAX_FIXTURES" "fold_r add_fixture [] items = Inr fixtures"
    using assms by (auto simp: load_fixtures_def not_less split: pyval.splits if_splits)
  have "fold_r add_fixture fs xs = Inr gs \<Longrightarrow> wf_fixtures fs \<Longrightarrow> wf_fixtures gs \<and> length gs = length fs + length xs" for fs xs gs
  proof (induction xs arbitrary: fs)
    case (Cons x xs)
    from Cons.prems(1) obtain fs1 where fs1: "add_fixture fs x = Inr fs1" "fold_r add_fixture fs1 xs = Inr gs" by auto
    obtain f where f: "fs1 = fs @ [(sf_request_id f, f)]" "wf_ServerFixture f" "sf_request_id f \<notin> set (map fst fs)"
      by (rule add_fixture_Inr [OF fs1(1)])
    then have "wf_fixtures fs1" using Cons.prems(2) by (auto simp: wf_fixtures_def)
    with Cons.IH [OF fs1(2)] f(1) show ?case by simp
  qed simp
  from this [OF items(3)] items(1,2) show ?thesis by (auto simp: wf_fixtures_def)
qed

lemma load_public_keys_wf:
  assumes "load_public_keys key_ok v = Inr keys"
  shows "length keys \<le> MAX_PUBLIC_KEYS \<and> wf_keys key_ok keys"
proof -
  obtain items where items: "length items \<le> MAX_PUBLIC_KEYS" "fold_r (add_public_key key_ok) [] items = Inr keys"
    using assms by (auto simp: load_public_keys_def not_less split: pyval.splits if_splits)
  have "fold_r (add_public_key key_ok) ks xs = Inr ls \<Longrightarrow> wf_keys key_ok ks \<Longrightarrow>
      wf_keys key_ok ls \<and> length ls = length ks + length xs" for ks xs ls
  proof (induction xs arbitrary: ks)
    case (Cons x xs)
    from Cons.prems(1) obtain ks1 where ks1: "add_public_key key_ok ks x = Inr ks1"
      "fold_r (add_public_key key_ok) ks1 xs = Inr ls" by auto
    obtain k where k: "ks1 = ks @ [(key_id k, k)]" "key_ok k" "key_id k \<notin> set (map fst ks)"
      using ks1(1) by (auto simp: add_public_key_def split: if_splits sum.splits)
    then have "wf_keys key_ok ks1" using Cons.prems(2) by (auto simp: wf_keys_def)
    with Cons.IH [OF ks1(2)] k(1) show ?case by simp
  qed simp
  from this [OF items(2)] items(1) show ?thesis by (auto simp: wf_keys_def)
qed

lemma load_service_config_Inr:
  assumes "load_service_config key_ok limit paths files file = Inr rt"
  obtains trk keys revoked adapter fixtures v w existing where
    "load_public_keys key_ok v = Inr keys" "make_AuthorizationAdapter trk (Some keys) revoked = Inr adapter"
    "load_fixtures w = Inr fixtures" "make_AuthorizationHttpApp adapter fixtures True existing = Inr (rt_app rt)"
    "rt_bind_host rt = ''0.0.0.0''" "rt_bind_port rt = 8080"
  using assms that unfolding load_service_config_def
  by (elim bind_rE) (simp only: rewrap_eq_Inr, elim bind_rE, auto)

lemma make_AuthorizationHttpApp_Inr:
  "make_AuthorizationHttpApp adapter fixtures recorder existing = Inr app \<Longrightarrow>
     app = \<lparr>hp_adapter = adapter, hp_fixtures = fixtures, hp_recorder = recorder, hp_records = [], hp_file = existing\<rparr>"
  by (auto simp: make_AuthorizationHttpApp_def split: if_splits)

lemma make_AuthorizationAdapter_keys:
  "make_AuthorizationAdapter t (Some ks) r = Inr a \<Longrightarrow> aa_keys a = ks \<and> wf_adapter a"
  by (auto simp: make_AuthorizationAdapter_def wf_adapter_def Let_def split: if_splits)

lemma loaded_runtime_wf:
  assumes "load_service_config key_ok limit paths files file = Inr rt"
  shows "wf_runtime key_ok rt"
  by (rule load_service_config_Inr [OF assms])
    (drule load_public_keys_wf make_AuthorizationAdapter_keys load_fixtures_wf make_AuthorizationHttpApp_Inr,
     drule make_AuthorizationAdapter_keys, drule load_fixtures_wf, drule make_AuthorizationHttpApp_Inr,
     simp add: wf_runtime_def)

subsection \<open>What the loader raises\<close>

definition config_error :: "pyexc \<Rightarrow> bool" where
  "config_error e \<longleftrightarrow> (\<exists>s. e = ConfigError s)"

lemma config_error_simps [simp]: "config_error (ConfigError s)" "\<not> config_error RecursionError"
  by (simp_all add: config_error_def)

lemma config_error_value: "config_error e \<Longrightarrow> is_value_error e"
  by (auto simp: config_error_def)

lemma exact_fields_raises [raises]: "only_raises config_error (exact_fields name v ks)"
  by (auto simp: exact_fields_def split: pyval.splits)

lemma exact_fields_item:
  "exact_fields name v ks = Inr d \<Longrightarrow> k \<in> set ks \<Longrightarrow> only_raises P (dict_item d k)"
  using keys_exact_item [of d ks k]
  by (auto simp: exact_fields_def keys_exact_def split: pyval.splits if_splits)

lemma config_string_raises [raises]: "only_raises config_error (config_string name v)"
  unfolding config_string_def by (intro rewrap_raises raises) simp

lemma config_decimal_raises [raises]: "only_raises config_error (config_decimal name v)"
  by (auto simp: config_decimal_def split: pyval.splits option.splits)

lemma config_field_raises:
  "exact_fields name v ks = Inr d \<Longrightarrow> k \<in> set ks \<Longrightarrow> only_raises config_error (config_field d k)"
  unfolding config_field_def by (intro only_raises_bind raises) (rule exact_fields_item)

lemmas config_value_raises = only_raises_weaken [OF _ config_error_value]

lemma make_ReductionProfile_raises: "only_raises is_value_error (make_ReductionProfile a b c)"
  unfolding make_ReductionProfile_def by (rule raises | simp)+

lemma optional_evidence_raises [raises]:
  "only_raises config_error (optional_local_evidence v)" "only_raises config_error (optional_reduction_profile v)"
  unfolding optional_local_evidence_def optional_reduction_profile_def
  by ((intro only_raises_if only_raises_bind rewrap_raises exact_fields_raises
        config_value_raises [OF config_decimal_raises] make_raises make_ReductionProfile_raises
      | erule exact_fields_item | simp split: pyval.splits)+)

lemma add_fixture_raises: "only_raises config_error (add_fixture fixtures raw)"
  unfolding add_fixture_def FIXTURE_FIELDS_def make_ServerFixture_def path_size_def utf8_encode_def
  by ((intro only_raises_if only_raises_bind rewrap_raises exact_fields_raises require_raises
        config_value_raises [OF optional_evidence_raises(1)] config_value_raises [OF optional_evidence_raises(2)]
      | erule exact_fields_item | rule config_value_raises, erule config_field_raises | simp split: pyval.splits)+)

lemma fold_raises: "(\<And>s x. only_raises P (f s x)) \<Longrightarrow> only_raises P (fold_r f s xs)"
  by (induction xs arbitrary: s) (auto intro!: only_raises_bind)

lemma load_fixtures_raises: "only_raises config_error (load_fixtures v)"
  by (auto simp: load_fixtures_def split: pyval.splits intro: fold_raises [OF add_fixture_raises])

lemma add_public_key_raises: "only_raises config_error (add_public_key key_ok keys raw)"
  unfolding add_public_key_def
  by ((intro only_raises_if only_raises_bind exact_fields_raises
      | erule config_field_raises | simp split: sum.splits)+)

lemma load_public_keys_raises: "only_raises config_error (load_public_keys key_ok v)"
  by (auto simp: load_public_keys_def split: pyval.splits intro: fold_raises [OF add_public_key_raises])

lemma load_revoked_raises: "only_raises config_error (load_revoked v)"
  by (auto simp: load_revoked_def split: pyval.splits)

lemma load_config_value_raises:
  assumes "load_config_value err max_bytes limit file = Inl e"
  shows "(\<exists>s. e = err s) \<or> e = RecursionError \<or> e = ValueError ''Exceeds the limit for integer string conversion''
     \<or> cf_content file = Inl e \<and> \<not> is_os_error e"
proof -
  have loads: "json_loads (closed_hook (err s)) limit w = Inl e \<Longrightarrow> json_error e \<or> e = err s" for s w e
    by (drule json_loads_error) (auto simp: closed_hook_def split: if_splits)
  show ?thesis
    using assms
    by (auto simp: load_config_value_def try_r_def bind_r_eq_Inl utf8_decode_def json_error_def
        dest!: loads split: if_splits sum.splits option.splits)
qed

lemma service_config_rest_raises:
  assumes "exact_fields ''config'' raw AUTHZ_CONFIG_FIELDS = Inr cfg" "k \<in> set AUTHZ_CONFIG_FIELDS"
  shows "only_raises config_error (dict_item cfg k)" "only_raises config_error (config_field cfg k)"
  using exact_fields_item [OF assms] config_field_raises [OF assms] by blast+

lemma service_config_raises:
  assumes "load_config_value ConfigError MAX_CONFIG_BYTES limit file = Inr raw"
  shows "only_raises config_error (load_service_config key_ok limit paths files file)"
  unfolding load_service_config_def assms bind_r_Inr make_JsonlDecisionRecorder_def make_AuthorizationAdapter_def
    make_AuthorizationHttpApp_def Let_def
  by ((intro only_raises_if only_raises_bind rewrap_raises exact_fields_raises load_revoked_raises load_public_keys_raises
        config_value_raises [OF load_fixtures_raises]
      | erule service_config_rest_raises(1)
      | rule config_value_raises, erule service_config_rest_raises(2)
      | rule config_value_raises, erule service_config_rest_raises(1)
      | erule service_config_rest_raises(2)
      | simp add: AUTHZ_CONFIG_FIELDS_def split: pyval.splits option.splits)+)

subsection \<open>Properties\<close>

text \<open>
  Claim C32: what a loaded configuration is. The runtime listens on 0.0.0.0:8080 and starts
  with no records; its adapter is well formed, with at most 32 keys, each under the
  identifier that is the digest of its bytes, no identifier twice; its fixtures are at least
  one and at most 10000, no request id twice, each well formed and filed under its own id:
  a bounded id, method and path, nonblank identity and classes, a digest, and evidence and
  profile in their ranges.
\<close>
theorem load_service_config_wf:
  assumes "load_service_config key_ok limit paths files file = Inr rt"
  shows "wf_runtime key_ok rt"
  by (rule loaded_runtime_wf [OF assms])

text \<open>
  How loading fails. A configuration that is not loaded raises a ConfigError,
  except that text nested too deeply raises RecursionError, an integer of more digits than
  Python converts a plain ValueError, and a failure of reading that is no OSError itself.
\<close>
theorem load_service_config_raises:
  assumes "load_service_config key_ok limit paths files file = Inl e"
  shows "(\<exists>s. e = ConfigError s) \<or> e = RecursionError
     \<or> e = ValueError ''Exceeds the limit for integer string conversion''
     \<or> cf_content file = Inl e \<and> \<not> is_os_error e"
proof (cases "load_config_value ConfigError MAX_CONFIG_BYTES limit file")
  case (Inl e')
  then have "e' = e" using assms by (simp add: load_service_config_def)
  with load_config_value_raises [OF Inl] show ?thesis by blast
next
  case (Inr raw)
  from only_raisesD [OF service_config_raises [OF Inr] assms] show ?thesis by (simp add: config_error_def)
qed

text \<open>
  Claim C15: a request a configured service allows on a KIL track, end to end. For a
  well-formed runtime on a track other than the baseline, whatever was recorded so far and
  whether or not records go to a file, if a
  request that is not the health check is answered 200, then its id header selected a
  fixture of the configuration, and its token header holds a token signed by a configured
  key, filed under the digest of its bytes, over the token's exact header and payload; the
  header names that key, and the claims decoded from that payload name the fixture's
  identity, authority class and action class and the track's audience, are not revoked, and
  are valid at the second the service's clock returned; and the engine, run on the facts of
  the request and the composite state built from those claims, permitted it, with vetoes
  clear, the envelope open and an effective charge that reaches the state's threshold.
\<close>
theorem authz_end_to_end:
  assumes "wf_runtime key_ok rt" "aa_track (hp_adapter (rt_app rt)) \<noteq> CREDENTIAL_POLICY_BASELINE"
    and "app = (rt_app rt)\<lparr>hp_recorder := recorder, hp_records := records, hp_file := content\<rparr>"
    and "authz_handle ed limit env app request = (Inr resp, app')" "\<not> is_health request" "hr_status resp = 200"
  shows "\<exists>rid f h p s k header payload claims state facts r.
     group_get (group_headers (hq_headers request)) (u ''x-request-id'') = [rid]
     \<and> (rid, f) \<in> set (hp_fixtures (rt_app rt)) \<and> hq_method request = sf_method f \<and> hq_path request = sf_path f
     \<and> group_get (group_headers (hq_headers request)) (u ''x-kil-q-state'') = [token_of h p s]
     \<and> (key_id k, k) \<in> set (aa_keys (hp_adapter (rt_app rt))) \<and> key_ok k \<and> ed_verify ed k s (signing_input_of h p)
     \<and> qs_json_object limit h ''protected header'' = Inr header \<and> check_header header = Inr (key_id k)
     \<and> qs_json_object limit p ''payload'' = Inr payload \<and> from_payload (PDict payload) = Inr claims
     \<and> qs_subject claims = sf_identity f \<and> qs_authority_class claims = sf_authority_class f
     \<and> qs_action_class claims = sf_action_class f
     \<and> qs_audience claims = u (TRACK_AUDIENCE (aa_track (hp_adapter (rt_app rt))))
     \<and> qs_state_id claims \<notin> aa_revoked_state_ids (hp_adapter (rt_app rt))
     \<and> (\<exists>now. re_clock_s env = Inr now \<and> qs_not_before_s claims \<le> now \<and> now < qs_expires_at_s claims)
     \<and> to_composite_state claims = Inr state
     \<and> live_fixture env (group_headers (hq_headers request)) rid f = Inr facts
     \<and> decide_track (aa_track (hp_adapter (rt_app rt))) facts state = Inr r \<and> dr_outcome r = PERMIT
     \<and> cs_veto_clear state \<and> cs_envelope_allows state \<and> \<not> d_less (dr_effective_charge r) (cs_threshold state)"
  using assms(4,5)
proof (cases rule: authz_handle_cases)
  case (decided grouped rid d ns)
  obtain f facts where sel: "select_fixture app request grouped = Inr (rid, f)"
    "live_fixture env grouped rid f = Inr facts" "evaluate ed limit (hp_adapter app) facts = Inr d"
    using decided(3) by (auto simp: decide_request_def split: prod.splits)
  have f: "(rid, f) \<in> set (hp_fixtures (rt_app rt))" "hq_method request = sf_method f" "hq_path request = sf_path f"
    "group_get grouped (u ''x-request-id'') = [rid]"
    using select_fixture_Inr [OF sel(1)] assms(3) by (auto dest: map_of_SomeD)
  have "wf_ServerFixture f" using assms(1) f(1) by (auto simp: wf_runtime_def wf_fixtures_def)
  then have wf: "wf_LiveFixture facts" and req: "ar_identity (lf_request facts) = sf_identity f"
      "ar_authority_class (lf_request facts) = sf_authority_class f" "lf_action_class facts = sf_action_class f"
      "re_clock_s env = Inr (ar_timestamp_s (lf_request facts))"
      "lf_q_state_jws facts = (case group_get grouped (u ''x-kil-q-state'') of [] \<Rightarrow> None | v # _ \<Rightarrow> Some v)"
    using sel(2)
    by (auto simp: live_fixture_def make_LiveFixture_def make_ActionRequest_Inr wf_LiveFixture_def
        wf_ServerFixture_def split: option.splits)
  have permit: "ld_outcome d = PERMIT" using decided(5) assms(6) by (simp add: decision_status_permit)
  have kil: "aa_track (hp_adapter app) \<noteq> CREDENTIAL_POLICY_BASELINE" using assms(2,3) by simp
  have g: "grouped = group_headers (hq_headers request)" "length (group_get grouped (u ''x-kil-q-state'')) \<le> 1"
    using checked_groups_Inr [OF decided(1)] by blast+
  show ?thesis
    using evaluate_permit_bound [OF wf kil sel(3) permit]
  proof (elim exE conjE)
    fix h p s k header payload r and v :: VerifiedQState
    assume b: "lf_q_state_jws facts = Some (token_of h p s)"
      "(vq_key_id v, k) \<in> set (aa_keys (hp_adapter app))" "ed_verify ed k s (signing_input_of h p)"
      "qs_subject (vq_claims v) = ar_identity (lf_request facts)"
      "qs_authority_class (vq_claims v) = ar_authority_class (lf_request facts)"
      "qs_action_class (vq_claims v) = lf_action_class facts"
      "qs_audience (vq_claims v) = u (TRACK_AUDIENCE (aa_track (hp_adapter app)))"
      "qs_state_id (vq_claims v) \<notin> aa_revoked_state_ids (hp_adapter app)"
      "qs_not_before_s (vq_claims v) \<le> ar_timestamp_s (lf_request facts)"
      "ar_timestamp_s (lf_request facts) < qs_expires_at_s (vq_claims v)"
      "qs_json_object limit h ''protected header'' = Inr header" "check_header header = Inr (vq_key_id v)"
      "qs_json_object limit p ''payload'' = Inr payload" "from_payload (PDict payload) = Inr (vq_claims v)"
      "to_composite_state (vq_claims v) = Inr (vq_composite_state v)" "dr_outcome r = PERMIT"
      "decide_track (aa_track (hp_adapter app)) facts (vq_composite_state v) = Inr r"
      "cs_veto_clear (vq_composite_state v)" "cs_envelope_allows (vq_composite_state v)"
      "\<not> d_less (dr_effective_charge r) (cs_threshold (vq_composite_state v))"
    have key: "vq_key_id v = key_id k" "key_ok k" using assms(1,3) b(2) by (auto simp: wf_runtime_def wf_keys_def)
    have tok: "group_get (group_headers (hq_headers request)) (u ''x-kil-q-state'') = [token_of h p s]"
      using b(1) req(5) g by (auto split: list.splits)
    show ?thesis
      by (rule exI [of _ rid], rule exI [of _ f], rule exI [of _ h], rule exI [of _ p], rule exI [of _ s],
          rule exI [of _ k], rule exI [of _ header], rule exI [of _ payload], rule exI [of _ "vq_claims v"],
          rule exI [of _ "vq_composite_state v"], rule exI [of _ facts], rule exI [of _ r])
        (use f b key g tok req sel(2) assms(3) in simp)
  qed
next
  case (failed r)
  then show ?thesis using assms(6) by simp
qed

subsection \<open>Witnesses\<close>

text \<open>A configuration for the baseline track.\<close>

definition sample_config_value :: pyval where
  "sample_config_value = PDict
     [(PStr (u ''bind_host''), PStr (u ''0.0.0.0'')), (PStr (u ''bind_port''), PInt 8080),
      (PStr (u ''fixtures''), PList [PDict
        [(PStr (u ''action_class''), PStr (u ''read'')), (PStr (u ''authority_class''), PStr (u ''ops'')),
         (PStr (u ''expected_authorization_sha256''), PStr (replicate 64 97)),
         (PStr (u ''identity''), PStr (u ''agent'')),
         (PStr (u ''local_evidence''), PDict [(PStr (u ''coupled_loss''), PStr (u ''0'')),
           (PStr (u ''divergence''), PStr (u ''0.25'')), (PStr (u ''fresh''), PBool True)]),
         (PStr (u ''method''), PStr (u ''GET'')), (PStr (u ''path''), PStr (u ''/benign/read'')),
         (PStr (u ''policy_allows_action''), PBool True), (PStr (u ''reduction_profile''), PNone),
         (PStr (u ''request_id''), PStr (u ''r1''))]]),
      (PStr (u ''public_keys''), PList []), (PStr (u ''records_path''), PStr (u ''/records/authz.jsonl'')),
      (PStr (u ''revoked_state_ids''), PList []),
      (PStr (u ''schema_version''), PStr (u ''kil.v3b-authz-http.v1'')),
      (PStr (u ''track''), PStr (u ''credential_policy_baseline''))]"

definition sample_config_text :: pstr where
  "sample_config_text = dump_text sample_config_value"

definition sample_config_file :: "pstr \<Rightarrow> ConfigFile" where
  "sample_config_file w = \<lparr>cf_regular = True, cf_mode = 256, cf_size = length w, cf_content = utf8_encode w\<rparr>"

definition sample_paths :: "pstr \<Rightarrow> PathFacts" where
  "sample_paths p = \<lparr>pf_absolute = starts_with [47] p, pf_parent_dir = True, pf_symlink = False\<rparr>"

lemma sample_config_facts:
  "canonical sample_config_value \<and> nesting sample_config_value \<le> 1000
    \<and> list_all (\<lambda>c. c < 128) sample_config_text \<and> 13 \<notin> set sample_config_text
    \<and> length sample_config_text \<noteq> 0 \<and> length sample_config_text \<le> MAX_CONFIG_BYTES \<and> \<not> writable_mode 256"
  by code_simp

lemma sample_config_parses:
  "json_loads (closed_hook (ConfigError ''duplicate config field'')) 1000 sample_config_text = Inr sample_config_value"
  using json_round_trip [OF closed_hook_faithful, of sample_config_value 1000 "[]"] sample_config_facts
  by (simp add: sample_config_text_def skip_ws_def)

lemma universal_newlines_id: "13 \<notin> set w \<Longrightarrow> universal_newlines w = w"
  by (induction w rule: universal_newlines.induct) auto

lemma sample_config_loads:
  "is_ok (load_service_config (\<lambda>_. True) 1000 sample_paths (\<lambda>_. None) (sample_config_file sample_config_text))"
proof -
  have enc: "utf8_encode sample_config_text = Inr (ascii_bytes sample_config_text)"
    by (rule utf8_encode_ascii) (use sample_config_facts in simp)
  have "load_config_value ConfigError MAX_CONFIG_BYTES 1000 (sample_config_file sample_config_text) = Inr sample_config_value"
    using sample_config_facts
    by (simp add: load_config_value_def sample_config_file_def enc utf8_round_trip [OF enc] sample_config_parses
        universal_newlines_id)
  then show ?thesis unfolding load_service_config_def by (simp only: bind_r_Inr) code_simp
qed

theorem load_service_config_wf_witness:
  "\<exists>rt. load_service_config (\<lambda>_. True) 1000 sample_paths (\<lambda>_. None) (sample_config_file sample_config_text) = Inr rt
     \<and> wf_runtime (\<lambda>_. True) rt"
proof -
  obtain rt where "load_service_config (\<lambda>_. True) 1000 sample_paths (\<lambda>_. None) (sample_config_file sample_config_text) = Inr rt"
    using sample_config_loads by (auto simp: is_ok_iff)
  with load_service_config_wf [OF this] show ?thesis by blast
qed

theorem load_service_config_raises_witness:
  "\<exists>e. load_service_config (\<lambda>_. True) 1000 sample_paths (\<lambda>_. None) (sample_config_file (u ''{'')) = Inl e
     \<and> (\<exists>s. e = ConfigError s)"
proof -
  have "load_config_value ConfigError MAX_CONFIG_BYTES 1000 (sample_config_file (u ''{''))
      = Inl (ConfigError ''config file is not valid UTF-8 JSON'')"
    by code_simp
  then have e: "load_service_config (\<lambda>_. True) 1000 sample_paths (\<lambda>_. None) (sample_config_file (u ''{''))
      = Inl (ConfigError ''config file is not valid UTF-8 JSON'')"
    by (simp add: load_service_config_def)
  from load_service_config_raises [OF e] e show ?thesis by blast
qed

text \<open>A runtime for a signed track, and a request that carries an issued token.\<close>

definition signed_runtime :: AuthorizationServiceRuntime where
  "signed_runtime = \<lparr>rt_app = \<lparr>hp_adapter = sample_adapter, hp_fixtures = [(u ''r1'', sample_server_fixture)],
     hp_recorder = True, hp_records = [], hp_file = None\<rparr>, rt_bind_host = ''0.0.0.0'', rt_bind_port = 8080\<rparr>"

lemma signed_runtime_wf: "wf_runtime (\<lambda>_. True) signed_runtime"
proof -
  have "request_id_text (u ''r1'') \<and> method_text (u ''GET'') \<and> starts_with [47] (u ''/benign/read'')
    \<and> path_size (u ''/benign/read'') = Inr 12 \<and> nonblank (u ''agent'') \<and> nonblank (u ''ops'') \<and> nonblank (u ''read'')"
    by code_simp
  then have "wf_ServerFixture sample_server_fixture"
    by (simp add: wf_ServerFixture_def sample_server_fixture_def sha256_hex64 MAX_PATH_BYTES_def)
  then show ?thesis
    by (simp add: wf_runtime_def signed_runtime_def wf_fixtures_def wf_keys_def wf_adapter_def sample_adapter_def
        MAX_PUBLIC_KEYS_def MAX_FIXTURES_def) (simp add: sample_server_fixture_def)
qed

definition signed_headers :: "pstr \<Rightarrow> (pstr \<times> pstr) list" where
  "signed_headers tok = [(u ''X-Request-Id'', u ''r1''), (u ''X-KIL-Q-State'', tok)]"

definition signed_request :: "pstr \<Rightarrow> HttpRequest" where
  "signed_request tok = \<lparr>hq_method = u ''GET'', hq_path = u ''/benign/read'', hq_headers = signed_headers tok,
     hq_body = []\<rparr>"

lemma lower_names:
  "lower (u ''X-Request-Id'') = u ''x-request-id''" "lower (u ''X-KIL-Q-State'') = u ''x-kil-q-state''"
  "request_id_text (u ''r1'')"
  by code_simp+

lemma signed_groups:
  "group_headers (signed_headers tok) = [(u ''x-request-id'', [u ''r1'']), (u ''x-kil-q-state'', [tok])]"
  by (simp add: signed_headers_def group_headers_def lower_names)

lemma signed_checked:
  "checked_groups (signed_request tok) = Inr (group_headers (signed_headers tok))"
  "safe_request_id (group_headers (signed_headers tok)) = Some (u ''r1'')"
  "untrusted_names (group_headers (signed_headers tok)) = []"
  by (simp_all add: checked_groups_def signed_request_def signed_groups TRUSTED_HEADERS_def group_get_def
      PROHIBITED_BODY_HEADERS_def in_group_def announces_body_def safe_request_id_def untrusted_names_def lower_names)

definition signed_facts :: "pstr \<Rightarrow> bool \<Rightarrow> LiveFixture" where
  "signed_facts tok c = \<lparr>lf_request = sample_request, lf_action_class = u ''read'', lf_credential_valid = c,
     lf_policy_allows_action = True, lf_q_state_jws = Some tok, lf_local_evidence = None,
     lf_reduction_profile = None, lf_untrusted_headers = []\<rparr>"

lemma signed_live_fixture:
  assumes "nonblank tok"
  obtains c where "live_fixture sample_request_env (group_headers (signed_headers tok)) (u ''r1'') sample_server_fixture
    = Inr (signed_facts tok c)"
proof -
  obtain c where c: "credential_matches sample_server_fixture (group_headers (signed_headers tok)) = Inr c"
    by (simp add: credential_matches_def signed_groups group_get_def utf8_encode_def)
  have a: "make_ActionRequest (PStr (u ''r1'')) (PStr (u ''agent'')) (PStr (u ''ops'')) (PInt 105) = Inr sample_request"
    by code_simp
  have t: "group_get (group_headers (signed_headers tok)) (u ''x-kil-q-state'') = [tok]"
    by (simp add: signed_groups group_get_def)
  have n: "nonblank (u ''read'')" by code_simp
  show thesis
    by (rule that [of c], unfold live_fixture_def c t)
      (use a n assms in \<open>simp add: signed_checked sample_request_env_def sample_server_fixture_def
        make_LiveFixture_def signed_facts_def\<close>)
qed

lemma signed_decided:
  obtains h p s d where "decide_request sample_ed 100 sample_request_env (rt_app signed_runtime)
      (signed_request (token_of h p s)) (group_headers (signed_headers (token_of h p s))) = Inr (u ''r1'', d)"
    "ld_outcome d = PERMIT" "hex64 (ld_decision_digest d)"
proof -
  obtain h p s v where v:
    "verify_fixture sample_ed 100 sample_adapter (sample_fixture (Some (token_of h p s))) (token_of h p s) = Inr v"
    "vq_composite_state v = sample_verified_state"
    by (rule sample_fixture_verifies)
  let ?tok = "token_of h p s"
  have "nonblank ?tok" by (rule nonblank_token) (simp add: token_of_def)
  then obtain c where c: "live_fixture sample_request_env (group_headers (signed_headers ?tok)) (u ''r1'') sample_server_fixture
      = Inr (signed_facts ?tok c)" by (rule signed_live_fixture)
  have ver: "verify_fixture sample_ed 100 sample_adapter (signed_facts ?tok c) ?tok = Inr v"
    using v(1) by (simp add: verify_fixture_def signed_facts_def sample_fixture_def)
  have dec: "decide_track TRACK_SIGNED_STATE_ONLY (signed_facts ?tok c) sample_verified_state = Inr sample_record"
    using sample_decision [of None] by (simp add: decide_track_def signed_facts_def sample_fixture_def)
  have "is_ok (adapter_result sample_adapter (signed_facts ?tok c) PERMIT [] (Some sample_record))"
    by (rule adapter_result_ok)
      (simp only: signed_facts_def LiveFixture.select_convs sample_adapter_def AuthorizationAdapter.select_convs, code_simp)
  then obtain d where d: "adapter_result sample_adapter (signed_facts ?tok c) PERMIT [] (Some sample_record) = Inr d"
    by (auto simp: is_ok_iff)
  have jws: "lf_q_state_jws (signed_facts ?tok c) = Some ?tok" "ignored_reasons (signed_facts ?tok c) = []"
    by (simp_all add: signed_facts_def ignored_reasons_def)
  have ev: "evaluate sample_ed 100 sample_adapter (signed_facts ?tok c) = Inr d"
    using ver v(2) dec d jws by (simp add: evaluate_def sample_adapter_def) (simp add: sample_record_def)
  have s: "select_fixture (rt_app signed_runtime) (signed_request ?tok) (group_headers (signed_headers ?tok))
      = Inr (u ''r1'', sample_server_fixture)"
    by (simp add: select_fixture_def signed_checked signed_runtime_def signed_request_def)
      (simp add: sample_server_fixture_def)
  have "decide_request sample_ed 100 sample_request_env (rt_app signed_runtime) (signed_request ?tok)
      (group_headers (signed_headers ?tok)) = Inr (u ''r1'', d)"
    using ev by (simp add: decide_request_def s c) (simp add: signed_runtime_def)
  with that adapter_result_Inr [OF d] show thesis by blast
qed

theorem authz_end_to_end_witness:
  "\<exists>h p s resp app' rid f. authz_handle sample_ed 100 sample_request_env
       ((rt_app signed_runtime)\<lparr>hp_recorder := False, hp_records := [], hp_file := None\<rparr>)
       (signed_request (token_of h p s)) = (Inr resp, app') \<and> hr_status resp = 200
     \<and> (rid, f) \<in> set (hp_fixtures (rt_app signed_runtime)) \<and> hq_path (signed_request (token_of h p s)) = sf_path f"
proof -
  let ?app = "(rt_app signed_runtime)\<lparr>hp_recorder := False, hp_records := [], hp_file := None\<rparr>"
  obtain h p s d where d: "decide_request sample_ed 100 sample_request_env (rt_app signed_runtime)
      (signed_request (token_of h p s)) (group_headers (signed_headers (token_of h p s))) = Inr (u ''r1'', d)"
    "ld_outcome d = PERMIT" "hex64 (ld_decision_digest d)"
    by (rule signed_decided)
  let ?q = "signed_request (token_of h p s)"
  have same: "decide_request sample_ed 100 sample_request_env ?app ?q g
      = decide_request sample_ed 100 sample_request_env (rt_app signed_runtime) ?q g" for g
    by (simp add: decide_request_def select_fixture_def cong: option.case_cong)
  have health: "\<not> is_health ?q" by (simp add: is_health_def signed_request_def)
  have "hq_body ?q = []" by (simp add: signed_request_def)
  moreover have "\<not> hp_recorder ?app" "re_monotonic_ns sample_request_env = Inr 1" by (simp_all add: sample_request_env_def)
  moreover have "decision_status d = 200" using d(2) by (simp add: decision_status_def)
  ultimately obtain resp app' where r: "authz_handle sample_ed 100 sample_request_env ?app ?q = (Inr resp, app')" "hr_status resp = 200"
    using authz_handle_decided [OF signed_checked(1) _ health same [THEN trans, OF d(1)] d(3)] by metis
  have "aa_track (hp_adapter (rt_app signed_runtime)) \<noteq> CREDENTIAL_POLICY_BASELINE"
    by (simp add: signed_runtime_def sample_adapter_def)
  from authz_end_to_end [OF signed_runtime_wf this refl r(1) health r(2)] r show ?thesis by blast
qed

text \<open>
  A public key's text that is no canonical base64url, as it leaves bits set past the last
  byte, is accepted under the identifier of the bytes it decodes to.
\<close>

lemma noncanonical_key_accepted:
  "load_public_keys (\<lambda>k. length k = 32) (PList [PDict [(PStr (u ''key_id''), PStr (key_id (replicate 32 0))),
     (PStr (u ''raw_base64url''), PStr (replicate 42 65 @ [66]))]])
     = Inr [(key_id (replicate 32 0), replicate 32 0)]
   \<and> b64url_encode (replicate 32 0) \<noteq> replicate 42 65 @ [66]"
proof -
  have k: "nonblank (key_id bs)" for bs
  proof -
    obtain c cs where c: "key_id bs = c # cs" using key_id_text(1) [of bs] by (cases "key_id bs") auto
    then have "c \<in> set (sha256_hex bs)" by (metis key_id_def in_set_takeD list.set_intros(1))
    then have "\<not> is_space c" using sha256_hex64 [of bs] by (auto simp: hex64_def list_all_iff is_hex_def is_digit_def is_space_def)
    then show ?thesis by (simp add: nonblank_iff c)
  qed
  have d: "b64decode ((replicate 42 65 @ [66]) @ b64_padding (replicate 42 65 @ [66])) = Inr (replicate 32 0)"
    "61 \<notin> set (replicate 42 65 @ [66 :: nat])" "list_all is_b64url (replicate 42 65 @ [66])"
    "nonblank (replicate 42 65 @ [66])" "b64url_encode (replicate 32 0) \<noteq> replicate 42 65 @ [66]"
    by code_simp+
  show ?thesis
    using k [of "replicate 32 0"] d
    by (simp add: load_public_keys_def add_public_key_def exact_fields_def has_unknown_def has_missing_def dict_get_def
        config_field_def dict_item_def config_string_def require_identifier_def MAX_PUBLIC_KEYS_def)
qed

end
