(* ===== verification/KilTargetLedger.thy ===== *)
theory KilTargetLedger
  imports KilHttp KilAppendLog KilFlat
begin

text \<open>
  \<^verbatim>\<open>src/kil/target_http.py\<close>, the ledger of the target: its records, the strict reader of an
  existing file, and the append with duplicate detection. The file is its content; what the
  file system says of a ledger's path, the clock and the outcome of the system calls are
  parameters. A request id is looked up in the list of ids, which stands for the set.
\<close>

definition TARGET_RECORD_SCHEMA :: string where "TARGET_RECORD_SCHEMA = ''kil.v3b-target-record.v1''"
definition MAX_RECORDS :: nat where "MAX_RECORDS = 100000"
definition MAX_LEDGER_BYTES :: nat where "MAX_LEDGER_BYTES = 64 * 1024 * 1024"
definition MAX_RECORD_BYTES :: nat where "MAX_RECORD_BYTES = 8 * 1024"

definition TARGET_ROUTES :: "(string \<times> string) list" where
  "TARGET_ROUTES = [(''GET'', ''/benign/read''), (''POST'', ''/consequential/admin'')]"

subsection \<open>Records\<close>

record TargetHttpRecord =
  tg_schema_version :: pstr
  tg_run_id :: pstr
  tg_request_id :: pstr
  tg_track :: LiveTrack
  tg_path :: pstr
  tg_decision_digest :: pstr
  tg_received_ns :: int
  tg_response_ns :: int

definition require_id :: "string \<Rightarrow> pyval \<Rightarrow> pstr res" where
  "require_id name v = (case v of
     PStr s \<Rightarrow> if request_id_text s then Inr s else Inl (ValueError (name @ '' is invalid''))
   | _ \<Rightarrow> Inl (ValueError (name @ '' is invalid'')))"

definition target_path :: "pstr \<Rightarrow> bool" where
  "target_path p \<longleftrightarrow> p \<in> set (map (u \<circ> snd) TARGET_ROUTES)"

definition make_TargetHttpRecord ::
    "pyval \<Rightarrow> pyval \<Rightarrow> pyval \<Rightarrow> LiveTrack \<Rightarrow> pyval \<Rightarrow> pyval \<Rightarrow> pyval \<Rightarrow> pyval \<Rightarrow> TargetHttpRecord res" where
  "make_TargetHttpRecord version run_id request_id trk path digest received response =
     bind_r (ensure (version = PStr (u TARGET_RECORD_SCHEMA))
       (ValueError ''unsupported target record schema_version'')) (\<lambda>_.
     bind_r (require_id ''run_id'' run_id) (\<lambda>run.
     bind_r (require_id ''request_id'' request_id) (\<lambda>rid.
     bind_r (case path of PStr p \<Rightarrow> if target_path p then Inr p
         else Inl (ValueError ''path is not a harmless target path'')
       | _ \<Rightarrow> Inl (ValueError ''path is not a harmless target path'')) (\<lambda>p.
     bind_r (case digest of PStr d \<Rightarrow> if hex64 d then Inr d else Inl (ValueError ''decision_digest is invalid'')
       | _ \<Rightarrow> Inl (ValueError ''decision_digest is invalid'')) (\<lambda>d.
     bind_r (case (received, response) of
         (PInt m, PInt n) \<Rightarrow> if 0 \<le> m \<and> m \<le> n then Inr (m, n) else Inl (ValueError ''target timestamps are invalid'')
       | _ \<Rightarrow> Inl (ValueError ''target timestamps are invalid'')) (\<lambda>(m, n).
     Inr \<lparr>tg_schema_version = u TARGET_RECORD_SCHEMA, tg_run_id = run, tg_request_id = rid, tg_track = trk,
          tg_path = p, tg_decision_digest = d, tg_received_ns = m, tg_response_ns = n\<rparr>))))))"

definition pv_TargetHttpRecord :: "TargetHttpRecord \<Rightarrow> pyval" where
  "pv_TargetHttpRecord r = PRec ''TargetRecord''
     [pv_field ''schema_version'' (PStr (tg_schema_version r)), pv_field ''run_id'' (PStr (tg_run_id r)),
      pv_field ''request_id'' (PStr (tg_request_id r)),
      pv_field ''track'' (PEnum ''LiveTrack'' (u (LiveTrack_value (tg_track r)))),
      pv_field ''path'' (PStr (tg_path r)), pv_field ''decision_digest'' (PStr (tg_decision_digest r)),
      pv_field ''received_monotonic_ns'' (PInt (tg_received_ns r)),
      pv_field ''response_monotonic_ns'' (PInt (tg_response_ns r))]"

definition TARGET_RECORD_FIELDS :: "string list" where
  "TARGET_RECORD_FIELDS = [''schema_version'', ''run_id'', ''request_id'', ''track'', ''path'', ''decision_digest'',
     ''received_monotonic_ns'', ''response_monotonic_ns'']"

definition target_record_values :: "pydict \<Rightarrow> pstr \<Rightarrow> TargetHttpRecord res" where
  "target_record_values d trk =
     (case track_of_value trk of
        None \<Rightarrow> Inl (ValueError ''not a valid LiveTrack'')
      | Some t \<Rightarrow>
          bind_r (dict_item d ''schema_version'') (\<lambda>version.
          bind_r (dict_item d ''run_id'') (\<lambda>run_id.
          bind_r (dict_item d ''request_id'') (\<lambda>request_id.
          bind_r (dict_item d ''path'') (\<lambda>path.
          bind_r (dict_item d ''decision_digest'') (\<lambda>digest.
          bind_r (dict_item d ''received_monotonic_ns'') (\<lambda>received.
          bind_r (dict_item d ''response_monotonic_ns'') (\<lambda>response.
          make_TargetHttpRecord version run_id request_id t path digest received response))))))))"

definition decode_target_record :: "nat \<Rightarrow> bytes \<Rightarrow> TargetHttpRecord res" where
  "decode_target_record limit raw_line =
     bind_r (try_r (bind_r (utf8_decode raw_line) (\<lambda>w.
         bind_r (json_loads (closed_hook (ValueError ''duplicate target record field'')) limit w) (\<lambda>raw. Inr (w, raw))))
       (\<lambda>e. if e = UnicodeError \<or> e = JSONDecodeError
            then Inl (ValueError ''target record is not valid UTF-8 JSON'') else Inl e)) (\<lambda>(w, raw).
     bind_r (case raw of PDict d \<Rightarrow> Inr d
       | _ \<Rightarrow> Inl (ValueError ''target record fields are not closed'')) (\<lambda>d.
     bind_r (ensure (keys_exact d TARGET_RECORD_FIELDS) (ValueError ''target record fields are not closed'')) (\<lambda>_.
     bind_r (dict_item d ''track'') (\<lambda>v.
     bind_r (case v of PStr s \<Rightarrow> Inr s
       | _ \<Rightarrow> Inl (ValueError ''target record track must be a string'')) (\<lambda>trk.
     bind_r (try_r (target_record_values d trk) (\<lambda>e.
       if is_value_error e then Inl (ValueError ''target record values are invalid'') else Inl e)) (\<lambda>r.
     bind_r (canonical_json (pv_TargetHttpRecord r)) (\<lambda>t.
     if t \<noteq> w then Inl (ValueError ''target record is not canonical JSON'') else Inr r)))))))"

subsection \<open>The ledger\<close>

record TargetLedger =
  tl_file :: log_file
  tl_records :: "TargetHttpRecord list"
  tl_request_ids :: "pstr list"
  tl_invalid :: bool

text \<open>What the file system says of the ledger's path.\<close>

record LedgerPath =
  lp_absolute :: bool
  lp_parent_dir :: bool
  lp_symlink :: bool
  lp_exists :: bool
  lp_regular :: bool
  lp_mode :: nat
  lp_size :: nat
  lp_content :: "bytes res"

text \<open>\<^verbatim>\<open>bytes.splitlines\<close>: lines end at a line feed, a carriage return or both.\<close>

function byte_lines :: "bytes \<Rightarrow> bytes list" where
  "byte_lines bs =
     (if bs = [] then []
      else let l = takeWhile (\<lambda>b. b \<noteq> 10 \<and> b \<noteq> 13) bs; rest = drop (length l) bs in
        l # byte_lines (if take 2 rest = [13, 10] then drop 2 rest else drop 1 rest))"
  by pat_completeness auto
termination
  by (relation "measure length") (auto simp: Let_def)

declare byte_lines.simps [simp del]

definition load_line :: "nat \<Rightarrow> TargetLedger \<Rightarrow> bytes \<Rightarrow> TargetLedger res" where
  "load_line limit l raw_line =
     (if raw_line = [] \<or> length raw_line > MAX_RECORD_BYTES then Inl (ValueError ''existing ledger record is invalid'')
      else bind_r (decode_target_record limit raw_line) (\<lambda>r.
        if tg_request_id r \<in> set (tl_request_ids l)
        then Inl (ValueError ''existing ledger contains duplicate request IDs'')
        else Inr (l\<lparr>tl_request_ids := tl_request_ids l @ [tg_request_id r], tl_records := tl_records l @ [r]\<rparr>)))"

definition load_existing :: "nat \<Rightarrow> LedgerPath \<Rightarrow> TargetLedger \<Rightarrow> TargetLedger res" where
  "load_existing limit p l =
     (if lp_mode p \<noteq> 384 then Inl (ValueError ''existing ledger must use owner-only mode 0600'')
      else if lp_size p > MAX_LEDGER_BYTES then Inl (ValueError ''existing ledger exceeds the size limit'')
      else try_r
        (bind_r (lp_content p) (\<lambda>payload.
         bind_r (ensure (payload = [] \<or> last payload = 10)
           (ValueError ''existing ledger has an incomplete final record'')) (\<lambda>_.
         bind_r (fold_r (load_line limit) (l\<lparr>tl_file := Some payload\<rparr>) (byte_lines payload)) (\<lambda>l1.
         if length (tl_records l1) > MAX_RECORDS then Inl (ValueError ''existing ledger exceeds the record limit'')
         else Inr l1))))
        (\<lambda>e. if is_os_error e \<or> e = UnicodeError \<or> e = JSONDecodeError
             then Inl (ValueError ''existing ledger is not canonical JSONL'') else Inl e))"

definition empty_ledger :: TargetLedger where
  "empty_ledger = \<lparr>tl_file = None, tl_records = [], tl_request_ids = [], tl_invalid = False\<rparr>"

definition make_TargetLedger :: "nat \<Rightarrow> LedgerPath \<Rightarrow> TargetLedger res" where
  "make_TargetLedger limit p =
     (if \<not> lp_absolute p then Inl (ValueError ''ledger path must be absolute'')
      else if \<not> lp_parent_dir p then Inl (ValueError ''ledger parent directory must exist'')
      else if lp_symlink p then Inl (ValueError ''ledger path must not be a symbolic link'')
      else if lp_exists p \<and> \<not> lp_regular p then Inl (ValueError ''ledger path must be a regular file'')
      else if lp_exists p then load_existing limit p empty_ledger
      else Inr empty_ledger)"

text \<open>The clock of one append is read twice.\<close>

record MarkerEnv =
  me_received_ns :: "int res"
  me_response_ns :: "int res"
  me_append :: AppendEnv

definition invalidate :: "TargetLedger \<Rightarrow> TargetLedger" where
  "invalidate l = l\<lparr>tl_invalid := True\<rparr>"

text \<open>The record of a marker, and its append to the file.\<close>

definition marker_record ::
    "MarkerEnv \<Rightarrow> pstr \<Rightarrow> pstr \<Rightarrow> LiveTrack \<Rightarrow> pstr \<Rightarrow> pstr \<Rightarrow> TargetHttpRecord res" where
  "marker_record env run_id request_id trk path digest =
     bind_r (me_received_ns env) (\<lambda>received.
     bind_r (me_response_ns env) (\<lambda>response.
     make_TargetHttpRecord (PStr (u TARGET_RECORD_SCHEMA)) (PStr run_id) (PStr request_id) trk (PStr path)
       (PStr digest) (PInt received) (PInt response)))"

definition append_marker ::
    "MarkerEnv \<Rightarrow> pstr \<Rightarrow> pstr \<Rightarrow> LiveTrack \<Rightarrow> pstr \<Rightarrow> pstr \<Rightarrow> TargetLedger \<Rightarrow>
     TargetHttpRecord res \<times> TargetLedger" where
  "append_marker env run_id request_id trk path digest l =
     (if request_id \<in> set (tl_request_ids l) then (Inl DuplicateTargetRecord, invalidate l)
      else if length (tl_records l) \<ge> MAX_RECORDS
      then (Inl (OSError ''target ledger record limit exceeded'' None), invalidate l)
      else case marker_record env run_id request_id trk path digest of
        Inl e \<Rightarrow> (Inl e, invalidate l)
      | Inr r \<Rightarrow>
          (case append_value ''target ledger append made no progress'' (me_append env) (pv_TargetHttpRecord r) (tl_file l) of
             (Inl e, content) \<Rightarrow> (Inl e, invalidate (l\<lparr>tl_file := content\<rparr>))
           | (Inr _, content) \<Rightarrow>
               (Inr r, l\<lparr>tl_file := content, tl_request_ids := tl_request_ids l @ [request_id],
                         tl_records := tl_records l @ [r]\<rparr>)))"

subsection \<open>Lines\<close>

lemma byte_lines_Nil [simp]: "byte_lines [] = []"
  by (simp add: byte_lines.simps)

lemma byte_lines_line:
  assumes "\<forall>b \<in> set l. b \<noteq> 10 \<and> b \<noteq> 13"
  shows "byte_lines (l @ 10 # bs) = l # byte_lines bs"
proof -
  have "takeWhile (\<lambda>b. b \<noteq> 10 \<and> b \<noteq> 13) (l @ 10 # bs) = l"
    using assms by (simp add: takeWhile_append2)
  then show ?thesis by (subst byte_lines.simps) (simp add: Let_def)
qed

lemma byte_lines_append:
  assumes "c = [] \<or> last c = 10"
  shows "byte_lines (c @ x) = byte_lines c @ byte_lines x"
  using assms
proof (induction c rule: byte_lines.induct)
  case (1 c)
  show ?case
  proof (cases "c = []")
    case False
    let ?P = "\<lambda>b :: 8 word. b \<noteq> 10 \<and> b \<noteq> 13"
    let ?l = "takeWhile ?P c" and ?rest = "dropWhile ?P c"
    have "last c \<in> set c" using False by (rule last_in_set)
    moreover have "\<not> ?P (last c)" using False "1.prems" by simp
    ultimately have stop: "\<exists>b \<in> set c. \<not> ?P b" by blast
    then have rest: "?rest \<noteq> []" by (simp add: dropWhile_eq_Nil_conv)
    have last: "last ?rest = 10" using last_appendR [OF rest, of ?l] "1.prems" False by simp
    have drop: "drop (length ?l) c = ?rest" by (simp add: dropWhile_eq_drop)
    from stop obtain b where "b \<in> set c" "\<not> ?P b" by blast
    then have tw1: "takeWhile ?P (c @ x) = ?l" by (rule takeWhile_append1)
    have tw2: "drop (length ?l) (c @ x) = ?rest @ x"
      by (simp only: drop_append drop) (simp add: length_takeWhile_le)
    note tw = tw1 tw2
    let ?next = "if take 2 ?rest = [13, 10] then drop 2 ?rest else drop 1 ?rest"
    have two: "take 2 (?rest @ x) = [13, 10] \<longleftrightarrow> take 2 ?rest = [13, 10]"
      using last rest by (cases ?rest; cases "tl ?rest") auto
    have nxt: "?next = [] \<or> last ?next = 10"
      using last last_drop [of 1 ?rest] last_drop [of 2 ?rest]
      by (cases "1 < length ?rest"; cases "2 < length ?rest") auto
    have IH: "byte_lines (?next @ x) = byte_lines ?next @ byte_lines x"
      by (rule "1.IH" [OF False refl refl, unfolded drop, OF nxt])
    have next_x: "(if take 2 (?rest @ x) = [13, 10] then drop 2 (?rest @ x) else drop 1 (?rest @ x)) = ?next @ x"
      unfolding two using rest by (cases ?rest; cases "tl ?rest") auto
    have "byte_lines (c @ x) = ?l # byte_lines (?next @ x)"
      by (subst byte_lines.simps) (simp only: Let_def tw next_x append_is_Nil_conv False simp_thms if_False)
    moreover have "byte_lines c = ?l # byte_lines ?next"
      using False by (subst byte_lines.simps) (simp add: Let_def drop)
    ultimately show ?thesis using IH by simp
  qed simp
qed

lemma byte_lines_snoc:
  "c = [] \<or> last c = 10 \<Longrightarrow> \<forall>b \<in> set l. b \<noteq> 10 \<and> b \<noteq> 13 \<Longrightarrow> byte_lines (c @ l @ [10]) = byte_lines c @ [l]"
  using byte_lines_line [of l "[]"] by (simp add: byte_lines_append)

subsection \<open>The text of a record\<close>

definition wf_TargetHttpRecord :: "TargetHttpRecord \<Rightarrow> bool" where
  "wf_TargetHttpRecord r \<longleftrightarrow> tg_schema_version r = u TARGET_RECORD_SCHEMA \<and> request_id_text (tg_run_id r)
     \<and> request_id_text (tg_request_id r) \<and> target_path (tg_path r) \<and> hex64 (tg_decision_digest r)
     \<and> 0 \<le> tg_received_ns r \<and> tg_received_ns r \<le> tg_response_ns r"

lemma make_TargetHttpRecord_Inr:
  "make_TargetHttpRecord version run rid trk path digest m n = Inr r \<longleftrightarrow>
     wf_TargetHttpRecord r \<and> tg_track r = trk \<and> version = PStr (tg_schema_version r) \<and> run = PStr (tg_run_id r)
     \<and> rid = PStr (tg_request_id r) \<and> path = PStr (tg_path r) \<and> digest = PStr (tg_decision_digest r)
     \<and> m = PInt (tg_received_ns r) \<and> n = PInt (tg_response_ns r)"
  by (cases r)
    (auto simp: make_TargetHttpRecord_def wf_TargetHttpRecord_def require_id_def bind_r_eq_Inr
      split: pyval.splits if_splits)

lemma plain_texts:
  "request_id_text s \<Longrightarrow> plain s" "hex64 s \<Longrightarrow> plain s" "target_path s \<Longrightarrow> plain s"
  "plain (u (LiveTrack_value t))" "plain (u TARGET_RECORD_SCHEMA)" "plain (nat_digits n)"
  "f \<in> set TARGET_RECORD_FIELDS \<Longrightarrow> plain (u f)"
proof -
  show "request_id_text s \<Longrightarrow> plain s"
    by (force simp: request_id_text_def plain_def list_all_iff id_char_def one_of_def char_classes u_def)
  show "hex64 s \<Longrightarrow> plain s"
    by (force simp: hex64_def plain_def list_all_iff char_classes)
  show "target_path s \<Longrightarrow> plain s"
    by (auto simp: target_path_def TARGET_ROUTES_def plain_def u_def)
  show "plain (u (LiveTrack_value t))" by (cases t) (auto simp: plain_def u_def)
  show "plain (u TARGET_RECORD_SCHEMA)" by (auto simp: plain_def u_def TARGET_RECORD_SCHEMA_def)
  show "plain (nat_digits n)"
    using nat_digits_digit [of _ n] by (force simp: plain_def is_digit_def)
  show "f \<in> set TARGET_RECORD_FIELDS \<Longrightarrow> plain (u f)"
    by (auto simp: plain_def u_def TARGET_RECORD_FIELDS_def)
qed

text \<open>The fields of a record in the order of their names, and its line.\<close>

definition target_items :: "TargetHttpRecord \<Rightarrow> pydict" where
  "target_items r =
     [(PStr (u ''decision_digest''), PStr (tg_decision_digest r)), (PStr (u ''path''), PStr (tg_path r)),
      (PStr (u ''received_monotonic_ns''), PInt (tg_received_ns r)), (PStr (u ''request_id''), PStr (tg_request_id r)),
      (PStr (u ''response_monotonic_ns''), PInt (tg_response_ns r)), (PStr (u ''run_id''), PStr (tg_run_id r)),
      (PStr (u ''schema_version''), PStr (tg_schema_version r)),
      (PStr (u ''track''), PStr (u (LiveTrack_value (tg_track r))))]"

definition target_text :: "TargetHttpRecord \<Rightarrow> pstr" where
  "target_text r = dump_text (PDict (target_items r))"

lemma target_items_sorted: "sort_items (target_items r) = target_items r"
  by (rule sort_items_sorted) (simp add: target_items_def u_def)

lemma target_field_lengths:
  assumes "wf_TargetHttpRecord r"
  shows "length (tg_schema_version r) \<le> 1000" "length (tg_run_id r) \<le> 128" "length (tg_request_id r) \<le> 128"
    "length (tg_path r) \<le> 20" "length (tg_decision_digest r) = 64" "length (u (LiveTrack_value (tg_track r))) \<le> 26"
  using assms
  by (cases "tg_track r"; auto simp: wf_TargetHttpRecord_def request_id_text_def hex64_def target_path_def
      TARGET_ROUTES_def TARGET_RECORD_SCHEMA_def)+

definition clock_ok :: "TargetHttpRecord \<Rightarrow> bool" where
  "clock_ok r \<longleftrightarrow> bit_length (tg_received_ns r) \<le> MAX_INTEGER_BITS \<and> bit_length (tg_response_ns r) \<le> MAX_INTEGER_BITS"

definition target_fields :: "TargetHttpRecord \<Rightarrow> pydict" where
  "target_fields r =
     [(PStr (u ''schema_version''), PStr (tg_schema_version r)), (PStr (u ''run_id''), PStr (tg_run_id r)),
      (PStr (u ''request_id''), PStr (tg_request_id r)), (PStr (u ''track''), PStr (u (LiveTrack_value (tg_track r)))),
      (PStr (u ''path''), PStr (tg_path r)), (PStr (u ''decision_digest''), PStr (tg_decision_digest r)),
      (PStr (u ''received_monotonic_ns''), PInt (tg_received_ns r)),
      (PStr (u ''response_monotonic_ns''), PInt (tg_response_ns r))]"

lemma normalize_target:
  assumes "wf_TargetHttpRecord r"
  shows "normalize_value (pv_TargetHttpRecord r) 0 0 =
    (if clock_ok r then Inr (PDict (target_fields r), 10)
     else Inl (ValueError ''canonical integer exceeds supported size''))"
proof -
  have pl: "plain (tg_schema_version r)" "plain (tg_run_id r)" "plain (tg_request_id r)" "plain (tg_path r)"
    "plain (tg_decision_digest r)" "plain (u (LiveTrack_value (tg_track r)))"
    using assms plain_texts by (auto simp: wf_TargetHttpRecord_def)
  show ?thesis
    using target_field_lengths [OF assms]
    by (subst normalize_value.simps)
      (simp add: pv_TargetHttpRecord_def pv_field_def MAX_DEPTH_def MAX_ITEMS_def on_fst_def normalize_plain
        normalize_enum normalize_int pl clock_ok_def target_fields_def)
qed

lemma dump_target_fields: "dump_text (PDict (target_fields r)) = target_text r"
proof -
  have "sort_items (target_fields r) = target_items r"
    by (simp add: sort_items_def target_items_def target_fields_def u_def)
  then show ?thesis unfolding target_text_def dump_text.simps(9) target_items_sorted by simp
qed

subsection \<open>Reading a record back\<close>

lemma target_int_text: "wf_TargetHttpRecord r \<Longrightarrow> int_text (tg_received_ns r) = nat_digits (nat (tg_received_ns r))"
  "wf_TargetHttpRecord r \<Longrightarrow> int_text (tg_response_ns r) = nat_digits (nat (tg_response_ns r))"
  by (auto simp: wf_TargetHttpRecord_def int_text_def)

lemma target_text_eq:
  assumes "wf_TargetHttpRecord r"
  shows "target_text r = 123 # join_with [44]
    [34 # u ''decision_digest'' @ [34, 58, 34] @ tg_decision_digest r @ [34],
     34 # u ''path'' @ [34, 58, 34] @ tg_path r @ [34],
     34 # u ''received_monotonic_ns'' @ [34, 58] @ nat_digits (nat (tg_received_ns r)),
     34 # u ''request_id'' @ [34, 58, 34] @ tg_request_id r @ [34],
     34 # u ''response_monotonic_ns'' @ [34, 58] @ nat_digits (nat (tg_response_ns r)),
     34 # u ''run_id'' @ [34, 58, 34] @ tg_run_id r @ [34],
     34 # u ''schema_version'' @ [34, 58, 34] @ tg_schema_version r @ [34],
     34 # u ''track'' @ [34, 58, 34] @ u (LiveTrack_value (tg_track r)) @ [34]] @ [125]"
proof -
  have k: "string_text (u f) = 34 # u f @ [34]" if "f \<in> set TARGET_RECORD_FIELDS" for f
    using plain_string_text [OF plain_texts(7) [OF that]] .
  have pl: "plain (tg_schema_version r)" "plain (tg_run_id r)" "plain (tg_request_id r)" "plain (tg_path r)"
    "plain (tg_decision_digest r)" "plain (u (LiveTrack_value (tg_track r)))"
    using assms plain_texts by (auto simp: wf_TargetHttpRecord_def)
  show ?thesis
    unfolding target_text_def dump_text.simps(9) target_items_sorted
    by (simp add: target_items_def k TARGET_RECORD_FIELDS_def pl [THEN plain_string_text] target_int_text [OF assms])
qed

lemma target_text_chars:
  assumes "wf_TargetHttpRecord r"
  shows "list_all printable (target_text r)"
proof -
  have pl: "list_all printable (tg_schema_version r)" "list_all printable (tg_run_id r)"
    "list_all printable (tg_request_id r)" "list_all printable (tg_path r)"
    "list_all printable (tg_decision_digest r)" "list_all printable (u (LiveTrack_value (tg_track r)))"
    "list_all printable (nat_digits (nat (tg_received_ns r)))" "list_all printable (nat_digits (nat (tg_response_ns r)))"
    using assms plain_texts by (auto simp: wf_TargetHttpRecord_def intro!: plain_printable)
  have fs: "list_all printable (u f)" if "f \<in> set TARGET_RECORD_FIELDS" for f
    using plain_printable [OF plain_texts(7) [OF that]] .
  have pc: "printable 34" "printable 44" "printable 58" "printable 123" "printable 125"
    by (simp_all add: printable_def)
  show ?thesis
    unfolding target_text_eq [OF assms]
    by (simp add: pl fs TARGET_RECORD_FIELDS_def pc)
qed

lemma target_text_length:
  assumes "wf_TargetHttpRecord r" "bit_length (tg_received_ns r) \<le> MAX_INTEGER_BITS"
    "bit_length (tg_response_ns r) \<le> MAX_INTEGER_BITS"
  shows "target_text r \<noteq> [] \<and> length (target_text r) \<le> 5000"
proof -
  have d: "length (nat_digits (nat (tg_received_ns r))) \<le> 1400" "length (nat_digits (nat (tg_response_ns r))) \<le> 1400"
    using assms digits_bound [OF assms(2)] digits_bound [OF assms(3)]
    by (simp_all add: length_nat_digits wf_TargetHttpRecord_def)
  have l: "length (tg_decision_digest r) = 64" "length (tg_path r) \<le> 20" "length (tg_request_id r) \<le> 128"
    "length (tg_run_id r) \<le> 128" "length (tg_schema_version r) \<le> 1000" "length (u (LiveTrack_value (tg_track r))) \<le> 26"
    using target_field_lengths [OF assms(1)] by simp_all
  have "length (target_text r) = 141 + length (tg_decision_digest r) + length (tg_path r)
     + length (nat_digits (nat (tg_received_ns r))) + length (tg_request_id r)
     + length (nat_digits (nat (tg_response_ns r))) + length (tg_run_id r) + length (tg_schema_version r)
     + length (u (LiveTrack_value (tg_track r)))"
    unfolding target_text_eq [OF assms(1)] by simp
  with d l show ?thesis by auto
qed

text \<open>The line of a record reads back as the record.\<close>

lemma target_int_ok: "clock_ok r \<Longrightarrow> int_ok (tg_received_ns r) \<and> int_ok (tg_response_ns r)"
  by (simp add: clock_ok_def int_ok_bits)

lemma canonical_target:
  assumes "wf_TargetHttpRecord r"
  shows "canonical_json (pv_TargetHttpRecord r) =
    (if clock_ok r then Inr (target_text r) else Inl (ValueError ''canonical integer exceeds supported size''))"
proof (cases "clock_ok r")
  case True
  then have "json_dumps (PDict (target_fields r)) = Inr (target_text r)"
    using target_int_ok [OF True] by (simp only: json_dumps_def dump_target_fields) (simp add: target_fields_def)
  moreover have "length (ascii_bytes (target_text r)) \<le> MAX_OUTPUT_BYTES"
    using target_text_length [OF assms] True by (simp add: clock_ok_def ascii_bytes_def MAX_OUTPUT_BYTES_def)
  ultimately show ?thesis
    using normalize_target [OF assms] printable_ascii [OF target_text_chars [OF assms]] True
    by (simp add: canonical_json_def)
next
  case False
  with normalize_target [OF assms] show ?thesis by (simp add: canonical_json_def)
qed

lemma record_line_target:
  assumes "wf_TargetHttpRecord r"
  shows "record_line (pv_TargetHttpRecord r) =
    (if clock_ok r then Inr (ascii_bytes (target_text r) @ [10]) else Inl (ValueError ''canonical integer exceeds supported size''))"
proof -
  have "utf8_encode (target_text r @ [10]) = Inr (ascii_bytes (target_text r @ [10]))"
    by (rule utf8_encode_ascii) (use target_text_chars [OF assms] in \<open>auto simp: list_all_iff printable_def\<close>)
  then show ?thesis by (simp add: record_line_def canonical_target [OF assms] ascii_bytes_def)
qed

lemma track_of_value_track: "track_of_value (u (LiveTrack_value t)) = Some t"
  by (cases t) (simp_all add: track_of_value_def)

lemma target_items_values:
  assumes "wf_TargetHttpRecord r"
  shows "target_record_values (target_items r) (u (LiveTrack_value (tg_track r))) = Inr r"
  by (simp add: target_record_values_def track_of_value_track target_items_def dict_item_def dict_get_def
      make_TargetHttpRecord_Inr assms)

lemma decode_target_text:
  assumes "wf_TargetHttpRecord r" "clock_ok r" "1 \<le> limit"
  shows "decode_target_record limit (ascii_bytes (target_text r)) = Inr r"
proof -
  have dec: "utf8_decode (ascii_bytes (target_text r)) = Inr (target_text r)"
    by (rule utf8_round_trip [OF printable_ascii [OF target_text_chars [OF assms(1)]]])
  have can: "canonical (PDict (target_items r))"
    using target_int_ok [OF assms(2)] by (simp add: target_items_def u_def)
  have nest: "nesting (PDict (target_items r)) \<le> limit"
    using assms(3) unfolding nesting_le_iff by (simp add: target_items_def)
  have loads: "json_loads (closed_hook e) limit (target_text r) = Inr (PDict (target_items r))" for e
    using json_round_trip [OF closed_hook_faithful can nest, of "[]"] by (simp add: target_text_def skip_ws_def)
  have keys: "keys_exact (target_items r) TARGET_RECORD_FIELDS"
    by (simp add: keys_exact_def has_unknown_def has_missing_def dict_get_def target_items_def TARGET_RECORD_FIELDS_def)
  have trk: "dict_item (target_items r) ''track'' = Inr (PStr (u (LiveTrack_value (tg_track r))))"
    by (simp add: target_items_def dict_item_def dict_get_def)
  show ?thesis
    by (simp add: decode_target_record_def dec loads keys trk target_items_values assms(1,2) canonical_target)
qed

lemma decode_target_wf:
  assumes "decode_target_record limit raw = Inr r"
  shows "wf_TargetHttpRecord r \<and> clock_ok r"
proof -
  obtain d trk t where d: "target_record_values d trk = Inr r" "canonical_json (pv_TargetHttpRecord r) = Inr t"
    using assms by (auto simp: decode_target_record_def try_r_eq_Inr split: if_splits)
  then have wf: "wf_TargetHttpRecord r"
    by (auto simp: target_record_values_def make_TargetHttpRecord_Inr split: option.splits)
  with d(2) show ?thesis by (simp add: canonical_target split: if_splits)
qed

subsection \<open>Loading\<close>

definition line_ok :: "bytes \<Rightarrow> bool" where
  "line_ok raw \<longleftrightarrow> raw \<noteq> [] \<and> length raw \<le> MAX_RECORD_BYTES"

lemma load_lines_Inr:
  assumes "fold_r (load_line limit) l raws = Inr l1"
  shows "\<exists>rs. map_r (decode_target_record limit) raws = Inr rs \<and> list_all line_ok raws
    \<and> l1 = l\<lparr>tl_request_ids := tl_request_ids l @ map tg_request_id rs, tl_records := tl_records l @ rs\<rparr>
    \<and> (distinct (tl_request_ids l) \<longrightarrow> distinct (tl_request_ids l1))"
  using assms
proof (induction raws arbitrary: l)
  case Nil
  then show ?case by simp
next
  case (Cons raw raws)
  from Cons.prems obtain l2 where l2: "load_line limit l raw = Inr l2" "fold_r (load_line limit) l2 raws = Inr l1" by auto
  obtain r where r: "decode_target_record limit raw = Inr r" "line_ok raw" "tg_request_id r \<notin> set (tl_request_ids l)"
    "l2 = l\<lparr>tl_request_ids := tl_request_ids l @ [tg_request_id r], tl_records := tl_records l @ [r]\<rparr>"
    using l2(1) by (auto simp: load_line_def line_ok_def not_less split: if_splits)
  obtain rs where "map_r (decode_target_record limit) raws = Inr rs" "list_all line_ok raws"
    "l1 = l2\<lparr>tl_request_ids := tl_request_ids l2 @ map tg_request_id rs, tl_records := tl_records l2 @ rs\<rparr>"
    "distinct (tl_request_ids l2) \<longrightarrow> distinct (tl_request_ids l1)"
    using Cons.IH [OF l2(2)] by blast
  with r show ?case by (intro exI [of _ "r # rs"]) simp
qed

lemma load_lines_ok:
  assumes "map_r (decode_target_record limit) raws = Inr rs" "list_all line_ok raws"
    and "distinct (tl_request_ids l @ map tg_request_id rs)"
  shows "fold_r (load_line limit) l raws
    = Inr (l\<lparr>tl_request_ids := tl_request_ids l @ map tg_request_id rs, tl_records := tl_records l @ rs\<rparr>)"
  using assms
proof (induction raws arbitrary: l rs)
  case Nil
  then show ?case by simp
next
  case (Cons raw raws)
  obtain r qs where r: "decode_target_record limit raw = Inr r" "map_r (decode_target_record limit) raws = Inr qs" "rs = r # qs"
    using Cons.prems(1) by auto
  have "load_line limit l raw = Inr (l\<lparr>tl_request_ids := tl_request_ids l @ [tg_request_id r], tl_records := tl_records l @ [r]\<rparr>)"
    using Cons.prems(2,3) r by (simp add: load_line_def line_ok_def)
  moreover have "fold_r (load_line limit) (l\<lparr>tl_request_ids := tl_request_ids l @ [tg_request_id r], tl_records := tl_records l @ [r]\<rparr>) raws
    = Inr (l\<lparr>tl_request_ids := tl_request_ids l @ map tg_request_id rs, tl_records := tl_records l @ rs\<rparr>)"
    by (subst Cons.IH [OF r(2)]) (use Cons.prems r in simp_all)
  ultimately show ?case by simp
qed

subsection \<open>The invariant of a ledger\<close>

definition file_matches :: "nat \<Rightarrow> TargetLedger \<Rightarrow> bool" where
  "file_matches limit l \<longleftrightarrow> (log_content (tl_file l) = [] \<or> last (log_content (tl_file l)) = 10)
     \<and> map_r (decode_target_record limit) (byte_lines (log_content (tl_file l))) = Inr (tl_records l)
     \<and> list_all line_ok (byte_lines (log_content (tl_file l)))"

definition ledger_inv :: "nat \<Rightarrow> TargetLedger \<Rightarrow> bool" where
  "ledger_inv limit l \<longleftrightarrow> tl_request_ids l = map tg_request_id (tl_records l) \<and> distinct (tl_request_ids l)
     \<and> list_all (\<lambda>r. wf_TargetHttpRecord r \<and> clock_ok r) (tl_records l) \<and> length (tl_records l) \<le> MAX_RECORDS
     \<and> (\<not> tl_invalid l \<longrightarrow> file_matches limit l)"

lemma empty_ledger_inv: "ledger_inv limit empty_ledger"
  by (simp add: ledger_inv_def file_matches_def empty_ledger_def)

lemma make_TargetLedger_inv:
  assumes "make_TargetLedger limit p = Inr l"
  shows "ledger_inv limit l \<and> \<not> tl_invalid l"
proof (cases "lp_exists p")
  case True
  then obtain payload l1 where l1: "payload = [] \<or> last payload = 10"
    "fold_r (load_line limit) (empty_ledger\<lparr>tl_file := Some payload\<rparr>) (byte_lines payload) = Inr l1"
    "\<not> MAX_RECORDS < length (tl_records l1)" "l = l1"
    using assms by (auto simp: make_TargetLedger_def load_existing_def try_r_eq_Inr split: if_splits)
  obtain rs where rs: "map_r (decode_target_record limit) (byte_lines payload) = Inr rs" "list_all line_ok (byte_lines payload)"
    "l1 = \<lparr>tl_file = Some payload, tl_records = rs, tl_request_ids = map tg_request_id rs, tl_invalid = False\<rparr>"
    "distinct (tl_request_ids l1)"
    using load_lines_Inr [OF l1(2)] by (auto simp: empty_ledger_def)
  have "list_all (\<lambda>r. wf_TargetHttpRecord r \<and> clock_ok r) rs"
    using rs(1) by (auto simp: map_r_eq_Inr list_all2_conv_all_nth list_all_length dest!: decode_target_wf)
  with rs l1 show ?thesis by (simp add: ledger_inv_def file_matches_def not_less)
next
  case False
  then have "l = empty_ledger" using assms by (auto simp: make_TargetLedger_def split: if_splits)
  then show ?thesis using empty_ledger_inv by (simp add: empty_ledger_def)
qed

lemma marker_record_Inr:
  "marker_record env run rid trk path digest = Inr r \<Longrightarrow>
     wf_TargetHttpRecord r \<and> tg_run_id r = run \<and> tg_request_id r = rid \<and> tg_track r = trk \<and> tg_path r = path
     \<and> tg_decision_digest r = digest"
  by (auto simp: marker_record_def make_TargetHttpRecord_Inr)

lemma append_marker_cases:
  obtains
    (recorded) r where "append_marker env run rid trk path digest l = (Inr r, l\<lparr>tl_file := Some (log_content (tl_file l)
        @ ascii_bytes (target_text r) @ [10]), tl_request_ids := tl_request_ids l @ [rid], tl_records := tl_records l @ [r]\<rparr>)"
      "marker_record env run rid trk path digest = Inr r" "clock_ok r" "rid \<notin> set (tl_request_ids l)"
      "length (tl_records l) < MAX_RECORDS"
  | (refused) e content where "append_marker env run rid trk path digest l = (Inl e, invalidate (l\<lparr>tl_file := content\<rparr>))"
      "rid \<in> set (tl_request_ids l) \<longrightarrow> e = DuplicateTargetRecord \<and> content = tl_file l"
      "\<exists>m x. log_content content = log_content (tl_file l) @ take m x"
proof -
  have none: "\<exists>m x. log_content (tl_file l) = log_content (tl_file l) @ take m (x :: bytes)" by (intro exI [of _ 0]) simp
  show thesis
  proof (cases "rid \<in> set (tl_request_ids l) \<or> MAX_RECORDS \<le> length (tl_records l)
      \<or> (\<exists>e. marker_record env run rid trk path digest = Inl e)")
    case True
    then obtain e where "append_marker env run rid trk path digest l = (Inl e, invalidate l)"
      "rid \<in> set (tl_request_ids l) \<longrightarrow> e = DuplicateTargetRecord"
      by (cases "rid \<in> set (tl_request_ids l)"; cases "MAX_RECORDS \<le> length (tl_records l)")
        (auto simp: append_marker_def)
    then show thesis by (intro refused [of e "tl_file l"]) (use none in simp_all)
  next
    case False
    then obtain r where r: "marker_record env run rid trk path digest = Inr r"
      by (cases "marker_record env run rid trk path digest") auto
    note wf = marker_record_Inr [OF r, THEN conjunct1]
    obtain out content where o: "append_value ''target ledger append made no progress'' (me_append env)
        (pv_TargetHttpRecord r) (tl_file l) = (out, content)" by fastforce
    show thesis
    proof (cases out)
      case (Inl e)
      have "\<exists>m x. log_content content = log_content (tl_file l) @ take m x"
        using append_value_prefix [of "pv_TargetHttpRecord r" "''target ledger append made no progress''"
          "me_append env" "tl_file l"] o by auto
      then show thesis using refused [of e content] False r o Inl by (simp add: append_marker_def)
    next
      case (Inr x)
      then obtain line where "record_line (pv_TargetHttpRecord r) = Inr line" "content = Some (log_content (tl_file l) @ line)"
        using append_value_Inr o by fastforce
      then have "clock_ok r" "content = Some (log_content (tl_file l) @ ascii_bytes (target_text r) @ [10])"
        using record_line_target [OF wf] by (auto split: if_splits)
      then show thesis using recorded [of r] False r o Inr by (simp add: append_marker_def)
    qed
  qed
qed

lemma target_line_bytes:
  assumes "wf_TargetHttpRecord r"
  shows "\<forall>b \<in> set (ascii_bytes (target_text r)). b \<noteq> 10 \<and> b \<noteq> 13"
proof
  fix b assume "b \<in> set (ascii_bytes (target_text r))"
  then obtain c where c: "c \<in> set (target_text r)" "b = word_of_nat c" by (auto simp: ascii_bytes_def)
  then have "32 \<le> c" "c < 127" using target_text_chars [OF assms] by (auto simp: list_all_iff printable_def)
  then have "unat b = c" unfolding c(2) by (intro unat_word_of_nat_byte) simp
  with \<open>32 \<le> c\<close> show "b \<noteq> 10 \<and> b \<noteq> 13" by auto
qed

lemma append_marker_inv:
  assumes "ledger_inv limit l" "1 \<le> limit"
  shows "ledger_inv limit (snd (append_marker env run rid trk path digest l))"
proof (cases rule: append_marker_cases [of env run rid trk path digest l])
  case (recorded r)
  note wf = marker_record_Inr [OF recorded(2)]
  have line: "line_ok (ascii_bytes (target_text r))"
    using target_text_length [of r] wf recorded(3) by (simp add: line_ok_def clock_ok_def ascii_bytes_def MAX_RECORD_BYTES_def)
  have "file_matches limit l \<Longrightarrow> file_matches limit (l\<lparr>tl_file := Some (log_content (tl_file l)
      @ ascii_bytes (target_text r) @ [10]), tl_request_ids := tl_request_ids l @ [rid], tl_records := tl_records l @ [r]\<rparr>)"
    using byte_lines_snoc [of "log_content (tl_file l)" "ascii_bytes (target_text r)"]
      target_line_bytes [of r] wf line decode_target_text [of r limit] recorded(3) assms(2)
    by (auto simp: file_matches_def map_r_eq_Inr intro!: list_all2_appendI)
  with assms(1) recorded wf show ?thesis by (auto simp: ledger_inv_def)
next
  case (refused e content)
  have "ledger_inv limit (invalidate (l\<lparr>tl_file := content\<rparr>))"
    using assms(1) by (auto simp: ledger_inv_def invalidate_def)
  with refused show ?thesis by simp
qed

subsection \<open>Runs of a ledger\<close>

text \<open>One append, by any caller, in any environment; \<open>out\<close> is what the caller sees.\<close>

inductive ledger_step :: "TargetLedger \<Rightarrow> TargetHttpRecord res \<Rightarrow> TargetLedger \<Rightarrow> bool" where
  step: "append_marker env run rid trk path digest l = (out, l') \<Longrightarrow> ledger_step l out l'"

inductive ledger_run :: "TargetLedger \<Rightarrow> TargetHttpRecord res list \<Rightarrow> TargetLedger \<Rightarrow> bool" where
  start: "ledger_run l [] l"
| more: "ledger_run l outs l1 \<Longrightarrow> ledger_step l1 out l2 \<Longrightarrow> ledger_run l (outs @ [out]) l2"

inductive_cases ledger_stepE [elim]: "ledger_step l out l'"
inductive_simps ledger_run_Nil [simp]: "ledger_run l [] l'"

text \<open>The records the callers were given.\<close>

fun given :: "TargetHttpRecord res list \<Rightarrow> TargetHttpRecord list" where
  "given [] = []"
| "given (Inr r # outs) = r # given outs"
| "given (Inl _ # outs) = given outs"

lemma given_append [simp]: "given (xs @ ys) = given xs @ given ys"
  by (induction xs rule: given.induct) simp_all

lemma ledger_step_inv: "ledger_step l out l' \<Longrightarrow> ledger_inv limit l \<Longrightarrow> 1 \<le> limit \<Longrightarrow> ledger_inv limit l'"
  by (erule ledger_stepE) (metis append_marker_inv snd_conv)

lemma ledger_run_inv: "ledger_run l outs l' \<Longrightarrow> ledger_inv limit l \<Longrightarrow> 1 \<le> limit \<Longrightarrow> ledger_inv limit l'"
  by (induction rule: ledger_run.induct) (auto dest: ledger_step_inv)

lemma ledger_step_records: "ledger_step l out l' \<Longrightarrow> tl_records l' = tl_records l @ given [out]"
proof (erule ledger_stepE)
  fix env run rid trk path digest
  assume a: "append_marker env run rid trk path digest l = (out, l')"
  show "tl_records l' = tl_records l @ given [out]"
    by (cases rule: append_marker_cases [of env run rid trk path digest l]) (use a in \<open>auto simp: invalidate_def\<close>)
qed

lemma ledger_run_records: "ledger_run l outs l' \<Longrightarrow> tl_records l' = tl_records l @ given outs"
  by (induction rule: ledger_run.induct) (simp_all add: ledger_step_records)

lemma file_matches_loads:
  assumes "ledger_inv limit l" "\<not> tl_invalid l" "tl_file l = Some content"
    and "lp_absolute p" "lp_parent_dir p" "\<not> lp_symlink p" "lp_exists p" "lp_regular p"
      "lp_mode p = 384" "lp_size p \<le> MAX_LEDGER_BYTES" "lp_content p = Inr content"
  shows "make_TargetLedger limit p = Inr l"
proof -
  have m: "map_r (decode_target_record limit) (byte_lines content) = Inr (tl_records l)"
    "list_all line_ok (byte_lines content)" "content = [] \<or> last content = 10"
    using assms(1-3) by (auto simp: ledger_inv_def file_matches_def)
  have d: "distinct (tl_request_ids (empty_ledger\<lparr>tl_file := Some content\<rparr>) @ map tg_request_id (tl_records l))"
    using assms(1) by (auto simp: ledger_inv_def empty_ledger_def)
  have "fold_r (load_line limit) (empty_ledger\<lparr>tl_file := Some content\<rparr>) (byte_lines content) = Inr l"
    using load_lines_ok [OF m(1,2) d] assms(1-3) by (cases l) (simp add: empty_ledger_def ledger_inv_def)
  then show ?thesis
    using assms m(3) by (simp add: make_TargetLedger_def load_existing_def ledger_inv_def)
qed

text \<open>The ledger is an append log: its content only grows, and a run of successes is their lines.\<close>

definition marker_line :: "int res \<times> int res \<times> pstr \<times> pstr \<times> LiveTrack \<times> pstr \<times> pstr \<Rightarrow> bytes res" where
  "marker_line = (\<lambda>(m, n, run, rid, trk, path, digest).
     bind_r m (\<lambda>m. bind_r n (\<lambda>n. bind_r (make_TargetHttpRecord (PStr (u TARGET_RECORD_SCHEMA)) (PStr run) (PStr rid)
       trk (PStr path) (PStr digest) (PInt m) (PInt n)) (\<lambda>r. record_line (pv_TargetHttpRecord r)))))"

definition append_op ::
    "TargetLedger \<Rightarrow> AppendEnv \<Rightarrow> int res \<times> int res \<times> pstr \<times> pstr \<times> LiveTrack \<times> pstr \<times> pstr \<Rightarrow>
     TargetHttpRecord res \<times> TargetLedger" where
  "append_op l env = (\<lambda>(m, n, run, rid, trk, path, digest).
     append_marker \<lparr>me_received_ns = m, me_response_ns = n, me_append = env\<rparr> run rid trk path digest l)"

lemma marker_line_record:
  "bind_r (marker_record \<lparr>me_received_ns = m, me_response_ns = n, me_append = env\<rparr> run rid trk path digest)
     (\<lambda>r. record_line (pv_TargetHttpRecord r)) = marker_line (m, n, run, rid, trk, path, digest)"
  by (cases m; cases n) (simp_all add: marker_record_def marker_line_def)

interpretation marker_log: append_log append_op "\<lambda>l. log_content (tl_file l)" marker_line
proof unfold_locales
  fix l :: TargetLedger and env and a :: "int res \<times> int res \<times> pstr \<times> pstr \<times> LiveTrack \<times> pstr \<times> pstr" and r l'
  obtain m n run rid trk path digest where a: "a = (m, n, run, rid, trk, path, digest)" by (cases a) auto
  assume o: "append_op l env a = (Inr r, l')"
  show "\<exists>line. marker_line a = Inr line \<and> log_content (tl_file l') = log_content (tl_file l) @ line"
    using o marker_line_record [of m n env run rid trk path digest]
    by (cases rule: append_marker_cases [of "\<lparr>me_received_ns = m, me_response_ns = n, me_append = env\<rparr>" run rid trk path digest l])
      (auto simp: a append_op_def record_line_target dest!: marker_record_Inr)
next
  fix l :: TargetLedger and env and a :: "int res \<times> int res \<times> pstr \<times> pstr \<times> LiveTrack \<times> pstr \<times> pstr"
  obtain m n run rid trk path digest where a: "a = (m, n, run, rid, trk, path, digest)" by (cases a) auto
  let ?env = "\<lparr>me_received_ns = m, me_response_ns = n, me_append = env\<rparr>"
  have none: "\<exists>k line. (marker_line a = Inr line \<or> line = []) \<and> c = c @ take k line" for c :: bytes
    by (intro exI [of _ 0] exI [of _ "[]"]) simp
  show "\<exists>k line. (marker_line a = Inr line \<or> line = []) \<and>
      log_content (tl_file (snd (append_op l env a))) = log_content (tl_file l) @ take k line"
  proof (cases "marker_record ?env run rid trk path digest")
    case (Inl e)
    then have "tl_file (snd (append_op l env a)) = tl_file l" by (simp add: a append_op_def append_marker_def invalidate_def)
    then show ?thesis using none by metis
  next
    case (Inr r)
    obtain k line where k: "record_line (pv_TargetHttpRecord r) = Inr line \<or> line = []"
      "log_content (snd (append_value ''target ledger append made no progress'' env (pv_TargetHttpRecord r) (tl_file l)))
         = log_content (tl_file l) @ take k line"
      using append_value_prefix by blast
    have ml: "marker_line a = record_line (pv_TargetHttpRecord r)"
      using marker_line_record [of m n env run rid trk path digest] Inr by (simp add: a)
    have "tl_file (snd (append_op l env a)) = tl_file l \<or> tl_file (snd (append_op l env a))
        = snd (append_value ''target ledger append made no progress'' env (pv_TargetHttpRecord r) (tl_file l))"
      using Inr by (auto simp: a append_op_def append_marker_def invalidate_def split: prod.splits sum.splits)
    then show ?thesis using k ml none by metis
  qed
qed

subsection \<open>An abstract ledger\<close>

text \<open>Markers without the file: a request id may enter once.\<close>

type_synonym marker = "pstr \<times> pstr \<times> pstr"

definition spec_put :: "marker list \<Rightarrow> marker \<Rightarrow> marker list option" where
  "spec_put ms m = (if fst m \<in> set (map fst ms) then None else Some (ms @ [m]))"

definition markers :: "TargetLedger \<Rightarrow> marker list" where
  "markers l = map (\<lambda>r. (tg_request_id r, tg_path r, tg_decision_digest r)) (tl_records l)"

text \<open>An environment in which nothing fails: two clock readings in order and a working file system.\<close>

definition marker_env_works :: "MarkerEnv \<Rightarrow> bool" where
  "marker_env_works env \<longleftrightarrow> env_works (me_append env) \<and> (\<exists>m n. me_received_ns env = Inr m \<and> me_response_ns env = Inr n
     \<and> 0 \<le> m \<and> m \<le> n \<and> bit_length n \<le> MAX_INTEGER_BITS)"

lemma bit_length_mono: "0 \<le> m \<Longrightarrow> m \<le> n \<Longrightarrow> bit_length n \<le> k \<Longrightarrow> bit_length m \<le> k"
  by (simp add: bit_length_def nat_bits_le_iff)

lemma append_marker_works:
  assumes "marker_env_works env" "request_id_text run" "request_id_text rid" "target_path path" "hex64 digest"
    and "rid \<notin> set (tl_request_ids l)" "length (tl_records l) < MAX_RECORDS"
  obtains r where "append_marker env run rid trk path digest l = (Inr r, l\<lparr>tl_file := Some (log_content (tl_file l)
      @ ascii_bytes (target_text r) @ [10]), tl_request_ids := tl_request_ids l @ [rid], tl_records := tl_records l @ [r]\<rparr>)"
    "tg_request_id r = rid" "tg_path r = path" "tg_decision_digest r = digest" "tg_run_id r = run" "tg_track r = trk"
proof -
  obtain m n where mn: "me_received_ns env = Inr m" "me_response_ns env = Inr n" "0 \<le> m" "m \<le> n"
    "bit_length n \<le> MAX_INTEGER_BITS"
    using assms(1) by (auto simp: marker_env_works_def)
  let ?r = "\<lparr>tg_schema_version = u TARGET_RECORD_SCHEMA, tg_run_id = run, tg_request_id = rid, tg_track = trk,
    tg_path = path, tg_decision_digest = digest, tg_received_ns = m, tg_response_ns = n\<rparr>"
  have wf: "wf_TargetHttpRecord ?r" "clock_ok ?r"
    using assms(2-5) mn bit_length_mono [OF mn(3-5)] by (simp_all add: wf_TargetHttpRecord_def clock_ok_def)
  have "marker_record env run rid trk path digest = Inr ?r"
    using wf(1) mn by (simp add: marker_record_def make_TargetHttpRecord_Inr)
  moreover have "append_value ''target ledger append made no progress'' (me_append env) (pv_TargetHttpRecord ?r) (tl_file l)
      = (Inr (), Some (log_content (tl_file l) @ ascii_bytes (target_text ?r) @ [10]))"
    using assms(1) wf
    by (simp add: append_value_def record_line_target append_payload_works marker_env_works_def)
  ultimately have "append_marker env run rid trk path digest l = (Inr ?r, l\<lparr>tl_file := Some (log_content (tl_file l)
      @ ascii_bytes (target_text ?r) @ [10]), tl_request_ids := tl_request_ids l @ [rid], tl_records := tl_records l @ [?r]\<rparr>)"
    using assms(6,7) by (simp add: append_marker_def)
  then show thesis by (rule that) simp_all
qed

subsection \<open>Properties\<close>

text \<open>
  No marker is ambiguous, lost or invented. Along any run of appends on a ledger
  the constructor accepts, the records are those it started with followed by exactly the
  records returned to callers, in order; every one is well formed, their request ids are
  pairwise distinct, and they are never more than the record limit. An append of a request
  id that is there already is answered with DuplicateTargetRecord, and any refused append
  marks the ledger invalid for good.
\<close>
theorem ledger_markers:
  assumes "make_TargetLedger limit p0 = Inr l0" "ledger_run l0 outs l" "1 \<le> limit"
    and "append_marker env run rid trk path digest l = (out, l')"
  shows "tl_records l = tl_records l0 @ given outs \<and> distinct (map tg_request_id (tl_records l))
    \<and> list_all wf_TargetHttpRecord (tl_records l) \<and> length (tl_records l) \<le> MAX_RECORDS
    \<and> (rid \<in> tg_request_id ` set (tl_records l) \<longrightarrow> out = Inl DuplicateTargetRecord)
    \<and> tl_invalid l' = (tl_invalid l \<or> \<not> is_ok out)"
proof -
  have inv: "ledger_inv limit l"
    using ledger_run_inv [OF assms(2)] make_TargetLedger_inv [OF assms(1)] assms(3) by blast
  have "(rid \<in> tg_request_id ` set (tl_records l) \<longrightarrow> out = Inl DuplicateTargetRecord)
    \<and> tl_invalid l' = (tl_invalid l \<or> \<not> is_ok out)"
    by (cases rule: append_marker_cases [of env run rid trk path digest l])
      (use assms(4) inv in \<open>auto simp: invalidate_def ledger_inv_def\<close>)
  moreover have "distinct (map tg_request_id (tl_records l)) \<and> list_all wf_TargetHttpRecord (tl_records l)
    \<and> length (tl_records l) \<le> MAX_RECORDS"
    using inv by (auto simp: ledger_inv_def list_all_iff)
  ultimately show ?thesis using ledger_run_records [OF assms(2)] by blast
qed

text \<open>
  Claim C30: the ledger implements the abstract one. On a ledger that satisfies its
  invariant and is not full, with a working clock and file system and a valid run id,
  request id, path and digest, an append is recorded exactly when the abstract ledger
  accepts the marker, and the markers of the new ledger are the abstract result; otherwise
  it is refused as a duplicate and the markers stay.
\<close>
theorem ledger_refines:
  assumes "ledger_inv limit l" "length (tl_records l) < MAX_RECORDS" "marker_env_works env"
    and "request_id_text run" "request_id_text rid" "target_path path" "hex64 digest"
    and "append_marker env run rid trk path digest l = (out, l')"
  shows "case spec_put (markers l) (rid, path, digest) of
      Some ms \<Rightarrow> is_ok out \<and> markers l' = ms
    | None \<Rightarrow> out = Inl DuplicateTargetRecord \<and> markers l' = markers l"
proof (cases "rid \<in> set (tl_request_ids l)")
  case True
  then have "rid \<in> set (map fst (markers l))" using assms(1) by (auto simp: ledger_inv_def markers_def)
  then show ?thesis using assms(8) True by (auto simp: spec_put_def append_marker_def invalidate_def markers_def)
next
  case False
  then have fresh: "rid \<notin> set (map fst (markers l))" using assms(1) by (auto simp: ledger_inv_def markers_def)
  obtain r where r: "append_marker env run rid trk path digest l = (Inr r, l\<lparr>tl_file := Some (log_content (tl_file l)
      @ ascii_bytes (target_text r) @ [10]), tl_request_ids := tl_request_ids l @ [rid], tl_records := tl_records l @ [r]\<rparr>)"
    "tg_request_id r = rid" "tg_path r = path" "tg_decision_digest r = digest"
    by (rule append_marker_works [OF assms(3-7) False assms(2)])
  then have "out = Inr r" "tl_records l' = tl_records l @ [r]" using assms(8) by auto
  with fresh r(2-) show ?thesis by (simp add: spec_put_def markers_def)
qed

subsection \<open>A ledger with one marker, for the witnesses\<close>

definition sample_path :: LedgerPath where
  "sample_path = \<lparr>lp_absolute = True, lp_parent_dir = True, lp_symlink = False, lp_exists = False, lp_regular = False,
     lp_mode = 0, lp_size = 0, lp_content = Inr []\<rparr>"

definition sample_marker_env :: MarkerEnv where
  "sample_marker_env = \<lparr>me_received_ns = Inr 3, me_response_ns = Inr 4,
     me_append = \<lparr>ae_open = None, ae_write = (\<lambda>_. Inr 100), ae_fsync = None, ae_close = None\<rparr>\<rparr>"

lemma sample_marker_env_works: "marker_env_works sample_marker_env"
proof -
  have "bit_length 4 \<le> MAX_INTEGER_BITS" by code_simp
  then show ?thesis by (simp add: marker_env_works_def sample_marker_env_def env_works_def)
qed

lemma sample_ids:
  "request_id_text (u ''run1'')" "request_id_text (u ''r1'')" "target_path (u ''/benign/read'')"
  "hex64 (replicate 64 97)"
  by code_simp+

lemma sample_empty: "make_TargetLedger limit sample_path = Inr empty_ledger"
  by (simp add: make_TargetLedger_def sample_path_def)

lemma sample_one_marker:
  obtains r l where "append_marker sample_marker_env (u ''run1'') (u ''r1'') CREDENTIAL_POLICY_BASELINE (u ''/benign/read'')
      (replicate 64 97) empty_ledger = (Inr r, l)"
    "ledger_run empty_ledger [Inr r] l" "\<not> tl_invalid l" "tl_file l = Some (ascii_bytes (target_text r) @ [10])"
    "length (ascii_bytes (target_text r) @ [10]) \<le> MAX_LEDGER_BYTES" "tl_request_ids l = [u ''r1'']" "tl_records l = [r]"
    "tg_request_id r = u ''r1''"
proof -
  have e: "u ''r1'' \<notin> set (tl_request_ids empty_ledger)" "length (tl_records empty_ledger) < MAX_RECORDS"
    by (simp_all add: empty_ledger_def MAX_RECORDS_def)
  obtain r where r: "append_marker sample_marker_env (u ''run1'') (u ''r1'') CREDENTIAL_POLICY_BASELINE (u ''/benign/read'')
      (replicate 64 97) empty_ledger = (Inr r, empty_ledger\<lparr>tl_file := Some (log_content (tl_file empty_ledger)
      @ ascii_bytes (target_text r) @ [10]), tl_request_ids := tl_request_ids empty_ledger @ [u ''r1''],
      tl_records := tl_records empty_ledger @ [r]\<rparr>)" "tg_request_id r = u ''r1''"
    by (rule append_marker_works [OF sample_marker_env_works sample_ids e, of CREDENTIAL_POLICY_BASELINE])
  have inv: "ledger_inv 1 (snd (append_marker sample_marker_env (u ''run1'') (u ''r1'') CREDENTIAL_POLICY_BASELINE
      (u ''/benign/read'') (replicate 64 97) empty_ledger))"
    by (rule append_marker_inv [OF empty_ledger_inv]) simp
  then have "wf_TargetHttpRecord r" "clock_ok r" unfolding r(1) snd_conv by (simp_all add: ledger_inv_def empty_ledger_def)
  then have len: "length (ascii_bytes (target_text r) @ [10]) \<le> MAX_LEDGER_BYTES"
    using target_text_length [of r] by (simp add: clock_ok_def ascii_bytes_def MAX_LEDGER_BYTES_def)
  define l where "l = empty_ledger\<lparr>tl_file := Some (log_content (tl_file empty_ledger)
      @ ascii_bytes (target_text r) @ [10]), tl_request_ids := tl_request_ids empty_ledger @ [u ''r1''],
      tl_records := tl_records empty_ledger @ [r]\<rparr>"
  then have ap: "append_marker sample_marker_env (u ''run1'') (u ''r1'') CREDENTIAL_POLICY_BASELINE (u ''/benign/read'')
      (replicate 64 97) empty_ledger = (Inr r, l)" using r(1) by simp
  have run: "ledger_run empty_ledger [Inr r] l"
    using more [OF start step [OF ap]] by simp
  have "tl_file l = Some (ascii_bytes (target_text r) @ [10])" "\<not> tl_invalid l" "tl_request_ids l = [u ''r1'']"
    "tl_records l = [r]"
    by (simp_all add: l_def empty_ledger_def)
  with ap run r(2) len show thesis by (intro that)
qed

theorem ledger_markers_witness:
  "\<exists>r l. ledger_run empty_ledger [Inr r] l \<and> tl_records l = [r]
     \<and> fst (append_marker sample_marker_env (u ''run1'') (u ''r1'') CREDENTIAL_POLICY_BASELINE (u ''/benign/read'')
          (replicate 64 97) l) = Inl DuplicateTargetRecord"
proof -
  obtain r l where l: "ledger_run empty_ledger [Inr r] l" "tl_records l = [r]" "tg_request_id r = u ''r1''"
    by (rule sample_one_marker)
  obtain out l' where o: "append_marker sample_marker_env (u ''run1'') (u ''r1'') CREDENTIAL_POLICY_BASELINE (u ''/benign/read'')
      (replicate 64 97) l = (out, l')" by fastforce
  have "out = Inl DuplicateTargetRecord"
    using ledger_markers [OF sample_empty l(1) _ o, of 1] l by simp
  with l o show ?thesis by (intro exI [of _ r] exI [of _ l]) simp
qed

theorem ledger_refines_witness:
  "\<exists>out l'. append_marker sample_marker_env (u ''run1'') (u ''r1'') CREDENTIAL_POLICY_BASELINE (u ''/benign/read'')
       (replicate 64 97) empty_ledger = (out, l') \<and> is_ok out
     \<and> markers l' = [(u ''r1'', u ''/benign/read'', replicate 64 97)]"
proof -
  obtain out l' where o: "append_marker sample_marker_env (u ''run1'') (u ''r1'') CREDENTIAL_POLICY_BASELINE (u ''/benign/read'')
      (replicate 64 97) empty_ledger = (out, l')" by fastforce
  have "length (tl_records empty_ledger) < MAX_RECORDS" by (simp add: empty_ledger_def MAX_RECORDS_def)
  from ledger_refines [OF empty_ledger_inv this sample_marker_env_works sample_ids o] o show ?thesis
    by (simp add: spec_put_def markers_def empty_ledger_def)
qed

end
