(* ===== verification/KilTargetHttp.thy ===== *)
theory KilTargetHttp
  imports KilTargetLedger
begin

text \<open>
  \<^verbatim>\<open>src/kil/target_http.py\<close>, the target process: a request that names its id, the track of the
  process and a decision digest leaves one marker in the ledger before it is answered 200.
\<close>

definition TARGET_CONFIG_SCHEMA :: string where "TARGET_CONFIG_SCHEMA = ''kil.v3b-target-http.v1''"
definition MAX_TARGET_CONFIG_BYTES :: nat where "MAX_TARGET_CONFIG_BYTES = 64 * 1024"

definition JOIN_HEADERS :: "string list" where
  "JOIN_HEADERS = [''x-request-id'', ''x-kil-track'', ''x-kil-decision-digest'']"

definition BODY_HEADERS :: "string list" where
  "BODY_HEADERS = [''transfer-encoding'', ''content-encoding'']"

record TargetHttpApp =
  ta_run_id :: pstr
  ta_track :: LiveTrack
  ta_ledger :: TargetLedger

definition make_TargetHttpApp :: "pstr \<Rightarrow> LiveTrack \<Rightarrow> TargetLedger \<Rightarrow> TargetHttpApp res" where
  "make_TargetHttpApp run_id trk ledger =
     (if \<not> request_id_text run_id then Inl (ValueError ''run_id is invalid'')
      else if list_ex (\<lambda>r. tg_run_id r \<noteq> run_id \<or> tg_track r \<noteq> trk) (tl_records ledger)
      then Inl (ValueError ''existing ledger does not match fixed run and track'')
      else Inr \<lparr>ta_run_id = run_id, ta_track = trk, ta_ledger = ledger\<rparr>)"

definition header_value :: "header_groups \<Rightarrow> string \<Rightarrow> pstr" where
  "header_value g name = (case group_get g (u name) of [] \<Rightarrow> [] | v # _ \<Rightarrow> v)"

definition join_values :: "LiveTrack \<Rightarrow> HttpRequest \<Rightarrow> (pstr \<times> pstr) option" where
  "join_values trk request =
     (let grouped = group_headers (hq_headers request) in
      if list_ex (\<lambda>n. length (group_get grouped (u n)) \<noteq> 1) JOIN_HEADERS then None
      else if list_ex (\<lambda>n. in_group grouped (u n)) BODY_HEADERS then None
      else if announces_body grouped then None
      else let request_id = header_value grouped ''x-request-id'';
               digest = header_value grouped ''x-kil-decision-digest'' in
        if \<not> request_id_text request_id \<or> header_value grouped ''x-kil-track'' \<noteq> u (LiveTrack_value trk) \<or> \<not> hex64 digest
        then None else Some (request_id, digest))"

definition join_values_for_health :: "HttpRequest \<Rightarrow> bool" where
  "join_values_for_health request =
     (let grouped = group_headers (hq_headers request) in
      \<not> list_ex (\<lambda>n. in_group grouped (u n)) BODY_HEADERS \<and> \<not> announces_body grouped)"

definition target_response :: "int \<Rightarrow> string \<Rightarrow> HttpResponse" where
  "target_response status w = \<lparr>hr_status = status, hr_headers = [], hr_body = text_bytes w @ [10]\<rparr>"

definition target_handle :: "MarkerEnv \<Rightarrow> TargetHttpApp \<Rightarrow> HttpRequest \<Rightarrow> HttpResponse \<times> TargetHttpApp" where
  "target_handle env app request =
     (if hq_method request = u ''GET'' \<and> hq_path request = u ''/healthz'' then
        (if hq_body request \<noteq> [] \<or> \<not> join_values_for_health request then target_response 400 ''invalid request''
         else target_response 200 ''ok'', app)
      else if \<not> list_ex (\<lambda>(m, p). hq_method request = u m \<and> hq_path request = u p) TARGET_ROUTES
      then (target_response 404 ''not found'', app)
      else if hq_body request \<noteq> [] then (target_response 400 ''invalid request'', app)
      else case join_values (ta_track app) request of
        None \<Rightarrow> (target_response 400 ''invalid request'', app)
      | Some (request_id, digest) \<Rightarrow>
          (case append_marker env (ta_run_id app) request_id (ta_track app) (hq_path request) digest (ta_ledger app) of
             (Inl e, ledger) \<Rightarrow>
               (if e = DuplicateTargetRecord then target_response 409 ''conflict'' else target_response 503 ''unavailable'',
                app\<lparr>ta_ledger := ledger\<rparr>)
           | (Inr _, ledger) \<Rightarrow> (target_response 200 ''recorded'', app\<lparr>ta_ledger := ledger\<rparr>)))"

text \<open>The handler of a connection.\<close>

definition target_serve ::
    "MarkerEnv \<Rightarrow> bool \<Rightarrow> TargetHttpApp \<Rightarrow> pstr \<Rightarrow> pstr \<Rightarrow> (pstr \<times> pstr) list \<Rightarrow> SentResponse option \<times> TargetHttpApp" where
  "target_serve env client_ok app command path headers =
     (case (if command \<notin> set (map u HANDLED_METHODS) then (target_response 400 ''invalid request'', app)
            else case make_HttpRequest command path headers [] of
              Inl _ \<Rightarrow> (target_response 400 ''invalid request'', app)
            | Inr request \<Rightarrow> target_handle env app request) of
        (response, app1) \<Rightarrow> (if client_ok then Some (send_response command response) else None, app1))"

subsection \<open>Configuration\<close>

record TargetServiceRuntime =
  tt_app :: TargetHttpApp
  tt_bind_host :: string
  tt_bind_port :: int

definition TARGET_CONFIG_FIELDS :: "string list" where
  "TARGET_CONFIG_FIELDS = [''schema_version'', ''run_id'', ''track'', ''bind_host'', ''bind_port'', ''ledger_path'']"

definition target_string :: "string \<Rightarrow> pyval \<Rightarrow> pstr res" where
  "target_string name v = (case v of PStr s \<Rightarrow> Inr s | _ \<Rightarrow> Inl (TargetConfigError (name @ '' must be a string'')))"

text \<open>The checked settings: run id, track and path of the ledger.\<close>

definition target_settings :: "nat \<Rightarrow> ConfigFile \<Rightarrow> (pstr \<times> LiveTrack \<times> pstr) res" where
  "target_settings limit file =
     bind_r (load_config_value TargetConfigError MAX_TARGET_CONFIG_BYTES limit file) (\<lambda>v.
     bind_r (case v of PDict d \<Rightarrow> Inr d | _ \<Rightarrow> Inl (TargetConfigError ''target config must be an object'')) (\<lambda>raw.
     bind_r (ensure (\<not> has_unknown raw TARGET_CONFIG_FIELDS) (TargetConfigError ''unknown config fields'')) (\<lambda>_.
     bind_r (ensure (\<not> has_missing raw TARGET_CONFIG_FIELDS) (TargetConfigError ''missing config fields'')) (\<lambda>_.
     bind_r (dict_item raw ''schema_version'') (\<lambda>version.
     bind_r (ensure (version = PStr (u TARGET_CONFIG_SCHEMA)) (TargetConfigError ''unsupported config schema_version'')) (\<lambda>_.
     bind_r (bind_r (dict_item raw ''run_id'') (target_string ''run_id'')) (\<lambda>run_id.
     bind_r (bind_r (dict_item raw ''track'') (target_string ''track'')) (\<lambda>trk_value.
     bind_r (case track_of_value trk_value of
         None \<Rightarrow> Inl (TargetConfigError ''track must be a fixed LiveTrack value'') | Some t \<Rightarrow> Inr t) (\<lambda>trk.
     bind_r (dict_item raw ''bind_host'') (\<lambda>host.
     bind_r (ensure (host = PStr (u ''0.0.0.0'')) (TargetConfigError ''bind_host must be 0.0.0.0 inside the container'')) (\<lambda>_.
     bind_r (dict_item raw ''bind_port'') (\<lambda>port.
     bind_r (ensure (port = PInt 8080) (TargetConfigError ''bind_port must be 8080'')) (\<lambda>_.
     bind_r (bind_r (dict_item raw ''ledger_path'') (target_string ''ledger_path'')) (\<lambda>path.
     Inr (run_id, trk, path)))))))))))))))"

definition load_target_service_config ::
    "nat \<Rightarrow> (pstr \<Rightarrow> LedgerPath) \<Rightarrow> ConfigFile \<Rightarrow> TargetServiceRuntime res" where
  "load_target_service_config limit ledgers file =
     bind_r (target_settings limit file) (\<lambda>(run_id, trk, path).
     bind_r (rewrap TargetConfigError
       (bind_r (make_TargetLedger limit (ledgers path)) (\<lambda>ledger. make_TargetHttpApp run_id trk ledger))) (\<lambda>app.
     Inr \<lparr>tt_app = app, tt_bind_host = ''0.0.0.0'', tt_bind_port = 8080\<rparr>))"

subsection \<open>The process as a state machine\<close>

text \<open>
  A process loads its ledger and serves connections one at a time, as the ledger's lock
  makes them; it may be restarted from the file at any time.
\<close>

inductive serves :: "TargetHttpApp \<Rightarrow> SentResponse list \<Rightarrow> TargetHttpApp \<Rightarrow> bool" where
  idle: "serves app [] app"
| connection: "serves app sents app1 \<Longrightarrow>
     target_serve env True app1 command path headers = (Some sent, app2) \<Longrightarrow> serves app (sents @ [sent]) app2"

definition app_inv :: "nat \<Rightarrow> TargetHttpApp \<Rightarrow> bool" where
  "app_inv limit app \<longleftrightarrow> ledger_inv limit (ta_ledger app) \<and> request_id_text (ta_run_id app)
     \<and> list_all (\<lambda>r. tg_run_id r = ta_run_id app \<and> tg_track r = ta_track app) (tl_records (ta_ledger app))"

lemma make_TargetHttpApp_inv:
  "make_TargetHttpApp run trk ledger = Inr app \<Longrightarrow> ledger_inv limit ledger \<Longrightarrow>
     app_inv limit app \<and> ta_run_id app = run \<and> ta_track app = trk \<and> ta_ledger app = ledger"
  by (auto simp: make_TargetHttpApp_def app_inv_def list_all_iff list_ex_iff split: if_splits)

text \<open>The three ways a connection ends: recorded, refused by the ledger, or without touching it.\<close>

definition recorded_request :: "TargetHttpApp \<Rightarrow> pstr \<Rightarrow> pstr \<Rightarrow> (pstr \<times> pstr) list \<Rightarrow> TargetHttpApp \<Rightarrow> bool" where
  "recorded_request app command path headers app' \<longleftrightarrow> (\<exists>rid digest r.
     (command, path) \<in> set (map (\<lambda>(m, p). (u m, u p)) TARGET_ROUTES)
     \<and> group_get (group_headers headers) (u ''x-request-id'') = [rid]
     \<and> group_get (group_headers headers) (u ''x-kil-track'') = [u (LiveTrack_value (ta_track app))]
     \<and> group_get (group_headers headers) (u ''x-kil-decision-digest'') = [digest]
     \<and> rid \<notin> set (tl_request_ids (ta_ledger app))
     \<and> wf_TargetHttpRecord r \<and> tg_run_id r = ta_run_id app \<and> tg_request_id r = rid \<and> tg_track r = ta_track app
     \<and> tg_path r = path \<and> tg_decision_digest r = digest
     \<and> ta_run_id app' = ta_run_id app \<and> ta_track app' = ta_track app
     \<and> tl_records (ta_ledger app') = tl_records (ta_ledger app) @ [r]
     \<and> tl_invalid (ta_ledger app') = tl_invalid (ta_ledger app)
     \<and> tl_file (ta_ledger app') = Some (log_content (tl_file (ta_ledger app)) @ ascii_bytes (target_text r) @ [10]))"

lemma join_values_Some:
  assumes "join_values trk request = Some (rid, digest)"
  shows "group_get (group_headers (hq_headers request)) (u ''x-request-id'') = [rid]
    \<and> group_get (group_headers (hq_headers request)) (u ''x-kil-track'') = [u (LiveTrack_value trk)]
    \<and> group_get (group_headers (hq_headers request)) (u ''x-kil-decision-digest'') = [digest]"
  using assms
  by (auto simp: join_values_def Let_def JOIN_HEADERS_def header_value_def length_Suc_conv split: if_splits list.splits)

lemma target_handle_cases:
  obtains
    (untouched) status w where "target_handle env app request = (target_response status w, app)"
      "status \<in> {200, 400, 404}" "status = 200 \<longrightarrow> hq_method request = u ''GET'' \<and> hq_path request = u ''/healthz'' \<and> w = ''ok''"
      "status = 400 \<longrightarrow> w = ''invalid request''" "status = 404 \<longrightarrow> w = ''not found''"
  | (appended) rid digest out ledger where
      "append_marker env (ta_run_id app) rid (ta_track app) (hq_path request) digest (ta_ledger app) = (out, ledger)"
      "join_values (ta_track app) request = Some (rid, digest)"
      "(hq_method request, hq_path request) \<in> set (map (\<lambda>(m, p). (u m, u p)) TARGET_ROUTES)"
      "target_handle env app request = (case out of Inr _ \<Rightarrow> target_response 200 ''recorded''
         | Inl e \<Rightarrow> if e = DuplicateTargetRecord then target_response 409 ''conflict'' else target_response 503 ''unavailable'',
         app\<lparr>ta_ledger := ledger\<rparr>)"
proof (cases "hq_method request = u ''GET'' \<and> hq_path request = u ''/healthz''")
  case True
  then show thesis
    using untouched by (cases "hq_body request \<noteq> [] \<or> \<not> join_values_for_health request") (auto simp: target_handle_def)
next
  case False
  note health = this
  show thesis
  proof (cases "list_ex (\<lambda>(m, p). hq_method request = u m \<and> hq_path request = u p) TARGET_ROUTES \<and> hq_body request = []
      \<and> join_values (ta_track app) request \<noteq> None")
    case True
    then obtain rid digest where j: "join_values (ta_track app) request = Some (rid, digest)" by auto
    obtain out ledger where a: "append_marker env (ta_run_id app) rid (ta_track app) (hq_path request) digest (ta_ledger app)
        = (out, ledger)" by fastforce
    have "(hq_method request, hq_path request) \<in> set (map (\<lambda>(m, p). (u m, u p)) TARGET_ROUTES)"
      using True by (auto simp: TARGET_ROUTES_def)
    then show thesis
      by (rule appended [OF a j]) (use True health j a in \<open>auto simp: target_handle_def split: sum.splits\<close>)
  next
    case False
    then show thesis
      using untouched health
      by (cases "list_ex (\<lambda>(m, p). hq_method request = u m \<and> hq_path request = u p) TARGET_ROUTES";
          cases "hq_body request = []"; cases "join_values (ta_track app) request")
        (auto simp: target_handle_def)
  qed
qed

lemma target_appended:
  assumes "append_marker env (ta_run_id app) rid (ta_track app) path digest (ta_ledger app) = (out, ledger)"
    and "join_values (ta_track app) request = Some (rid, digest)" "hq_headers request = headers"
    and "(command, path) \<in> set (map (\<lambda>(m, p). (u m, u p)) TARGET_ROUTES)"
  shows "(is_ok out \<longrightarrow> recorded_request app command path headers (app\<lparr>ta_ledger := ledger\<rparr>))
    \<and> (\<not> is_ok out \<longrightarrow> tl_records ledger = tl_records (ta_ledger app) \<and> tl_invalid ledger)
    \<and> (rid \<in> set (tl_request_ids (ta_ledger app)) \<longrightarrow> out = Inl DuplicateTargetRecord)"
proof (cases rule: append_marker_cases [of env "ta_run_id app" rid "ta_track app" path digest "ta_ledger app"])
  case (recorded r)
  then have o: "out = Inr r" "ledger = (ta_ledger app)\<lparr>tl_file := Some (log_content (tl_file (ta_ledger app))
      @ ascii_bytes (target_text r) @ [10]), tl_request_ids := tl_request_ids (ta_ledger app) @ [rid],
      tl_records := tl_records (ta_ledger app) @ [r]\<rparr>"
    using assms(1) by simp_all
  note m = marker_record_Inr [OF recorded(2)]
  have "recorded_request app command path headers (app\<lparr>ta_ledger := ledger\<rparr>)"
    unfolding recorded_request_def
    by (rule exI [of _ rid], rule exI [of _ digest], rule exI [of _ r])
      (use m o recorded(4) assms(3,4) join_values_Some [OF assms(2)] in simp)
  with o recorded(4) show ?thesis by simp
next
  case (refused e content)
  then have "out = Inl e" "ledger = invalidate ((ta_ledger app)\<lparr>tl_file := content\<rparr>)" using assms(1) by simp_all
  with refused(2) show ?thesis by (simp add: invalidate_def)
qed

text \<open>One connection, as its client sees it.\<close>

lemma target_serve_cases:
  assumes "target_serve env True app command path headers = (Some sent, app')"
  obtains
    (untouched) status w where "sent = send_response command (target_response status w)" "app' = app"
      "status \<in> {200, 400, 404}" "status = 200 \<longrightarrow> command = u ''GET'' \<and> path = u ''/healthz'' \<and> w = ''ok''"
      "w \<in> {''ok'', ''invalid request'', ''not found''}"
  | (recorded) "sent = send_response command (target_response 200 ''recorded'')"
      "recorded_request app command path headers app'"
  | (refused) status w where "sent = send_response command (target_response status w)"
      "(status, w) \<in> {(409, ''conflict''), (503, ''unavailable'')}"
      "tl_records (ta_ledger app') = tl_records (ta_ledger app)" "tl_invalid (ta_ledger app')"
      "ta_run_id app' = ta_run_id app" "ta_track app' = ta_track app"
      "\<forall>rid. group_get (group_headers headers) (u ''x-request-id'') = [rid] \<longrightarrow>
         rid \<in> set (tl_request_ids (ta_ledger app)) \<longrightarrow> status = 409"
proof (cases "command \<in> set (map u HANDLED_METHODS) \<and> is_ok (make_HttpRequest command path headers [])")
  case False
  then have "sent = send_response command (target_response 400 ''invalid request'')" "app' = app"
    using assms by (auto simp: target_serve_def split: if_splits sum.splits prod.splits)
  then show thesis using untouched [of 400 "''invalid request''"] by simp
next
  case True
  then obtain request where req: "make_HttpRequest command path headers [] = Inr request" by (auto simp: is_ok_iff)
  note fields = make_HttpRequest_wf [OF req]
  show thesis
  proof (cases rule: target_handle_cases [of env app request])
    case (untouched status w)
    have "sent = send_response command (target_response status w)" "app' = app"
      using assms True req untouched(1) by (auto simp: target_serve_def)
    then show thesis using that(1) [of status w] untouched(2-) fields by auto
  next
    case (appended rid digest out ledger)
    let ?resp = "case out of Inr _ \<Rightarrow> target_response 200 ''recorded''
         | Inl e \<Rightarrow> if e = DuplicateTargetRecord then target_response 409 ''conflict'' else target_response 503 ''unavailable''"
    have s: "sent = send_response command ?resp" "app' = app\<lparr>ta_ledger := ledger\<rparr>"
      using assms True req appended(4) by (auto simp: target_serve_def)
    have ap: "(is_ok out \<longrightarrow> recorded_request app command path headers (app\<lparr>ta_ledger := ledger\<rparr>))
      \<and> (\<not> is_ok out \<longrightarrow> tl_records ledger = tl_records (ta_ledger app) \<and> tl_invalid ledger)
      \<and> (rid \<in> set (tl_request_ids (ta_ledger app)) \<longrightarrow> out = Inl DuplicateTargetRecord)"
      by (rule target_appended [OF _ appended(2)]) (use appended(1,3) fields in simp_all)
    have rid: "group_get (group_headers headers) (u ''x-request-id'') = [rid]"
      using join_values_Some [OF appended(2)] fields by simp
    show thesis
    proof (cases out)
      case (Inr r)
      then show thesis using that(2) s ap by simp
    next
      case (Inl e)
      then show thesis
        using that(3) [of "if e = DuplicateTargetRecord then 409 else 503"
            "if e = DuplicateTargetRecord then ''conflict'' else ''unavailable''"] s ap rid
        by (cases "e = DuplicateTargetRecord") auto
    qed
  qed
qed

lemma target_handle_inv:
  assumes "app_inv limit app" "1 \<le> limit" "target_handle env app request = (resp, app')"
  shows "app_inv limit app' \<and> ta_run_id app' = ta_run_id app \<and> ta_track app' = ta_track app"
proof (cases rule: target_handle_cases [of env app request])
  case (untouched status w)
  then show ?thesis using assms by simp
next
  case (appended rid digest out ledger)
  then have app': "app' = app\<lparr>ta_ledger := ledger\<rparr>" using assms(3) by simp
  have "ledger_inv limit ledger"
    using append_marker_inv [of limit "ta_ledger app" env "ta_run_id app" rid "ta_track app" "hq_path request" digest]
      appended(1) assms(1,2) by (simp add: app_inv_def)
  moreover have "list_all (\<lambda>r. tg_run_id r = ta_run_id app \<and> tg_track r = ta_track app) (tl_records ledger)"
    using assms(1) appended(1) marker_record_Inr
    by (cases rule: append_marker_cases [of env "ta_run_id app" rid "ta_track app" "hq_path request" digest "ta_ledger app"])
      (auto simp: app_inv_def invalidate_def)
  ultimately show ?thesis using assms(1) app' by (simp add: app_inv_def)
qed

lemma target_serve_inv:
  assumes "app_inv limit app" "1 \<le> limit" "target_serve env ok app command path headers = (out, app')"
  shows "app_inv limit app' \<and> ta_run_id app' = ta_run_id app \<and> ta_track app' = ta_track app"
  using assms target_handle_inv [OF assms(1,2)]
  by (auto simp: target_serve_def split: if_splits sum.splits prod.splits)

text \<open>The answers that report a recorded marker.\<close>

definition reports_marker :: "SentResponse \<Rightarrow> bool" where
  "reports_marker s \<longleftrightarrow> sn_status s = 200 \<and> sn_body s = text_bytes ''recorded'' @ [10]"

lemma text_bytes_distinct:
  "text_bytes ''recorded'' \<noteq> text_bytes ''ok''" "text_bytes ''ok'' \<noteq> text_bytes ''recorded''"
  by code_simp+

lemma target_serve_marker:
  assumes "target_serve env True app command path headers = (Some sent, app')"
  shows "if reports_marker sent then recorded_request app command path headers app'
     else tl_records (ta_ledger app') = tl_records (ta_ledger app)"
  using assms
proof (cases rule: target_serve_cases)
  case (untouched status w)
  then have "\<not> reports_marker sent"
    by (auto simp: reports_marker_def send_response_def target_response_def text_bytes_distinct split: if_splits)
  with untouched show ?thesis by simp
next
  case recorded
  then have "command \<noteq> u ''HEAD''" by (auto simp: recorded_request_def TARGET_ROUTES_def)
  with recorded have "reports_marker sent"
    by (simp add: reports_marker_def send_response_def target_response_def)
  with recorded show ?thesis by simp
next
  case (refused status w)
  then have "\<not> reports_marker sent" by (auto simp: reports_marker_def send_response_def target_response_def)
  with refused show ?thesis by simp
qed

lemma serves_records:
  assumes "serves app sents app'"
  shows "length (tl_records (ta_ledger app')) = length (tl_records (ta_ledger app)) + length (filter reports_marker sents)"
  using assms
proof (induction rule: serves.induct)
  case (connection app sents app1 env command path headers sent app2)
  from target_serve_marker [OF connection.hyps(2)] connection.IH show ?case
    by (auto simp: recorded_request_def split: if_splits)
qed simp

lemma serves_inv:
  assumes "serves app sents app'" "app_inv limit app" "1 \<le> limit"
  shows "app_inv limit app' \<and> ta_run_id app' = ta_run_id app \<and> ta_track app' = ta_track app"
  using assms
proof (induction rule: serves.induct)
  case (connection app sents app1 env command path headers sent app2)
  then have "app_inv limit app1 \<and> ta_run_id app1 = ta_run_id app \<and> ta_track app1 = ta_track app" by simp
  with target_serve_inv [OF _ connection.prems(2) connection.hyps(2)] show ?case by auto
qed simp

subsection \<open>The loaded process\<close>

lemma load_target_Inr:
  "load_target_service_config limit ledgers file = Inr rt \<longleftrightarrow>
     (\<exists>run trk path ledger. target_settings limit file = Inr (run, trk, path)
        \<and> make_TargetLedger limit (ledgers path) = Inr ledger \<and> make_TargetHttpApp run trk ledger = Inr (tt_app rt)
        \<and> tt_bind_host rt = ''0.0.0.0'' \<and> tt_bind_port rt = 8080)"
proof -
  have "rt = \<lparr>tt_app = app, tt_bind_host = ''0.0.0.0'', tt_bind_port = 8080\<rparr> \<longleftrightarrow>
      tt_app rt = app \<and> tt_bind_host rt = ''0.0.0.0'' \<and> tt_bind_port rt = 8080" for app
    by (cases rt) auto
  then show ?thesis by (auto simp: load_target_service_config_def bind_r_eq_Inr)
qed

lemma loaded_app_inv:
  "load_target_service_config limit ledgers file = Inr rt \<Longrightarrow> app_inv limit (tt_app rt) \<and> \<not> tl_invalid (ta_ledger (tt_app rt))"
  by (auto simp: load_target_Inr dest!: make_TargetLedger_inv make_TargetHttpApp_inv)

subsection \<open>Properties\<close>

text \<open>
  Claim C17: one marker per 200. A connection other than the health check is answered 200
  exactly when its command and path are a route, its three join headers occur once each, the
  track is the process's, the request id is new, and one well-formed record of this request
  was appended: as the last record, and as a complete line at the end of the file. Every
  other answer is 400, 404, 409 or 503 and leaves the records as they were, and a request
  id that is in the ledger is never answered 200 or 503.
\<close>
theorem target_answers:
  assumes "target_serve env True app command path headers = (Some sent, app')"
    and "\<not> (command = u ''GET'' \<and> path = u ''/healthz'')"
  shows "(sn_status sent = 200 \<longleftrightarrow> recorded_request app command path headers app')
    \<and> (sn_status sent \<noteq> 200 \<longrightarrow> sn_status sent \<in> {400, 404, 409, 503}
         \<and> tl_records (ta_ledger app') = tl_records (ta_ledger app))
    \<and> (\<forall>rid. group_get (group_headers headers) (u ''x-request-id'') = [rid] \<longrightarrow>
         rid \<in> set (tl_request_ids (ta_ledger app)) \<longrightarrow> sn_status sent \<in> {400, 404, 409})"
proof -
  have changed: "\<not> recorded_request app command path headers app'"
    if "tl_records (ta_ledger app') = tl_records (ta_ledger app)"
    using that by (auto simp: recorded_request_def)
  from assms(1) show ?thesis
  proof (cases rule: target_serve_cases)
    case (untouched status w)
    then show ?thesis using assms(2) changed by (auto simp: send_response_def target_response_def)
  next
    case recorded
    then show ?thesis by (auto simp: send_response_def target_response_def recorded_request_def)
  next
    case (refused status w)
    then show ?thesis using changed by (auto simp: send_response_def target_response_def)
  qed
qed

text \<open>
  Claim C29: what a target process has recorded. From any loaded configuration, after any
  sequence of connections, the process still has its run id and track, every record is well
  formed and carries them, the request ids of the records are pairwise distinct, and the
  number of records grew by exactly the number of connections answered as recorded.
\<close>
theorem target_process_inv:
  assumes "load_target_service_config limit ledgers file = Inr rt" "1 \<le> limit" "serves (tt_app rt) sents app"
  shows "ta_run_id app = ta_run_id (tt_app rt) \<and> ta_track app = ta_track (tt_app rt)
    \<and> list_all (\<lambda>r. wf_TargetHttpRecord r \<and> tg_run_id r = ta_run_id app \<and> tg_track r = ta_track app) (tl_records (ta_ledger app))
    \<and> distinct (map tg_request_id (tl_records (ta_ledger app)))
    \<and> length (tl_records (ta_ledger app))
      = length (tl_records (ta_ledger (tt_app rt))) + length (filter reports_marker sents)"
proof -
  have "app_inv limit app \<and> ta_run_id app = ta_run_id (tt_app rt) \<and> ta_track app = ta_track (tt_app rt)"
    using serves_inv [OF assms(3)] loaded_app_inv [OF assms(1)] assms(2) by blast
  moreover from this have "distinct (map tg_request_id (tl_records (ta_ledger app)))"
    by (auto simp: app_inv_def ledger_inv_def)
  ultimately show ?thesis
    using serves_records [OF assms(3)] by (auto simp: app_inv_def ledger_inv_def list_all_iff)
qed

text \<open>
  Claim C18: a target process survives a restart. If a process loaded from a configuration
  served any sequence of connections and its ledger is not marked invalid, then loading the
  same configuration again, with the ledger's file as it was left (owner-only, within the
  size limit), gives a process with the same run id, track, records and request ids.
\<close>
theorem target_restart:
  assumes "load_target_service_config limit ledgers file = Inr rt" "1 \<le> limit" "serves (tt_app rt) sents app"
    and "\<not> tl_invalid (ta_ledger app)" "tl_file (ta_ledger app) = Some content" "length content \<le> MAX_LEDGER_BYTES"
    and "\<And>path. lp_absolute (ledgers' path) \<and> lp_parent_dir (ledgers' path) \<and> \<not> lp_symlink (ledgers' path)
       \<and> lp_exists (ledgers' path) \<and> lp_regular (ledgers' path) \<and> lp_mode (ledgers' path) = 384
       \<and> lp_size (ledgers' path) = length content \<and> lp_content (ledgers' path) = Inr content"
  shows "load_target_service_config limit ledgers' file = Inr (rt\<lparr>tt_app := app\<rparr>)"
proof -
  obtain run trk path ledger where l: "target_settings limit file = Inr (run, trk, path)"
    "make_TargetLedger limit (ledgers path) = Inr ledger" "make_TargetHttpApp run trk ledger = Inr (tt_app rt)"
    "tt_bind_host rt = ''0.0.0.0''" "tt_bind_port rt = 8080"
    using assms(1) by (auto simp: load_target_Inr)
  have inv: "app_inv limit app" "ta_run_id app = run" "ta_track app = trk"
    using serves_inv [OF assms(3)] loaded_app_inv [OF assms(1)] assms(2) make_TargetHttpApp_inv [OF l(3), of limit]
      make_TargetLedger_inv [OF l(2)] by auto
  have "make_TargetLedger limit (ledgers' path) = Inr (ta_ledger app)"
    by (rule file_matches_loads [OF _ assms(4,5)]) (use inv(1) assms(6) assms(7) [of path] in \<open>simp_all add: app_inv_def\<close>)
  moreover have "make_TargetHttpApp run trk (ta_ledger app) = Inr app"
    using inv by (cases app) (auto simp: make_TargetHttpApp_def app_inv_def list_all_iff list_ex_iff)
  ultimately show ?thesis using l by (simp add: load_target_Inr)
qed

subsection \<open>A process that serves one request, for the witnesses\<close>

definition target_config_value :: pyval where
  "target_config_value = PDict
     [(PStr (u ''bind_host''), PStr (u ''0.0.0.0'')), (PStr (u ''bind_port''), PInt 8080),
      (PStr (u ''ledger_path''), PStr (u ''/records/target.jsonl'')), (PStr (u ''run_id''), PStr (u ''run1'')),
      (PStr (u ''schema_version''), PStr (u ''kil.v3b-target-http.v1'')),
      (PStr (u ''track''), PStr (u ''credential_policy_baseline''))]"

definition target_config_file :: ConfigFile where
  "target_config_file = \<lparr>cf_regular = True, cf_mode = 256, cf_size = length (dump_text target_config_value),
     cf_content = utf8_encode (dump_text target_config_value)\<rparr>"

lemma target_config_settings:
  "target_settings 1000 target_config_file = Inr (u ''run1'', CREDENTIAL_POLICY_BASELINE, u ''/records/target.jsonl'')"
  by code_simp

definition target_runtime :: TargetServiceRuntime where
  "target_runtime = \<lparr>tt_app = \<lparr>ta_run_id = u ''run1'', ta_track = CREDENTIAL_POLICY_BASELINE, ta_ledger = empty_ledger\<rparr>,
     tt_bind_host = ''0.0.0.0'', tt_bind_port = 8080\<rparr>"

lemma target_runtime_loaded:
  "load_target_service_config 1000 (\<lambda>_. sample_path) target_config_file = Inr target_runtime"
proof -
  have "make_TargetHttpApp (u ''run1'') CREDENTIAL_POLICY_BASELINE empty_ledger = Inr (tt_app target_runtime)"
    using sample_ids(1) by (simp add: make_TargetHttpApp_def target_runtime_def empty_ledger_def)
  then show ?thesis
    by (simp add: load_target_Inr target_config_settings sample_empty) (simp add: target_runtime_def)
qed

definition target_headers :: "(pstr \<times> pstr) list" where
  "target_headers = [(u ''X-Request-Id'', u ''r1''), (u ''x-kil-track'', u ''credential_policy_baseline''),
     (u ''x-kil-decision-digest'', replicate 64 97)]"

definition target_request :: HttpRequest where
  "target_request = \<lparr>hq_method = u ''GET'', hq_path = u ''/benign/read'', hq_headers = target_headers, hq_body = []\<rparr>"

lemma target_request_joins:
  "make_HttpRequest (u ''GET'') (u ''/benign/read'') target_headers [] = Inr target_request
    \<and> join_values CREDENTIAL_POLICY_BASELINE target_request = Some (u ''r1'', replicate 64 97)"
  by code_simp

lemma target_serves_one:
  obtains r app where "target_serve sample_marker_env True (tt_app target_runtime) (u ''GET'') (u ''/benign/read'') target_headers
      = (Some (send_response (u ''GET'') (target_response 200 ''recorded'')), app)"
    "tl_records (ta_ledger app) = [r]" "\<not> tl_invalid (ta_ledger app)"
    "tl_file (ta_ledger app) = Some (ascii_bytes (target_text r) @ [10])"
    "length (ascii_bytes (target_text r) @ [10]) \<le> MAX_LEDGER_BYTES"
proof -
  obtain r l where l: "append_marker sample_marker_env (u ''run1'') (u ''r1'') CREDENTIAL_POLICY_BASELINE (u ''/benign/read'')
      (replicate 64 97) empty_ledger = (Inr r, l)" "\<not> tl_invalid l" "tl_file l = Some (ascii_bytes (target_text r) @ [10])"
    "length (ascii_bytes (target_text r) @ [10]) \<le> MAX_LEDGER_BYTES" "tl_records l = [r]"
    by (rule sample_one_marker)
  have "target_handle sample_marker_env (tt_app target_runtime) target_request
      = (target_response 200 ''recorded'', (tt_app target_runtime)\<lparr>ta_ledger := l\<rparr>)"
    using target_request_joins l(1)
    by (simp add: target_handle_def target_runtime_def) (simp add: target_request_def TARGET_ROUTES_def)
  then have "target_serve sample_marker_env True (tt_app target_runtime) (u ''GET'') (u ''/benign/read'') target_headers
      = (Some (send_response (u ''GET'') (target_response 200 ''recorded'')), (tt_app target_runtime)\<lparr>ta_ledger := l\<rparr>)"
    using target_request_joins by (simp add: target_serve_def HANDLED_METHODS_def)
  then show thesis by (rule that) (use l in simp_all)
qed

theorem target_answers_witness:
  "\<exists>app. target_serve sample_marker_env True (tt_app target_runtime) (u ''GET'') (u ''/benign/read'') target_headers
      = (Some (send_response (u ''GET'') (target_response 200 ''recorded'')), app)
     \<and> recorded_request (tt_app target_runtime) (u ''GET'') (u ''/benign/read'') target_headers app"
proof -
  obtain r app where a: "target_serve sample_marker_env True (tt_app target_runtime) (u ''GET'') (u ''/benign/read'') target_headers
      = (Some (send_response (u ''GET'') (target_response 200 ''recorded'')), app)"
    by (rule target_serves_one)
  from target_answers [OF a] a show ?thesis by (auto simp: send_response_def target_response_def)
qed

theorem target_process_inv_witness:
  "\<exists>app. serves (tt_app target_runtime) [send_response (u ''GET'') (target_response 200 ''recorded'')] app
     \<and> length (tl_records (ta_ledger app)) = 1 \<and> ta_run_id app = u ''run1''"
proof -
  obtain r app where a: "target_serve sample_marker_env True (tt_app target_runtime) (u ''GET'') (u ''/benign/read'') target_headers
      = (Some (send_response (u ''GET'') (target_response 200 ''recorded'')), app)" "tl_records (ta_ledger app) = [r]"
    by (rule target_serves_one)
  have s: "serves (tt_app target_runtime) [send_response (u ''GET'') (target_response 200 ''recorded'')] app"
    using connection [OF idle a(1)] by simp
  have "ta_run_id app = ta_run_id (tt_app target_runtime)"
    using target_process_inv [OF target_runtime_loaded _ s] by simp
  with s a(2) show ?thesis by (intro exI [of _ app]) (simp add: target_runtime_def)
qed

theorem target_restart_witness:
  "\<exists>r app. tl_records (ta_ledger app) = [r]
     \<and> load_target_service_config 1000 (\<lambda>_. sample_path\<lparr>lp_exists := True, lp_regular := True, lp_mode := 384,
          lp_size := length (ascii_bytes (target_text r) @ [10]), lp_content := Inr (ascii_bytes (target_text r) @ [10])\<rparr>)
          target_config_file = Inr (target_runtime\<lparr>tt_app := app\<rparr>)"
proof -
  obtain r app where a: "target_serve sample_marker_env True (tt_app target_runtime) (u ''GET'') (u ''/benign/read'') target_headers
      = (Some (send_response (u ''GET'') (target_response 200 ''recorded'')), app)"
    "tl_records (ta_ledger app) = [r]" "\<not> tl_invalid (ta_ledger app)"
    "tl_file (ta_ledger app) = Some (ascii_bytes (target_text r) @ [10])"
    "length (ascii_bytes (target_text r) @ [10]) \<le> MAX_LEDGER_BYTES"
    by (rule target_serves_one)
  have s: "serves (tt_app target_runtime) [send_response (u ''GET'') (target_response 200 ''recorded'')] app"
    using connection [OF idle a(1)] by simp
  have "load_target_service_config 1000 (\<lambda>_. sample_path\<lparr>lp_exists := True, lp_regular := True, lp_mode := 384,
          lp_size := length (ascii_bytes (target_text r) @ [10]), lp_content := Inr (ascii_bytes (target_text r) @ [10])\<rparr>)
          target_config_file = Inr (target_runtime\<lparr>tt_app := app\<rparr>)"
    by (rule target_restart [OF target_runtime_loaded _ s a(3,4,5)]) (simp_all add: sample_path_def)
  with a(2) show ?thesis by blast
qed

text \<open>The reader of an existing ledger takes a carriage return for the end of a line, too.\<close>

lemma carriage_return_accepted:
  assumes "wf_TargetHttpRecord r" "clock_ok r" "1 \<le> limit"
  shows "fold_r (load_line limit) empty_ledger (byte_lines (ascii_bytes (target_text r) @ [13, 10]))
    = Inr (empty_ledger\<lparr>tl_request_ids := [tg_request_id r], tl_records := [r]\<rparr>)"
proof -
  have tw: "takeWhile (\<lambda>b. b \<noteq> 10 \<and> b \<noteq> 13) (ascii_bytes (target_text r) @ [13, 10]) = ascii_bytes (target_text r)"
    using target_line_bytes [OF assms(1)] by (simp add: takeWhile_append2)
  have "byte_lines (ascii_bytes (target_text r) @ [13, 10]) = [ascii_bytes (target_text r)]"
    by (subst byte_lines.simps) (simp add: Let_def tw)
  moreover have "line_ok (ascii_bytes (target_text r))"
    using target_text_length [OF assms(1)] assms(2)
    by (simp add: line_ok_def clock_ok_def ascii_bytes_def MAX_RECORD_BYTES_def)
  ultimately show ?thesis
    using decode_target_text [OF assms] by (simp add: load_line_def line_ok_def empty_ledger_def)
qed

end
