(* ===== verification/KilSensitive.thy ===== *)
theory KilSensitive
  imports KilFlat
begin

text \<open>
  \<^verbatim>\<open>src/kil/v3b1_driver_protocol.py\<close>, the scan that keeps private material out of public
  records: the forbidden field names, the paths, the environment lines and the credential
  shapes, each regular expression written as the search it performs, and the recursion
  over a value. \<open>frames\<close> is the number of calls the interpreter's stack has left; \<open>limit\<close>
  is the nesting \<^verbatim>\<open>json.loads\<close> accepts.
\<close>

subsection \<open>Searches in text\<close>

fun tails :: "'a list \<Rightarrow> 'a list list" where
  "tails [] = [[]]"
| "tails (x # xs) = (x # xs) # tails xs"

text \<open>The maximal runs of characters of a class.\<close>

function runs :: "(nat \<Rightarrow> bool) \<Rightarrow> pstr \<Rightarrow> pstr list" where
  "runs P [] = []"
| "runs P (c # s) = (if P c then (c # takeWhile P s) # runs P (dropWhile P s) else runs P s)"
  by pat_completeness auto
termination
  by (relation "measure (\<lambda>(_, s). length s)") (auto simp: le_imp_less_Suc length_dropWhile_le)

text \<open>\<^verbatim>\<open>str.splitlines\<close>.\<close>

definition line_end :: "nat \<Rightarrow> bool" where
  "line_end c \<longleftrightarrow> 10 \<le> c \<and> c \<le> 13 \<or> 28 \<le> c \<and> c \<le> 30 \<or> c = 133 \<or> c = 8232 \<or> c = 8233"

function text_lines :: "pstr \<Rightarrow> pstr list" where
  "text_lines s =
     (if s = [] then []
      else let l = takeWhile (\<lambda>c. \<not> line_end c) s; rest = drop (length l) s in
        l # text_lines (if take 2 rest = [13, 10] then drop 2 rest else drop 1 rest))"
  by pat_completeness auto
termination
  by (relation "measure length") (auto simp: Let_def)

declare text_lines.simps [simp del]

text \<open>
  A lower-case letter under \<^verbatim>\<open>(?i)\<close>: its upper case too, and for \<^verbatim>\<open>k\<close> and \<^verbatim>\<open>s\<close> the Kelvin sign
  and the long s; \<^verbatim>\<open>[A-Z]\<close> under \<^verbatim>\<open>(?i)\<close> also matches the dotted and the dotless i.
\<close>

definition ci_char :: "nat \<Rightarrow> nat \<Rightarrow> bool" where
  "ci_char l c \<longleftrightarrow> c = l \<or> c + 32 = l \<or> l = 115 \<and> c = 383 \<or> l = 107 \<and> c = 8490"

definition ci_letter :: "nat \<Rightarrow> bool" where
  "ci_letter c \<longleftrightarrow> is_upper c \<or> is_lower c \<or> c \<in> {304, 305, 383, 8490}"

definition ci_prefix :: "string \<Rightarrow> pstr \<Rightarrow> bool" where
  "ci_prefix p s \<longleftrightarrow> length p \<le> length s \<and> list_all2 ci_char (u p) (take (length p) s)"

definition path_sep :: "nat \<Rightarrow> bool" where
  "path_sep c \<longleftrightarrow> c = 92 \<or> c = 47"

subsection \<open>The patterns\<close>

text \<open>\<^verbatim>\<open>_WINDOWS_ABSOLUTE\<close>, at the start of the text.\<close>

definition windows_absolute :: "pstr \<Rightarrow> bool" where
  "windows_absolute s = (case s of
     a # b # c # _ \<Rightarrow> (is_upper a \<or> is_lower a) \<and> b = 58 \<and> path_sep c | _ \<Rightarrow> False)"

text \<open>A drive letter, a colon and a \<^verbatim>\<open>Users\<close> directory between separators, in any case, anywhere.\<close>

definition users_path :: "pstr \<Rightarrow> bool" where
  "users_path s = list_ex (\<lambda>t. case t of
     a # b # c # r \<Rightarrow> ci_letter a \<and> b = 58 \<and> path_sep c \<and> ci_prefix ''users'' r
       \<and> (case drop 5 r of d # _ \<Rightarrow> path_sep d | [] \<Rightarrow> False)
   | _ \<Rightarrow> False) (tails s)"

definition private_path :: "pstr \<Rightarrow> bool" where
  "private_path s \<longleftrightarrow>
     starts_with (u ''~/'') s \<or> starts_with [126, 92] s \<or> starts_with (u ''unix://'') s
     \<or> starts_with [47] s \<and> s \<noteq> u ''/tmp'' \<or> windows_absolute s
     \<or> starts_with (u ''/Users/'') s \<or> starts_with (u ''/home/'') s \<or> starts_with (u ''/private/'') s
     \<or> starts_with (u ''/var/tmp/'') s \<or> starts_with (u ''/tmp/'') s \<or> users_path s"

text \<open>\<^verbatim>\<open>_ENVIRONMENT_VALUE\<close>, matched on a whole line.\<close>

definition environment_line :: "pstr \<Rightarrow> bool" where
  "environment_line s = (case s of
     [] \<Rightarrow> False
   | c # r \<Rightarrow> (is_upper c \<or> c = 95)
       \<and> (case dropWhile (\<lambda>c. is_upper c \<or> is_digit c \<or> c = 95) r of
            d # v \<Rightarrow> d = 61 \<and> 10 \<notin> set v | [] \<Rightarrow> False))"

definition upper_digit :: "nat \<Rightarrow> bool" where
  "upper_digit c \<longleftrightarrow> is_upper c \<or> is_digit c"

definition private_key_block :: "pstr \<Rightarrow> bool" where
  "private_key_block s = list_ex (\<lambda>t. starts_with (u ''-----BEGIN '') t
     \<and> (let r = drop 11 t; w = takeWhile upper_digit r in
          starts_with (u ''PRIVATE KEY-----'') r
          \<or> w \<noteq> [] \<and> starts_with (u '' PRIVATE KEY-----'') (drop (length w) r))) (tails s)"

definition word_char :: "nat \<Rightarrow> bool" where
  "word_char c \<longleftrightarrow> is_alnum c \<or> c = 95"

definition github_token :: "pstr \<Rightarrow> bool" where
  "github_token s = list_ex (\<lambda>w.
     starts_with (u ''ghp_'') w \<and> length w = 40 \<and> list_all is_alnum (drop 4 w)
     \<or> starts_with (u ''github_pat_'') w \<and> 31 \<le> length w) (runs word_char s)"

definition aws_access_key :: "pstr \<Rightarrow> bool" where
  "aws_access_key s = list_ex (\<lambda>w.
     (starts_with (u ''AKIA'') w \<or> starts_with (u ''ASIA'') w) \<and> length w = 20) (runs upper_digit s)"

text \<open>A match of \<^verbatim>\<open>bearer\s+\S+\<close> at the head of a text, in any case.\<close>

definition bearer_at :: "pstr \<Rightarrow> bool" where
  "bearer_at t \<longleftrightarrow> ci_prefix ''bearer'' t
     \<and> (case drop 6 t of c # r \<Rightarrow> is_space c \<and> dropWhile is_space r \<noteq> [] | [] \<Rightarrow> False)"

definition bearer_token :: "pstr \<Rightarrow> bool" where
  "bearer_token s \<longleftrightarrow> bearer_at s
     \<or> list_ex (\<lambda>t. case t of c # r \<Rightarrow> is_space c \<and> bearer_at r | [] \<Rightarrow> False) (tails s)"

text \<open>
  The matches of \<^verbatim>\<open>_COMPACT_JWS_CANDIDATE\<close> from left to right: three maximal runs with single
  dots between them. Where the first run does not begin a match, the search goes on
  after it; after a match it goes on at its end.
\<close>

definition jws_match :: "pstr \<Rightarrow> (pstr \<times> pstr) option" where
  "jws_match s =
     (let a = takeWhile is_b64url s; r = dropWhile is_b64url s in
      case r of
        d # r1 \<Rightarrow>
          (let b = takeWhile is_b64url r1; r2 = dropWhile is_b64url r1 in
           (case r2 of
              e # r3 \<Rightarrow>
                (let c = takeWhile is_b64url r3 in
                 if a \<noteq> [] \<and> d = 46 \<and> b \<noteq> [] \<and> e = 46 \<and> c \<noteq> []
                 then Some (a @ 46 # b @ 46 # c, dropWhile is_b64url r3) else None)
            | [] \<Rightarrow> None))
      | [] \<Rightarrow> None)"

lemma jws_match_shorter: "jws_match s = Some (m, r) \<Longrightarrow> length r < length s"
proof -
  assume m: "jws_match s = Some (m, r)"
  obtain d r1 where r1: "dropWhile is_b64url s = d # r1"
    using m by (cases "dropWhile is_b64url s") (auto simp: jws_match_def)
  obtain e r3 where r3: "dropWhile is_b64url r1 = e # r3"
    using m r1 by (cases "dropWhile is_b64url r1") (auto simp: jws_match_def Let_def)
  have "r = dropWhile is_b64url r3"
    using m r1 r3 by (auto simp: jws_match_def Let_def split: if_splits)
  then show ?thesis
    using length_dropWhile_le [of is_b64url s] length_dropWhile_le [of is_b64url r1]
      length_dropWhile_le [of is_b64url r3] r1 r3 by simp
qed

function jws_candidates :: "pstr \<Rightarrow> pstr list" where
  "jws_candidates s =
     (case s of
        [] \<Rightarrow> []
      | c # r \<Rightarrow>
          (case jws_match s of
             Some (m, rest) \<Rightarrow> m # jws_candidates rest
           | None \<Rightarrow> jws_candidates (if is_b64url c then dropWhile is_b64url r else r)))"
  by pat_completeness auto
termination
  by (relation "measure length")
    (auto simp: le_imp_less_Suc length_dropWhile_le dest: jws_match_shorter)

declare jws_candidates.simps [simp del]

subsection \<open>Compact tokens\<close>

definition dp_hook :: "pydict \<Rightarrow> pyval res" where
  "dp_hook = closed_hook (DriverProtocolError ''driver protocol JSON contains a duplicate field'')"

definition dp_decode_json :: "nat \<Rightarrow> pstr \<Rightarrow> pyval res" where
  "dp_decode_json limit s = json_loads dp_hook limit s"

definition token_part :: "pstr \<Rightarrow> bool" where
  "token_part s \<longleftrightarrow> s \<noteq> [] \<and> list_all is_b64url s"

definition jws_header :: "nat \<Rightarrow> pstr \<Rightarrow> bool res" where
  "jws_header limit part =
     bind_r (b64decode (part @ b64_padding part)) (\<lambda>header.
     bind_r (utf8_decode header) (\<lambda>w.
     bind_r (dp_decode_json limit w) (\<lambda>decoded.
     Inr (case decoded of PDict d \<Rightarrow> dict_get d ''alg'' \<noteq> None \<or> dict_get d ''typ'' \<noteq> None | _ \<Rightarrow> False))))"

definition looks_like_compact_jws :: "nat \<Rightarrow> pstr \<Rightarrow> bool res" where
  "looks_like_compact_jws limit s = (case split_on 46 s of
     [a, b, c] \<Rightarrow>
       if token_part a \<and> token_part b \<and> token_part c
       then try_r (jws_header limit a) (\<lambda>e. if is_value_error e then Inr False else Inl e)
       else Inr False
   | _ \<Rightarrow> Inr False)"

fun any_r :: "('a \<Rightarrow> bool res) \<Rightarrow> 'a list \<Rightarrow> bool res" where
  "any_r f [] = Inr False"
| "any_r f (x # xs) = bind_r (f x) (\<lambda>b. if b then Inr True else any_r f xs)"

definition contains_compact_jws :: "nat \<Rightarrow> pstr \<Rightarrow> bool res" where
  "contains_compact_jws limit s = any_r (looks_like_compact_jws limit) (jws_candidates s)"

subsection \<open>The scan of a value\<close>

definition FORBIDDEN_PUBLIC_KEYS :: "string list" where
  "FORBIDDEN_PUBLIC_KEYS = [''access_key'', ''api_key'', ''authorization'', ''credential'', ''credentials'',
     ''docker_config'', ''docker_host'', ''env'', ''environ'', ''environment'', ''exception_message'', ''jws'',
     ''message'', ''password'', ''private_key'', ''private_path'', ''q_state'', ''raw_exception_message'',
     ''raw_message'', ''refresh_token'', ''secret'', ''signed_state'', ''socket_path'', ''stderr'', ''stdout'', ''token'']"

text \<open>\<^verbatim>\<open>key.lower().replace("-", "_")\<close>.\<close>

definition normalized_key :: "pstr \<Rightarrow> pstr" where
  "normalized_key k = map (\<lambda>c. if c = 45 then 95 else c) (lower k)"

definition scan_text :: "nat \<Rightarrow> pstr \<Rightarrow> unit res" where
  "scan_text limit s =
     bind_r (ensure (list_all is_scalar s) (DriverProtocolError ''public record contains invalid Unicode'')) (\<lambda>_.
     bind_r (ensure (\<not> private_path s) (DriverProtocolError ''public record contains a private or socket path'')) (\<lambda>_.
     bind_r (ensure (\<not> list_ex environment_line (text_lines s))
       (DriverProtocolError ''public record contains environment material'')) (\<lambda>_.
     bind_r (if private_key_block s \<or> github_token s \<or> aws_access_key s \<or> bearer_token s
        then Inr True else contains_compact_jws limit s) (\<lambda>found.
     ensure (\<not> found) (DriverProtocolError ''public record contains credential material'')))))"

definition scan_key :: "pyval \<Rightarrow> unit res" where
  "scan_key k = (case k of
     PStr s \<Rightarrow> ensure (normalized_key s \<notin> set (map u FORBIDDEN_PUBLIC_KEYS))
       (DriverProtocolError ''public record contains a sensitive field'')
   | _ \<Rightarrow> Inl (DriverProtocolError ''public record keys must be strings''))"

fun scan_value :: "nat \<Rightarrow> nat \<Rightarrow> pyval \<Rightarrow> unit res" where
  "scan_value 0 limit v = Inl RecursionError"
| "scan_value (Suc frames) limit v = (case v of
     PDict kvs \<Rightarrow> fold_r (\<lambda>_ kv.
         bind_r (scan_key (fst kv)) (\<lambda>_.
         bind_r (scan_value frames limit (fst kv)) (\<lambda>_. scan_value frames limit (snd kv)))) () kvs
   | PList vs \<Rightarrow> fold_r (\<lambda>_ w. scan_value frames limit w) () vs
   | PTuple vs \<Rightarrow> fold_r (\<lambda>_ w. scan_value frames limit w) () vs
   | PStr s \<Rightarrow> scan_text limit s
   | _ \<Rightarrow> Inr ())"

fun is_driver_error :: "pyexc \<Rightarrow> bool" where
  "is_driver_error (DriverProtocolError _) = True"
| "is_driver_error _ = False"

fun is_type_error :: "pyexc \<Rightarrow> bool" where
  "is_type_error (TypeError _) = True"
| "is_type_error _ = False"

fun is_attribute_error :: "pyexc \<Rightarrow> bool" where
  "is_attribute_error (AttributeError _) = True"
| "is_attribute_error _ = False"

definition reject_sensitive_material :: "nat \<Rightarrow> nat \<Rightarrow> pyval \<Rightarrow> unit res" where
  "reject_sensitive_material frames limit v = try_r (scan_value frames limit v) (\<lambda>e.
     if is_driver_error e then Inl e
     else if is_attribute_error e \<or> is_type_error e \<or> is_value_error e \<or> e = RecursionError
     then Inl (DriverProtocolError ''public record sensitive-material scan failed'')
     else Inl e)"

subsection \<open>Texts that pass\<close>

text \<open>A search finds nothing in a text without the characters its pattern needs.\<close>

lemma tails_set: "t \<in> set (tails s) \<Longrightarrow> set t \<subseteq> set s"
  by (induction s arbitrary: t) auto

lemma starts_with_set: "starts_with p s \<Longrightarrow> set p \<subseteq> set s"
  unfolding starts_with_def by (metis set_take_subset)

lemma runs_all: "w \<in> set (runs P s) \<Longrightarrow> set w \<subseteq> set s \<and> list_all P w"
proof (induction P s rule: runs.induct)
  case (2 P c s)
  consider "P c" "w = c # takeWhile P s" | "P c" "w \<in> set (runs P (dropWhile P s))" | "\<not> P c" "w \<in> set (runs P s)"
    using 2(3) by (auto split: if_splits)
  then show ?case
  proof cases
    case 1
    then show ?thesis by (auto simp: list_all_iff dest: set_takeWhileD)
  next
    case 2
    with "2.IH"(1) show ?thesis by (auto dest: set_dropWhileD)
  next
    case 3
    with "2.IH"(2) show ?thesis by auto
  qed
qed simp

lemma runs_length: "w \<in> set (runs P s) \<Longrightarrow> length w \<le> length s"
proof (induction P s rule: runs.induct)
  case (2 P c s)
  then show ?case
    using length_takeWhile_le [of P s] length_dropWhile_le [of P s]
    by (cases "P c") auto
qed simp

lemma text_lines_single:
  "s \<noteq> [] \<Longrightarrow> \<forall>c \<in> set s. \<not> line_end c \<Longrightarrow> text_lines s = [s]"
proof -
  assume s: "s \<noteq> []" "\<forall>c \<in> set s. \<not> line_end c"
  then have tw: "takeWhile (\<lambda>c. \<not> line_end c) s = s" by (simp add: takeWhile_eq_all_conv)
  with s(1) show ?thesis by (subst text_lines.simps) (simp only: Let_def tw, simp add: text_lines.simps [of "[]"])
qed

lemma jws_candidates_no_dot: "46 \<notin> set s \<Longrightarrow> jws_candidates s = []"
proof (induction s rule: jws_candidates.induct)
  case (1 s)
  show ?case
  proof (cases s)
    case (Cons c r)
    have none: "jws_match s = None"
    proof (cases "dropWhile is_b64url s")
      case d: (Cons d r1)
      have "d \<in> set s" using d set_dropWhileD [of d is_b64url s] by simp
      then show ?thesis using 1(3) d
        by (auto simp: jws_match_def Let_def split: list.splits)
    qed (simp only: jws_match_def Let_def list.case)
    have "46 \<notin> set (if is_b64url c then dropWhile is_b64url r else r)"
      using 1(3) Cons set_dropWhileD [of 46 is_b64url r] by auto
    with 1(1) [OF Cons none] Cons none show ?thesis by (subst jws_candidates.simps) simp
  qed (simp add: jws_candidates.simps)
qed

text \<open>
  Text of letters and digits carries no private material, unless it is as long as an access
  key and not hexadecimal.
\<close>

lemma alnum_text_scans:
  assumes "list_all is_alnum s" "s \<noteq> []" "length s < 20 \<or> list_all is_hex s"
  shows "scan_text limit s = Inr ()"
proof -
  have an: "is_alnum c" if "c \<in> set s" for c using assms(1) that by (simp add: list_all_iff)
  have out: "x \<notin> set s" if "\<not> is_alnum x" for x using an that by blast
  have no: "is_alnum x" if "set w \<subseteq> set s" "starts_with (x # p) w" for x p w
    using out [of x] starts_with_set [OF that(2)] that(1) by auto
  have sub: "x \<notin> set t" if "t \<in> set (tails s)" "\<not> is_alnum x" for t x
    using out [OF that(2)] tails_set [OF that(1)] by blast
  have space: "\<not> is_space c" if "c \<in> set s" for c
    using an [OF that] by (auto simp: is_space_def char_classes)
  have paths: "\<not> private_path s"
  proof -
    have "\<not> windows_absolute s"
      using out [of 58] by (auto simp: windows_absolute_def char_classes split: list.splits)
    moreover have "\<not> users_path s"
    proof
      assume "users_path s"
      then obtain t where t: "t \<in> set (tails s)" "58 \<in> set t"
        unfolding users_path_def list_ex_iff by (elim bexE) (simp split: list.splits)
      with sub [of t 58] show False by (simp add: char_classes)
    qed
    moreover have "\<not> starts_with p s" if "x \<in> set p" "\<not> is_alnum x" for p x
      using out [OF that(2)] starts_with_set [of p s] that(1) by blast
    from this [of 47] this [of 92]
    have "47 \<in> set p \<or> 92 \<in> set p \<Longrightarrow> \<not> starts_with p s" for p by (auto simp: char_classes)
    ultimately show ?thesis by (simp add: private_path_def u_def)
  qed
  have lines: "\<not> list_ex environment_line (text_lines s)"
  proof -
    have eq: "61 \<notin> set s" using out [of 61] by (simp add: char_classes)
    have "\<not> environment_line s"
    proof
      assume "environment_line s"
      then obtain c r d v where "s = c # r" "dropWhile (\<lambda>c. is_upper c \<or> is_digit c \<or> c = 95) r = d # v" "d = 61"
        by (auto simp: environment_line_def split: list.splits)
      then show False using eq set_dropWhileD [of 61 "\<lambda>c. is_upper c \<or> is_digit c \<or> c = 95" r] by simp
    qed
    moreover have "\<forall>c \<in> set s. \<not> line_end c" using an by (force simp: line_end_def char_classes)
    ultimately show ?thesis using assms(2) by (simp add: text_lines_single)
  qed
  have keys: "\<not> private_key_block s" "\<not> github_token s"
  proof -
    have nst: "\<not> starts_with p w" if "x \<in> set p" "\<not> is_alnum x" "set w \<subseteq> set s" for p w x
      using out [OF that(2)] starts_with_set [of p w] that(1,3) by blast
    have "\<not> starts_with (u ''-----BEGIN '') t" if "t \<in> set (tails s)" for t
      by (rule nst [OF _ _ tails_set [OF that], of 45]) (simp_all add: u_def char_classes)
    then show "\<not> private_key_block s" by (auto simp: private_key_block_def list_ex_iff)
    have "\<not> starts_with (u ''ghp_'') w \<and> \<not> starts_with (u ''github_pat_'') w" if "w \<in> set (runs word_char s)" for w
      using nst [of 95 "u ''ghp_''" w] nst [of 95 "u ''github_pat_''" w] runs_all [OF that]
      by (simp add: u_def char_classes)
    then show "\<not> github_token s" by (auto simp: github_token_def list_ex_iff)
  qed
  have aws: "\<not> aws_access_key s"
  proof
    assume "aws_access_key s"
    then obtain w where w: "w \<in> set (runs upper_digit s)" "starts_with (u ''AKIA'') w \<or> starts_with (u ''ASIA'') w" "length w = 20"
      by (auto simp: aws_access_key_def list_ex_iff)
    have "65 \<in> set w" using w(2) starts_with_set [of "u ''AKIA''" w] starts_with_set [of "u ''ASIA''" w] by (auto simp: u_def)
    then have "65 \<in> set s" using runs_all [OF w(1)] by blast
    then have "\<not> list_all is_hex s" by (auto simp: list_all_iff char_classes intro!: bexI [of _ 65])
    then show False using runs_length [OF w(1)] w(3) assms(3) by simp
  qed
  have tok: "\<not> bearer_token s"
  proof -
    have "\<not> bearer_at t" if "set t \<subseteq> set s" for t
    proof
      assume "bearer_at t"
      then obtain c r where c: "drop 6 t = c # r" "is_space c" by (auto simp: bearer_at_def split: list.splits)
      have "c \<in> set t" using c(1) in_set_dropD [of c 6 t] by simp
      with that space c(2) show False by blast
    qed
    then show ?thesis
      using space by (auto simp: bearer_token_def list_ex_iff split: list.splits dest!: tails_set)
  qed
  have "list_all is_scalar s"
    using an by (force simp: list_all_iff is_scalar_def is_surrogate_def char_classes)
  moreover have "46 \<notin> set s" using out by (simp add: char_classes)
  ultimately show ?thesis
    using paths lines keys aws tok
    by (simp add: scan_text_def contains_compact_jws_def jws_candidates_no_dot)
qed

lemma hex_text_scans: "list_all is_hex s \<Longrightarrow> s \<noteq> [] \<Longrightarrow> scan_text limit s = Inr ()"
  by (rule alnum_text_scans) (auto simp: list_all_iff char_classes)

text \<open>
  A match of the candidate pattern takes the first three parts of a dotted text, and the
  search goes on behind them: a token behind a part of its own is not looked at.
\<close>

lemma token_behind_a_part:
  "\<not> is_ok (scan_text 1000 (u ''eyJhbGciOiJub25lIn0.e30.e30''))"
  "scan_text limit (u ''x.eyJhbGciOiJub25lIn0.e30.e30'') = Inr ()"
  by code_simp+

end
