(* ===== verification/KilDriverProtocol.thy ===== *)
theory KilDriverProtocol
  imports KilSensitive
begin

text \<open>
  \<^verbatim>\<open>src/kil/v3b1_driver_protocol.py\<close>, the records of the request driver: the closed field
  sets, the instruction a driver is given, the readiness, result and failure records it
  writes, and the immutable definition of a driver. Records are dictionaries as the code
  has them. \<open>limit\<close> is the nesting \<^verbatim>\<open>json.loads\<close> accepts and \<open>frames\<close> the calls left to the
  scan for private material.
\<close>

definition DRIVER_TRACKS :: "string list" where
  "DRIVER_TRACKS = [''credential_policy_baseline'', ''signed_state_only'', ''signed_plus_local_reduce'']"

definition DRIVER_HOST :: string where "DRIVER_HOST = ''envoy''"
definition DRIVER_PORT :: int where "DRIVER_PORT = 8080"
definition MAX_INSTRUCTION_BYTES :: nat where "MAX_INSTRUCTION_BYTES = 32 * 1024"
definition MAX_RESULT_BYTES :: nat where "MAX_RESULT_BYTES = 8 * 1024"
definition MAX_RESPONSE_BODY_BYTES :: nat where "MAX_RESPONSE_BODY_BYTES = 4096"

definition LINUX_ERRNO_NAMES :: "(int \<times> string) list" where
  "LINUX_ERRNO_NAMES =
    [(1, ''EPERM''), (2, ''ENOENT''), (3, ''ESRCH''), (4, ''EINTR''), (5, ''EIO''), (6, ''ENXIO''), (7, ''E2BIG''),
     (8, ''ENOEXEC''), (9, ''EBADF''), (10, ''ECHILD''), (11, ''EAGAIN''), (12, ''ENOMEM''), (13, ''EACCES''),
     (14, ''EFAULT''), (15, ''ENOTBLK''), (16, ''EBUSY''), (17, ''EEXIST''), (18, ''EXDEV''), (19, ''ENODEV''),
     (20, ''ENOTDIR''), (21, ''EISDIR''), (22, ''EINVAL''), (23, ''ENFILE''), (24, ''EMFILE''), (25, ''ENOTTY''),
     (26, ''ETXTBSY''), (27, ''EFBIG''), (28, ''ENOSPC''), (29, ''ESPIPE''), (30, ''EROFS''), (31, ''EMLINK''),
     (32, ''EPIPE''), (33, ''EDOM''), (34, ''ERANGE''), (35, ''EDEADLK''), (36, ''ENAMETOOLONG''), (37, ''ENOLCK''),
     (38, ''ENOSYS''), (39, ''ENOTEMPTY''), (40, ''ELOOP''), (42, ''ENOMSG''), (43, ''EIDRM''), (44, ''ECHRNG''),
     (45, ''EL2NSYNC''), (46, ''EL3HLT''), (47, ''EL3RST''), (48, ''ELNRNG''), (49, ''EUNATCH''), (50, ''ENOCSI''),
     (51, ''EL2HLT''), (52, ''EBADE''), (53, ''EBADR''), (54, ''EXFULL''), (55, ''ENOANO''), (56, ''EBADRQC''),
     (57, ''EBADSLT''), (59, ''EBFONT''), (60, ''ENOSTR''), (61, ''ENODATA''), (62, ''ETIME''), (63, ''ENOSR''),
     (64, ''ENONET''), (65, ''ENOPKG''), (66, ''EREMOTE''), (67, ''ENOLINK''), (68, ''EADV''), (69, ''ESRMNT''),
     (70, ''ECOMM''), (71, ''EPROTO''), (72, ''EMULTIHOP''), (73, ''EDOTDOT''), (74, ''EBADMSG''),
     (75, ''EOVERFLOW''), (76, ''ENOTUNIQ''), (77, ''EBADFD''), (78, ''EREMCHG''), (79, ''ELIBACC''),
     (80, ''ELIBBAD''), (81, ''ELIBSCN''), (82, ''ELIBMAX''), (83, ''ELIBEXEC''), (84, ''EILSEQ''),
     (85, ''ERESTART''), (86, ''ESTRPIPE''), (87, ''EUSERS''), (88, ''ENOTSOCK''), (89, ''EDESTADDRREQ''),
     (90, ''EMSGSIZE''), (91, ''EPROTOTYPE''), (92, ''ENOPROTOOPT''), (93, ''EPROTONOSUPPORT''),
     (94, ''ESOCKTNOSUPPORT''), (95, ''EOPNOTSUPP''), (96, ''EPFNOSUPPORT''), (97, ''EAFNOSUPPORT''),
     (98, ''EADDRINUSE''), (99, ''EADDRNOTAVAIL''), (100, ''ENETDOWN''), (101, ''ENETUNREACH''),
     (102, ''ENETRESET''), (103, ''ECONNABORTED''), (104, ''ECONNRESET''), (105, ''ENOBUFS''), (106, ''EISCONN''),
     (107, ''ENOTCONN''), (108, ''ESHUTDOWN''), (109, ''ETOOMANYREFS''), (110, ''ETIMEDOUT''),
     (111, ''ECONNREFUSED''), (112, ''EHOSTDOWN''), (113, ''EHOSTUNREACH''), (114, ''EALREADY''),
     (115, ''EINPROGRESS''), (116, ''ESTALE''), (117, ''EUCLEAN''), (118, ''ENOTNAM''), (119, ''ENAVAIL''),
     (120, ''EISNAM''), (121, ''EREMOTEIO''), (122, ''EDQUOT''), (123, ''ENOMEDIUM''), (124, ''EMEDIUMTYPE''),
     (125, ''ECANCELED''), (126, ''ENOKEY''), (127, ''EKEYEXPIRED''), (128, ''EKEYREVOKED''),
     (129, ''EKEYREJECTED''), (130, ''EOWNERDEAD''), (131, ''ENOTRECOVERABLE''), (132, ''ERFKILL''),
     (133, ''EHWPOISON'')]"

text \<open>Dictionary literals with strings as keys.\<close>

definition dict_of :: "(string \<times> pyval) list \<Rightarrow> pyval" where
  "dict_of kvs = PDict (map (\<lambda>(k, v). (str k, v)) kvs)"

definition DRIVER_RUNTIME_POLICY :: pyval where
  "DRIVER_RUNTIME_POLICY = dict_of
     [(''user'', str ''65532:65532''), (''read_only'', PBool True), (''no_new_privileges'', PBool True),
      (''cap_drop'', PList [str ''ALL'']), (''nano_cpus'', PInt 500000000), (''memory'', PInt 268435456),
      (''memory_swap'', PInt 268435456), (''pids_limit'', PInt 128), (''restart'', str ''no''),
      (''stop_timeout'', PInt 10), (''log_driver'', str ''json-file''),
      (''log_options'', dict_of [(''max-file'', str ''1''), (''max-size'', str ''1m'')]),
      (''tmpfs'', dict_of
         [(''/tmp'', str ''rw,noexec,nosuid,nodev,size=16m,uid=65532,gid=65532,mode=0700'')]),
      (''stdin_open'', PBool True), (''tty'', PBool False), (''healthcheck'', str ''disabled''),
      (''mounts'', PList []), (''ports'', PDict [])]"

definition BASE_INSTRUCTION_HEADERS :: "string list" where
  "BASE_INSTRUCTION_HEADERS = [''authorization'', ''x-envoy-hedge-on-per-try-timeout'',
     ''x-envoy-max-retries'', ''x-kil-decision-digest'', ''x-kil-issuer'', ''x-kil-local-evidence'',
     ''x-kil-mode'', ''x-kil-run-id'', ''x-kil-track'', ''x-kil-verified-subject'', ''x-request-id'']"

definition SIGNED_INSTRUCTION_HEADER :: string where "SIGNED_INSTRUCTION_HEADER = ''x-kil-q-state''"
definition MAX_HEADER_VALUE_BYTES :: nat where "MAX_HEADER_VALUE_BYTES = 4096"
definition REQUEST_ID :: string where "REQUEST_ID = ''v3b1-central-request''"

definition FIXED_INSTRUCTION_HEADER_VALUES :: "(string \<times> string) list" where
  "FIXED_INSTRUCTION_HEADER_VALUES =
     [(''x-envoy-hedge-on-per-try-timeout'', ''false''), (''x-envoy-max-retries'', ''0''),
      (''x-kil-decision-digest'', replicate 64 CHR ''f''), (''x-kil-issuer'', ''https://attacker.invalid''),
      (''x-kil-local-evidence'', ''{'' @ [CHR 34] @ ''divergence'' @ [CHR 34] @ '':'' @ [CHR 34] @ ''0'' @ [CHR 34] @ ''}''),
      (''x-kil-mode'', ''credential_policy_baseline''), (''x-kil-track'', ''client-selected-track''),
      (''x-kil-verified-subject'', ''spiffe://attacker.invalid/workload'')]"

definition TRANSPORT_STAGES :: "string list" where
  "TRANSPORT_STAGES = [''request_send'', ''response_headers'', ''response_body'']"

definition DRIVER_CONTROL_STAGES :: "string list" where
  "DRIVER_CONTROL_STAGES = [''instruction_write'', ''stdout_read'', ''process_wait'', ''termination'']"

definition EXCEPTION_CLASSES :: "string list" where
  "EXCEPTION_CLASSES = [''OSError'', ''TimeoutError'', ''ConnectionError'', ''BrokenPipeError'',
     ''ConnectionAbortedError'', ''ConnectionRefusedError'', ''ConnectionResetError'']"

definition MAX_MONOTONIC_NS :: int where "MAX_MONOTONIC_NS = 2 ^ 63 - 1"

subsection \<open>Checks of one value\<close>

abbreviation driver_error :: "string \<Rightarrow> 'a res" where
  "driver_error s \<equiv> Inl (DriverProtocolError s)"

definition require_fields :: "pyval \<Rightarrow> string list \<Rightarrow> string \<Rightarrow> pydict res" where
  "require_fields v expected label = (case v of
     PDict d \<Rightarrow> if keys_exact d expected then Inr d else driver_error (label @ '' fields are not closed'')
   | _ \<Rightarrow> driver_error (label @ '' fields are not closed''))"

definition require_track :: "pyval \<Rightarrow> pstr res" where
  "require_track v = (case v of
     PStr s \<Rightarrow> if s \<in> set (map u DRIVER_TRACKS) then Inr s else driver_error ''driver track is invalid''
   | _ \<Rightarrow> driver_error ''driver track is invalid'')"

definition require_sha256 :: "pyval \<Rightarrow> pstr res" where
  "require_sha256 v = (case v of
     PStr s \<Rightarrow> if hex64 s then Inr s else driver_error ''driver SHA-256 is invalid''
   | _ \<Rightarrow> driver_error ''driver SHA-256 is invalid'')"

definition image_id :: "pstr \<Rightarrow> bool" where
  "image_id s \<longleftrightarrow> starts_with (u ''sha256:'') s \<and> hex64 (drop 7 s)"

definition require_image_id :: "pyval \<Rightarrow> pstr res" where
  "require_image_id v = (case v of
     PStr s \<Rightarrow> if image_id s then Inr s else driver_error ''driver image ID is invalid''
   | _ \<Rightarrow> driver_error ''driver image ID is invalid'')"

definition require_header_value :: "pyval \<Rightarrow> pstr res" where
  "require_header_value v = (case v of
     PStr s \<Rightarrow> if s = [] \<or> \<not> list_all (\<lambda>c. c < 128) s \<or> length s > MAX_HEADER_VALUE_BYTES
         \<or> list_ex (\<lambda>c. c < 32 \<or> c = 127) s
       then driver_error ''driver instruction header value is invalid'' else Inr s
   | _ \<Rightarrow> driver_error ''driver instruction header value is invalid'')"

definition require_monotonic :: "pyval \<Rightarrow> string \<Rightarrow> int res" where
  "require_monotonic v label = (case v of
     PInt n \<Rightarrow> if n < 0 \<or> n > MAX_MONOTONIC_NS then driver_error (label @ '' is invalid'') else Inr n
   | _ \<Rightarrow> driver_error (label @ '' is invalid''))"

subsection \<open>Canonical records\<close>

definition record_bytes :: "pyval \<Rightarrow> bytes res" where
  "record_bytes v = bind_r (canonical_json v) (\<lambda>t. utf8_encode (t @ [10]))"

definition caught :: "pyexc \<Rightarrow> bool" where
  "caught e \<longleftrightarrow> is_type_error e \<or> is_value_error e \<or> e = RecursionError"

definition canonical_record :: "pyval \<Rightarrow> bytes res" where
  "canonical_record v = try_r (record_bytes v) (\<lambda>e.
     if caught e then driver_error ''protocol record canonicalization failed'' else Inl e)"

definition load_record :: "nat \<Rightarrow> bytes \<Rightarrow> nat \<Rightarrow> string \<Rightarrow> pydict res" where
  "load_record limit payload max_bytes label =
     (if payload = [] \<or> length payload > max_bytes then driver_error (label @ '' is not bounded bytes'')
      else bind_r (try_r
          (bind_r (utf8_decode payload) (\<lambda>w.
           bind_r (dp_decode_json limit w) (\<lambda>v.
           bind_r (record_bytes v) (\<lambda>c. Inr (v, c)))))
          (\<lambda>e. if caught e then driver_error (label @ '' is not closed JSON'') else Inl e)) (\<lambda>(v, c).
        if payload \<noteq> c then driver_error (label @ '' is not canonical JSON'')
        else case v of PDict d \<Rightarrow> Inr d | _ \<Rightarrow> driver_error (label @ '' must be a JSON object'')))"

definition driver_definition ::
    "nat \<Rightarrow> nat \<Rightarrow> pyval \<Rightarrow> pyval \<Rightarrow> pyval \<Rightarrow> pyval \<Rightarrow> pyval res" where
  "driver_definition frames limit trk img bootstrap frontend =
     bind_r (require_track trk) (\<lambda>t.
     bind_r (require_image_id img) (\<lambda>i.
     bind_r (require_sha256 bootstrap) (\<lambda>b.
     bind_r (require_sha256 frontend) (\<lambda>f.
     let value = dict_of
       [(''schema_version'', str ''kil.v3b1-driver-definition.v1''), (''role'', str ''request_driver''),
        (''track'', PStr t), (''image_id'', PStr i), (''bootstrap_sha256'', PStr b),
        (''frontend_segment_sha256'', PStr f),
        (''endpoint'', dict_of [(''host'', str DRIVER_HOST), (''port'', PInt DRIVER_PORT)]),
        (''runtime_policy'', DRIVER_RUNTIME_POLICY)]
     in bind_r (reject_sensitive_material frames limit value) (\<lambda>_. Inr value)))))"

subsection \<open>Instructions\<close>

definition authorization_text :: "pstr \<Rightarrow> bool" where
  "authorization_text s \<longleftrightarrow> starts_with (u ''Bearer '') s \<and> drop 7 s \<noteq> []
     \<and> list_all (\<lambda>c. 33 \<le> c \<and> c \<le> 126) (drop 7 s)"

definition run_id_text :: "pstr \<Rightarrow> bool" where
  "run_id_text s \<longleftrightarrow> starts_with (u ''v3b1-'') s \<and> hex64 (drop 5 s)"

definition INSTRUCTION_FIELDS :: "string list" where
  "INSTRUCTION_FIELDS = [''body_byte_count'', ''headers'', ''method'', ''path'', ''schema_version'', ''track'']"

definition baseline_track :: pstr where
  "baseline_track = u ''credential_policy_baseline''"

definition instruction_headers :: "pstr \<Rightarrow> string list" where
  "instruction_headers trk = BASE_INSTRUCTION_HEADERS
     @ (if trk \<noteq> baseline_track then [SIGNED_INSTRUCTION_HEADER] else [])"

text \<open>The text of a header whose value was checked to be a string.\<close>

definition header_text :: "pydict \<Rightarrow> string \<Rightarrow> pstr res" where
  "header_text headers name = bind_r (dict_item headers name) (\<lambda>v. Inr (key_text v))"

definition check_headers :: "nat \<Rightarrow> pstr \<Rightarrow> pydict \<Rightarrow> unit res" where
  "check_headers limit trk headers =
     bind_r (ensure (keys_exact headers (instruction_headers trk))
       (DriverProtocolError ''driver instruction headers are not closed'')) (\<lambda>_.
     bind_r (fold_r (\<lambda>_ kv. bind_r (ensure (is_str (fst kv))
         (DriverProtocolError ''driver instruction header name is invalid'')) (\<lambda>_.
         bind_r (require_header_value (snd kv)) (\<lambda>_. Inr ()))) () headers) (\<lambda>_.
     bind_r (ensure (list_all (\<lambda>(k, v). dict_get headers k = Some (str v)) FIXED_INSTRUCTION_HEADER_VALUES)
       (DriverProtocolError ''driver instruction fixed headers are invalid'')) (\<lambda>_.
     bind_r (header_text headers ''authorization'') (\<lambda>auth.
     bind_r (ensure (authorization_text auth)
       (DriverProtocolError ''driver instruction authorization is invalid'')) (\<lambda>_.
     bind_r (header_text headers ''x-kil-run-id'') (\<lambda>run.
     bind_r (ensure (run_id_text run) (DriverProtocolError ''driver instruction run ID is invalid'')) (\<lambda>_.
     bind_r (header_text headers ''x-request-id'') (\<lambda>rid.
     bind_r (ensure (rid = u REQUEST_ID)
       (DriverProtocolError ''driver instruction request ID is invalid'')) (\<lambda>_.
     if trk \<noteq> baseline_track then
       bind_r (header_text headers SIGNED_INSTRUCTION_HEADER) (\<lambda>q.
       bind_r (looks_like_compact_jws limit q) (\<lambda>b.
       ensure b (DriverProtocolError ''driver instruction Q-state is invalid'')))
     else Inr ())))))))))"

definition parse_instruction :: "nat \<Rightarrow> bytes \<Rightarrow> pyval \<Rightarrow> pydict res" where
  "parse_instruction limit payload expected_track =
     bind_r (require_track expected_track) (\<lambda>expected.
     bind_r (load_record limit payload MAX_INSTRUCTION_BYTES ''driver instruction'') (\<lambda>value.
     bind_r (require_fields (PDict value) INSTRUCTION_FIELDS ''driver instruction'') (\<lambda>record.
     bind_r (bind_r (dict_item record ''track'') require_track) (\<lambda>trk.
     bind_r (dict_item record ''schema_version'') (\<lambda>version.
     bind_r (dict_item record ''method'') (\<lambda>mth.
     bind_r (dict_item record ''path'') (\<lambda>path.
     bind_r (dict_item record ''body_byte_count'') (\<lambda>count.
     if version \<noteq> str ''kil.v3b1-driver-instruction.v1'' \<or> trk \<noteq> expected \<or> mth \<noteq> str ''POST''
        \<or> path \<noteq> str ''/consequential/admin'' \<or> count \<noteq> PInt 0
     then driver_error ''driver instruction request facts are invalid''
     else bind_r (dict_item record ''headers'') (\<lambda>hs.
       case hs of
         PDict headers \<Rightarrow> bind_r (check_headers limit trk headers) (\<lambda>_. Inr record)
       | _ \<Rightarrow> driver_error ''driver instruction headers are invalid'')))))))))"

subsection \<open>Results\<close>

definition require_one_attempt :: "pydict \<Rightarrow> unit res" where
  "require_one_attempt d =
     bind_r (dict_item d ''attempt_count'') (\<lambda>n.
     bind_r (dict_item d ''retry_performed'') (\<lambda>r.
     ensure (n = PInt 1 \<and> r = PBool False)
       (DriverProtocolError ''driver result must record one attempt and no retry'')))"

definition READINESS_FIELDS :: "string list" where
  "READINESS_FIELDS = [''connect_monotonic_ns'', ''ready_monotonic_ns'', ''schema_version'', ''status'', ''track'']"

definition validate_readiness :: "pydict \<Rightarrow> unit res" where
  "validate_readiness v =
     bind_r (require_fields (PDict v) READINESS_FIELDS ''driver readiness'') (\<lambda>d.
     bind_r (bind_r (dict_item d ''connect_monotonic_ns'') (\<lambda>n. require_monotonic n ''driver readiness connect time'')) (\<lambda>connect.
     bind_r (bind_r (dict_item d ''ready_monotonic_ns'') (\<lambda>n. require_monotonic n ''driver readiness ready time'')) (\<lambda>ready.
     bind_r (dict_item d ''status'') (\<lambda>status.
     ensure (status = str ''ready'' \<and> connect \<le> ready)
       (DriverProtocolError ''driver readiness facts are invalid'')))))"

definition SUCCESS_FIELDS :: "string list" where
  "SUCCESS_FIELDS = [''attempt_count'', ''connect_monotonic_ns'', ''decision_digest'', ''receive_monotonic_ns'',
     ''response_status'', ''retry_performed'', ''schema_version'', ''send_monotonic_ns'', ''status'', ''track'']"

definition validate_success :: "pydict \<Rightarrow> unit res" where
  "validate_success v =
     bind_r (require_fields (PDict v) SUCCESS_FIELDS ''driver success result'') (\<lambda>d.
     bind_r (bind_r (dict_item d ''connect_monotonic_ns'') (\<lambda>n. require_monotonic n ''driver result connect time'')) (\<lambda>connect.
     bind_r (bind_r (dict_item d ''send_monotonic_ns'') (\<lambda>n. require_monotonic n ''driver result send time'')) (\<lambda>send.
     bind_r (bind_r (dict_item d ''receive_monotonic_ns'') (\<lambda>n. require_monotonic n ''driver result receive time'')) (\<lambda>receive.
     bind_r (dict_item d ''response_status'') (\<lambda>status.
     bind_r (ensure ((case status of PInt n \<Rightarrow> 100 \<le> n \<and> n \<le> 599 | _ \<Rightarrow> False) \<and> connect \<le> send \<and> send \<le> receive)
       (DriverProtocolError ''driver success result facts are invalid'')) (\<lambda>_.
     bind_r (bind_r (dict_item d ''decision_digest'') require_sha256) (\<lambda>_.
     require_one_attempt d)))))))"

text \<open>The number and the name of an error: both absent, or an entry of the table.\<close>

definition check_errno :: "pyval \<Rightarrow> pyval \<Rightarrow> unit res" where
  "check_errno number name =
     (if (number = PNone) \<noteq> (name = PNone)
      then driver_error ''driver transport errno fields are inconsistent''
      else if number \<noteq> PNone \<and> \<not> (case (number, name) of
          (PInt n, PStr s) \<Rightarrow> 0 \<le> n \<and> map_option u (map_of LINUX_ERRNO_NAMES n) = Some s
        | _ \<Rightarrow> False)
      then driver_error ''driver transport errno is invalid''
      else Inr ())"

definition TRANSPORT_FIELDS :: "string list" where
  "TRANSPORT_FIELDS = [''attempt_count'', ''connect_monotonic_ns'', ''errno'', ''errno_name'', ''exception_class'',
     ''failure_monotonic_ns'', ''request_bytes_may_have_been_sent'', ''retry_performed'', ''schema_version'',
     ''send_monotonic_ns'', ''stage'', ''status'', ''track'']"

definition validate_transport_failure :: "pydict \<Rightarrow> unit res" where
  "validate_transport_failure v =
     bind_r (require_fields (PDict v) TRANSPORT_FIELDS ''driver transport-failure result'') (\<lambda>d.
     bind_r (dict_item d ''stage'') (\<lambda>stage.
     bind_r (in_string_set stage TRANSPORT_STAGES) (\<lambda>b.
     bind_r (ensure b (DriverProtocolError ''driver transport-failure stage is invalid'')) (\<lambda>_.
     bind_r (bind_r (dict_item d ''exception_class'') (\<lambda>c. in_string_set c EXCEPTION_CLASSES)) (\<lambda>b.
     bind_r (ensure b (DriverProtocolError ''driver transport exception class is invalid'')) (\<lambda>_.
     bind_r (dict_item d ''errno'') (\<lambda>number.
     bind_r (dict_item d ''errno_name'') (\<lambda>name.
     bind_r (check_errno number name) (\<lambda>_.
     bind_r (bind_r (dict_item d ''connect_monotonic_ns'') (\<lambda>n. require_monotonic n ''driver failure connect time'')) (\<lambda>connect.
     bind_r (bind_r (dict_item d ''send_monotonic_ns'') (\<lambda>n. require_monotonic n ''driver failure send time'')) (\<lambda>send.
     bind_r (bind_r (dict_item d ''failure_monotonic_ns'') (\<lambda>n. require_monotonic n ''driver failure time'')) (\<lambda>failure.
     bind_r (dict_item d ''request_bytes_may_have_been_sent'') (\<lambda>sent.
     bind_r (ensure ((sent = PBool True \<or> sent = PBool False) \<and> connect \<le> send \<and> send \<le> failure
         \<and> (stage = str ''request_send'' \<or> sent = PBool True))
       (DriverProtocolError ''driver transport-failure facts are invalid'')) (\<lambda>_.
     require_one_attempt d))))))))))))))"

definition CONTROL_FIELDS :: "string list" where
  "CONTROL_FIELDS = [''attempt_count'', ''failure_monotonic_ns'', ''request_bytes_may_have_been_sent'',
     ''retry_performed'', ''schema_version'', ''stage'', ''status'', ''track'']"

definition validate_driver_control_failure :: "pydict \<Rightarrow> unit res" where
  "validate_driver_control_failure v =
     bind_r (require_fields (PDict v) CONTROL_FIELDS ''driver-control failure result'') (\<lambda>d.
     bind_r (dict_item d ''request_bytes_may_have_been_sent'') (\<lambda>sent.
     bind_r (dict_item d ''stage'') (\<lambda>stage.
     bind_r (in_string_set stage DRIVER_CONTROL_STAGES) (\<lambda>b.
     bind_r (ensure (b \<and> (sent = PBool True \<or> sent = PBool False)
         \<and> (stage = str ''instruction_write'' \<or> sent = PBool True))
       (DriverProtocolError ''driver-control failure facts are invalid'')) (\<lambda>_.
     bind_r (bind_r (dict_item d ''failure_monotonic_ns'') (\<lambda>n. require_monotonic n ''driver-control failure time'')) (\<lambda>_.
     require_one_attempt d))))))"

definition validate_result :: "pydict \<Rightarrow> unit res" where
  "validate_result v =
     (if dict_get v ''schema_version'' = Some (str ''kil.v3b1-driver-readiness.v1'') then validate_readiness v
      else if dict_get v ''schema_version'' \<noteq> Some (str ''kil.v3b1-driver-result.v1'')
      then driver_error ''driver result schema is invalid''
      else if dict_get v ''status'' = Some (str ''complete'') then validate_success v
      else if dict_get v ''status'' = Some (str ''transport_failure'') then validate_transport_failure v
      else if dict_get v ''status'' = Some (str ''driver_control_failure'') then validate_driver_control_failure v
      else driver_error ''driver result status is invalid'')"

definition parse_result :: "nat \<Rightarrow> nat \<Rightarrow> bytes \<Rightarrow> pyval \<Rightarrow> pydict res" where
  "parse_result frames limit payload expected_track =
     bind_r (require_track expected_track) (\<lambda>expected.
     bind_r (load_record limit payload MAX_RESULT_BYTES ''driver result'') (\<lambda>value.
     bind_r (reject_sensitive_material frames limit (PDict value)) (\<lambda>_.
     bind_r (ensure (dict_get value ''track'' = Some (PStr expected))
       (DriverProtocolError ''driver result track does not match'')) (\<lambda>_.
     bind_r (validate_result value) (\<lambda>_. Inr value)))))"

end
