(* ===== verification/KilDriverResult.thy ===== *)
theory KilDriverResult
  imports KilDriverProtocol
begin

text \<open>
  What the protocol promises of the driver's records: a datatype of the four kinds of
  record, and that \<open>parse_result\<close> accepts exactly the canonical lines of the well-formed
  records of the expected track.
\<close>

subsection \<open>The abstract records\<close>

datatype DriverResult =
    Readiness pstr int int
  | Complete pstr int int int int pstr
  | TransportFailure pstr string string "(int \<times> string) option" int int int bool
  | ControlFailure pstr string int bool

fun result_track :: "DriverResult \<Rightarrow> pstr" where
  "result_track (Readiness t _ _) = t"
| "result_track (Complete t _ _ _ _ _) = t"
| "result_track (TransportFailure t _ _ _ _ _ _ _) = t"
| "result_track (ControlFailure t _ _ _) = t"

definition clock_value :: "int \<Rightarrow> bool" where
  "clock_value n \<longleftrightarrow> 0 \<le> n \<and> n \<le> MAX_MONOTONIC_NS"

definition driver_track :: "pstr \<Rightarrow> bool" where
  "driver_track t \<longleftrightarrow> t \<in> set (map u DRIVER_TRACKS)"

fun wf_result :: "DriverResult \<Rightarrow> bool" where
  "wf_result (Readiness t connect ready) =
     (driver_track t \<and> clock_value connect \<and> clock_value ready \<and> connect \<le> ready)"
| "wf_result (Complete t connect send receive status digest) =
     (driver_track t \<and> clock_value connect \<and> clock_value send \<and> clock_value receive
      \<and> connect \<le> send \<and> send \<le> receive \<and> 100 \<le> status \<and> status \<le> 599 \<and> hex64 digest)"
| "wf_result (TransportFailure t stage cls err connect send failure sent) =
     (driver_track t \<and> stage \<in> set TRANSPORT_STAGES \<and> cls \<in> set EXCEPTION_CLASSES
      \<and> (case err of None \<Rightarrow> True | Some (n, s) \<Rightarrow> map_of LINUX_ERRNO_NAMES n = Some s)
      \<and> clock_value connect \<and> clock_value send \<and> clock_value failure \<and> connect \<le> send \<and> send \<le> failure
      \<and> (stage = ''request_send'' \<or> sent))"
| "wf_result (ControlFailure t stage failure sent) =
     (driver_track t \<and> stage \<in> set DRIVER_CONTROL_STAGES \<and> clock_value failure
      \<and> (stage = ''instruction_write'' \<or> sent))"

fun result_items :: "DriverResult \<Rightarrow> pydict" where
  "result_items (Readiness t connect ready) =
     [(str ''connect_monotonic_ns'', PInt connect), (str ''ready_monotonic_ns'', PInt ready),
      (str ''schema_version'', str ''kil.v3b1-driver-readiness.v1''), (str ''status'', str ''ready''),
      (str ''track'', PStr t)]"
| "result_items (Complete t connect send receive status digest) =
     [(str ''attempt_count'', PInt 1), (str ''connect_monotonic_ns'', PInt connect),
      (str ''decision_digest'', PStr digest), (str ''receive_monotonic_ns'', PInt receive),
      (str ''response_status'', PInt status), (str ''retry_performed'', PBool False),
      (str ''schema_version'', str ''kil.v3b1-driver-result.v1''), (str ''send_monotonic_ns'', PInt send),
      (str ''status'', str ''complete''), (str ''track'', PStr t)]"
| "result_items (TransportFailure t stage cls err connect send failure sent) =
     [(str ''attempt_count'', PInt 1), (str ''connect_monotonic_ns'', PInt connect),
      (str ''errno'', case err of None \<Rightarrow> PNone | Some (n, _) \<Rightarrow> PInt n),
      (str ''errno_name'', case err of None \<Rightarrow> PNone | Some (_, s) \<Rightarrow> str s),
      (str ''exception_class'', str cls), (str ''failure_monotonic_ns'', PInt failure),
      (str ''request_bytes_may_have_been_sent'', PBool sent), (str ''retry_performed'', PBool False),
      (str ''schema_version'', str ''kil.v3b1-driver-result.v1''), (str ''send_monotonic_ns'', PInt send),
      (str ''stage'', str stage), (str ''status'', str ''transport_failure''), (str ''track'', PStr t)]"
| "result_items (ControlFailure t stage failure sent) =
     [(str ''attempt_count'', PInt 1), (str ''failure_monotonic_ns'', PInt failure),
      (str ''request_bytes_may_have_been_sent'', PBool sent), (str ''retry_performed'', PBool False),
      (str ''schema_version'', str ''kil.v3b1-driver-result.v1''), (str ''stage'', str stage),
      (str ''status'', str ''driver_control_failure''), (str ''track'', PStr t)]"

definition result_line :: "DriverResult \<Rightarrow> bytes" where
  "result_line r = ascii_bytes (dump_text (PDict (result_items r)) @ [10])"

subsection \<open>The texts of a record\<close>

definition RESULT_KEYS :: "string list" where
  "RESULT_KEYS = [''attempt_count'', ''connect_monotonic_ns'', ''decision_digest'', ''errno'', ''errno_name'',
     ''exception_class'', ''failure_monotonic_ns'', ''ready_monotonic_ns'', ''receive_monotonic_ns'',
     ''request_bytes_may_have_been_sent'', ''response_status'', ''retry_performed'', ''schema_version'',
     ''send_monotonic_ns'', ''stage'', ''status'', ''track'']"

definition RESULT_TEXTS :: "string list" where
  "RESULT_TEXTS = DRIVER_TRACKS @ TRANSPORT_STAGES @ DRIVER_CONTROL_STAGES @ EXCEPTION_CLASSES
     @ map snd LINUX_ERRNO_NAMES
     @ [''kil.v3b1-driver-readiness.v1'', ''kil.v3b1-driver-result.v1'', ''ready'', ''complete'',
        ''transport_failure'', ''driver_control_failure'']"

definition plain_check :: "nat \<Rightarrow> pstr \<Rightarrow> bool" where
  "plain_check m s \<longleftrightarrow> list_all (\<lambda>c. 32 \<le> c \<and> c < 127 \<and> c \<noteq> 34 \<and> c \<noteq> 92) s \<and> length s \<le> m"

lemma plain_checkD: "plain_check m s \<Longrightarrow> plain s \<and> length s \<le> m"
  by (simp add: plain_check_def plain_def list_all_iff)

lemma result_key_checks:
  "list_all (\<lambda>s. plain_check 40 (u s) \<and> u s \<noteq> u DECIMAL_TAG \<and> scan_text limit (u s) = Inr ()
     \<and> scan_key (str s) = Inr ()) RESULT_KEYS"
  by code_simp

lemma result_text_checks: "list_all (\<lambda>s. plain_check 40 (u s)) RESULT_TEXTS"
  by code_simp

lemma result_text_scans:
  "list_all (\<lambda>s. list_all is_alnum (u s) \<and> s \<noteq> [] \<and> length s < 20 \<or> scan_text limit (u s) = Inr ()) RESULT_TEXTS"
  by code_simp

text \<open>The values of a record.\<close>

definition result_value :: "pyval \<Rightarrow> bool" where
  "result_value v \<longleftrightarrow> v = PNone \<or> (\<exists>b. v = PBool b) \<or> (\<exists>n. v = PInt n \<and> clock_value n)
     \<or> (\<exists>s \<in> set RESULT_TEXTS. v = str s) \<or> (\<exists>s. v = PStr s \<and> hex64 s)"

lemma clock_value_bounds: "clock_value n \<Longrightarrow> bit_length n \<le> 63 \<and> ndigits (nat \<bar>n\<bar>) \<le> 19"
proof -
  assume "clock_value n"
  then have n: "nat \<bar>n\<bar> < 2 ^ 63" by (auto simp: clock_value_def MAX_MONOTONIC_NS_def)
  have "(2 :: nat) ^ 63 \<le> 10 ^ 19" by simp
  with n have "nat \<bar>n\<bar> < 10 ^ 19" by linarith
  then have "ndigits (nat \<bar>n\<bar>) \<le> 19" by (intro ndigits_le_iff [THEN iffD2] conjI) simp_all
  with n show ?thesis by (simp add: bit_length_def nat_bits_le_iff)
qed

lemma result_text_facts:
  assumes "s \<in> set RESULT_TEXTS"
  shows "plain (u s) \<and> length s \<le> 40" "scan_text limit (u s) = Inr ()"
proof -
  show "plain (u s) \<and> length s \<le> 40"
    using plain_checkD [OF list_all_memD [OF result_text_checks assms]] by simp
  show "scan_text limit (u s) = Inr ()"
    using list_all_memD [OF result_text_scans assms, of limit] alnum_text_scans [of "u s" limit] by auto
qed

lemma hex64_plain: "hex64 s \<Longrightarrow> plain s \<and> length s = 64"
  by (force simp: hex64_def plain_def list_all_iff char_classes)

lemma result_value_facts:
  assumes "result_value v"
  shows "flat_value v" "scan_value (Suc f) limit v = Inr ()" "item_size (k, v) \<le> length (key_text k) + 70"
  using assms clock_value_bounds result_text_facts hex64_plain hex_text_scans [of _ limit]
  by (auto simp: result_value_def MAX_INTEGER_BITS_def hex64_def dest!: bspec, fastforce+)

lemma scan_fields:
  assumes "\<forall>kv \<in> set d. scan_key (fst kv) = Inr () \<and> scan_value f limit (fst kv) = Inr ()
    \<and> scan_value f limit (snd kv) = Inr ()"
  shows "scan_value (Suc f) limit (PDict d) = Inr ()"
  using assms by (induction d) auto

lemma result_texts:
  "driver_track t \<Longrightarrow> \<exists>s \<in> set RESULT_TEXTS. t = u s"
  "s \<in> set TRANSPORT_STAGES \<Longrightarrow> s \<in> set RESULT_TEXTS"
  "s \<in> set DRIVER_CONTROL_STAGES \<Longrightarrow> s \<in> set RESULT_TEXTS"
  "s \<in> set EXCEPTION_CLASSES \<Longrightarrow> s \<in> set RESULT_TEXTS"
  "map_of LINUX_ERRNO_NAMES n = Some s \<Longrightarrow> s \<in> set RESULT_TEXTS"
  by (auto simp: driver_track_def RESULT_TEXTS_def dest!: map_of_SomeD intro: rev_image_eqI)

lemma errno_range: "map_of LINUX_ERRNO_NAMES n = Some s \<Longrightarrow> 0 < n \<and> n \<le> 133"
proof -
  have "list_all (\<lambda>(n, s). 0 < n \<and> n \<le> 133) LINUX_ERRNO_NAMES" by code_simp
  then show "map_of LINUX_ERRNO_NAMES n = Some s \<Longrightarrow> 0 < n \<and> n \<le> 133"
    by (auto dest!: map_of_SomeD list_all_memD)
qed

lemma small_clock_value: "0 \<le> n \<Longrightarrow> n \<le> 1000 \<Longrightarrow> clock_value n"
  by (simp add: clock_value_def MAX_MONOTONIC_NS_def)

lemma result_value_intros:
  "result_value PNone" "result_value (PBool b)" "clock_value n \<Longrightarrow> result_value (PInt n)"
  "hex64 d \<Longrightarrow> result_value (PStr d)" "s \<in> set RESULT_TEXTS \<Longrightarrow> result_value (str s)"
  "driver_track t \<Longrightarrow> result_value (PStr t)"
  using result_texts(1) by (auto simp: result_value_def)

lemma result_constants:
  "s \<in> {''kil.v3b1-driver-readiness.v1'', ''kil.v3b1-driver-result.v1'', ''ready'', ''complete'',
     ''transport_failure'', ''driver_control_failure''} \<Longrightarrow> s \<in> set RESULT_TEXTS"
  by (auto simp: RESULT_TEXTS_def)

lemma result_items_values:
  assumes "wf_result r"
  shows "list_all (\<lambda>kv. fst kv \<in> str ` set RESULT_KEYS \<and> result_value (snd kv)) (result_items r)"
  using assms
  by (cases r)
    (auto simp: RESULT_KEYS_def result_value_intros result_constants result_texts small_clock_value
      dest: errno_range split: option.splits)

lemma result_items_shape:
  "length (result_items r) \<le> 13" "distinct (map fst (result_items r))"
  "sorted (map (key_text \<circ> fst) (result_items r))"
  by (cases r; simp add: u_def)+

lemma result_key_facts:
  assumes "k \<in> str ` set RESULT_KEYS"
  shows "flat_key k" "length (key_text k) \<le> 40" "scan_key k = Inr ()" "scan_value (Suc f) limit k = Inr ()"
proof -
  obtain s where s: "k = str s" "s \<in> set RESULT_KEYS" using assms by blast
  note c = list_all_memD [OF result_key_checks s(2), of limit]
  show "flat_key k" "length (key_text k) \<le> 40" "scan_key k = Inr ()" "scan_value (Suc f) limit k = Inr ()"
    using c plain_checkD [of 40 "u s"] s(1) by auto
qed

lemma flat_result:
  assumes "wf_result r"
  shows "flat_fields (result_items r)"
  using result_items_values [OF assms] result_items_shape [of r]
  by (auto simp: flat_fields_def list_all_iff intro: result_key_facts(1) result_value_facts(1) dest!: bspec)

lemma result_line_length:
  assumes "wf_result r"
  shows "length (result_line r) \<le> 2000" "result_line r \<noteq> []"
proof -
  have "item_size kv \<le> 110" if "kv \<in> set (result_items r)" for kv
  proof -
    have "fst kv \<in> str ` set RESULT_KEYS" "result_value (snd kv)"
      using result_items_values [OF assms] that by (auto simp: list_all_iff)
    then show ?thesis
      using result_key_facts(2) [of "fst kv"] result_value_facts(3) [of "snd kv" "fst kv"] by simp
  qed
  then have "sum_list (map item_size (result_items r)) \<le> sum_list (map (\<lambda>_. 110) (result_items r))"
    by (intro sum_list_le) simp
  also have "\<dots> \<le> 13 * 110" using result_items_shape(1) [of r] by (simp add: sum_list_triv)
  finally have "length (dump_text (PDict (result_items r))) \<le> 1432"
    using length_flat_text [OF flat_result [OF assms]] by simp
  then show "length (result_line r) \<le> 2000" by (simp add: result_line_def ascii_bytes_def)
qed (simp add: result_line_def ascii_bytes_def)

lemma result_scans:
  assumes "wf_result r"
  shows "scan_value (Suc (Suc f)) limit (PDict (result_items r)) = Inr ()"
proof (rule scan_fields, rule ballI)
  fix kv assume "kv \<in> set (result_items r)"
  then have "fst kv \<in> str ` set RESULT_KEYS" "result_value (snd kv)"
    using result_items_values [OF assms] by (auto simp: list_all_iff)
  then show "scan_key (fst kv) = Inr () \<and> scan_value (Suc f) limit (fst kv) = Inr ()
      \<and> scan_value (Suc f) limit (snd kv) = Inr ()"
    using result_key_facts(3,4) result_value_facts(2) by blast
qed

subsection \<open>Reading a canonical line\<close>

lemma dp_hook_closed: "dp_hook = closed_hook (DriverProtocolError ''driver protocol JSON contains a duplicate field'')"
  by (rule dp_hook_def)

lemma load_record_Inr:
  assumes "load_record limit p m label = Inr d" "66 \<le> limit"
  shows "canonical (PDict d) \<and> utf8_encode (dump_text (PDict d) @ [10]) = Inr p \<and> length p \<le> m"
proof -
  obtain w t where w: "utf8_decode p = Inr w" "dp_decode_json limit w = Inr (PDict d)"
    "canonical_json (PDict d) = Inr t" "utf8_encode (t @ [10]) = Inr p" "length p \<le> m"
    using assms(1)
    by (auto simp: load_record_def try_r_eq_Inr record_bytes_def bind_r_eq_Inr split: if_splits pyval.splits)
  have "w = t @ [10]" using utf8_round_trip [OF w(4)] w(1) by simp
  with w canonical_line_value [of _ limit t "PDict d"] assms(2) show ?thesis
    by (auto simp: dp_decode_json_def dp_hook_closed)
qed

lemma load_record_canonical:
  assumes "canonical (PDict d)" "nesting (PDict d) \<le> limit" "canonical_json (PDict d) = Inr (dump_text (PDict d))"
    and "list_all printable (dump_text (PDict d))" "length (ascii_bytes (dump_text (PDict d) @ [10])) \<le> m"
  shows "load_record limit (ascii_bytes (dump_text (PDict d) @ [10])) m label = Inr d"
proof -
  have enc: "utf8_encode (dump_text (PDict d) @ [10]) = Inr (ascii_bytes (dump_text (PDict d) @ [10]))"
    by (rule utf8_encode_ascii) (use assms(4) in \<open>auto simp: list_all_iff printable_def\<close>)
  have "dp_decode_json limit (dump_text (PDict d) @ [10]) = Inr (PDict d)"
    unfolding dp_decode_json_def dp_hook_closed
    by (rule json_round_trip [OF closed_hook_faithful assms(1,2)]) (simp_all add: skip_ws_def json_ws_def)
  moreover have "record_bytes (PDict d) = Inr (ascii_bytes (dump_text (PDict d) @ [10]))"
    by (simp only: record_bytes_def assms(3) bind_r_Inr enc)
  moreover have "ascii_bytes (dump_text (PDict d) @ [10]) \<noteq> []" by (simp add: ascii_bytes_def)
  ultimately show ?thesis
    using assms(5) utf8_round_trip [OF enc] unfolding load_record_def by simp
qed

lemma load_record_flat:
  assumes "flat_fields d" "1 \<le> limit" "length (ascii_bytes (dump_text (PDict d) @ [10])) \<le> m"
  shows "load_record limit (ascii_bytes (dump_text (PDict d) @ [10])) m label = Inr d"
  using flat_canonical [OF assms(1)] assms(2,3) flat_canonical_json [OF assms(1)] dump_flat_chars [OF assms(1)]
  by (intro load_record_canonical) auto

lemma canonical_fields:
  assumes "canonical (PDict d)" "keys_exact d ks" "distinct ks" "sorted (map u ks)"
  shows "d = map (\<lambda>k. (str k, the (dict_get d k))) ks"
proof (rule sorted_keys_unique)
  have d: "distinct (map fst d)" "\<forall>kv \<in> set d. is_str (fst kv)" using assms(1) by (auto simp: list_all_iff)
  then show "distinct (map fst d)" "\<forall>kv \<in> set d. is_str (fst kv)" by simp_all
  show "sorted (map (key_text \<circ> fst) d)" using assms(1) by simp
  show "sorted (map (key_text \<circ> fst) (map (\<lambda>k. (str k, the (dict_get d k))) ks))"
    using assms(4) by (simp add: comp_def)
  show "distinct (map fst (map (\<lambda>k. (str k, the (dict_get d k))) ks))"
    using assms(3) by (simp add: comp_def distinct_map inj_on_def)
  have keys: "fst ` set d = str ` set ks" using assms(2) by (simp add: keys_exact_iff dict_keys_def key_set_def)
  show "set d = set (map (\<lambda>k. (str k, the (dict_get d k))) ks)"
  proof (intro set_eqI iffI)
    fix kv assume kv: "kv \<in> set d"
    then obtain k where k: "k \<in> set ks" "fst kv = str k" using keys by (metis imageE image_eqI)
    have "(str k, snd kv) \<in> set d" using kv k(2) by (metis prod.collapse)
    with d(1) have "dict_get d k = Some (snd kv)" by (simp add: dict_get_def)
    with k show "kv \<in> set (map (\<lambda>k. (str k, the (dict_get d k))) ks)" by (cases kv) force
  next
    fix kv assume "kv \<in> set (map (\<lambda>k. (str k, the (dict_get d k))) ks)"
    then obtain k where k: "k \<in> set ks" "kv = (str k, the (dict_get d k))" by auto
    then have "str k \<in> fst ` set d" using keys by simp
    then obtain v where "dict_get d k = Some v" by (auto simp: dict_get_def dest: map_of_eq_None_iff [THEN iffD1] split: option.splits)
      (metis map_of_eq_None_iff not_None_eq image_eqI fst_conv)
    with k show "kv \<in> set d" by (auto simp: dict_get_def dest: map_of_SomeD)
  qed
qed

subsection \<open>The validators\<close>

lemma dict_item_Inr: "dict_item d k = Inr v \<longleftrightarrow> dict_get d k = Some v"
  by (auto simp: dict_item_def split: option.splits)

lemma require_Inr:
  "require_fields (PDict d) ks label = Inr d' \<longleftrightarrow> keys_exact d ks \<and> d' = d"
  "require_monotonic v label = Inr n \<longleftrightarrow> v = PInt n \<and> clock_value n"
  "require_sha256 v = Inr s \<longleftrightarrow> v = PStr s \<and> hex64 s"
  "require_track v = Inr s \<longleftrightarrow> v = PStr s \<and> driver_track s"
  "require_one_attempt d = Inr () \<longleftrightarrow> dict_get d ''attempt_count'' = Some (PInt 1) \<and> dict_get d ''retry_performed'' = Some (PBool False)"
  "in_string_set v names = Inr True \<longleftrightarrow> (\<exists>s \<in> set names. v = str s)"
  by (auto simp: require_fields_def require_monotonic_def require_sha256_def require_track_def clock_value_def
      driver_track_def require_one_attempt_def in_string_set_def bind_r_eq_Inr dict_item_Inr not_less
      split: pyval.splits)

lemma in_string_setD: "in_string_set v names = Inr b \<Longrightarrow> b \<Longrightarrow> \<exists>s \<in> set names. v = str s"
  using require_Inr(6) by simp

lemma check_errno_Inr:
  "check_errno number name = Inr () \<longleftrightarrow>
     (\<exists>err. number = (case err of None \<Rightarrow> PNone | Some (n, _) \<Rightarrow> PInt n)
        \<and> name = (case err of None \<Rightarrow> PNone | Some (_, s) \<Rightarrow> str s)
        \<and> (case err of None \<Rightarrow> True | Some (n, s) \<Rightarrow> map_of LINUX_ERRNO_NAMES n = Some s))" (is "?l \<longleftrightarrow> (\<exists>err. ?r err)")
proof
  assume l: ?l
  show "\<exists>err. ?r err"
  proof (cases "number = PNone")
    case True
    with l have "?r None" by (simp add: check_errno_def split: if_splits)
    then show ?thesis ..
  next
    case False
    with l obtain n s where "number = PInt n" "name = PStr (u s)" "map_of LINUX_ERRNO_NAMES n = Some s"
      by (auto simp: check_errno_def split: if_splits pyval.splits)
    then have "?r (Some (n, s))" by simp
    then show ?thesis ..
  qed
next
  assume "\<exists>err. ?r err"
  then obtain err where "?r err" ..
  then show ?l
    using errno_range by (cases err) (fastforce simp: check_errno_def)+
qed

lemma validate_readiness_Inr:
  assumes "validate_readiness d = Inr ()" "canonical (PDict d)" "dict_get d ''track'' = Some (PStr t)"
    and "dict_get d ''schema_version'' = Some (str ''kil.v3b1-driver-readiness.v1'')" "driver_track t"
  shows "\<exists>r. wf_result r \<and> result_track r = t \<and> d = result_items r"
proof -
  obtain connect ready where c: "keys_exact d READINESS_FIELDS" "dict_get d ''connect_monotonic_ns'' = Some (PInt connect)"
    "dict_get d ''ready_monotonic_ns'' = Some (PInt ready)" "clock_value connect" "clock_value ready"
    "dict_get d ''status'' = Some (str ''ready'')" "connect \<le> ready"
    using assms(1) by (auto simp: validate_readiness_def require_Inr dict_item_Inr)
  have "d = map (\<lambda>k. (str k, the (dict_get d k))) READINESS_FIELDS"
    by (rule canonical_fields [OF assms(2) c(1)]) (simp_all add: READINESS_FIELDS_def u_def)
  then have "d = result_items (Readiness t connect ready)" by (simp add: READINESS_FIELDS_def assms c)
  with c assms(5) show ?thesis by (intro exI [of _ "Readiness t connect ready"]) simp
qed

lemma validate_success_Inr:
  assumes "validate_success d = Inr ()" "canonical (PDict d)" "dict_get d ''track'' = Some (PStr t)"
    and "dict_get d ''schema_version'' = Some (str ''kil.v3b1-driver-result.v1'')" "driver_track t"
    and "dict_get d ''status'' = Some (str ''complete'')"
  shows "\<exists>r. wf_result r \<and> result_track r = t \<and> d = result_items r"
proof -
  obtain connect send receive status digest where c: "keys_exact d SUCCESS_FIELDS"
    "dict_get d ''connect_monotonic_ns'' = Some (PInt connect)" "dict_get d ''send_monotonic_ns'' = Some (PInt send)"
    "dict_get d ''receive_monotonic_ns'' = Some (PInt receive)" "clock_value connect" "clock_value send" "clock_value receive"
    "dict_get d ''response_status'' = Some (PInt status)" "100 \<le> status" "status \<le> 599" "connect \<le> send" "send \<le> receive"
    "dict_get d ''decision_digest'' = Some (PStr digest)" "hex64 digest"
    "dict_get d ''attempt_count'' = Some (PInt 1)" "dict_get d ''retry_performed'' = Some (PBool False)"
    using assms(1) by (auto simp: validate_success_def require_Inr dict_item_Inr split: pyval.splits)
  have "d = map (\<lambda>k. (str k, the (dict_get d k))) SUCCESS_FIELDS"
    by (rule canonical_fields [OF assms(2) c(1)]) (simp_all add: SUCCESS_FIELDS_def u_def)
  then have "d = result_items (Complete t connect send receive status digest)"
    by (simp add: SUCCESS_FIELDS_def assms c)
  with c assms(5) show ?thesis by (intro exI [of _ "Complete t connect send receive status digest"]) simp
qed

lemma validate_transport_failure_Inr:
  assumes "validate_transport_failure d = Inr ()" "canonical (PDict d)" "dict_get d ''track'' = Some (PStr t)"
    and "dict_get d ''schema_version'' = Some (str ''kil.v3b1-driver-result.v1'')" "driver_track t"
    and "dict_get d ''status'' = Some (str ''transport_failure'')"
  shows "\<exists>r. wf_result r \<and> result_track r = t \<and> d = result_items r"
proof -
  obtain stage cls number name connect send failure sentv where c0: "keys_exact d TRANSPORT_FIELDS"
    "dict_get d ''stage'' = Some (str stage)" "stage \<in> set TRANSPORT_STAGES"
    "dict_get d ''exception_class'' = Some (str cls)" "cls \<in> set EXCEPTION_CLASSES"
    "dict_get d ''errno'' = Some number" "dict_get d ''errno_name'' = Some name" "check_errno number name = Inr ()"
    "dict_get d ''connect_monotonic_ns'' = Some (PInt connect)" "dict_get d ''send_monotonic_ns'' = Some (PInt send)"
    "dict_get d ''failure_monotonic_ns'' = Some (PInt failure)" "clock_value connect" "clock_value send" "clock_value failure"
    "dict_get d ''request_bytes_may_have_been_sent'' = Some sentv" "connect \<le> send" "send \<le> failure"
    "sentv = PBool True \<or> sentv = PBool False" "stage = ''request_send'' \<or> sentv = PBool True"
    "dict_get d ''attempt_count'' = Some (PInt 1)" "dict_get d ''retry_performed'' = Some (PBool False)"
    using assms(1)
    by (auto simp: validate_transport_failure_def require_Inr(1-5) dict_item_Inr dest!: in_string_setD)
  obtain sent where "sentv = PBool sent" using c0 by blast
  note c = c0 [unfolded this]
  obtain err where err: "number = (case err of None \<Rightarrow> PNone | Some (n, _) \<Rightarrow> PInt n)"
    "name = (case err of None \<Rightarrow> PNone | Some (_, s) \<Rightarrow> str s)"
    "case err of None \<Rightarrow> True | Some (n, s) \<Rightarrow> map_of LINUX_ERRNO_NAMES n = Some s"
    using c(8) unfolding check_errno_Inr by blast
  have "d = map (\<lambda>k. (str k, the (dict_get d k))) TRANSPORT_FIELDS"
    by (rule canonical_fields [OF assms(2) c(1)]) (simp_all add: TRANSPORT_FIELDS_def u_def)
  then have "d = result_items (TransportFailure t stage cls err connect send failure sent)"
    by (simp add: TRANSPORT_FIELDS_def assms c err)
  with c err assms(5) show ?thesis
    by (intro exI [of _ "TransportFailure t stage cls err connect send failure sent"]) simp
qed

lemma validate_driver_control_failure_Inr:
  assumes "validate_driver_control_failure d = Inr ()" "canonical (PDict d)" "dict_get d ''track'' = Some (PStr t)"
    and "dict_get d ''schema_version'' = Some (str ''kil.v3b1-driver-result.v1'')" "driver_track t"
    and "dict_get d ''status'' = Some (str ''driver_control_failure'')"
  shows "\<exists>r. wf_result r \<and> result_track r = t \<and> d = result_items r"
proof -
  obtain stage failure sentv where c0: "keys_exact d CONTROL_FIELDS"
    "dict_get d ''stage'' = Some (str stage)" "stage \<in> set DRIVER_CONTROL_STAGES"
    "dict_get d ''failure_monotonic_ns'' = Some (PInt failure)" "clock_value failure"
    "dict_get d ''request_bytes_may_have_been_sent'' = Some sentv"
    "sentv = PBool True \<or> sentv = PBool False" "stage = ''instruction_write'' \<or> sentv = PBool True"
    "dict_get d ''attempt_count'' = Some (PInt 1)" "dict_get d ''retry_performed'' = Some (PBool False)"
    using assms(1)
    by (auto simp: validate_driver_control_failure_def require_Inr(1-5) dict_item_Inr dest!: in_string_setD)
  obtain sent where "sentv = PBool sent" using c0 by blast
  note c = c0 [unfolded this]
  have "d = map (\<lambda>k. (str k, the (dict_get d k))) CONTROL_FIELDS"
    by (rule canonical_fields [OF assms(2) c(1)]) (simp_all add: CONTROL_FIELDS_def u_def)
  then have "d = result_items (ControlFailure t stage failure sent)" by (simp add: CONTROL_FIELDS_def assms c)
  with c assms(5) show ?thesis by (intro exI [of _ "ControlFailure t stage failure sent"]) simp
qed

lemma validate_result_items: "wf_result r \<Longrightarrow> validate_result (result_items r) = Inr ()"
  by (cases r)
    (auto simp: validate_result_def validate_readiness_def validate_success_def validate_transport_failure_def
      validate_driver_control_failure_def READINESS_FIELDS_def SUCCESS_FIELDS_def TRANSPORT_FIELDS_def
      CONTROL_FIELDS_def keys_exact_def has_unknown_def has_missing_def dict_get_def dict_item_def
      require_fields_def require_monotonic_def clock_value_def require_sha256_def require_one_attempt_def
      in_string_set_def check_errno_def dest: errno_range split: option.splits)

lemma validate_result_Inr:
  assumes "validate_result d = Inr ()" "canonical (PDict d)" "dict_get d ''track'' = Some (PStr t)" "driver_track t"
  shows "\<exists>r. wf_result r \<and> result_track r = t \<and> d = result_items r"
  using assms
  by (auto simp: validate_result_def split: if_splits
      intro: validate_readiness_Inr validate_success_Inr validate_transport_failure_Inr
        validate_driver_control_failure_Inr)

lemma result_items_track: "dict_get (result_items r) ''track'' = Some (PStr (result_track r))"
  by (cases r) (simp_all add: dict_get_def)

text \<open>Reading back the line of a record.\<close>

lemma parse_result_line:
  assumes "wf_result r" "1 \<le> limit" "2 \<le> frames"
  shows "parse_result frames limit (result_line r) (PStr (result_track r)) = Inr (result_items r)"
proof -
  obtain f where f: "frames = Suc (Suc f)" using assms(3) by (metis Suc_le_D numeral_2_eq_2 Suc_le_mono)
  have "driver_track (result_track r)" using assms(1) by (cases r) simp_all
  then have "require_track (PStr (result_track r)) = Inr (result_track r)" by (simp add: require_Inr)
  moreover have "load_record limit (result_line r) MAX_RESULT_BYTES ''driver result'' = Inr (result_items r)"
    unfolding result_line_def
    by (rule load_record_flat [OF flat_result [OF assms(1)] assms(2)])
      (use result_line_length(1) [OF assms(1)] in \<open>simp add: result_line_def MAX_RESULT_BYTES_def\<close>)
  moreover have "reject_sensitive_material frames limit (PDict (result_items r)) = Inr ()"
    using result_scans [OF assms(1)] by (simp only: reject_sensitive_material_def f try_r_Inr)
  ultimately show ?thesis
    by (simp add: parse_result_def result_items_track validate_result_items assms(1))
qed

lemma utf8_flat_line:
  "flat_fields d \<Longrightarrow> utf8_encode (dump_text (PDict d) @ [10]) = Inr (ascii_bytes (dump_text (PDict d) @ [10]))"
  by (rule utf8_encode_ascii) (use dump_flat_chars [of d] in \<open>auto simp: list_all_iff printable_def\<close>)

lemma canonical_result_line: "wf_result r \<Longrightarrow> canonical_record (PDict (result_items r)) = Inr (result_line r)"
  by (simp only: canonical_record_def record_bytes_def flat_canonical_json [OF flat_result] bind_r_Inr
      utf8_flat_line [OF flat_result] try_r_Inr result_line_def)

lemma parse_result_Inr:
  assumes "parse_result frames limit payload (PStr t) = Inr d" "66 \<le> limit"
  shows "\<exists>r. wf_result r \<and> result_track r = t \<and> d = result_items r \<and> payload = result_line r"
proof -
  have d: "load_record limit payload MAX_RESULT_BYTES ''driver result'' = Inr d"
    "dict_get d ''track'' = Some (PStr t)" "validate_result d = Inr ()" "driver_track t"
    using assms(1) by (auto simp: parse_result_def require_Inr)
  note l = load_record_Inr [OF d(1) assms(2)]
  then obtain r where r: "wf_result r" "result_track r = t" "d = result_items r"
    using validate_result_Inr [OF d(3) _ d(2,4)] by blast
  with l utf8_flat_line [OF flat_result [OF r(1)]] show ?thesis by (auto simp: result_line_def)
qed

text \<open>
  Claim C33: the driver's records are exactly the canonical lines of the four kinds of
  record. \<open>parse_result\<close> accepts a byte string for a track exactly when it is the line
  \<open>result_line r\<close> of a well-formed record \<open>r\<close> of that track (clock values of 63 bits in
  order, a status of three digits, a SHA-256 digest, a known stage and exception class, an
  error number with its own name, bytes that may have been sent past the first stage), and
  it returns the fields of \<open>r\<close>. No spelling of a record but its one line is accepted, and
  the scan for private material never refuses a well-formed record.
\<close>
theorem parse_result_iff:
  assumes "66 \<le> limit" "2 \<le> frames"
  shows "parse_result frames limit payload (PStr t) = Inr d \<longleftrightarrow>
    (\<exists>r. wf_result r \<and> result_track r = t \<and> d = result_items r \<and> payload = result_line r)"
  using parse_result_Inr [OF _ assms(1)] parse_result_line assms by auto

theorem parse_result_iff_witness:
  "\<exists>d. parse_result 10 100 (result_line (ControlFailure (u ''signed_state_only'') ''termination'' 12 True))
     (PStr (u ''signed_state_only'')) = Inr d \<and> dict_get d ''stage'' = Some (str ''termination'')"
proof -
  let ?r = "ControlFailure (u ''signed_state_only'') ''termination'' 12 True"
  have "wf_result ?r" by code_simp
  then have "parse_result 10 100 (result_line ?r) (PStr (u ''signed_state_only'')) = Inr (result_items ?r)"
    by (intro parse_result_iff [THEN iffD2] exI [of _ ?r]) simp_all
  then show ?thesis by (simp add: dict_get_def)
qed

subsection \<open>What parsing raises\<close>

lemma is_driver_error_iff: "is_driver_error e \<longleftrightarrow> (\<exists>s. e = DriverProtocolError s)"
  by (cases e) simp_all

lemma canonical_error_caught: "canonical_error e \<Longrightarrow> caught e"
  by (auto simp: canonical_error_def caught_def)

lemma dp_decode_json_raises: "only_raises (\<lambda>e. is_value_error e \<or> e = RecursionError) (dp_decode_json limit s)"
  by (auto simp: only_raises_def dp_decode_json_def dp_hook_closed closed_hook_def
      dest!: json_loads_error json_error_value split: if_splits)

lemma record_bytes_raises: "only_raises caught (record_bytes v)"
  unfolding record_bytes_def
proof (rule only_raises_bind)
  show "only_raises caught (canonical_json v)"
    using canonical_json_raises [of v] by (auto simp: only_raises_def canonical_error_caught)
qed (simp add: utf8_encode_def caught_def)

lemma canonical_record_raises: "only_raises is_driver_error (canonical_record v)"
  using record_bytes_raises [of v] by (cases "record_bytes v") (auto simp: canonical_record_def)

lemma load_record_raises: "only_raises is_driver_error (load_record limit p m label)"
proof -
  let ?m = "bind_r (utf8_decode p) (\<lambda>w. bind_r (dp_decode_json limit w) (\<lambda>v. bind_r (record_bytes v) (\<lambda>c. Inr (v, c))))"
  have "only_raises caught ?m"
  proof (intro only_raises_bind)
    show "only_raises caught (utf8_decode p)" by (auto simp: utf8_decode_def caught_def split: option.splits)
    show "only_raises caught (dp_decode_json limit w)" for w
      using dp_decode_json_raises [of limit w] by (auto simp: only_raises_def caught_def)
  qed (simp_all add: record_bytes_raises)
  then have "only_raises is_driver_error (try_r ?m (\<lambda>e. if caught e then driver_error (label @ '' is not closed JSON'') else Inl e))"
    by (cases ?m) auto
  then show ?thesis
    unfolding load_record_def
    by (auto intro!: only_raises_if only_raises_bind split: pyval.splits prod.splits)
qed

definition scan_error :: "pyexc \<Rightarrow> bool" where
  "scan_error e \<longleftrightarrow> is_driver_error e \<or> e = RecursionError"

lemma jws_raises: "only_raises (\<lambda>e. e = RecursionError) (looks_like_compact_jws limit s)"
proof -
  have "only_raises (\<lambda>e. is_value_error e \<or> e = RecursionError) (jws_header limit a)" for a
    unfolding jws_header_def
    by (intro only_raises_bind)
      (auto simp: b64decode_def utf8_decode_def only_raises_def split: option.splits
        dest: only_raisesD [OF dp_decode_json_raises])
  then show ?thesis
    by (auto simp: looks_like_compact_jws_def only_raises_def try_r_def split: list.splits sum.splits if_splits)
qed

lemma scan_text_raises: "only_raises scan_error (scan_text limit s)"
proof -
  have "only_raises scan_error (any_r (looks_like_compact_jws limit) ws)" for ws
    using jws_raises
    by (induction ws) (auto simp: only_raises_def scan_error_def bind_r_eq_Inl split: if_splits)
  then show ?thesis
    unfolding scan_text_def contains_compact_jws_def
    by (intro only_raises_bind only_raises_if) (simp_all add: scan_error_def)
qed

lemma only_raises_fold_unit:
  "(\<And>x. x \<in> set xs \<Longrightarrow> only_raises P (f () x)) \<Longrightarrow> only_raises P (fold_r f () xs)"
  by (induction xs) (auto intro!: only_raises_bind)

lemma scan_value_raises: "only_raises scan_error (scan_value f limit v)"
proof (induction f arbitrary: v)
  case (Suc f)
  have "only_raises scan_error (scan_key k)" for k
    by (cases k) (auto simp: scan_key_def scan_error_def)
  with Suc scan_text_raises show ?case
    by (cases v) (auto intro!: only_raises_fold_unit only_raises_bind)
qed (simp add: scan_error_def)

lemma reject_sensitive_raises: "only_raises is_driver_error (reject_sensitive_material f limit v)"
  using scan_value_raises [of f limit v]
  by (cases "scan_value f limit v") (auto simp: reject_sensitive_material_def scan_error_def)

text \<open>The only other exception is the one of a stage or a class that has no hash.\<close>

fun unhashable :: "pyval \<Rightarrow> bool" where
  "unhashable (PList _) = True"
| "unhashable (PDict _) = True"
| "unhashable _ = False"

definition unhashable_field :: "pydict \<Rightarrow> bool" where
  "unhashable_field d \<longleftrightarrow> (\<exists>k \<in> {''stage'', ''exception_class''}. \<exists>v. dict_get d k = Some v \<and> unhashable v)"

lemma in_string_set_raises: "in_string_set v names = Inl e \<Longrightarrow> is_type_error e \<and> unhashable v"
  by (cases v) (auto simp: in_string_set_def)

lemma dict_item_exact: "keys_exact d ks \<Longrightarrow> k \<in> set ks \<Longrightarrow> \<exists>v. dict_get d k = Some v \<and> dict_item d k = Inr v"
  using keys_exact_item [of d ks k] by (auto simp: dict_item_Inr)

lemma require_raises_driver:
  "only_raises is_driver_error (require_fields v ks label)" "only_raises is_driver_error (require_monotonic w label)"
  "only_raises is_driver_error (require_sha256 w)" "only_raises is_driver_error (require_track w)"
  "only_raises is_driver_error (check_errno w x)"
  by (auto simp: require_fields_def require_monotonic_def require_sha256_def require_track_def check_errno_def
      split: pyval.splits)

definition result_error :: "pydict \<Rightarrow> pyexc \<Rightarrow> bool" where
  "result_error d e \<longleftrightarrow> is_driver_error e \<or> is_type_error e \<and> unhashable_field d"

lemma result_error_driver: "only_raises is_driver_error m \<Longrightarrow> only_raises (result_error d) m"
  by (auto simp: only_raises_def result_error_def)

lemma result_error_item:
  "require_fields (PDict d) ks label = Inr x \<Longrightarrow> k \<in> set ks \<Longrightarrow> only_raises P (dict_item x k)"
  by (auto simp: require_Inr(1) dest: dict_item_exact)

lemma result_error_set:
  "require_fields (PDict d) ks label = Inr x \<Longrightarrow> dict_item x k = Inr v \<Longrightarrow> k \<in> {''stage'', ''exception_class''} \<Longrightarrow>
     only_raises (result_error d) (in_string_set v names)"
  by (auto simp: only_raises_def result_error_def unhashable_field_def require_Inr(1) dict_item_Inr
      dest!: in_string_set_raises)

lemma one_attempt_raises:
  "require_fields (PDict d) ks label = Inr x \<Longrightarrow> ''attempt_count'' \<in> set ks \<Longrightarrow> ''retry_performed'' \<in> set ks \<Longrightarrow>
     only_raises (result_error d) (require_one_attempt x)"
  unfolding require_one_attempt_def
  by (intro only_raises_bind result_error_item) (simp_all add: result_error_def)

lemmas result_errors =
  only_raises_bind result_error_item result_error_set one_attempt_raises
  require_raises_driver [THEN result_error_driver]

lemma validate_result_raises: "only_raises (result_error d) (validate_result d)"
proof -
  have "only_raises (result_error d) (validate_readiness d)"
    unfolding validate_readiness_def
    by (intro only_raises_bind, (rule result_errors | simp add: READINESS_FIELDS_def | simp add: result_error_def | assumption)+)
  moreover have "only_raises (result_error d) (validate_success d)"
    unfolding validate_success_def
    by (intro only_raises_bind, (rule result_errors | simp add: SUCCESS_FIELDS_def | simp add: result_error_def | assumption)+)
  moreover have "only_raises (result_error d) (validate_transport_failure d)"
    unfolding validate_transport_failure_def
    by (intro only_raises_bind, (rule result_errors | simp add: TRANSPORT_FIELDS_def | simp add: result_error_def | assumption)+)
  moreover have "only_raises (result_error d) (validate_driver_control_failure d)"
    unfolding validate_driver_control_failure_def
    by (intro only_raises_bind, (rule result_errors | simp add: CONTROL_FIELDS_def | simp add: result_error_def | assumption)+)
  ultimately show ?thesis
    unfolding validate_result_def by (auto simp: result_error_def)
qed

text \<open>
  What \<open>parse_result\<close> raises. Whatever the bytes and the expected track, the
  only exception is DriverProtocolError, but for one: a canonical record whose \<open>stage\<close> or
  \<open>exception_class\<close> is a JSON array or object, for which testing membership in a set of
  names raises TypeError. (The witness is such a record.)
\<close>
theorem parse_result_raises:
  assumes "parse_result frames limit payload track = Inl e"
  shows "is_driver_error e \<or> is_type_error e
    \<and> (\<exists>d. load_record limit payload MAX_RESULT_BYTES ''driver result'' = Inr d \<and> unhashable_field d)"
proof -
  have "only_raises (\<lambda>e. is_driver_error e \<or> is_type_error e
      \<and> (\<exists>d. load_record limit payload MAX_RESULT_BYTES ''driver result'' = Inr d \<and> unhashable_field d))
    (parse_result frames limit payload track)"
    unfolding parse_result_def
  proof (intro only_raises_bind)
    fix d assume "load_record limit payload MAX_RESULT_BYTES ''driver result'' = Inr d"
    then show "only_raises (\<lambda>e. is_driver_error e \<or> is_type_error e
        \<and> (\<exists>d. load_record limit payload MAX_RESULT_BYTES ''driver result'' = Inr d \<and> unhashable_field d)) (validate_result d)"
      using validate_result_raises [of d] by (auto simp: only_raises_def result_error_def)
  qed (use load_record_raises reject_sensitive_raises require_raises_driver in \<open>force simp: only_raises_def\<close>)+
  with assms show ?thesis by (simp add: only_raises_def)
qed

definition unhashable_stage :: pydict where
  "unhashable_stage =
     [(str ''attempt_count'', PInt 1), (str ''failure_monotonic_ns'', PInt 7),
      (str ''request_bytes_may_have_been_sent'', PBool True), (str ''retry_performed'', PBool False),
      (str ''schema_version'', str ''kil.v3b1-driver-result.v1''), (str ''stage'', PList []),
      (str ''status'', str ''driver_control_failure''), (str ''track'', str ''signed_state_only'')]"

theorem parse_result_raises_witness:
  "\<exists>e. parse_result 10 100 (ascii_bytes (dump_text (PDict unhashable_stage) @ [10])) (str ''signed_state_only'') = Inl e
     \<and> is_type_error e"
proof -
  let ?p = "ascii_bytes (dump_text (PDict unhashable_stage) @ [10])"
  have "canonical_json (PDict unhashable_stage) = Inr (dump_text (PDict unhashable_stage))" by code_simp
  moreover have "canonical (PDict unhashable_stage)" "nesting (PDict unhashable_stage) \<le> 100" by code_simp+
  moreover have "list_all printable (dump_text (PDict unhashable_stage))" by code_simp
  moreover have "length ?p \<le> MAX_RESULT_BYTES" by code_simp
  ultimately have l: "load_record 100 ?p MAX_RESULT_BYTES ''driver result'' = Inr unhashable_stage"
    by (intro load_record_canonical)
  have "reject_sensitive_material 10 100 (PDict unhashable_stage) = Inr ()"
    "dict_get unhashable_stage ''track'' = Some (str ''signed_state_only'')"
    "validate_result unhashable_stage = Inl (TypeError ''unhashable type: list'')"
    "require_track (str ''signed_state_only'') = Inr (u ''signed_state_only'')"
    by code_simp+
  then have p: "parse_result 10 100 ?p (str ''signed_state_only'') = Inl (TypeError ''unhashable type: list'')"
    by (simp add: parse_result_def l del: dump_text.simps)
  from parse_result_raises [OF p] p show ?thesis by auto
qed

end
