(* ===== verification/KilDriverInstruction.thy ===== *)
theory KilDriverInstruction
  imports KilDriverResult
begin

text \<open>
  What the protocol promises of an instruction: the only values its bytes leave open are
  the bearer token, the run ID and, off the baseline track, the signed state.
\<close>

definition instruction_header_items :: "pstr \<Rightarrow> pstr \<Rightarrow> pstr option \<Rightarrow> pydict" where
  "instruction_header_items auth run q =
     [(str ''authorization'', PStr auth), (str ''x-envoy-hedge-on-per-try-timeout'', str ''false''),
      (str ''x-envoy-max-retries'', str ''0''), (str ''x-kil-decision-digest'', str (replicate 64 CHR ''f'')),
      (str ''x-kil-issuer'', str ''https://attacker.invalid''),
      (str ''x-kil-local-evidence'', str (''{'' @ [CHR 34] @ ''divergence'' @ [CHR 34] @ '':'' @ [CHR 34] @ ''0'' @ [CHR 34] @ ''}'')),
      (str ''x-kil-mode'', str ''credential_policy_baseline'')]
     @ (case q of None \<Rightarrow> [] | Some s \<Rightarrow> [(str ''x-kil-q-state'', PStr s)])
     @ [(str ''x-kil-run-id'', PStr run), (str ''x-kil-track'', str ''client-selected-track''),
        (str ''x-kil-verified-subject'', str ''spiffe://attacker.invalid/workload''),
        (str ''x-request-id'', str ''v3b1-central-request'')]"

definition instruction_items :: "pstr \<Rightarrow> pstr \<Rightarrow> pstr \<Rightarrow> pstr option \<Rightarrow> pydict" where
  "instruction_items t auth run q =
     [(str ''body_byte_count'', PInt 0), (str ''headers'', PDict (instruction_header_items auth run q)),
      (str ''method'', str ''POST''), (str ''path'', str ''/consequential/admin''),
      (str ''schema_version'', str ''kil.v3b1-driver-instruction.v1''), (str ''track'', PStr t)]"

definition sorted_instruction_headers :: "pstr \<Rightarrow> string list" where
  "sorted_instruction_headers trk =
     [''authorization'', ''x-envoy-hedge-on-per-try-timeout'', ''x-envoy-max-retries'', ''x-kil-decision-digest'',
      ''x-kil-issuer'', ''x-kil-local-evidence'', ''x-kil-mode'']
     @ (if trk \<noteq> baseline_track then [''x-kil-q-state''] else [])
     @ [''x-kil-run-id'', ''x-kil-track'', ''x-kil-verified-subject'', ''x-request-id'']"

lemma keys_exact_cong: "set ks = set ks' \<Longrightarrow> keys_exact d ks \<longleftrightarrow> keys_exact d ks'"
  by (simp add: keys_exact_iff key_set_def)

lemma instruction_headers_set: "set (instruction_headers t) = set (sorted_instruction_headers t)"
  by (auto simp: instruction_headers_def BASE_INSTRUCTION_HEADERS_def SIGNED_INSTRUCTION_HEADER_def
      sorted_instruction_headers_def)

lemma sorted_instruction_headers_shape:
  "distinct (sorted_instruction_headers t)" "sorted (map u (sorted_instruction_headers t))"
  by (simp_all add: sorted_instruction_headers_def u_def)

lemma fold_unit_all: "fold_r f () xs = Inr () \<Longrightarrow> x \<in> set xs \<Longrightarrow> f () x = Inr ()"
  by (induction xs) (auto simp: bind_r_eq_Inr)

lemma check_headers_strings:
  assumes "check_headers limit t hs = Inr ()" "dict_get hs k = Some v"
  obtains s where "v = PStr s" "s \<noteq> []" "length s \<le> MAX_HEADER_VALUE_BYTES"
    "list_all (\<lambda>c. 32 \<le> c \<and> c < 127) s"
proof -
  from assms(1) have "fold_r (\<lambda>_ kv. bind_r (ensure (is_str (fst kv))
         (DriverProtocolError ''driver instruction header name is invalid'')) (\<lambda>_.
         bind_r (require_header_value (snd kv)) (\<lambda>_. Inr ()))) () hs = Inr ()"
    by (auto simp: check_headers_def)
  moreover have "(str k, v) \<in> set hs" using assms(2) by (auto simp: dict_get_def dest: map_of_SomeD)
  ultimately obtain s where s: "require_header_value v = Inr s" by (fastforce dest: fold_unit_all)
  then show thesis
    by (intro that [of s])
      (auto simp: require_header_value_def list_all_iff list_ex_iff not_less split: pyval.splits if_splits,
       fastforce)
qed

lemma check_headers_Inr:
  assumes "check_headers limit t hs = Inr ()" "canonical (PDict hs)"
  shows "\<exists>auth run q. hs = instruction_header_items auth run q \<and> authorization_text auth \<and> run_id_text run
    \<and> (case q of None \<Rightarrow> t = baseline_track | Some s \<Rightarrow> t \<noteq> baseline_track \<and> looks_like_compact_jws limit s = Inr True)"
proof -
  have keys: "keys_exact hs (instruction_headers t)"
    and fixed: "list_all (\<lambda>(k, v). dict_get hs k = Some (str v)) FIXED_INSTRUCTION_HEADER_VALUES"
    using assms(1) by (auto simp: check_headers_def)
  from assms(1) obtain auth run rid where at: "header_text hs ''authorization'' = Inr auth" "authorization_text auth"
    "header_text hs ''x-kil-run-id'' = Inr run" "run_id_text run"
    "header_text hs ''x-request-id'' = Inr rid" "rid = u REQUEST_ID"
    "t \<noteq> baseline_track \<Longrightarrow> \<exists>s. header_text hs SIGNED_INSTRUCTION_HEADER = Inr s \<and> looks_like_compact_jws limit s = Inr True"
    by (auto simp: check_headers_def split: if_splits)
  have get: "dict_get hs k = Some (PStr s)" if ht: "header_text hs k = Inr s" for k s
  proof -
    obtain v where v: "dict_get hs k = Some v" "s = key_text v"
      using ht by (auto simp: header_text_def dict_item_Inr)
    show ?thesis by (rule check_headers_strings [OF assms(1) v(1)]) (use v in simp)
  qed
  obtain q where q: "case q of None \<Rightarrow> t = baseline_track
      | Some s \<Rightarrow> t \<noteq> baseline_track \<and> looks_like_compact_jws limit s = Inr True \<and> dict_get hs ''x-kil-q-state'' = Some (PStr s)"
  proof (cases "t = baseline_track")
    case True
    then show thesis by (intro that [of None]) simp
  next
    case False
    with at(7) obtain s where "header_text hs ''x-kil-q-state'' = Inr s" "looks_like_compact_jws limit s = Inr True"
      by (auto simp: SIGNED_INSTRUCTION_HEADER_def)
    with False get show thesis by (intro that [of "Some s"]) simp
  qed
  have "hs = map (\<lambda>k. (str k, the (dict_get hs k))) (sorted_instruction_headers t)"
    by (rule canonical_fields [OF assms(2) _ sorted_instruction_headers_shape])
      (use keys keys_exact_cong [OF instruction_headers_set] in blast)
  then have "hs = instruction_header_items auth run q"
    using fixed get [OF at(1)] get [OF at(3)] get [OF at(5)] at(6) q
    by (auto simp: sorted_instruction_headers_def instruction_header_items_def FIXED_INSTRUCTION_HEADER_VALUES_def
        REQUEST_ID_def split: option.splits)
  with at q show ?thesis
    by (rule_tac x = auth in exI, rule_tac x = run in exI, rule_tac x = q in exI) (auto split: option.splits)
qed

lemma parse_instruction_Inr:
  assumes "parse_instruction limit payload (PStr t) = Inr d" "66 \<le> limit"
  shows "\<exists>auth run q. d = instruction_items t auth run q \<and> driver_track t \<and> authorization_text auth \<and> run_id_text run
    \<and> (case q of None \<Rightarrow> t = baseline_track | Some s \<Rightarrow> t \<noteq> baseline_track \<and> looks_like_compact_jws limit s = Inr True)
    \<and> utf8_encode (dump_text (PDict d) @ [10]) = Inr payload \<and> length payload \<le> MAX_INSTRUCTION_BYTES"
proof -
  obtain hs where h: "load_record limit payload MAX_INSTRUCTION_BYTES ''driver instruction'' = Inr d"
    "driver_track t" "keys_exact d INSTRUCTION_FIELDS" "dict_get d ''track'' = Some (PStr t)"
    "dict_get d ''schema_version'' = Some (str ''kil.v3b1-driver-instruction.v1'')"
    "dict_get d ''method'' = Some (str ''POST'')" "dict_get d ''path'' = Some (str ''/consequential/admin'')"
    "dict_get d ''body_byte_count'' = Some (PInt 0)" "dict_get d ''headers'' = Some (PDict hs)"
    "check_headers limit t hs = Inr ()"
    using assms(1)
    by (auto simp: parse_instruction_def require_Inr dict_item_Inr split: if_splits pyval.splits)
  note l = load_record_Inr [OF h(1) assms(2)]
  have "d = map (\<lambda>k. (str k, the (dict_get d k))) INSTRUCTION_FIELDS"
    by (rule canonical_fields [OF _ h(3)]) (use l in \<open>simp_all add: INSTRUCTION_FIELDS_def u_def\<close>)
  then have d: "d = [(str ''body_byte_count'', PInt 0), (str ''headers'', PDict hs),
      (str ''method'', str ''POST''), (str ''path'', str ''/consequential/admin''),
      (str ''schema_version'', str ''kil.v3b1-driver-instruction.v1''), (str ''track'', PStr t)]"
    by (simp add: INSTRUCTION_FIELDS_def h)
  with l have "canonical (PDict hs)" by simp
  then obtain auth run q where "hs = instruction_header_items auth run q" "authorization_text auth" "run_id_text run"
    "case q of None \<Rightarrow> t = baseline_track | Some s \<Rightarrow> t \<noteq> baseline_track \<and> looks_like_compact_jws limit s = Inr True"
    using check_headers_Inr [OF h(10)] by blast
  with d l h(2) show ?thesis
    by (rule_tac x = auth in exI, rule_tac x = run in exI, rule_tac x = q in exI) (simp add: instruction_items_def)
qed

definition sample_instruction :: pydict where
  "sample_instruction = instruction_items baseline_track (u ''Bearer abc'') (u (''v3b1-'' @ replicate 64 CHR ''0'')) None"

lemma sample_instruction_parses:
  "parse_instruction limit (ascii_bytes (dump_text (PDict sample_instruction) @ [10])) (PStr baseline_track) = Inr sample_instruction"
  if "2 \<le> limit"
proof -
  let ?p = "ascii_bytes (dump_text (PDict sample_instruction) @ [10])"
  have "canonical_json (PDict sample_instruction) = Inr (dump_text (PDict sample_instruction))" by code_simp
  moreover have "canonical (PDict sample_instruction)" "nesting (PDict sample_instruction) = 2" by code_simp+
  moreover have "list_all printable (dump_text (PDict sample_instruction))" by code_simp
  moreover have "length ?p \<le> MAX_INSTRUCTION_BYTES" by code_simp
  ultimately have l: "load_record limit ?p MAX_INSTRUCTION_BYTES ''driver instruction'' = Inr sample_instruction"
    using that by (intro load_record_canonical) simp_all
  let ?hs = "instruction_header_items (u ''Bearer abc'') (u (''v3b1-'' @ replicate 64 CHR ''0'')) None"
  have items: "dict_item sample_instruction ''track'' = Inr (PStr baseline_track)"
    "dict_item sample_instruction ''schema_version'' = Inr (str ''kil.v3b1-driver-instruction.v1'')"
    "dict_item sample_instruction ''method'' = Inr (str ''POST'')"
    "dict_item sample_instruction ''path'' = Inr (str ''/consequential/admin'')"
    "dict_item sample_instruction ''body_byte_count'' = Inr (PInt 0)"
    "dict_item sample_instruction ''headers'' = Inr (PDict ?hs)"
    by code_simp+
  have "check_headers limit baseline_track ?hs = Inr ()" by code_simp
  moreover have "require_track (PStr baseline_track) = Inr baseline_track" by code_simp
  moreover have "require_fields (PDict sample_instruction) INSTRUCTION_FIELDS label = Inr sample_instruction" for label
    by code_simp
  ultimately show ?thesis
    using l items by (simp only: parse_instruction_def bind_r_Inr) simp
qed

text \<open>
  Claim C37: an instruction accepted for a track is the canonical line of the one request the
  lab makes. Its method, path, empty body, track and all headers are fixed, the spoofed
  headers that must not reach the decision among them; only the bearer token, the run ID
  and the signed state are left open, they have the shape of such values, and the signed
  state is there exactly on the tracks that use it.
\<close>
theorem parse_instruction_sound:
  assumes "parse_instruction limit payload (PStr t) = Inr d" "66 \<le> limit"
  shows "\<exists>auth run q. d = instruction_items t auth run q \<and> driver_track t \<and> authorization_text auth \<and> run_id_text run
    \<and> (case q of None \<Rightarrow> t = baseline_track | Some s \<Rightarrow> t \<noteq> baseline_track \<and> looks_like_compact_jws limit s = Inr True)
    \<and> utf8_encode (dump_text (PDict d) @ [10]) = Inr payload \<and> length payload \<le> MAX_INSTRUCTION_BYTES"
  by (rule parse_instruction_Inr [OF assms])

theorem parse_instruction_sound_witness:
  "\<exists>auth run. sample_instruction = instruction_items baseline_track auth run None \<and> authorization_text auth"
  using parse_instruction_sound [OF sample_instruction_parses, of 66]
  by (auto simp: sample_instruction_def split: option.splits)

end
