(* ===== verification/KilRequestDriver.thy ===== *)
theory KilRequestDriver
  imports KilDriverInstruction
begin

text \<open>
  \<^verbatim>\<open>src/kil/v3b1_request_driver.py\<close>: the one-shot driver that connects, writes a readiness
  record, reads one instruction, makes one request on the retained connection and writes
  one result. The connection, the clock and the standard streams are an environment that
  gives the outcome of each call; what the driver does to them is a list of events, in
  order. A write is told how many bytes it is offered; if it returns a count in range it has
  taken that many, and any other write none. \<open>de_derives c b\<close> says that exception class \<open>c\<close> derives from \<open>b\<close>.
\<close>

subsection \<open>The environment and the events\<close>

record Response =
  rp_status :: "pyval res"
  rp_digest :: "pyval res"
  rp_body :: "pyval res"
  rp_length :: pyval

record DriverEnv =
  de_clock :: "nat \<Rightarrow> int res"
  de_factory :: "unit res"
  de_connect :: "unit res"
  de_write :: "nat \<Rightarrow> nat \<Rightarrow> nat \<Rightarrow> pyval res"
  de_flush :: "nat \<Rightarrow> unit res"
  de_stdin :: "pyval res"
  de_request :: "unit res"
  de_response :: "Response res"
  de_derives :: "string \<Rightarrow> string \<Rightarrow> bool"

datatype DriverEvent =
    Connecting
  | Wrote bytes
  | ReadInput
  | Requested pyval pyval pyval
  | Closed

type_synonym 'a io = "'a res \<times> DriverEvent list"

definition bind_io :: "'a io \<Rightarrow> ('a \<Rightarrow> 'b io) \<Rightarrow> 'b io" where
  "bind_io m f = (case m of
     (Inl e, evs) \<Rightarrow> (Inl e, evs)
   | (Inr x, evs) \<Rightarrow> (case f x of (r, evs') \<Rightarrow> (r, evs @ evs')))"

definition quiet :: "'a res \<Rightarrow> 'a io" where
  "quiet m = (m, [])"

subsection \<open>Writing and reading\<close>

function write_chunks :: "(nat \<Rightarrow> nat \<Rightarrow> pyval res) \<Rightarrow> nat \<Rightarrow> bytes \<Rightarrow> nat \<Rightarrow> unit io" where
  "write_chunks w k payload offset =
     (if offset < length payload then
        (case w k (length payload - offset) of
           Inl e \<Rightarrow> (Inl (if is_os_error e then DriverOutputError else e), [])
         | Inr progress \<Rightarrow>
             (case progress of
                PInt n \<Rightarrow>
                  if n \<le> 0 \<or> n > int (length payload - offset) then (Inl DriverOutputError, [])
                  else (case write_chunks w (Suc k) payload (offset + nat n) of
                          (r, evs) \<Rightarrow> (r, Wrote (take (nat n) (drop offset payload)) # evs))
              | _ \<Rightarrow> (Inl DriverOutputError, [])))
      else (Inr (), []))"
  by pat_completeness auto
termination
  by (relation "measure (\<lambda>(w, k, payload, offset). length payload - offset)") auto

declare write_chunks.simps [simp del]

definition write_canonical_record :: "DriverEnv \<Rightarrow> nat \<Rightarrow> pydict \<Rightarrow> unit io" where
  "write_canonical_record env i record =
     bind_io (quiet (canonical_record (PDict record))) (\<lambda>payload.
     if length payload > MAX_RESULT_BYTES then (Inl DriverOutputError, [])
     else bind_io (write_chunks (de_write env i) 0 payload 0) (\<lambda>_.
       quiet (try_r (de_flush env i) (\<lambda>e. Inl (if is_os_error e then DriverOutputError else e)))))"

definition read_bounded_single_line :: "pyval res \<Rightarrow> nat \<Rightarrow> bytes option res" where
  "read_bounded_single_line stdin limit =
     (if limit < 1 then driver_error ''driver instruction limit is invalid''
      else bind_r (try_r stdin (\<lambda>e. if is_os_error e \<or> is_value_error e \<or> is_type_error e
          then driver_error ''driver instruction read failed'' else Inl e)) (\<lambda>payload.
        case payload of
          PBytes bs \<Rightarrow>
            if bs = [] then Inr None
            else if length bs > limit then driver_error ''driver instruction exceeds its byte limit''
            else if last bs \<noteq> 10 \<or> count_list bs 10 \<noteq> 1
            then driver_error ''driver instruction framing is invalid''
            else Inr (Some bs)
        | _ \<Rightarrow> driver_error ''driver instruction exceeds its byte limit''))"

subsection \<open>Records\<close>

definition validated_record :: "nat \<Rightarrow> nat \<Rightarrow> pyval \<Rightarrow> pyval \<Rightarrow> pydict res" where
  "validated_record frames limit record trk =
     bind_r (canonical_record record) (\<lambda>payload. parse_result frames limit payload trk)"

definition readiness_record :: "nat \<Rightarrow> nat \<Rightarrow> pyval \<Rightarrow> int \<Rightarrow> int \<Rightarrow> pydict res" where
  "readiness_record frames limit trk connect ready =
     bind_r (require_track trk) (\<lambda>t.
     validated_record frames limit (dict_of
       [(''schema_version'', str ''kil.v3b1-driver-readiness.v1''), (''track'', PStr t),
        (''status'', str ''ready''), (''connect_monotonic_ns'', PInt connect),
        (''ready_monotonic_ns'', PInt ready)]) trk)"

text \<open>The name of an exception's class, and its number and name as an error of Linux.\<close>

fun error_name :: "pyexc \<Rightarrow> string" where
  "error_name (OSError c _) = c"
| "error_name DriverOutputError = ''DriverOutputError''"
| "error_name HTTPException = ''HTTPException''"
| "error_name _ = ''Exception''"

definition CHECKED_CLASSES :: "string list" where
  "CHECKED_CLASSES = [''BrokenPipeError'', ''ConnectionAbortedError'', ''ConnectionRefusedError'',
     ''ConnectionResetError'', ''TimeoutError'', ''ConnectionError'', ''OSError'']"

definition exception_class :: "(string \<Rightarrow> string \<Rightarrow> bool) \<Rightarrow> pyexc \<Rightarrow> string" where
  "exception_class derives e =
     (if error_name e \<in> set CHECKED_CLASSES then error_name e
      else case find (derives (error_name e)) CHECKED_CLASSES of None \<Rightarrow> ''OSError'' | Some c \<Rightarrow> c)"

definition linux_errno :: "pyexc \<Rightarrow> (int \<times> string) option" where
  "linux_errno e = (case e of
     OSError _ (Some n) \<Rightarrow> (case map_of LINUX_ERRNO_NAMES n of None \<Rightarrow> None | Some s \<Rightarrow> Some (n, s))
   | _ \<Rightarrow> None)"

definition transport_failure ::
    "nat \<Rightarrow> nat \<Rightarrow> DriverEnv \<Rightarrow> pstr \<Rightarrow> string \<Rightarrow> pyexc \<Rightarrow> int \<Rightarrow> int \<Rightarrow> pydict res" where
  "transport_failure frames limit env t stage e connect send =
     bind_r (de_clock env 3) (\<lambda>failure.
     validated_record frames limit (dict_of
       [(''schema_version'', str ''kil.v3b1-driver-result.v1''), (''track'', PStr t),
        (''status'', str ''transport_failure''), (''stage'', str stage),
        (''exception_class'', str (exception_class (de_derives env) e)),
        (''errno'', case linux_errno e of None \<Rightarrow> PNone | Some (n, _) \<Rightarrow> PInt n),
        (''errno_name'', case linux_errno e of None \<Rightarrow> PNone | Some (_, s) \<Rightarrow> str s),
        (''connect_monotonic_ns'', PInt connect), (''send_monotonic_ns'', PInt send),
        (''failure_monotonic_ns'', PInt failure), (''request_bytes_may_have_been_sent'', PBool True),
        (''attempt_count'', PInt 1), (''retry_performed'', PBool False)]) (PStr t))"

text \<open>An \<^verbatim>\<open>OSError()\<close> the driver raises itself.\<close>

definition own_os_error :: pyexc where
  "own_os_error = OSError ''OSError'' None"

definition closed_response_facts :: "Response \<Rightarrow> (int \<times> pstr) res" where
  "closed_response_facts response =
     bind_r (try_r (bind_r (rp_status response) (\<lambda>st. bind_r (rp_digest response) (\<lambda>dg. Inr (st, dg))))
       (\<lambda>e. if is_attribute_error e then Inl own_os_error else Inl e)) (\<lambda>(st, dg).
     case st of
       PInt n \<Rightarrow> if n < 100 \<or> n > 599 then Inl own_os_error
         else bind_r (try_r (require_sha256 dg) (\<lambda>e. if is_driver_error e then Inl own_os_error else Inl e)) (\<lambda>d.
           Inr (n, d))
     | _ \<Rightarrow> Inl own_os_error)"

definition closed_body :: "Response \<Rightarrow> unit res" where
  "closed_body response =
     bind_r (rp_body response) (\<lambda>body.
     if (case body of PBytes bs \<Rightarrow> length bs > MAX_RESPONSE_BODY_BYTES | _ \<Rightarrow> True) then Inl own_os_error
     else if rp_length response \<noteq> PNone \<and> rp_length response \<noteq> PInt 0 then Inl own_os_error
     else Inr ())"

definition transport_error :: "pyexc \<Rightarrow> bool" where
  "transport_error e \<longleftrightarrow> is_os_error e \<or> e = HTTPException"

text \<open>A step of the exchange whose transport errors become the failure record of its stage.\<close>

definition stage_step ::
    "nat \<Rightarrow> nat \<Rightarrow> DriverEnv \<Rightarrow> pstr \<Rightarrow> string \<Rightarrow> int \<Rightarrow> int \<Rightarrow> 'a res \<Rightarrow> ('a \<Rightarrow> pydict res) \<Rightarrow> pydict res" where
  "stage_step frames limit env t stage connect send m next_step = (case m of
     Inl e \<Rightarrow> if transport_error e then transport_failure frames limit env t stage e connect send else Inl e
   | Inr x \<Rightarrow> next_step x)"

text \<open>The exchange, from its end: the record of success, the body, the headers, the request.\<close>

definition complete_record :: "nat \<Rightarrow> nat \<Rightarrow> DriverEnv \<Rightarrow> pstr \<Rightarrow> int \<Rightarrow> int \<Rightarrow> int \<Rightarrow> pstr \<Rightarrow> pydict res" where
  "complete_record frames limit env t connect send status digest =
     bind_r (de_clock env 3) (\<lambda>receive.
     validated_record frames limit (dict_of
       [(''schema_version'', str ''kil.v3b1-driver-result.v1''), (''track'', PStr t), (''status'', str ''complete''),
        (''connect_monotonic_ns'', PInt connect), (''send_monotonic_ns'', PInt send),
        (''receive_monotonic_ns'', PInt receive), (''response_status'', PInt status),
        (''decision_digest'', PStr digest), (''attempt_count'', PInt 1), (''retry_performed'', PBool False)])
       (PStr t))"

definition receive_body ::
    "nat \<Rightarrow> nat \<Rightarrow> DriverEnv \<Rightarrow> pstr \<Rightarrow> int \<Rightarrow> int \<Rightarrow> Response \<Rightarrow> int \<Rightarrow> pstr \<Rightarrow> pydict res" where
  "receive_body frames limit env t connect send response status digest =
     stage_step frames limit env t ''response_body'' connect send (closed_body response)
       (\<lambda>_. complete_record frames limit env t connect send status digest)"

definition receive_response :: "nat \<Rightarrow> nat \<Rightarrow> DriverEnv \<Rightarrow> pstr \<Rightarrow> int \<Rightarrow> int \<Rightarrow> pydict res" where
  "receive_response frames limit env t connect send =
     stage_step frames limit env t ''response_headers'' connect send
       (bind_r (de_response env) (\<lambda>response. bind_r (closed_response_facts response) (\<lambda>facts. Inr (response, facts))))
       (\<lambda>(response, status, digest). receive_body frames limit env t connect send response status digest)"

definition perform_one_request :: "nat \<Rightarrow> nat \<Rightarrow> DriverEnv \<Rightarrow> pydict \<Rightarrow> int \<Rightarrow> pydict io" where
  "perform_one_request frames limit env instruction connect =
     bind_io (quiet (bind_r (dict_item instruction ''track'') require_track)) (\<lambda>t.
     bind_io (quiet (de_clock env 2)) (\<lambda>send.
     bind_io (quiet (bind_r (dict_item instruction ''method'') (\<lambda>mth.
         bind_r (dict_item instruction ''path'') (\<lambda>path.
         bind_r (dict_item instruction ''headers'') (\<lambda>headers. Inr (mth, path, headers)))))) (\<lambda>(mth, path, headers).
     (stage_step frames limit env t ''request_send'' connect send (de_request env)
        (\<lambda>_. receive_response frames limit env t connect send),
      [Requested mth path headers]))))"

subsection \<open>The driver\<close>

text \<open>Reading the instruction: an exit code, or the instruction to carry out.\<close>

definition next_instruction :: "nat \<Rightarrow> DriverEnv \<Rightarrow> pstr \<Rightarrow> (int + pydict) res" where
  "next_instruction limit env t =
     bind_r (read_bounded_single_line (de_stdin env) MAX_INSTRUCTION_BYTES) (\<lambda>raw.
       case raw of None \<Rightarrow> Inr (Inl 0)
       | Some payload \<Rightarrow> bind_r (parse_instruction limit payload (PStr t)) (\<lambda>d. Inr (Inr d)))"

definition read_instruction :: "nat \<Rightarrow> DriverEnv \<Rightarrow> pstr \<Rightarrow> (int + pydict) io" where
  "read_instruction limit env t =
     (try_r (next_instruction limit env t) (\<lambda>e. if is_driver_error e then Inr (Inl 1) else Inl e), [ReadInput])"

definition driver_session :: "nat \<Rightarrow> nat \<Rightarrow> DriverEnv \<Rightarrow> pstr \<Rightarrow> int \<Rightarrow> int io" where
  "driver_session frames limit env t connect =
     bind_io (de_connect env, [Connecting]) (\<lambda>_.
     bind_io (quiet (de_clock env 1)) (\<lambda>ready.
     bind_io (quiet (readiness_record frames limit (PStr t) connect ready)) (\<lambda>record.
     bind_io (write_canonical_record env 0 record) (\<lambda>_.
     bind_io (read_instruction limit env t) (\<lambda>instruction.
     case instruction of
       Inl code \<Rightarrow> quiet (Inr code)
     | Inr d \<Rightarrow>
         bind_io (perform_one_request frames limit env d connect) (\<lambda>result.
         bind_io (write_canonical_record env 1 result) (\<lambda>_.
         quiet (bind_r (dict_item result ''status'') (\<lambda>st. Inr (if st = str ''complete'' then 0 else 1))))))))))"

definition execute_driver :: "nat \<Rightarrow> nat \<Rightarrow> DriverEnv \<Rightarrow> pyval \<Rightarrow> int io" where
  "execute_driver frames limit env trk =
     (case require_track trk of
        Inl _ \<Rightarrow> (Inr 1, [])
      | Inr t \<Rightarrow>
          bind_io (quiet (de_clock env 0)) (\<lambda>connect.
          case bind_io (quiet (de_factory env)) (\<lambda>_. driver_session frames limit env t connect) of
            (r, evs) \<Rightarrow>
              (try_r r (\<lambda>e. if is_driver_error e \<or> transport_error e then Inr 1 else Inl e),
               evs @ (if is_ok (de_factory env) then [Closed] else []))))"

definition parse_main_arguments :: "pstr list \<Rightarrow> pstr option" where
  "parse_main_arguments argv = (case argv of
     [a, t, b, endpoint] \<Rightarrow>
       if a \<noteq> u ''--track'' \<or> b \<noteq> u ''--endpoint'' \<or> endpoint \<noteq> u ''envoy:8080'' then None
       else (case require_track (PStr t) of Inl _ \<Rightarrow> None | Inr s \<Rightarrow> Some s)
   | _ \<Rightarrow> None)"

definition driver_main :: "nat \<Rightarrow> nat \<Rightarrow> DriverEnv \<Rightarrow> pstr list \<Rightarrow> int \<times> DriverEvent list" where
  "driver_main frames limit env argv = (case parse_main_arguments argv of
     None \<Rightarrow> (2, [])
   | Some t \<Rightarrow> (case execute_driver frames limit env (PStr t) of
       (Inl _, evs) \<Rightarrow> (1, evs) | (Inr n, evs) \<Rightarrow> (n, evs)))"

end
