(* ===== verification/KilDriverRun.thy ===== *)
theory KilDriverRun
  imports KilRequestDriver
begin

text \<open>
  The request driver as a protocol. An abstract machine says which events may follow which:
  connect, write the line of a readiness record in pieces, read, make the one request, write
  the line of one result in pieces. Every run of the driver is a run of the machine, whatever
  the environment does; and where clock, streams and records work, the outcome of the
  exchange is reported.
\<close>

subsection \<open>The abstract machine\<close>

fun stdout_of :: "DriverEvent list \<Rightarrow> bytes" where
  "stdout_of [] = []"
| "stdout_of (Wrote bs # evs) = bs @ stdout_of evs"
| "stdout_of (_ # evs) = stdout_of evs"

fun is_request :: "DriverEvent \<Rightarrow> bool" where
  "is_request (Requested _ _ _) = True"
| "is_request _ = False"

datatype phase =
    Idle
  | Announcing bytes
  | Waiting
  | Reporting DriverResult bytes
  | Finished

fun readiness :: "DriverResult \<Rightarrow> bool" where
  "readiness (Readiness _ _ _) = True"
| "readiness _ = False"

fun exchange_result :: "DriverResult \<Rightarrow> bool" where
  "exchange_result (Complete _ _ _ _ _ _) = True"
| "exchange_result (TransportFailure _ _ _ _ _ _ _ _) = True"
| "exchange_result _ = False"

definition lab_request :: "nat \<Rightarrow> pstr \<Rightarrow> DriverEvent \<Rightarrow> bool" where
  "lab_request limit t e \<longleftrightarrow> (\<exists>auth run q.
     e = Requested (str ''POST'') (str ''/consequential/admin'') (PDict (instruction_header_items auth run q))
     \<and> authorization_text auth \<and> run_id_text run
     \<and> (case q of None \<Rightarrow> t = baseline_track
        | Some s \<Rightarrow> t \<noteq> baseline_track \<and> looks_like_compact_jws limit s = Inr True))"

inductive protocol_step :: "nat \<Rightarrow> pstr \<Rightarrow> phase \<Rightarrow> DriverEvent \<Rightarrow> phase \<Rightarrow> bool" for limit t where
  connect: "wf_result r \<Longrightarrow> result_track r = t \<Longrightarrow> readiness r \<Longrightarrow>
     protocol_step limit t Idle Connecting (Announcing (result_line r))"
| announce: "bs \<noteq> [] \<Longrightarrow> protocol_step limit t (Announcing (bs @ rest)) (Wrote bs) (Announcing rest)"
| read: "protocol_step limit t (Announcing []) ReadInput Waiting"
| request: "lab_request limit t e \<Longrightarrow> wf_result r \<Longrightarrow> result_track r = t \<Longrightarrow> exchange_result r \<Longrightarrow>
     protocol_step limit t Waiting e (Reporting r (result_line r))"
| report: "bs \<noteq> [] \<Longrightarrow> protocol_step limit t (Reporting r (bs @ rest)) (Wrote bs) (Reporting r rest)"
| close: "ph \<noteq> Idle \<Longrightarrow> ph \<noteq> Finished \<Longrightarrow> protocol_step limit t ph Closed Finished"

inductive protocol_run :: "nat \<Rightarrow> pstr \<Rightarrow> phase \<Rightarrow> DriverEvent list \<Rightarrow> phase \<Rightarrow> bool" for limit t where
  stop: "protocol_run limit t ph [] ph"
| step: "protocol_step limit t ph e ph1 \<Longrightarrow> protocol_run limit t ph1 evs ph2 \<Longrightarrow>
     protocol_run limit t ph (e # evs) ph2"

inductive_simps protocol_run_simps [simp]:
  "protocol_run limit t ph [] ph2"
  "protocol_run limit t ph (e # evs) ph2"

inductive_cases from_idle: "protocol_step limit t Idle e ph"
inductive_cases from_announcing: "protocol_step limit t (Announcing bs) e ph"
inductive_cases from_waiting: "protocol_step limit t Waiting e ph"
inductive_cases from_reporting: "protocol_step limit t (Reporting r bs) e ph"
inductive_cases from_finished: "protocol_step limit t Finished e ph"

lemmas from_phase = from_idle from_announcing from_waiting from_reporting from_finished

lemma protocol_run_append:
  "protocol_run limit t ph evs ph1 \<Longrightarrow> protocol_run limit t ph1 evs' ph2 \<Longrightarrow> protocol_run limit t ph (evs @ evs') ph2"
  by (induction rule: protocol_run.induct) auto

text \<open>
  The phases are ordered by the progress of the driver, and every step is progress: the
  machine cannot come back to where it was.
\<close>

fun phase_line :: "phase \<Rightarrow> bytes" where
  "phase_line (Announcing bs) = bs"
| "phase_line (Reporting _ bs) = bs"
| "phase_line _ = []"

fun phase_place :: "phase \<Rightarrow> nat" where
  "phase_place Idle = 0"
| "phase_place (Announcing _) = 1"
| "phase_place Waiting = 2"
| "phase_place (Reporting _ _) = 3"
| "phase_place Finished = 4"

instantiation phase :: preorder
begin

definition less_eq_phase :: "phase \<Rightarrow> phase \<Rightarrow> bool" where
  "less_eq_phase ph ph' \<longleftrightarrow> phase_place ph < phase_place ph'
     \<or> (phase_place ph = phase_place ph' \<and> length (phase_line ph') \<le> length (phase_line ph))"

definition less_phase :: "phase \<Rightarrow> phase \<Rightarrow> bool" where
  "less_phase ph ph' \<longleftrightarrow> phase_place ph < phase_place ph'
     \<or> (phase_place ph = phase_place ph' \<and> length (phase_line ph') < length (phase_line ph))"

instance
  by standard (auto simp: less_eq_phase_def less_phase_def)

end

lemma phase_place_less: "ph \<noteq> Finished \<Longrightarrow> phase_place ph < phase_place Finished"
  by (cases ph) simp_all

lemma protocol_step_progress: "protocol_step limit t ph e ph' \<Longrightarrow> ph < ph'"
  by (induction rule: protocol_step.induct) (auto simp: less_phase_def dest: phase_place_less)

lemma protocol_run_progress: "protocol_run limit t ph evs ph' \<Longrightarrow> ph \<le> ph'"
  by (induction rule: protocol_run.induct) (auto dest: protocol_step_progress less_imp_le intro: order_trans)

lemma lab_request_is_request: "lab_request limit t e \<Longrightarrow> is_request e"
  by (auto simp: lab_request_def)

lemma stdout_request: "is_request e \<Longrightarrow> stdout_of (e # evs) = stdout_of evs"
  by (cases e) simp_all

lemma stdout_append [simp]: "stdout_of (evs @ evs') = stdout_of evs @ stdout_of evs'"
  by (induction evs rule: stdout_of.induct) simp_all

lemma run_from_finished: "protocol_run limit t Finished evs ph \<Longrightarrow> evs = [] \<and> ph = Finished"
  by (cases evs) (auto elim: from_finished)

lemma run_from_reporting:
  "protocol_run limit t (Reporting r bs) evs ph \<Longrightarrow>
     filter is_request evs = [] \<and> (\<exists>m. stdout_of evs = take m bs)
     \<and> (ph = Finished \<or> (\<exists>rest. ph = Reporting r rest \<and> bs = stdout_of evs @ rest))"
proof (induction evs arbitrary: bs)
  case Nil
  then show ?case by (auto intro: exI [of _ 0])
next
  case (Cons e evs)
  then obtain ph1 where p: "protocol_step limit t (Reporting r bs) e ph1" "protocol_run limit t ph1 evs ph" by auto
  from p(1) consider (wrote) ws rest where "e = Wrote ws" "bs = ws @ rest" "ph1 = Reporting r rest"
    | (closed) "e = Closed" "ph1 = Finished"
    by (auto elim: from_reporting)
  then show ?case
  proof cases
    case wrote
    with Cons.IH [of rest] p(2) obtain m where m: "filter is_request evs = []" "stdout_of evs = take m rest"
      "ph = Finished \<or> (\<exists>rest'. ph = Reporting r rest' \<and> rest = stdout_of evs @ rest')" by auto
    have "\<exists>m. stdout_of (e # evs) = take m bs" by (rule exI [of _ "length ws + m"]) (use wrote m(2) in simp)
    with m(1,3) wrote show ?thesis by (auto simp del: take_append)
  next
    case closed
    with p(2) show ?thesis by (auto dest: run_from_finished intro: exI [of _ 0])
  qed
qed

lemma run_from_waiting:
  assumes "protocol_run limit t Waiting evs ph"
  shows "(evs = [] \<and> ph = Waiting) \<or> (evs = [Closed] \<and> ph = Finished)
    \<or> (\<exists>e evs' r. evs = e # evs' \<and> lab_request limit t e \<and> wf_result r \<and> result_track r = t \<and> exchange_result r
        \<and> protocol_run limit t (Reporting r (result_line r)) evs' ph)"
proof (cases evs)
  case (Cons e evs')
  with assms obtain ph1 where p: "protocol_step limit t Waiting e ph1" "protocol_run limit t ph1 evs' ph" by auto
  from p(1) show ?thesis
    by (rule from_waiting) (use p(2) Cons in \<open>auto dest: run_from_finished\<close>)
qed (use assms in simp)

lemma run_from_announcing:
  "protocol_run limit t (Announcing bs) evs ph \<Longrightarrow>
     (filter is_request evs = [] \<and> (\<exists>m. stdout_of evs = take m bs))
     \<or> (\<exists>ws evs'. evs = ws @ ReadInput # evs' \<and> filter is_request ws = [] \<and> stdout_of ws = bs
         \<and> protocol_run limit t Waiting evs' ph)"
proof (induction evs arbitrary: bs)
  case Nil
  then show ?case by (auto intro: exI [of _ 0])
next
  case (Cons e evs)
  then obtain ph1 where p: "protocol_step limit t (Announcing bs) e ph1" "protocol_run limit t ph1 evs ph" by auto
  from p(1) consider (wrote) ws rest where "e = Wrote ws" "bs = ws @ rest" "ph1 = Announcing rest"
    | (input) "e = ReadInput" "bs = []" "ph1 = Waiting" | (closed) "e = Closed" "ph1 = Finished"
    by (auto elim: from_announcing)
  then show ?case
  proof cases
    case wrote
    with Cons.IH [of rest] p(2)
    consider (early) m where "filter is_request evs = []" "stdout_of evs = take m rest"
      | (late) ws' evs' where "evs = ws' @ ReadInput # evs'" "filter is_request ws' = []" "stdout_of ws' = rest"
          "protocol_run limit t Waiting evs' ph"
      by blast
    then show ?thesis
    proof cases
      case early
      have "\<exists>m. stdout_of (e # evs) = take m bs" by (rule exI [of _ "length ws + m"]) (use wrote early(2) in simp)
      with early(1) wrote show ?thesis by (auto simp del: take_append)
    next
      case late
      with wrote show ?thesis by (intro disjI2 exI [of _ "e # ws'"] exI [of _ evs']) simp
    qed
  next
    case input
    with p(2) show ?thesis by (intro disjI2 exI [of _ "[]"] exI [of _ evs]) simp
  next
    case closed
    with p(2) show ?thesis by (auto dest: run_from_finished intro: exI [of _ 0])
  qed
qed

text \<open>
  What the machine promises of a whole run: without a request the output is a prefix of one
  readiness line; with one it is made once, after the whole readiness line and after
  reading, and what follows is a prefix of the line of one result.
\<close>

definition unasked :: "pstr \<Rightarrow> DriverEvent list \<Rightarrow> bool" where
  "unasked t evs \<longleftrightarrow> filter is_request evs = []
     \<and> (\<exists>r0 m. wf_result r0 \<and> result_track r0 = t \<and> readiness r0 \<and> stdout_of evs = take m (result_line r0))"

definition asked_once :: "nat \<Rightarrow> pstr \<Rightarrow> DriverEvent list \<Rightarrow> bool" where
  "asked_once limit t evs \<longleftrightarrow> (\<exists>before e after r0 r1 m. evs = before @ e # after \<and> lab_request limit t e
     \<and> filter is_request (before @ after) = [] \<and> ReadInput \<in> set before
     \<and> wf_result r0 \<and> result_track r0 = t \<and> readiness r0 \<and> stdout_of before = result_line r0
     \<and> wf_result r1 \<and> result_track r1 = t \<and> exchange_result r1 \<and> stdout_of after = take m (result_line r1))"

lemma protocol_promises:
  assumes "protocol_run limit t Idle evs ph" "driver_track t"
  shows "unasked t evs \<or> asked_once limit t evs"
proof (cases evs)
  case Nil
  have "wf_result (Readiness t 0 0)" using assms(2) by (simp add: small_clock_value)
  then show ?thesis
    using Nil by (intro disjI1) (auto simp: unasked_def intro!: exI [of _ "Readiness t 0 0"] exI [of _ 0])
next
  case (Cons e evs')
  with assms obtain ph1 where p: "protocol_step limit t Idle e ph1" "protocol_run limit t ph1 evs' ph" by auto
  from p(1) obtain r0 where r0: "e = Connecting" "wf_result r0" "result_track r0 = t" "readiness r0"
    "ph1 = Announcing (result_line r0)"
    by (auto elim: from_idle)
  from run_from_announcing [OF p(2) [unfolded r0(5)]]
  consider (early) m where "filter is_request evs' = []" "stdout_of evs' = take m (result_line r0)"
    | (late) ws rest where "evs' = ws @ ReadInput # rest" "filter is_request ws = []" "stdout_of ws = result_line r0"
        "protocol_run limit t Waiting rest ph"
    by blast
  then show ?thesis
  proof cases
    case early
    with r0 Cons show ?thesis by (auto simp: unasked_def)
  next
    case late
    from run_from_waiting [OF late(4)]
    consider (none) "filter is_request rest = []" "stdout_of rest = []"
      | (one) e' post r1 where "rest = e' # post" "lab_request limit t e'" "wf_result r1" "result_track r1 = t"
          "exchange_result r1" "protocol_run limit t (Reporting r1 (result_line r1)) post ph"
      by auto
    then show ?thesis
    proof cases
      case none
      have "stdout_of evs = take (length (result_line r0)) (result_line r0)" using none late r0(1) Cons by simp
      with none late r0 Cons have "unasked t evs" unfolding unasked_def
        by (intro conjI exI [of _ r0] exI [of _ "length (result_line r0)"]) simp_all
      then show ?thesis ..
    next
      case one
      obtain m where m: "filter is_request post = []" "stdout_of post = take m (result_line r1)"
        using run_from_reporting [OF one(6)] by blast
      have "asked_once limit t evs"
        unfolding asked_once_def
        by (rule exI [of _ "Connecting # ws @ [ReadInput]"], rule exI [of _ e'], rule exI [of _ post],
            rule exI [of _ r0], rule exI [of _ r1], rule exI [of _ m])
          (use m one late r0 Cons in simp)
      then show ?thesis ..
    qed
  qed
qed

subsection \<open>The driver runs the machine\<close>

text \<open>
  Writing a record: in a phase that holds a line and lets its pieces be written, what is
  written is a run, and the whole line if nothing fails.
\<close>

locale line_phase =
  fixes limit :: nat and t :: pstr and F :: "bytes \<Rightarrow> phase"
  assumes writes: "bs \<noteq> [] \<Longrightarrow> protocol_step limit t (F (bs @ rest)) (Wrote bs) (F rest)"
begin

lemma write_chunks_run:
  "write_chunks w k payload offset = (r, evs) \<Longrightarrow>
    \<exists>rest. protocol_run limit t (F (drop offset payload)) evs (F rest) \<and> (r = Inr () \<longrightarrow> rest = [])"
proof (induction w k payload offset arbitrary: r evs rule: write_chunks.induct)
  case (1 w k payload offset)
  show ?case
  proof (cases "offset < length payload \<and> (\<exists>n. w k (length payload - offset) = Inr (PInt n) \<and> 0 < n \<and> n \<le> int (length payload - offset))")
    case True
    then obtain n where n: "offset < length payload" "w k (length payload - offset) = Inr (PInt n)" "0 < n"
      "n \<le> int (length payload - offset)" by blast
    obtain r' evs' where w: "write_chunks w (Suc k) payload (offset + nat n) = (r', evs')" by fastforce
    have e: "r = r'" "evs = Wrote (take (nat n) (drop offset payload)) # evs'"
      using "1.prems" n w by (subst (asm) write_chunks.simps, simp)+
    have range: "\<not> (n \<le> 0 \<or> int (length payload - offset) < n)" using n(3,4) by linarith
    obtain rest where rest: "protocol_run limit t (F (drop (offset + nat n) payload)) evs' (F rest)"
      "r' = Inr () \<longrightarrow> rest = []"
      using "1.IH" [OF n(1,2) refl range w] by auto
    have "take (nat n) (drop offset payload) \<noteq> []" using n(1,3) by simp
    from writes [OF this, of "drop (nat n) (drop offset payload)"]
    have "protocol_step limit t (F (drop offset payload)) (Wrote (take (nat n) (drop offset payload)))
        (F (drop (offset + nat n) payload))"
      by (simp only: append_take_drop_id) (simp add: add.commute)
    with rest e show ?thesis by (intro exI [of _ rest]) auto
  next
    case False
    then have "evs = [] \<and> (r = Inr () \<longrightarrow> drop offset payload = [])"
      using "1.prems" by (subst (asm) write_chunks.simps) (auto split: if_splits sum.splits pyval.splits)
    then show ?thesis by auto
  qed
qed

lemma write_record_run:
  assumes "write_canonical_record env i (result_items r) = (res, evs)" "wf_result r"
  shows "\<exists>rest. protocol_run limit t (F (result_line r)) evs (F rest) \<and> (res = Inr () \<longrightarrow> rest = [])"
proof -
  have "length (result_line r) \<le> MAX_RESULT_BYTES"
    using result_line_length(1) [OF assms(2)] by (simp add: MAX_RESULT_BYTES_def)
  then obtain res' evs' where w: "write_chunks (de_write env i) 0 (result_line r) 0 = (res', evs')"
    "evs = evs'" "res = Inr () \<longrightarrow> res' = Inr ()"
    using assms(1)
    by (cases "write_chunks (de_write env i) 0 (result_line r) 0")
      (auto simp: write_canonical_record_def canonical_result_line [OF assms(2)] bind_io_def quiet_def split: sum.splits)
  from write_chunks_run [OF w(1)] w(2,3) show ?thesis by auto
qed

end

text \<open>Both lines of the driver are written so.\<close>

interpretation announcing: line_phase limit t Announcing for limit t
  by unfold_locales (rule protocol_step.announce)

interpretation reporting: line_phase limit t "Reporting r" for limit t r
  by unfold_locales (rule protocol_step.report)

text \<open>A record that is read back is the one that was written.\<close>

lemma list_all2_set_left: "list_all2 P xs ys \<Longrightarrow> x \<in> set xs \<Longrightarrow> \<exists>y \<in> set ys. P x y"
  by (induction xs ys rule: list_all2_induct) auto

lemma length_sort_items: "length (sort_items kvs) = length kvs"
  by (simp add: sort_items_def)

definition open_value :: "pyval \<Rightarrow> bool" where
  "open_value v \<longleftrightarrow> result_value v \<or> (\<exists>n. v = PInt n)"

lemma canonical_json_open:
  assumes "canonical_json (PDict kvs) = Inr s" "length kvs < 90" "distinct (map fst kvs)"
    and "\<forall>kv \<in> set kvs. fst kv \<in> str ` set RESULT_KEYS \<and> open_value (snd kv)"
  shows "flat_fields (sort_items kvs)"
proof -
  have len: "length (sort_items kvs) < 90" using assms(2) by (simp add: sort_items_def)
  obtain n j where n: "normalize_value (PDict kvs) 0 0 = Inr (n, j)"
    using assms(1) by (auto simp: canonical_json_def)
  then obtain ns where "map_state_r (\<lambda>kv i. on_fst (Pair (fst kv)) (normalize_value (snd kv) 1 i)) (sort_items kvs) 1 = Inr (ns, j)"
    by (subst (asm) normalize_value.simps) (auto simp: on_fst_def bind_r_eq_Inr split: if_splits)
  from map_state_r_Inr [OF this]
  have all: "list_all2 (\<lambda>kv y. \<exists>i j. on_fst (Pair (fst kv)) (normalize_value (snd kv) 1 i) = Inr (y, j)) (sort_items kvs) ns" .
  have "flat_value (snd kv)" if kv: "kv \<in> set (sort_items kvs)" for kv
  proof -
    obtain i y j where ok: "normalize_value (snd kv) 1 i = Inr (y, j)"
      using list_all2_set_left [OF all kv] by (auto simp: on_fst_Inr)
    have "open_value (snd kv)" using assms(4) kv by simp
    then consider "result_value (snd kv)" | m where "snd kv = PInt m" by (auto simp: open_value_def)
    then show ?thesis
    proof cases
      case 2
      with ok show ?thesis
        by (subst (asm) normalize_value.simps) (auto split: if_splits)
    qed (rule result_value_facts(1))
  qed
  then show ?thesis
    using len assms(3,4) result_key_facts(1) by (auto simp: flat_fields_def list_all_iff)
qed

lemma validated_record_Inr:
  assumes "validated_record frames limit (PDict kvs) (PStr t) = Inr d" "66 \<le> limit"
    and "length kvs < 90" "distinct (map fst kvs)"
    and "\<forall>kv \<in> set kvs. fst kv \<in> str ` set RESULT_KEYS \<and> open_value (snd kv)"
  shows "d = sort_items kvs \<and> (\<exists>r. wf_result r \<and> result_track r = t \<and> d = result_items r)"
proof -
  obtain p where p: "canonical_record (PDict kvs) = Inr p" "parse_result frames limit p (PStr t) = Inr d"
    using assms(1) by (auto simp: validated_record_def)
  then obtain s where s: "canonical_json (PDict kvs) = Inr s" "utf8_encode (s @ [10]) = Inr p"
    by (auto simp: canonical_record_def record_bytes_def try_r_eq_Inr split: if_splits)
  have flat: "flat_fields (sort_items kvs)" by (rule canonical_json_open [OF s(1) assms(3-5)])
  then have "s = dump_text (PDict (sort_items kvs))" using flat_canonical_json_sorted [OF flat refl] s(1) by simp
  moreover obtain r where r: "wf_result r" "result_track r = t" "d = result_items r" "p = result_line r"
    using parse_result_Inr [OF p(2) assms(2)] by blast
  ultimately have "dump_text (PDict (sort_items kvs)) @ [10] = dump_text (PDict (result_items r)) @ [10]"
    using utf8_encode_inj [OF s(2)] utf8_flat_line [OF flat_result [OF r(1)]] by (simp add: result_line_def)
  then have "dump_text (PDict (sort_items kvs)) = dump_text (PDict (result_items r))" by simp
  then have "PDict (sort_items kvs) = PDict (result_items r)"
    using dump_text_inj flat_canonical [OF flat] flat_canonical [OF flat_result [OF r(1)]] by blast
  with r show ?thesis by auto
qed

lemma validated_record_result:
  assumes "wf_result r" "sort_items kvs = result_items r" "1 \<le> limit" "2 \<le> frames"
  shows "validated_record frames limit (PDict kvs) (PStr (result_track r)) = Inr (result_items r)"
proof -
  have "canonical_record (PDict kvs) = Inr (result_line r)"
    by (simp only: canonical_record_def record_bytes_def flat_canonical_json_sorted [OF flat_result [OF assms(1)] assms(2)]
        bind_r_Inr utf8_flat_line [OF flat_result [OF assms(1)]] try_r_Inr result_line_def)
  then show ?thesis by (simp add: validated_record_def parse_result_line [OF assms(1,3,4)])
qed

lemma dict_of_Cons: "dict_of kvs = PDict (map (\<lambda>(k, v). (str k, v)) kvs)"
  by (rule dict_of_def)

lemma open_values:
  "result_value v \<Longrightarrow> open_value v" "open_value (PInt n)"
  by (simp_all add: open_value_def)

lemma readiness_record_Inr:
  assumes "readiness_record frames limit (PStr t) connect ready = Inr d" "66 \<le> limit"
  shows "\<exists>r. wf_result r \<and> result_track r = t \<and> readiness r \<and> d = result_items r"
proof -
  let ?kvs = "[(str ''schema_version'', str ''kil.v3b1-driver-readiness.v1''), (str ''track'', PStr t),
    (str ''status'', str ''ready''), (str ''connect_monotonic_ns'', PInt connect), (str ''ready_monotonic_ns'', PInt ready)]"
  have v: "driver_track t" "validated_record frames limit (PDict ?kvs) (PStr t) = Inr d"
    using assms(1) by (auto simp: readiness_record_def require_Inr dict_of_def)
  have "d = sort_items ?kvs \<and> (\<exists>r. wf_result r \<and> result_track r = t \<and> d = result_items r)"
    by (rule validated_record_Inr [OF v(2) assms(2)])
      (use v(1) in \<open>auto simp: RESULT_KEYS_def open_values result_value_intros result_constants\<close>)
  then obtain r where r: "wf_result r" "result_track r = t" "d = result_items r" "d = sort_items ?kvs" by blast
  then have "length (result_items r) = length ?kvs" by (metis length_sort_items)
  then have "readiness r" by (cases r) simp_all
  with r show ?thesis by blast
qed

lemma exception_class_known: "exception_class derives e \<in> set EXCEPTION_CLASSES"
proof -
  have sub: "set CHECKED_CLASSES \<subseteq> set EXCEPTION_CLASSES" by (simp add: CHECKED_CLASSES_def EXCEPTION_CLASSES_def)
  have os: "''OSError'' \<in> set EXCEPTION_CLASSES" by (simp add: EXCEPTION_CLASSES_def)
  have found: "find P xs = Some c \<Longrightarrow> c \<in> set xs" for P c and xs :: "string list"
    by (auto simp: find_Some_iff)
  show ?thesis
  proof (cases "error_name e \<in> set CHECKED_CLASSES")
    case True
    then show ?thesis using sub by (auto simp: exception_class_def)
  next
    case False
    then show ?thesis
      using sub os found by (cases "find (derives (error_name e)) CHECKED_CLASSES") (auto simp: exception_class_def)
  qed
qed

lemma linux_errno_known: "linux_errno e = Some (n, s) \<Longrightarrow> map_of LINUX_ERRNO_NAMES n = Some s"
  by (auto simp: linux_errno_def split: pyexc.splits option.splits)

lemma transport_failure_Inr:
  assumes "transport_failure frames limit env t stage e connect send = Inr d" "66 \<le> limit"
    and "driver_track t" "stage \<in> set TRANSPORT_STAGES"
  shows "\<exists>r. wf_result r \<and> result_track r = t \<and> exchange_result r \<and> d = result_items r
    \<and> dict_get d ''status'' = Some (str ''transport_failure'')"
proof -
  obtain failure where f: "de_clock env 3 = Inr failure" using assms(1) by (auto simp: transport_failure_def)
  define kvs where "kvs = [(str ''schema_version'', str ''kil.v3b1-driver-result.v1''), (str ''track'', PStr t),
     (str ''status'', str ''transport_failure''), (str ''stage'', str stage),
     (str ''exception_class'', str (exception_class (de_derives env) e)),
     (str ''errno'', case linux_errno e of None \<Rightarrow> PNone | Some (n, _) \<Rightarrow> PInt n),
     (str ''errno_name'', case linux_errno e of None \<Rightarrow> PNone | Some (_, s) \<Rightarrow> str s),
     (str ''connect_monotonic_ns'', PInt connect), (str ''send_monotonic_ns'', PInt send),
     (str ''failure_monotonic_ns'', PInt failure), (str ''request_bytes_may_have_been_sent'', PBool True),
     (str ''attempt_count'', PInt 1), (str ''retry_performed'', PBool False)]"
  have v: "validated_record frames limit (PDict kvs) (PStr t) = Inr d"
    using assms(1) f by (simp add: transport_failure_def dict_of_def kvs_def)
  have "\<forall>kv \<in> set kvs. fst kv \<in> str ` set RESULT_KEYS \<and> open_value (snd kv)"
    using assms(3,4) exception_class_known [of "de_derives env" e] linux_errno_known [of e]
    by (auto simp: kvs_def RESULT_KEYS_def open_values result_value_intros result_constants result_texts split: option.splits)
  then have "d = sort_items kvs \<and> (\<exists>r. wf_result r \<and> result_track r = t \<and> d = result_items r)"
    by (intro validated_record_Inr [OF v assms(2)]) (simp_all add: kvs_def)
  then obtain r where r: "wf_result r" "result_track r = t" "d = result_items r" "d = sort_items kvs" by blast
  then have "length (result_items r) = length kvs" by (metis length_sort_items)
  then have "exchange_result r \<and> dict_get d ''status'' = Some (str ''transport_failure'')"
    unfolding r(3) by (cases r) (simp_all add: kvs_def dict_get_def)
  with r show ?thesis by blast
qed

lemma complete_record_Inr:
  assumes "complete_record frames limit env t connect send status digest = Inr d" "66 \<le> limit"
    and "driver_track t" "hex64 digest"
  shows "\<exists>r. wf_result r \<and> result_track r = t \<and> exchange_result r \<and> d = result_items r
    \<and> dict_get d ''status'' = Some (str ''complete'')"
proof -
  obtain receive where f: "de_clock env 3 = Inr receive" using assms(1) by (auto simp: complete_record_def)
  define kvs where "kvs = [(str ''schema_version'', str ''kil.v3b1-driver-result.v1''), (str ''track'', PStr t),
     (str ''status'', str ''complete''), (str ''connect_monotonic_ns'', PInt connect),
     (str ''send_monotonic_ns'', PInt send), (str ''receive_monotonic_ns'', PInt receive),
     (str ''response_status'', PInt status), (str ''decision_digest'', PStr digest),
     (str ''attempt_count'', PInt 1), (str ''retry_performed'', PBool False)]"
  have v: "validated_record frames limit (PDict kvs) (PStr t) = Inr d"
    using assms(1) f by (simp add: complete_record_def dict_of_def kvs_def)
  have "\<forall>kv \<in> set kvs. fst kv \<in> str ` set RESULT_KEYS \<and> open_value (snd kv)"
    using assms(3,4)
    by (auto simp: kvs_def RESULT_KEYS_def open_values result_value_intros result_constants)
  then have "d = sort_items kvs \<and> (\<exists>r. wf_result r \<and> result_track r = t \<and> d = result_items r)"
    by (intro validated_record_Inr [OF v assms(2)]) (simp_all add: kvs_def)
  then obtain r where r: "wf_result r" "result_track r = t" "d = result_items r" "d = sort_items kvs" by blast
  then have "length (result_items r) = length kvs" by (metis length_sort_items)
  then have "exchange_result r \<and> dict_get d ''status'' = Some (str ''complete'')"
    unfolding r(3) by (cases r) (simp_all add: kvs_def dict_get_def)
  with r show ?thesis by blast
qed

subsection \<open>The phases of a session\<close>

definition reported :: "pstr \<Rightarrow> pydict \<Rightarrow> bool" where
  "reported t d \<longleftrightarrow> dict_get d ''status'' \<in> {Some (str ''complete''), Some (str ''transport_failure'')}
     \<and> (\<exists>r. wf_result r \<and> result_track r = t \<and> exchange_result r \<and> d = result_items r)"

lemma stage_step_reported:
  assumes "stage_step frames limit env t stage connect send m next_step = Inr d" "66 \<le> limit" "driver_track t"
    and "stage \<in> set TRANSPORT_STAGES" "\<And>x. m = Inr x \<Longrightarrow> next_step x = Inr d \<Longrightarrow> reported t d"
  shows "reported t d"
proof (cases m)
  case (Inl e)
  with assms(1) have "transport_failure frames limit env t stage e connect send = Inr d"
    by (auto simp: stage_step_def split: if_splits)
  from transport_failure_Inr [OF this assms(2-4)] show ?thesis unfolding reported_def by blast
qed (use assms(1,5) in \<open>auto simp: stage_step_def\<close>)

lemma closed_response_facts_digest: "closed_response_facts response = Inr (st, dg) \<Longrightarrow> hex64 dg"
  by (auto simp: closed_response_facts_def try_r_eq_Inr require_Inr split: pyval.splits if_splits)

lemma receive_response_reported:
  assumes "receive_response frames limit env t connect send = Inr d" "66 \<le> limit" "driver_track t"
  shows "reported t d"
  using assms(1) unfolding receive_response_def
proof (rule stage_step_reported [OF _ assms(2,3)])
  show "''response_headers'' \<in> set TRANSPORT_STAGES" by (simp add: TRANSPORT_STAGES_def)
  fix x
  assume x: "bind_r (de_response env) (\<lambda>response. bind_r (closed_response_facts response) (\<lambda>facts. Inr (response, facts))) = Inr x"
    and "(case x of (response, status, digest) \<Rightarrow> receive_body frames limit env t connect send response status digest) = Inr d"
  moreover obtain response status digest where eq: "x = (response, status, digest)" by (cases x)
  ultimately have body: "receive_body frames limit env t connect send response status digest = Inr d"
    and "hex64 digest" using closed_response_facts_digest by auto
  from body show "reported t d" unfolding receive_body_def
  proof (rule stage_step_reported [OF _ assms(2,3)])
    assume "complete_record frames limit env t connect send status digest = Inr d"
    from complete_record_Inr [OF this assms(2,3) \<open>hex64 digest\<close>] show "reported t d"
      unfolding reported_def by blast
  qed (simp add: TRANSPORT_STAGES_def)
qed

lemma perform_one_request_cases:
  assumes "perform_one_request frames limit env (instruction_items t auth run q) connect = (res, evs)" "66 \<le> limit"
    and "driver_track t"
  shows "(evs = [] \<and> (\<exists>e. res = Inl e))
    \<or> (evs = [Requested (str ''POST'') (str ''/consequential/admin'') (PDict (instruction_header_items auth run q))]
       \<and> (\<forall>d. res = Inr d \<longrightarrow> reported t d))"
proof -
  have items: "dict_item (instruction_items t auth run q) ''track'' = Inr (PStr t)"
    "dict_item (instruction_items t auth run q) ''method'' = Inr (str ''POST'')"
    "dict_item (instruction_items t auth run q) ''path'' = Inr (str ''/consequential/admin'')"
    "dict_item (instruction_items t auth run q) ''headers'' = Inr (PDict (instruction_header_items auth run q))"
    by (simp_all add: instruction_items_def dict_item_def dict_get_def)
  have trk: "require_track (PStr t) = Inr t" using assms(3) by (simp add: require_Inr)
  show ?thesis
  proof (cases "de_clock env 2")
    case (Inl e)
    with assms(1) show ?thesis by (auto simp: perform_one_request_def bind_io_def quiet_def items trk)
  next
    case (Inr send)
    then have p: "res = stage_step frames limit env t ''request_send'' connect send (de_request env)
        (\<lambda>_. receive_response frames limit env t connect send)"
      "evs = [Requested (str ''POST'') (str ''/consequential/admin'') (PDict (instruction_header_items auth run q))]"
      using assms(1) by (auto simp: perform_one_request_def bind_io_def quiet_def items trk)
    have "reported t d" if "res = Inr d" for d
      by (rule stage_step_reported [OF p(1) [symmetric, unfolded that] assms(2,3)])
        (use receive_response_reported [OF _ assms(2,3)] in \<open>auto simp: TRANSPORT_STAGES_def\<close>)
    with p show ?thesis by blast
  qed
qed

lemma bind_ioE:
  assumes "bind_io m f = (r, evs)"
  obtains (raised) e where "m = (Inl e, evs)" "r = Inl e"
  | (went_on) x evs1 evs2 where "m = (Inr x, evs1)" "f x = (r, evs2)" "evs = evs1 @ evs2"
  using assms by (cases m; cases "fst m"; cases "f (projr (fst m))") (auto simp: bind_io_def)

lemma read_bounded_None: "read_bounded_single_line stdin n = Inr None \<Longrightarrow> stdin = Inr (PBytes [])"
  by (auto simp: read_bounded_single_line_def try_r_eq_Inr split: pyval.splits if_splits)

lemma read_instruction_cases:
  assumes "read_instruction limit env t = (r, evs)" "66 \<le> limit"
  shows "evs = [ReadInput] \<and> (case r of Inl _ \<Rightarrow> True
    | Inr (Inl code) \<Rightarrow> code = 1 \<or> (code = 0 \<and> de_stdin env = Inr (PBytes []))
    | Inr (Inr d) \<Rightarrow> \<exists>auth run q. d = instruction_items t auth run q \<and> driver_track t
        \<and> lab_request limit t (Requested (str ''POST'') (str ''/consequential/admin'') (PDict (instruction_header_items auth run q))))"
proof (cases "next_instruction limit env t")
  case (Inl e)
  with assms(1) have "r = (if is_driver_error e then Inr (Inl 1) else Inl e)" "evs = [ReadInput]"
    by (simp_all add: read_instruction_def)
  then show ?thesis by (cases "is_driver_error e") simp_all
next
  case (Inr x)
  then have r: "r = Inr x" "evs = [ReadInput]" using assms(1) by (auto simp: read_instruction_def)
  from Inr consider "x = Inl 0" "read_bounded_single_line (de_stdin env) MAX_INSTRUCTION_BYTES = Inr None" | payload d where "parse_instruction limit payload (PStr t) = Inr d" "x = Inr d"
    by (auto simp: next_instruction_def split: option.splits)
  then show ?thesis
  proof cases
    case 2
    from parse_instruction_Inr [OF this(1) assms(2)] obtain auth run q where
      i: "d = instruction_items t auth run q" "driver_track t" "authorization_text auth" "run_id_text run"
        "case q of None \<Rightarrow> t = baseline_track | Some s \<Rightarrow> t \<noteq> baseline_track \<and> looks_like_compact_jws limit s = Inr True"
      by blast
    then have "lab_request limit t (Requested (str ''POST'') (str ''/consequential/admin'') (PDict (instruction_header_items auth run q)))"
      unfolding lab_request_def by blast
    with i 2 r show ?thesis by auto
  next
    case 1
    with r read_bounded_None show ?thesis by simp
  qed
qed

text \<open>
  Where a run ends and with which exit code: 0 only where the input ended at once, or behind
  the whole line of a complete result.
\<close>

definition reached :: "DriverEnv \<Rightarrow> phase \<Rightarrow> int res \<Rightarrow> bool" where
  "reached env ph r \<longleftrightarrow> ph \<noteq> Idle \<and> ph \<noteq> Finished
     \<and> (\<forall>code. r = Inr code \<longrightarrow> code \<in> {0, 1}
          \<and> (code = 0 \<longrightarrow> (ph = Waiting \<and> de_stdin env = Inr (PBytes [])) \<or> (\<exists>r1. ph = Reporting r1 [] \<and> dict_get (result_items r1) ''status'' = Some (str ''complete''))))"

lemma reached_raised: "ph \<noteq> Idle \<Longrightarrow> ph \<noteq> Finished \<Longrightarrow> reached env ph (Inl e)"
  by (simp add: reached_def)

lemma exchange_session:
  assumes "bind_io (perform_one_request frames limit env (instruction_items t auth run q) connect) (\<lambda>result.
         bind_io (write_canonical_record env 1 result) (\<lambda>_.
         quiet (bind_r (dict_item result ''status'') (\<lambda>st. Inr (if st = str ''complete'' then 0 else 1))))) = (r, evs)"
    and "66 \<le> limit" "driver_track t"
    and "lab_request limit t (Requested (str ''POST'') (str ''/consequential/admin'') (PDict (instruction_header_items auth run q)))"
  shows "\<exists>ph. protocol_run limit t Waiting evs ph \<and> reached env ph r"
  using assms(1)
proof (cases rule: bind_ioE)
  case (raised e)
  from perform_one_request_cases [OF raised(1) assms(2,3)]
  consider "evs = []"
    | "evs = [Requested (str ''POST'') (str ''/consequential/admin'') (PDict (instruction_header_items auth run q))]"
    by blast
  then show ?thesis
  proof cases
    case 1
    with raised show ?thesis by (intro exI [of _ Waiting]) (simp add: reached_def)
  next
    case 2
    have "wf_result (TransportFailure t ''request_send'' ''OSError'' None 0 0 0 True)"
      using assms(3) by (simp add: small_clock_value TRANSPORT_STAGES_def EXCEPTION_CLASSES_def)
    from protocol_step.request [OF assms(4) this] 2 raised show ?thesis
      by (intro exI [of _ "Reporting _ _"]) (auto simp: reached_def)
  qed
next
  case (went_on d evs1 evs2)
  from perform_one_request_cases [OF went_on(1) assms(2,3)]
  obtain r1 where r1: "evs1 = [Requested (str ''POST'') (str ''/consequential/admin'') (PDict (instruction_header_items auth run q))]"
    "reported t d" "wf_result r1" "result_track r1 = t" "exchange_result r1" "d = result_items r1"
    unfolding reported_def by blast
  have st: "protocol_run limit t Waiting evs1 (Reporting r1 (result_line r1))"
    using protocol_step.request [OF assms(4) r1(3-5)] r1(1) by auto
  obtain v where v: "dict_get d ''status'' = Some v" using r1(2) by (auto simp: reported_def)
  from went_on(2) show ?thesis
  proof (cases rule: bind_ioE)
    case (raised e)
    from reporting.write_record_run [OF raised(1) [unfolded r1(6)] r1(3), of limit t r1]
    obtain rest where "protocol_run limit t (Reporting r1 (result_line r1)) evs2 (Reporting r1 rest)" by blast
    with st went_on(3) raised show ?thesis
      by (intro exI [of _ "Reporting r1 rest"]) (auto simp: reached_def intro: protocol_run_append)
  next
    case w: (went_on x evs3 evs4)
    from reporting.write_record_run [OF w(1) [unfolded r1(6)] r1(3), of limit t r1]
    have "protocol_run limit t (Reporting r1 (result_line r1)) evs3 (Reporting r1 [])" by fastforce
    then have "protocol_run limit t Waiting evs (Reporting r1 [])"
      using st went_on(3) w(2,3) by (auto simp: quiet_def intro: protocol_run_append)
    moreover have "reached env (Reporting r1 []) r"
      using w(2) v r1(6) by (simp add: quiet_def reached_def dict_item_def split: if_splits) auto
    ultimately show ?thesis by blast
  qed
qed

lemma driver_connects:
  assumes "driver_track t"
  shows "\<exists>ph. protocol_run limit t Idle [Connecting] ph \<and> ph \<noteq> Idle \<and> ph \<noteq> Finished"
proof -
  have "wf_result (Readiness t 0 0)" using assms by (simp add: small_clock_value)
  from protocol_step.connect [OF this, of t limit]
  have "protocol_run limit t Idle [Connecting] (Announcing (result_line (Readiness t 0 0)))" by simp
  then show ?thesis by blast
qed

lemma driver_session_run:
  assumes "driver_session frames limit env t connect = (r, evs)" "66 \<le> limit" "driver_track t"
  shows "\<exists>ph. protocol_run limit t Idle evs ph \<and> reached env ph r"
  using assms(1) unfolding driver_session_def
proof (cases rule: bind_ioE)
  case (raised e)
  with driver_connects [OF assms(3)] show ?thesis by (auto simp: reached_def)
next
  case (went_on x evs1 evs2)
  then have e1: "evs1 = [Connecting]" by simp
  note start = driver_connects [OF assms(3), of limit]
  from went_on(2) show ?thesis
  proof (cases rule: bind_ioE)
    case (raised e)
    with start went_on(3) e1 show ?thesis by (auto simp: quiet_def reached_def)
  next
    case c: (went_on ready evs3 evs4)
    from c(2) show ?thesis
    proof (cases rule: bind_ioE)
      case (raised e)
      with start went_on(3) e1 c show ?thesis by (auto simp: quiet_def reached_def)
    next
      case d: (went_on announced evs5 evs6)
      then have "readiness_record frames limit (PStr t) connect ready = Inr announced" by (simp add: quiet_def)
      from readiness_record_Inr [OF this assms(2)]
      obtain r0 where r0: "wf_result r0" "result_track r0 = t" "readiness r0" "announced = result_items r0" by blast
      have st: "protocol_run limit t Idle [Connecting] (Announcing (result_line r0))"
        using protocol_step.connect [OF r0(1-3)] by auto
      have evs: "evs = [Connecting] @ evs6" using went_on(3) e1 c d by (simp add: quiet_def)
      from d(2) show ?thesis
      proof (cases rule: bind_ioE)
        case (raised e)
        from announcing.write_record_run [OF raised(1) [unfolded r0(4)] r0(1), of limit t]
        obtain rest where "protocol_run limit t (Announcing (result_line r0)) evs6 (Announcing rest)" by blast
        with protocol_run_append [OF st] evs raised show ?thesis
          by (intro exI [of _ "Announcing rest"]) (auto simp: reached_def)
      next
        case w: (went_on y evs7 evs8)
        from announcing.write_record_run [OF w(1) [unfolded r0(4)] r0(1), of limit t]
        have "protocol_run limit t (Announcing (result_line r0)) evs7 (Announcing [])" by fastforce
        then have line: "protocol_run limit t Idle ([Connecting] @ evs7) (Announcing [])"
          by (rule protocol_run_append [OF st])
        have asked: "protocol_run limit t Idle (([Connecting] @ evs7) @ [ReadInput]) Waiting"
          by (rule protocol_run_append [OF line]) (auto intro: protocol_step.read)
        from w(2) show ?thesis
        proof (cases rule: bind_ioE)
          case (raised e)
          with read_instruction_cases [OF raised(1) assms(2)] asked evs w(3) show ?thesis
            by (intro exI [of _ Waiting]) (simp add: reached_def)
        next
          case i: (went_on instruction evs9 evs10)
          note ri = read_instruction_cases [OF i(1) assms(2)]
          have evs': "evs = (([Connecting] @ evs7) @ [ReadInput]) @ evs10" using evs w(3) i(3) ri by simp
          show ?thesis
          proof (cases instruction)
            case (Inl code)
            with i(2) ri evs' asked show ?thesis
              by (intro exI [of _ Waiting]) (auto simp: reached_def quiet_def)
          next
            case (Inr d)
            with ri obtain auth run q where q: "d = instruction_items t auth run q"
              "lab_request limit t (Requested (str ''POST'') (str ''/consequential/admin'') (PDict (instruction_header_items auth run q)))"
              by auto
            from exchange_session [OF _ assms(2,3) q(2)] i(2) Inr q(1)
            obtain ph where "protocol_run limit t Waiting evs10 ph" "reached env ph r" by force
            with protocol_run_append [OF asked] evs' show ?thesis by blast
          qed
        qed
      qed
    qed
  qed
qed

lemma reached_try:
  "reached env ph r \<Longrightarrow> reached env ph (try_r r (\<lambda>e. if P e then Inr 1 else Inl e))"
  by (cases r) (auto simp: reached_def)

lemma execute_driver_run:
  assumes "execute_driver frames limit env trk = (r, evs)" "66 \<le> limit"
  shows "(evs = [] \<and> (\<forall>code. r = Inr code \<longrightarrow> code = 1)) \<or> (\<exists>t before ph. trk = PStr t \<and> driver_track t \<and> evs = before @ [Closed]
    \<and> protocol_run limit t Idle before ph \<and> reached env ph r)"
proof (cases "require_track trk")
  case (Inl e)
  with assms(1) show ?thesis by (auto simp: execute_driver_def)
next
  case (Inr t)
  then have t: "trk = PStr t" "driver_track t" by (simp_all add: require_Inr)
  show ?thesis
  proof (cases "de_clock env 0")
    case (Inl e)
    with assms(1) Inr show ?thesis by (auto simp: execute_driver_def bind_io_def quiet_def)
  next
    case connect: (Inr connect)
    show ?thesis
    proof (cases "de_factory env")
      case (Inl e)
      with assms(1) Inr connect show ?thesis
        by (auto simp: execute_driver_def bind_io_def quiet_def split: if_splits)
    next
      case made: (Inr x)
      obtain r' before where s: "driver_session frames limit env t connect = (r', before)" by fastforce
      obtain ph where ph: "protocol_run limit t Idle before ph" "reached env ph r'"
        using driver_session_run [OF s assms(2) t(2)] by blast
      have "r = try_r r' (\<lambda>e. if is_driver_error e \<or> transport_error e then Inr 1 else Inl e)"
        "evs = before @ [Closed]"
        using assms(1) Inr connect made s by (simp_all add: execute_driver_def bind_io_def quiet_def)
      with ph t show ?thesis by (auto simp: reached_try)
    qed
  qed
qed

end
