(* ===== verification/KilDriverOutcome.thy ===== *)
theory KilDriverOutcome
  imports KilDriverRun
begin

text \<open>
  What the request driver promises: it refines the abstract machine, it makes at most one
  request behind a whole readiness line, and where the clock goes forward, the streams take
  what they are given and an instruction is read, the outcome of the exchange is reported,
  whatever the peer does.
\<close>

subsection \<open>Records of a well-formed outcome are written\<close>

lemma sorted_result:
  assumes "set kvs = set (result_items r)" "distinct (map fst kvs)" "\<forall>kv \<in> set kvs. is_str (fst kv)"
  shows "sort_items kvs = result_items r"
  using sort_items_cong [OF assms(1,2) result_items_shape(2) assms(3)]
  by (simp add: sort_items_sorted [OF result_items_shape(3)])

lemma readiness_record_result:
  assumes "wf_result (Readiness t c1 c2)" "1 \<le> limit" "2 \<le> frames"
  shows "readiness_record frames limit (PStr t) c1 c2 = Inr (result_items (Readiness t c1 c2))"
proof -
  have "require_track (PStr t) = Inr t" using assms(1) by (simp add: require_Inr)
  moreover have "sort_items [(str ''schema_version'', str ''kil.v3b1-driver-readiness.v1''), (str ''track'', PStr t),
    (str ''status'', str ''ready''), (str ''connect_monotonic_ns'', PInt c1), (str ''ready_monotonic_ns'', PInt c2)]
    = result_items (Readiness t c1 c2)"
    by (rule sorted_result) (auto simp: u_def)
  note validated_record_result [OF assms(1) this assms(2,3)]
  ultimately show ?thesis by (simp add: readiness_record_def dict_of_def)
qed

lemma transport_failure_result:
  assumes "wf_result (TransportFailure t stage (exception_class (de_derives env) e) (linux_errno e) c1 c2 c3 True)"
    and "de_clock env 3 = Inr c3" "1 \<le> limit" "2 \<le> frames"
  shows "transport_failure frames limit env t stage e c1 c2
    = Inr (result_items (TransportFailure t stage (exception_class (de_derives env) e) (linux_errno e) c1 c2 c3 True))"
proof -
  have "sort_items [(str ''schema_version'', str ''kil.v3b1-driver-result.v1''), (str ''track'', PStr t),
     (str ''status'', str ''transport_failure''), (str ''stage'', str stage),
     (str ''exception_class'', str (exception_class (de_derives env) e)),
     (str ''errno'', case linux_errno e of None \<Rightarrow> PNone | Some (n, _) \<Rightarrow> PInt n),
     (str ''errno_name'', case linux_errno e of None \<Rightarrow> PNone | Some (_, s) \<Rightarrow> str s),
     (str ''connect_monotonic_ns'', PInt c1), (str ''send_monotonic_ns'', PInt c2),
     (str ''failure_monotonic_ns'', PInt c3), (str ''request_bytes_may_have_been_sent'', PBool True),
     (str ''attempt_count'', PInt 1), (str ''retry_performed'', PBool False)]
    = result_items (TransportFailure t stage (exception_class (de_derives env) e) (linux_errno e) c1 c2 c3 True)"
    by (rule sorted_result) (auto simp: u_def)
  note validated_record_result [OF assms(1) this assms(3,4)]
  then show ?thesis by (simp add: transport_failure_def dict_of_def assms(2))
qed

lemma complete_record_result:
  assumes "wf_result (Complete t c1 c2 c3 status digest)" "de_clock env 3 = Inr c3" "1 \<le> limit" "2 \<le> frames"
  shows "complete_record frames limit env t c1 c2 status digest = Inr (result_items (Complete t c1 c2 c3 status digest))"
proof -
  have "sort_items [(str ''schema_version'', str ''kil.v3b1-driver-result.v1''), (str ''track'', PStr t),
     (str ''status'', str ''complete''), (str ''connect_monotonic_ns'', PInt c1), (str ''send_monotonic_ns'', PInt c2),
     (str ''receive_monotonic_ns'', PInt c3), (str ''response_status'', PInt status),
     (str ''decision_digest'', PStr digest), (str ''attempt_count'', PInt 1), (str ''retry_performed'', PBool False)]
    = result_items (Complete t c1 c2 c3 status digest)"
    by (rule sorted_result) (auto simp: u_def)
  note validated_record_result [OF assms(1) this assms(3,4)]
  then show ?thesis by (simp add: complete_record_def dict_of_def assms(2))
qed

subsection \<open>A working environment\<close>

text \<open>The clock of four readings goes forward; a write takes at least one byte of what it is given.\<close>

definition steady_clock :: "DriverEnv \<Rightarrow> int list \<Rightarrow> bool" where
  "steady_clock env ns \<longleftrightarrow> length ns = 4 \<and> sorted ns \<and> list_all clock_value ns
     \<and> map (de_clock env) [0, 1, 2, 3] = map Inr ns"

definition taking_stream :: "DriverEnv \<Rightarrow> bool" where
  "taking_stream env \<longleftrightarrow> (\<forall>i k n. 0 < n \<longrightarrow> (\<exists>m. de_write env i k n = Inr (PInt m) \<and> 0 < m \<and> m \<le> int n))
     \<and> (\<forall>i. is_ok (de_flush env i))"

text \<open>The exchange fails with the exceptions of a connection only.\<close>

definition response_failures :: "Response \<Rightarrow> bool" where
  "response_failures response \<longleftrightarrow>
     (\<forall>e. rp_status response = Inl e \<or> rp_digest response = Inl e \<longrightarrow> transport_error e \<or> is_attribute_error e)
     \<and> (\<forall>e. rp_body response = Inl e \<longrightarrow> transport_error e)"

definition connection_failures :: "DriverEnv \<Rightarrow> bool" where
  "connection_failures env \<longleftrightarrow>
     (\<forall>e. de_request env = Inl e \<or> de_response env = Inl e \<longrightarrow> transport_error e)
     \<and> (\<forall>response. de_response env = Inr response \<longrightarrow> response_failures response)"

text \<open>
  The peer's answer, when the exchange has one: a status in range and a digest, with a whole
  body in bounds. And what fails when it has none: the first stage that raises, with its error.
\<close>

definition answer :: "DriverEnv \<Rightarrow> (int \<times> pstr) option" where
  "answer env = (case (de_request env, de_response env) of
     (Inr _, Inr response) \<Rightarrow>
       (case (rp_status response, rp_digest response, rp_body response) of
          (Inr (PInt status), Inr (PStr digest), Inr (PBytes bs)) \<Rightarrow>
            if 100 \<le> status \<and> status \<le> 599 \<and> hex64 digest \<and> length bs \<le> MAX_RESPONSE_BODY_BYTES
              \<and> rp_length response \<in> {PNone, PInt 0} then Some (status, digest) else None
        | _ \<Rightarrow> None)
   | _ \<Rightarrow> None)"

definition exchange_failure :: "DriverEnv \<Rightarrow> (string \<times> pyexc) option" where
  "exchange_failure env = (case de_request env of
     Inl e \<Rightarrow> Some (''request_send'', e)
   | Inr _ \<Rightarrow>
       (case bind_r (de_response env) (\<lambda>response. bind_r (closed_response_facts response) (\<lambda>_. Inr response)) of
          Inl e \<Rightarrow> Some (''response_headers'', e)
        | Inr response \<Rightarrow>
            (case closed_body response of Inl e \<Rightarrow> Some (''response_body'', e) | Inr _ \<Rightarrow> None)))"

lemma closed_response_facts_iff:
  "closed_response_facts response = Inr (status, digest) \<longleftrightarrow> rp_status response = Inr (PInt status)
     \<and> rp_digest response = Inr (PStr digest) \<and> 100 \<le> status \<and> status \<le> 599 \<and> hex64 digest"
proof
  assume "closed_response_facts response = Inr (status, digest)"
  then obtain st dg where r: "rp_status response = Inr st" "rp_digest response = Inr dg"
    "(case st of PInt n \<Rightarrow> if n < 100 \<or> n > 599 then Inl own_os_error
        else bind_r (try_r (require_sha256 dg) (\<lambda>e. if is_driver_error e then Inl own_os_error else Inl e)) (\<lambda>d. Inr (n, d))
      | _ \<Rightarrow> Inl own_os_error) = Inr (status, digest)"
    unfolding closed_response_facts_def bind_r_eq_Inr try_r_eq_Inr by (auto simp: bind_r_eq_Inr split: if_splits)
  then show "rp_status response = Inr (PInt status) \<and> rp_digest response = Inr (PStr digest) \<and> 100 \<le> status
      \<and> status \<le> 599 \<and> hex64 digest"
    by (cases st) (auto simp: bind_r_eq_Inr try_r_eq_Inr require_Inr split: if_splits)
next
  assume r: "rp_status response = Inr (PInt status) \<and> rp_digest response = Inr (PStr digest) \<and> 100 \<le> status
      \<and> status \<le> 599 \<and> hex64 digest"
  then have "require_sha256 (PStr digest) = Inr digest" by (simp add: require_Inr)
  with r show "closed_response_facts response = Inr (status, digest)" by (simp add: closed_response_facts_def)
qed

lemma closed_body_iff:
  "closed_body response = Inr () \<longleftrightarrow> (\<exists>bs. rp_body response = Inr (PBytes bs) \<and> length bs \<le> MAX_RESPONSE_BODY_BYTES)
     \<and> rp_length response \<in> {PNone, PInt 0}"
proof (cases "rp_body response")
  case (Inr body)
  then show ?thesis by (cases body) (auto simp: closed_body_def)
qed (simp add: closed_body_def)

lemma answer_Some:
  assumes "de_request env = Inr x" "de_response env = Inr response"
    "closed_response_facts response = Inr (status, digest)" "closed_body response = Inr ()"
  shows "answer env = Some (status, digest)"
  using assms unfolding closed_response_facts_iff closed_body_iff by (auto simp: answer_def)

lemma answer_None:
  assumes "exchange_failure env = Some f"
  shows "answer env = None"
proof (rule ccontr)
  assume "answer env \<noteq> None"
  then obtain x response status digest bs where r: "de_request env = Inr x" "de_response env = Inr response"
    "rp_status response = Inr (PInt status)" "rp_digest response = Inr (PStr digest)" "rp_body response = Inr (PBytes bs)"
    "100 \<le> status" "status \<le> 599" "hex64 digest" "length bs \<le> MAX_RESPONSE_BODY_BYTES" "rp_length response \<in> {PNone, PInt 0}"
    by (auto simp: answer_def split: sum.splits pyval.splits if_splits)
  then have "closed_response_facts response = Inr (status, digest)" "closed_body response = Inr ()"
    by (simp_all add: closed_response_facts_iff closed_body_iff del: insert_iff)
  with r(1,2) assms show False by (simp add: exchange_failure_def)
qed

lemma try_r_eq_Inl: "try_r m h = Inl e \<longleftrightarrow> (\<exists>e'. m = Inl e' \<and> h e' = Inl e)"
  by (cases m) auto

lemma own_os_error_transport: "transport_error own_os_error"
  by (simp add: transport_error_def own_os_error_def)

lemma require_sha256_Inl: "require_sha256 v = Inl e \<Longrightarrow> is_driver_error e"
  by (auto simp: require_sha256_def split: pyval.splits if_splits)

lemma closed_response_facts_cases:
  assumes "response_failures response"
  shows "(\<exists>e. closed_response_facts response = Inl e \<and> transport_error e)
    \<or> (\<exists>status digest. closed_response_facts response = Inr (status, digest)
        \<and> 100 \<le> status \<and> status \<le> 599 \<and> hex64 digest)"
proof -
  define facts where "facts = bind_r (rp_status response) (\<lambda>st. bind_r (rp_digest response) (\<lambda>dg. Inr (st, dg)))"
  have facts_of: "closed_response_facts response = bind_r (try_r facts (\<lambda>e. if is_attribute_error e then Inl own_os_error else Inl e))
    (\<lambda>(st, dg). case st of
       PInt n \<Rightarrow> if n < 100 \<or> n > 599 then Inl own_os_error
         else bind_r (try_r (require_sha256 dg) (\<lambda>e. if is_driver_error e then Inl own_os_error else Inl e)) (\<lambda>d. Inr (n, d))
     | _ \<Rightarrow> Inl own_os_error)"
    by (simp add: closed_response_facts_def facts_def)
  show ?thesis
  proof (cases facts)
    case (Inl e)
    then have "rp_status response = Inl e \<or> rp_digest response = Inl e" by (auto simp: facts_def bind_r_eq_Inl)
    with assms have "transport_error e \<or> is_attribute_error e" by (auto simp: response_failures_def)
    with Inl own_os_error_transport show ?thesis by (auto simp: facts_of)
  next
    case (Inr sd)
    obtain st dg where sd: "sd = (st, dg)" by (cases sd)
    show ?thesis
    proof (cases "\<exists>n. st = PInt n \<and> 100 \<le> n \<and> n \<le> 599")
      case True
      then obtain n where n: "st = PInt n" "\<not> (n < 100 \<or> n > 599)" "100 \<le> n \<and> n \<le> 599" by auto
      show ?thesis
      proof (cases "require_sha256 dg")
        case (Inl e)
        with require_sha256_Inl [OF this] Inr sd n(1,2) own_os_error_transport show ?thesis by (simp add: facts_of)
      next
        case d: (Inr d)
        then have "hex64 d" by (simp add: require_Inr)
        with d Inr sd n show ?thesis by (simp add: facts_of)
      qed
    next
      case False
      then have "closed_response_facts response = Inl own_os_error"
        using Inr sd by (cases st) (auto simp: facts_of)
      with own_os_error_transport show ?thesis by simp
    qed
  qed
qed

lemma closed_body_Inl: "response_failures response \<Longrightarrow> closed_body response = Inl e \<Longrightarrow> transport_error e"
  using own_os_error_transport
  by (auto simp: closed_body_def response_failures_def bind_r_eq_Inl split: if_splits)

text \<open>
  An exchange always ends in a record: of the answer if there is one; if not, of the stage that
  failed, with the class and the number of its own error.
\<close>

definition outcome :: "DriverEnv \<Rightarrow> pstr \<Rightarrow> int \<Rightarrow> int \<Rightarrow> int \<Rightarrow> DriverResult \<Rightarrow> bool" where
  "outcome env t c1 c2 c3 r \<longleftrightarrow> (case answer env of
     Some (status, digest) \<Rightarrow> r = Complete t c1 c2 c3 status digest
   | None \<Rightarrow> (\<exists>stage e. exchange_failure env = Some (stage, e)
       \<and> r = TransportFailure t stage (exception_class (de_derives env) e) (linux_errno e) c1 c2 c3 True))"

lemma exchange_reported:
  assumes t: "driver_track t"
    and c: "clock_value c1" "clock_value c2" "clock_value c3" "c1 \<le> c2" "c2 \<le> c3"
    and clk: "de_clock env 3 = Inr c3" and fails: "connection_failures env"
    and lim: "1 \<le> limit" "2 \<le> frames"
  shows "\<exists>r. wf_result r \<and> result_track r = t \<and> outcome env t c1 c2 c3 r
    \<and> stage_step frames limit env t ''request_send'' c1 c2 (de_request env)
        (\<lambda>_. receive_response frames limit env t c1 c2) = Inr (result_items r)"
proof -
  have failed: "\<exists>r. wf_result r \<and> result_track r = t \<and> outcome env t c1 c2 c3 r
      \<and> transport_failure frames limit env t stage e c1 c2 = Inr (result_items r)"
    if st: "stage \<in> set TRANSPORT_STAGES" and f: "exchange_failure env = Some (stage, e)" for stage e
  proof -
    have "wf_result (TransportFailure t stage (exception_class (de_derives env) e) (linux_errno e) c1 c2 c3 True)"
      using t c st exception_class_known [of "de_derives env" e] linux_errno_known [of e]
      by (auto split: option.splits)
    from transport_failure_result [OF this clk lim] this f answer_None [OF f] show ?thesis
      by (intro exI [of _ "TransportFailure t stage (exception_class (de_derives env) e) (linux_errno e) c1 c2 c3 True"])
        (simp add: outcome_def)
  qed
  have stages: "''request_send'' \<in> set TRANSPORT_STAGES" "''response_headers'' \<in> set TRANSPORT_STAGES"
    "''response_body'' \<in> set TRANSPORT_STAGES"
    by (simp_all add: TRANSPORT_STAGES_def)
  show ?thesis
  proof (cases "de_request env")
    case (Inl e)
    then have "exchange_failure env = Some (''request_send'', e)" "transport_error e"
      using fails by (auto simp: exchange_failure_def connection_failures_def)
    with failed [OF stages(1)] Inl show ?thesis by (simp add: stage_step_def)
  next
    case sent: (Inr x)
    show ?thesis
    proof (cases "de_response env")
      case (Inl e)
      then have "exchange_failure env = Some (''response_headers'', e)" "transport_error e"
        using sent fails by (auto simp: exchange_failure_def connection_failures_def)
      with failed [OF stages(2)] Inl sent show ?thesis by (simp add: stage_step_def receive_response_def)
    next
      case got: (Inr response)
      then have rf: "response_failures response" using fails by (simp add: connection_failures_def)
      from closed_response_facts_cases [OF rf] show ?thesis
      proof (elim disjE exE conjE)
        fix e assume e: "closed_response_facts response = Inl e" "transport_error e"
        then have "exchange_failure env = Some (''response_headers'', e)" using sent got by (simp add: exchange_failure_def)
        with failed [OF stages(2)] e got sent show ?thesis by (simp add: stage_step_def receive_response_def)
      next
        fix status digest
        assume f: "closed_response_facts response = Inr (status, digest)" "100 \<le> status" "status \<le> 599" "hex64 digest"
        show ?thesis
        proof (cases "closed_body response")
          case (Inl e)
          then have "exchange_failure env = Some (''response_body'', e)" "transport_error e"
            using sent got f closed_body_Inl [OF rf] by (auto simp: exchange_failure_def)
          with failed [OF stages(3)] Inl got sent f show ?thesis
            by (simp add: stage_step_def receive_response_def receive_body_def)
        next
          case (Inr y)
          then have "answer env = Some (status, digest)" using answer_Some [OF sent got f(1)] by simp
          moreover have wf: "wf_result (Complete t c1 c2 c3 status digest)" using t c f by simp
          note complete_record_result [OF wf clk lim]
          ultimately show ?thesis using Inr got sent f wf
            by (intro exI [of _ "Complete t c1 c2 c3 status digest"])
              (simp add: stage_step_def receive_response_def receive_body_def outcome_def)
        qed
      qed
    qed
  qed
qed

subsection \<open>Everything is written\<close>

lemma write_chunks_taken:
  assumes "\<And>k n. 0 < n \<Longrightarrow> \<exists>m. w k n = Inr (PInt m) \<and> 0 < m \<and> m \<le> int n"
  shows "\<exists>evs. write_chunks w k payload offset = (Inr (), evs) \<and> stdout_of evs = drop offset payload
    \<and> filter is_request evs = []"
proof (induction "length payload - offset" arbitrary: k offset rule: less_induct)
  case less
  show ?case
  proof (cases "offset < length payload")
    case True
    then obtain m where m: "w k (length payload - offset) = Inr (PInt m)" "0 < m" "m \<le> int (length payload - offset)"
      using assms [of "length payload - offset" k] by auto
    then have range: "\<not> (m \<le> 0 \<or> int (length payload - offset) < m)" by linarith
    have "length payload - (offset + nat m) < length payload - offset" using True m(2) by simp
    from less [OF this, of "Suc k"] obtain evs where
      evs: "write_chunks w (Suc k) payload (offset + nat m) = (Inr (), evs)"
        "stdout_of evs = drop (offset + nat m) payload" "filter is_request evs = []" by blast
    have "write_chunks w k payload offset = (Inr (), Wrote (take (nat m) (drop offset payload)) # evs)"
      using True m(1) range evs(1) by (subst write_chunks.simps) simp
    moreover have "take (nat m) (drop offset payload) @ drop (offset + nat m) payload = drop offset payload"
      by (metis add.commute append_take_drop_id drop_drop)
    ultimately show ?thesis using evs(2,3) by simp
  next
    case False
    then show ?thesis by (subst write_chunks.simps) simp
  qed
qed

lemma write_record_taken:
  assumes "taking_stream env" "wf_result r"
  shows "\<exists>evs. write_canonical_record env i (result_items r) = (Inr (), evs) \<and> stdout_of evs = result_line r
    \<and> filter is_request evs = []"
proof -
  obtain evs where evs: "write_chunks (de_write env i) 0 (result_line r) 0 = (Inr (), evs)"
    "stdout_of evs = result_line r" "filter is_request evs = []"
    using write_chunks_taken [of "de_write env i" 0 "result_line r" 0] assms(1) by (auto simp: taking_stream_def)
  have "length (result_line r) \<le> MAX_RESULT_BYTES"
    using result_line_length(1) [OF assms(2)] by (simp add: MAX_RESULT_BYTES_def)
  moreover obtain y where "de_flush env i = Inr y" using assms(1) by (auto simp: taking_stream_def is_ok_iff)
  ultimately have "write_canonical_record env i (result_items r) = (Inr (), evs)"
    by (simp add: write_canonical_record_def canonical_result_line [OF assms(2)] evs(1) bind_io_def quiet_def)
  with evs show ?thesis by blast
qed

subsection \<open>The promises\<close>

lemma outcome_status:
  "outcome env t c1 c2 c3 r \<Longrightarrow> \<exists>v. dict_item (result_items r) ''status'' = Inr v
     \<and> (v = str ''complete'' \<longleftrightarrow> answer env \<noteq> None)"
  by (auto simp: outcome_def dict_item_def dict_get_def u_def split: option.splits)

lemma outcome_exchange: "outcome env t c1 c2 c3 r \<Longrightarrow> exchange_result r"
  by (auto simp: outcome_def split: option.splits)

lemma driver_session_reports:
  assumes t: "driver_track t" and clk: "steady_clock env [c0, c1, c2, c3]"
    and up: "is_ok (de_connect env)" and taking: "taking_stream env" and fails: "connection_failures env"
    and raw: "read_bounded_single_line (de_stdin env) MAX_INSTRUCTION_BYTES = Inr (Some payload)"
    and d: "parse_instruction limit payload (PStr t) = Inr d" and lim: "66 \<le> limit" "2 \<le> frames"
  shows "\<exists>r evs. driver_session frames limit env t c0 = (Inr (if answer env = None then 1 else 0), evs)
    \<and> wf_result r \<and> result_track r = t \<and> outcome env t c0 c2 c3 r
    \<and> stdout_of evs = result_line (Readiness t c0 c1) @ result_line r \<and> length (filter is_request evs) = 1"
proof -
  have c: "clock_value c0" "clock_value c1" "clock_value c2" "clock_value c3" "c0 \<le> c1" "c1 \<le> c2" "c2 \<le> c3"
    and k: "de_clock env 1 = Inr c1" "de_clock env 2 = Inr c2" "de_clock env 3 = Inr c3"
    using clk by (auto simp: steady_clock_def)
  have one: "1 \<le> limit" using lim(1) by simp
  have ready: "wf_result (Readiness t c0 c1)" using t c by simp
  obtain w0 where w0: "write_canonical_record env 0 (result_items (Readiness t c0 c1)) = (Inr (), w0)"
    "stdout_of w0 = result_line (Readiness t c0 c1)" "filter is_request w0 = []"
    using write_record_taken [OF taking ready] by blast
  obtain auth run q where i: "d = instruction_items t auth run q"
    using parse_instruction_Inr [OF d lim(1)] by blast
  obtain r where r: "wf_result r" "result_track r = t" "outcome env t c0 c2 c3 r"
    "stage_step frames limit env t ''request_send'' c0 c2 (de_request env)
      (\<lambda>_. receive_response frames limit env t c0 c2) = Inr (result_items r)"
    using exchange_reported [OF t c(1,3,4) _ c(7) k(3) fails one lim(2)] c(5,6) by force
  obtain w1 where w1: "write_canonical_record env 1 (result_items r) = (Inr (), w1)"
    "stdout_of w1 = result_line r" "filter is_request w1 = []"
    using write_record_taken [OF taking r(1)] by blast
  obtain v where v: "dict_item (result_items r) ''status'' = Inr v" "v = str ''complete'' \<longleftrightarrow> answer env \<noteq> None"
    using outcome_status [OF r(3)] by blast
  have items: "dict_item d ''track'' = Inr (PStr t)" "dict_item d ''method'' = Inr (str ''POST'')"
    "dict_item d ''path'' = Inr (str ''/consequential/admin'')"
    "dict_item d ''headers'' = Inr (PDict (instruction_header_items auth run q))"
    by (simp_all add: i instruction_items_def dict_item_def dict_get_def)
  let ?e = "Requested (str ''POST'') (str ''/consequential/admin'') (PDict (instruction_header_items auth run q))"
  have trk: "require_track (PStr t) = Inr t" using t by (simp add: require_Inr)
  have request: "perform_one_request frames limit env d c0 = (Inr (result_items r), [?e])"
    using k(2) r(4) by (simp add: perform_one_request_def bind_io_def quiet_def items trk)
  have input: "read_instruction limit env t = (Inr (Inr d), [ReadInput])"
    by (simp add: read_instruction_def next_instruction_def raw d)
  obtain y where y: "de_connect env = Inr y" using up by (auto simp: is_ok_iff)
  have "driver_session frames limit env t c0
    = (Inr (if answer env = None then 1 else 0), Connecting # w0 @ ReadInput # ?e # w1)"
    unfolding driver_session_def
    using v(2) by (simp add: bind_io_def quiet_def y k(1) readiness_record_result [OF ready one lim(2)] w0(1) input
        request w1(1) v(1) del: result_items.simps One_nat_def)
  moreover have "stdout_of (Connecting # w0 @ ReadInput # ?e # w1) = result_line (Readiness t c0 c1) @ result_line r"
    using w0(2) w1(2) by simp
  moreover have "length (filter is_request (Connecting # w0 @ ReadInput # ?e # w1)) = 1"
    using w0(3) w1(3) by simp
  ultimately show ?thesis using r(1-3) by blast
qed

lemma execute_driver_reports:
  assumes t: "driver_track t" and clk: "steady_clock env [c0, c1, c2, c3]"
    and up: "is_ok (de_factory env)" "is_ok (de_connect env)"
    and rest: "taking_stream env" "connection_failures env"
      "read_bounded_single_line (de_stdin env) MAX_INSTRUCTION_BYTES = Inr (Some payload)"
      "parse_instruction limit payload (PStr t) = Inr d" "66 \<le> limit" "2 \<le> frames"
  shows "\<exists>r evs. execute_driver frames limit env (PStr t) = (Inr (if answer env = None then 1 else 0), evs)
    \<and> wf_result r \<and> result_track r = t \<and> outcome env t c0 c2 c3 r
    \<and> stdout_of evs = result_line (Readiness t c0 c1) @ result_line r \<and> length (filter is_request evs) = 1"
proof -
  obtain r evs where s: "driver_session frames limit env t c0 = (Inr (if answer env = None then 1 else 0), evs)"
    "wf_result r" "result_track r = t" "outcome env t c0 c2 c3 r"
    "stdout_of evs = result_line (Readiness t c0 c1) @ result_line r" "length (filter is_request evs) = 1"
    using driver_session_reports [OF t clk up(2) rest] by blast
  have "require_track (PStr t) = Inr t" using t by (simp add: require_Inr)
  moreover obtain y where "de_factory env = Inr y" using up(1) by (auto simp: is_ok_iff)
  moreover have "de_clock env 0 = Inr c0" using clk by (simp add: steady_clock_def)
  ultimately have "execute_driver frames limit env (PStr t) = (Inr (if answer env = None then 1 else 0), evs @ [Closed])"
    by (simp add: execute_driver_def bind_io_def quiet_def s(1))
  with s(2-6) show ?thesis by (intro exI [of _ r] exI [of _ "evs @ [Closed]"]) simp
qed

text \<open>
  Claim C35: where the clock goes forward, the streams take what they are given, the
  connection opens and an instruction for the track is read, the driver always reports: its
  output is a readiness line and the line of one result. If the exchange has a whole answer
  within the bounds, the result holds the peer's status and digest and the exit code is 0; if
  not, it names the first stage that failed, with the class and the number of the error raised
  there, and the code is 1.
\<close>

theorem driver_reports:
  assumes "driver_track t" "steady_clock env [c0, c1, c2, c3]" "is_ok (de_factory env)" "is_ok (de_connect env)"
    and "taking_stream env" "connection_failures env"
    and "read_bounded_single_line (de_stdin env) MAX_INSTRUCTION_BYTES = Inr (Some payload)"
    and "parse_instruction limit payload (PStr t) = Inr d" "66 \<le> limit" "2 \<le> frames"
  shows "\<exists>r evs. execute_driver frames limit env (PStr t) = (Inr (if answer env = None then 1 else 0), evs)
    \<and> wf_result r \<and> result_track r = t \<and> outcome env t c0 c2 c3 r
    \<and> stdout_of evs = result_line (Readiness t c0 c1) @ result_line r \<and> length (filter is_request evs) = 1"
  by (rule execute_driver_reports [OF assms])

text \<open>A lab in which the peer permits the request, and one in which it resets the connection.\<close>

definition sample_line :: bytes where
  "sample_line = ascii_bytes (dump_text (PDict sample_instruction) @ [10])"

definition sample_env :: "unit res \<Rightarrow> DriverEnv" where
  "sample_env sent = \<lparr> de_clock = (\<lambda>k. Inr (int k)), de_factory = Inr (), de_connect = Inr (),
     de_write = (\<lambda>i k n. Inr (PInt (int n))), de_flush = (\<lambda>i. Inr ()), de_stdin = Inr (PBytes sample_line),
     de_request = sent,
     de_response = Inr \<lparr> rp_status = Inr (PInt 200), rp_digest = Inr (PStr (u (replicate 64 CHR ''a''))),
       rp_body = Inr (PBytes []), rp_length = PInt 0 \<rparr>,
     de_derives = (\<lambda>c b. c = b) \<rparr>"

lemma sample_env_works:
  assumes "\<And>e. sent = Inl e \<Longrightarrow> transport_error e"
  shows "steady_clock (sample_env sent) [0, 1, 2, 3]" "is_ok (de_factory (sample_env sent))"
    "is_ok (de_connect (sample_env sent))" "taking_stream (sample_env sent)" "connection_failures (sample_env sent)"
    "read_bounded_single_line (de_stdin (sample_env sent)) MAX_INSTRUCTION_BYTES = Inr (Some sample_line)"
proof -
  have line: "sample_line \<noteq> []" "length sample_line \<le> MAX_INSTRUCTION_BYTES" "last sample_line = 10" "count_list sample_line 10 = 1"
    by code_simp+
  show "read_bounded_single_line (de_stdin (sample_env sent)) MAX_INSTRUCTION_BYTES = Inr (Some sample_line)"
    using line by (simp add: read_bounded_single_line_def sample_env_def MAX_INSTRUCTION_BYTES_def)
  show "steady_clock (sample_env sent) [0, 1, 2, 3]"
    by (simp add: steady_clock_def sample_env_def small_clock_value)
qed (use assms in \<open>auto simp: sample_env_def taking_stream_def connection_failures_def response_failures_def\<close>)

lemma sample_parses: "parse_instruction 66 sample_line (PStr baseline_track) = Inr sample_instruction"
  unfolding sample_line_def by (rule sample_instruction_parses) simp

lemma baseline_driver_track: "driver_track baseline_track"
  by code_simp

lemma sample_answer:
  "answer (sample_env (Inr ())) = Some (200, u (replicate 64 CHR ''a''))"
  "answer (sample_env (Inl (OSError ''ConnectionResetError'' (Some 104)))) = None"
  by code_simp+

lemma sample_failure:
  "exchange_failure (sample_env (Inl (OSError ''ConnectionResetError'' (Some 104))))
     = Some (''request_send'', OSError ''ConnectionResetError'' (Some 104))"
  "exception_class (de_derives (sample_env sent)) (OSError ''ConnectionResetError'' (Some 104)) = ''ConnectionResetError''"
  "linux_errno (OSError ''ConnectionResetError'' (Some 104)) = Some (104, ''ECONNRESET'')"
  by code_simp+

theorem driver_reports_witness:
  "(\<exists>evs r. execute_driver 2 66 (sample_env (Inr ())) (PStr baseline_track) = (Inr 0, evs)
     \<and> r = Complete baseline_track 0 2 3 200 (u (replicate 64 CHR ''a''))
     \<and> stdout_of evs = result_line (Readiness baseline_track 0 1) @ result_line r)
   \<and> (\<exists>evs r. execute_driver 2 66 (sample_env (Inl (OSError ''ConnectionResetError'' (Some 104)))) (PStr baseline_track)
        = (Inr 1, evs)
     \<and> r = TransportFailure baseline_track ''request_send'' ''ConnectionResetError'' (Some (104, ''ECONNRESET'')) 0 2 3 True
     \<and> stdout_of evs = result_line (Readiness baseline_track 0 1) @ result_line r)"
  using driver_reports [OF baseline_driver_track sample_env_works sample_parses, of "Inr ()" 2]
    driver_reports [OF baseline_driver_track sample_env_works sample_parses,
      of "Inl (OSError ''ConnectionResetError'' (Some 104))" 2]
  by (auto simp: sample_answer sample_failure outcome_def transport_error_def)

text \<open>
  Claim C34: whatever clock, streams and peer do, what the driver does is a run of the
  abstract machine that ends with closing the connection. It returns 0 only if it read an empty
  input or the whole line of a complete result is written; a refused instruction is never 0; and it writes no
  byte that is not of a readiness record or of one result, each well formed and of the track.
\<close>

theorem driver_refines:
  assumes "execute_driver frames limit env trk = (r, evs)" "66 \<le> limit"
  shows "(evs = [] \<and> (\<forall>code. r = Inr code \<longrightarrow> code = 1)) \<or> (\<exists>t before ph. trk = PStr t \<and> driver_track t \<and> evs = before @ [Closed]
    \<and> protocol_run limit t Idle before ph \<and> reached env ph r)"
  by (rule execute_driver_run [OF assms])

theorem driver_refines_witness:
  "\<exists>before ph. execute_driver 2 66 (sample_env (Inr ())) (PStr baseline_track) = (Inr 0, before @ [Closed])
     \<and> protocol_run 66 baseline_track Idle before ph \<and> reached (sample_env (Inr ())) ph (Inr 0)"
proof -
  obtain evs where e: "execute_driver 2 66 (sample_env (Inr ())) (PStr baseline_track) = (Inr 0, evs)" "length (filter is_request evs) = 1"
    using execute_driver_reports [OF baseline_driver_track sample_env_works sample_parses, of "Inr ()" 2]
    by (auto simp: sample_answer)
  from driver_refines [OF e(1)] e show ?thesis by auto
qed

text \<open>
  Claim C36: a run of the command makes at most one request, the lab's, for its track alone.
  Without it the output is a prefix of one readiness line; with it, the request comes behind
  the whole readiness line and the reading, and what follows is a prefix of one result line.
\<close>

theorem driver_one_request:
  assumes "driver_main frames limit env argv = (code, evs)" "66 \<le> limit"
  shows "(code = 2 \<and> evs = []) \<or> (code \<in> {0, 1} \<and> (\<exists>t. argv = [u ''--track'', t, u ''--endpoint'', u ''envoy:8080'']
    \<and> driver_track t \<and> (unasked t evs \<or> asked_once limit t evs)))"
proof (cases "parse_main_arguments argv")
  case None
  with assms(1) show ?thesis by (simp add: driver_main_def)
next
  case (Some t)
  then have argv: "argv = [u ''--track'', t, u ''--endpoint'', u ''envoy:8080'']" "driver_track t"
    by (auto simp: parse_main_arguments_def require_Inr split: list.splits if_splits sum.splits)
  obtain r evs' where r: "execute_driver frames limit env (PStr t) = (r, evs')" by fastforce
  then have m: "evs = evs'" "code = (case r of Inl _ \<Rightarrow> 1 | Inr n \<Rightarrow> n)"
    using assms(1) Some by (auto simp: driver_main_def split: sum.splits)
  from execute_driver_run [OF r assms(2)] show ?thesis
  proof (elim disjE exE conjE)
    assume none: "evs' = []" "\<forall>code. r = Inr code \<longrightarrow> code = 1"
    have "unasked t evs \<or> asked_once limit t evs"
      by (rule protocol_promises [where ph = Idle]) (simp_all add: m none(1) argv(2))
    with none(2) argv m(2) show ?thesis by (auto split: sum.splits)
  next
    fix t' before ph
    assume b: "PStr t = PStr t'" "evs' = before @ [Closed]" "protocol_run limit t' Idle before ph" "reached env ph r"
    have "protocol_step limit t ph Closed Finished" using b(4) by (auto simp: reached_def intro: protocol_step.close)
    then have "protocol_run limit t Idle evs Finished" using b m protocol_run_append [of limit t Idle before ph] by simp
    from protocol_promises [OF this argv(2)] argv b(4) m(2) show ?thesis by (auto simp: reached_def split: sum.splits)
  qed
qed

theorem driver_one_request_witness:
  "\<exists>evs. driver_main 2 66 (sample_env (Inr ())) [u ''--track'', baseline_track, u ''--endpoint'', u ''envoy:8080'']
      = (0, evs) \<and> asked_once 66 baseline_track evs"
proof -
  obtain r evs where e: "execute_driver 2 66 (sample_env (Inr ())) (PStr baseline_track) = (Inr 0, evs)" "length (filter is_request evs) = 1"
    using execute_driver_reports [OF baseline_driver_track sample_env_works sample_parses, of "Inr ()" 2]
    by (auto simp: sample_answer)
  have "require_track (PStr baseline_track) = Inr baseline_track"
    using baseline_driver_track by (simp add: require_Inr)
  then have "parse_main_arguments [u ''--track'', baseline_track, u ''--endpoint'', u ''envoy:8080''] = Some baseline_track"
    by (simp add: parse_main_arguments_def)
  then have m: "driver_main 2 66 (sample_env (Inr ())) [u ''--track'', baseline_track, u ''--endpoint'', u ''envoy:8080''] = (0, evs)"
    using e(1) by (simp add: driver_main_def)
  from driver_one_request [OF m] e(2) m show ?thesis by (auto simp: unasked_def)
qed

end
