(* ===== verification/PyRegex.thy ===== *)
theory PyRegex
  imports PyText
begin

text \<open>
  \<^verbatim>\<open>re.fullmatch\<close> for the patterns the code matches in full: character classes, sequences,
  alternatives and repetitions. Whether a whole text matches does not depend on the order
  in which a backtracking matcher tries its choices, so the matcher is the one by
  derivatives; it is shown to decide the language of the pattern.
\<close>

subsection \<open>Patterns and their languages\<close>

text \<open>A class is a list of ranges of code points.\<close>

datatype regex =
    Chars "(nat \<times> nat) list"
  | Empty
  | Never
  | Seq regex regex
  | Alt regex regex
  | Star regex

definition in_class :: "(nat \<times> nat) list \<Rightarrow> nat \<Rightarrow> bool" where
  "in_class rs c \<longleftrightarrow> list_ex (\<lambda>(a, b). a \<le> c \<and> c \<le> b) rs"

inductive matches :: "regex \<Rightarrow> pstr \<Rightarrow> bool" where
  chars: "in_class rs c \<Longrightarrow> matches (Chars rs) [c]"
| empty: "matches Empty []"
| seq: "matches r s \<Longrightarrow> matches q t \<Longrightarrow> matches (Seq r q) (s @ t)"
| alt1: "matches r s \<Longrightarrow> matches (Alt r q) s"
| alt2: "matches q s \<Longrightarrow> matches (Alt r q) s"
| star0: "matches (Star r) []"
| star: "matches r s \<Longrightarrow> matches (Star r) t \<Longrightarrow> matches (Star r) (s @ t)"

inductive_cases matches_chars: "matches (Chars rs) s"
inductive_cases matches_empty: "matches Empty s"
inductive_cases matches_never: "matches Never s"
inductive_cases matches_seq: "matches (Seq r q) s"
inductive_cases matches_alt: "matches (Alt r q) s"

lemmas matches_elims = matches_chars matches_empty matches_never matches_seq matches_alt

subsection \<open>The matcher\<close>

fun nullable :: "regex \<Rightarrow> bool" where
  "nullable (Chars _) = False"
| "nullable Empty = True"
| "nullable Never = False"
| "nullable (Seq r q) = (nullable r \<and> nullable q)"
| "nullable (Alt r q) = (nullable r \<or> nullable q)"
| "nullable (Star _) = True"

text \<open>Sequences and alternatives without their trivial parts keep derivatives small.\<close>

definition seq_of :: "regex \<Rightarrow> regex \<Rightarrow> regex" where
  "seq_of r q = (if r = Never \<or> q = Never then Never else if r = Empty then q else if q = Empty then r else Seq r q)"

definition alt_of :: "regex \<Rightarrow> regex \<Rightarrow> regex" where
  "alt_of r q = (if r = Never \<or> r = q then q else if q = Never then r else Alt r q)"

fun deriv :: "nat \<Rightarrow> regex \<Rightarrow> regex" where
  "deriv c (Chars rs) = (if in_class rs c then Empty else Never)"
| "deriv c Empty = Never"
| "deriv c Never = Never"
| "deriv c (Seq r q) = (if nullable r then alt_of (seq_of (deriv c r) q) (deriv c q) else seq_of (deriv c r) q)"
| "deriv c (Alt r q) = alt_of (deriv c r) (deriv c q)"
| "deriv c (Star r) = seq_of (deriv c r) (Star r)"

fun fullmatch :: "regex \<Rightarrow> pstr \<Rightarrow> bool" where
  "fullmatch r [] = nullable r"
| "fullmatch r (c # s) = fullmatch (deriv c r) s"

lemma matches_seq_nil:
  "matches r [] \<Longrightarrow> matches q s \<Longrightarrow> matches (Seq r q) s" "matches r s \<Longrightarrow> matches q [] \<Longrightarrow> matches (Seq r q) s"
  using matches.seq [of r "[]" q s] matches.seq [of r s q "[]"] by simp_all

lemma nullable_iff: "nullable r \<longleftrightarrow> matches r []"
  by (induction r) (auto intro: matches.intros matches_seq_nil elim: matches_elims)

lemma matches_seq_of [simp]: "matches (seq_of r q) s \<longleftrightarrow> matches (Seq r q) s"
  by (auto simp: seq_of_def intro: matches_seq_nil matches.empty elim!: matches_seq matches_never matches_empty)

lemma matches_alt_of [simp]: "matches (alt_of r q) s \<longleftrightarrow> matches (Alt r q) s"
  by (auto simp: alt_of_def intro: matches.intros elim!: matches_elims)

lemma star_deriv_aux:
  "matches p w \<Longrightarrow> p = Star r \<Longrightarrow> w = c # s \<Longrightarrow> \<exists>s1 s2. s = s1 @ s2 \<and> matches r (c # s1) \<and> matches (Star r) s2"
proof (induction arbitrary: s rule: matches.induct)
  case (star q s1 t)
  then show ?case by (cases s1) auto
qed auto

lemmas star_deriv = star_deriv_aux [OF _ refl refl]

lemma seq_deriv:
  "matches (Seq r q) (c # s) \<longleftrightarrow>
     (\<exists>s1 s2. s = s1 @ s2 \<and> matches r (c # s1) \<and> matches q s2) \<or> (matches r [] \<and> matches q (c # s))"
proof
  assume "matches (Seq r q) (c # s)"
  then obtain s1 s2 where "c # s = s1 @ s2" "matches r s1" "matches q s2" by (auto elim: matches_seq)
  then show "(\<exists>s1 s2. s = s1 @ s2 \<and> matches r (c # s1) \<and> matches q s2) \<or> (matches r [] \<and> matches q (c # s))"
    by (cases s1) auto
qed (auto dest: matches.seq)

lemma deriv_iff: "matches (deriv c r) s \<longleftrightarrow> matches r (c # s)"
proof (induction r arbitrary: s)
  case (Seq r q)
  have "matches (Seq (deriv c r) q) s \<longleftrightarrow> (\<exists>s1 s2. s = s1 @ s2 \<and> matches r (c # s1) \<and> matches q s2)" for s
    using Seq.IH(1) by (auto intro: matches.seq elim!: matches_seq)
  moreover have "matches (Alt p p') s \<longleftrightarrow> matches p s \<or> matches p' s" for p p' s
    by (auto intro: matches.intros elim: matches_alt)
  ultimately show ?case using Seq.IH(2) by (auto simp: seq_deriv nullable_iff)
next
  case (Star r)
  have "matches (Seq (deriv c r) (Star r)) s \<longleftrightarrow> matches (Star r) (c # s)"
  proof
    assume "matches (Seq (deriv c r) (Star r)) s"
    then obtain s1 s2 where "s = s1 @ s2" "matches r (c # s1)" "matches (Star r) s2"
      using Star.IH by (auto elim: matches_seq)
    then show "matches (Star r) (c # s)" using matches.star [of r "c # s1" s2] by simp
  next
    assume "matches (Star r) (c # s)"
    then show "matches (Seq (deriv c r) (Star r)) s"
      using Star.IH star_deriv [of r c s] by (auto intro: matches.seq)
  qed
  then show ?case by simp
qed (auto intro: matches.intros elim: matches_elims)

theorem fullmatch_iff: "fullmatch r s \<longleftrightarrow> matches r s"
  by (induction r s rule: fullmatch.induct) (simp_all add: nullable_iff deriv_iff)

subsection \<open>Pattern notation\<close>

definition cls :: "(char \<times> char) list \<Rightarrow> regex" where
  "cls rs = Chars (map (\<lambda>(a, b). (of_char a, of_char b)) rs)"

text \<open>A class given by its single characters, and a literal text.\<close>

definition single :: "string \<Rightarrow> (char \<times> char) list" where
  "single s = map (\<lambda>c. (c, c)) s"

fun lit :: "string \<Rightarrow> regex" where
  "lit [] = Empty"
| "lit [c] = cls [(c, c)]"
| "lit (c # s) = Seq (cls [(c, c)]) (lit s)"

fun seqs :: "regex list \<Rightarrow> regex" where
  "seqs [] = Empty"
| "seqs [r] = r"
| "seqs (r # rs) = Seq r (seqs rs)"

fun alts :: "regex list \<Rightarrow> regex" where
  "alts [] = Never"
| "alts [r] = r"
| "alts (r # rs) = Alt r (alts rs)"

definition opt :: "regex \<Rightarrow> regex" where "opt r = Alt Empty r"
definition some :: "regex \<Rightarrow> regex" where "some r = Seq r (Star r)"

fun exactly :: "nat \<Rightarrow> regex \<Rightarrow> regex" where
  "exactly 0 r = Empty"
| "exactly (Suc 0) r = r"
| "exactly (Suc n) r = Seq r (exactly n r)"

text \<open>The dot: any character but the line feed.\<close>

definition dot :: regex where
  "dot = Chars [(0, 9), (11, 1114111)]"

lemma matches_star_class: "matches (Star (Chars rs)) s \<longleftrightarrow> list_all (in_class rs) s"
proof
  assume "matches (Star (Chars rs)) s"
  then show "list_all (in_class rs) s"
    by (induction "Star (Chars rs)" s rule: matches.induct) (auto elim: matches_chars)
next
  assume "list_all (in_class rs) s"
  then show "matches (Star (Chars rs)) s"
  proof (induction s)
    case (Cons c s)
    then have "matches (Star (Chars rs)) ([c] @ s)" by (intro matches.star matches.chars) simp_all
    then show ?case by simp
  qed (rule matches.star0)
qed

end
