(* ===== verification/KilClosedYaml.thy ===== *)
theory KilClosedYaml
  imports PyRegex PyJson PyBytes
begin

text \<open>
  \<^verbatim>\<open>src/kil/v3b2_closed_yaml.py\<close>: the decoder of a closed subset of YAML. A text is cut into
  lines with their indentation, an entry into its key and what follows the colon, a scalar
  is decoded, and blocks of lines become mappings and sequences. The count of nodes that
  \<^verbatim>\<open>_Decoder\<close> keeps is passed through the parser.
\<close>

definition MAX_INPUT :: nat where "MAX_INPUT = 1024 * 1024"
definition MAX_NODES :: nat where "MAX_NODES = 32768"
definition MAX_YAML_DEPTH :: nat where "MAX_YAML_DEPTH = 64"
definition MAX_LINES :: nat where "MAX_LINES = 65536"
definition MAX_SCALAR :: nat where "MAX_SCALAR = 256 * 1024"
definition MAX_INTEGER_DIGITS :: nat where "MAX_INTEGER_DIGITS = 5000"

abbreviation yaml_error :: "string \<Rightarrow> 'a res" where
  "yaml_error msg \<equiv> Inl (ClosedYAMLError msg)"

subsection \<open>Patterns\<close>

definition digit_class :: "(char \<times> char) list" where
  "digit_class = [(CHR ''0'', CHR ''9'')]"

definition letter_class :: "(char \<times> char) list" where
  "letter_class = [(CHR ''A'', CHR ''Z''), (CHR ''a'', CHR ''z'')]"

definition digit_re :: regex where "digit_re = cls digit_class"
definition digits_re :: regex where "digits_re = Star (cls (digit_class @ single ''_''))"
definition sign_re :: regex where "sign_re = opt (cls (single ''+-''))"

definition KEY :: regex where
  "KEY = Seq (cls (letter_class @ single ''_'')) (Star (cls (letter_class @ digit_class @ single ''_.-/'')))"

definition INTEGER :: regex where
  "INTEGER = alts [lit ''0'',
     seqs [lit ''-'', cls [(CHR ''1'', CHR ''9'')], Star digit_re],
     seqs [cls [(CHR ''1'', CHR ''9'')], Star digit_re]]"

definition exponent_re :: regex where
  "exponent_re = seqs [cls (single ''eE''), sign_re, some (cls (digit_class @ single ''_''))]"

definition NUMBERISH :: regex where
  "NUMBERISH = seqs [sign_re, digit_re, digits_re, opt (Seq (lit ''.'') digits_re), opt exponent_re]"

definition RADIX :: regex where
  "RADIX = seqs [sign_re, lit ''0'', cls (single ''xXoObB''),
     some (cls (digit_class @ [(CHR ''A'', CHR ''F''), (CHR ''a'', CHR ''f'')] @ single ''_''))]"

definition DATE :: regex where
  "DATE = seqs [exactly 4 digit_re, lit ''-'', exactly 2 digit_re, lit ''-'', exactly 2 digit_re,
     opt (Seq (cls (single ''Tt '')) (Star dot))]"

definition LEADING_DOT_FLOAT :: regex where
  "LEADING_DOT_FLOAT = seqs [sign_re, lit ''.'', digit_re, digits_re, opt exponent_re]"

definition SEXAGESIMAL :: regex where
  "SEXAGESIMAL = seqs [sign_re, digit_re, digits_re,
     some (seqs [lit '':'', digit_re, digits_re, opt (Seq (lit ''.'') digits_re)])]"

definition plain_char_re :: regex where
  "plain_char_re = cls (letter_class @ digit_class @ single ''_./:@%+=,$~()?&*![]-'')"

definition PLAIN :: regex where
  "PLAIN = Seq (some plain_char_re) (Star (Seq (lit '' '') (some plain_char_re)))"

subsection \<open>Lines\<close>

record yaml_line =
  yl_indent :: nat
  yl_sequence :: bool
  yl_body :: pstr

definition text_bytes :: "string \<Rightarrow> pstr \<Rightarrow> nat \<Rightarrow> bytes res" where
  "text_bytes msg value limit =
     (if length value > limit then yaml_error msg
      else bind_r (try_r (utf8_encode value) (\<lambda>e. if e = UnicodeError then yaml_error msg else Inl e)) (\<lambda>encoded.
        if length encoded > limit then yaml_error msg else Inr encoded))"

definition forbidden_char :: "nat \<Rightarrow> bool" where
  "forbidden_char c \<longleftrightarrow> c = 13 \<or> c = 9 \<or> c = 65279 \<or> c = 0 \<or> (c < 32 \<and> c \<noteq> 10) \<or> (55296 \<le> c \<and> c \<le> 57343)"

definition yaml_line_of :: "pstr \<Rightarrow> yaml_line res" where
  "yaml_line_of raw =
     (if raw = [] \<or> ends_with [32] raw then yaml_error ''blank lines and trailing whitespace are forbidden''
      else let indent = length (takeWhile (\<lambda>c. c = 32) raw); body = drop indent raw in
        if indent mod 2 \<noteq> 0 then yaml_error ''indentation must use exact two-space steps''
        else if body = [] \<or> starts_with [35] body then yaml_error ''comments are forbidden''
        else if starts_with [37] body \<or> body = u ''---'' \<or> body = u ''...''
        then yaml_error ''YAML directives and document markers are forbidden''
        else if body = [45] then Inr \<lparr>yl_indent = indent, yl_sequence = True, yl_body = []\<rparr>
        else if starts_with [45, 32] body then Inr \<lparr>yl_indent = indent, yl_sequence = True, yl_body = drop 2 body\<rparr>
        else Inr \<lparr>yl_indent = indent, yl_sequence = False, yl_body = body\<rparr>)"

definition raw_lines :: "pstr \<Rightarrow> pstr list" where
  "raw_lines s = (let ls = split_on 10 s in if ls \<noteq> [] \<and> last ls = [] then butlast ls else ls)"

definition prepare_lines :: "pyval \<Rightarrow> yaml_line list res" where
  "prepare_lines v = (case v of
     PStr s \<Rightarrow>
       if length s > MAX_INPUT then yaml_error ''closed YAML exceeds the input bound''
       else if list_ex forbidden_char s then yaml_error ''closed YAML contains forbidden text''
       else bind_r (text_bytes ''closed YAML'' s MAX_INPUT) (\<lambda>_.
         let line_count = count_list s 10 + (if ends_with [10] s then 0 else 1) in
         if line_count > MAX_LINES then yaml_error ''closed YAML exceeds the line bound''
         else if raw_lines s = [] \<or> line_count \<ge> MAX_NODES
         then yaml_error ''closed YAML is empty or exceeds the node bound''
         else map_r yaml_line_of (raw_lines s))
   | _ \<Rightarrow> yaml_error ''closed YAML must be an exact string'')"

subsection \<open>Entries and scalars\<close>

definition RESERVED_KEYS :: "string list" where
  "RESERVED_KEYS = [''y'', ''n'', ''yes'', ''no'', ''on'', ''off'', ''true'', ''false'', ''null'']"

definition yaml_pair :: "pstr \<Rightarrow> (pstr \<times> pstr option) res" where
  "yaml_pair body =
     (let key = takeWhile (\<lambda>c. c \<noteq> 58) body; rest = drop (length key) body in
      if key = [] \<or> \<not> (rest = [58] \<or> (starts_with [58, 32] rest \<and> 10 \<notin> set (drop 2 rest)))
      then yaml_error ''line is not an exact mapping entry''
      else if \<not> fullmatch KEY key \<or> key = u ''<<'' \<or> lower key \<in> u ` set RESERVED_KEYS
      then yaml_error ''mapping key is not a conservative string key''
      else bind_r (text_bytes ''mapping key'' key MAX_SCALAR) (\<lambda>_.
        if rest \<noteq> [58] \<and> drop 2 rest = [] then yaml_error ''empty scalar must be represented as null or quoted text''
        else Inr (key, if rest = [58] then None else Some (drop 2 rest))))"

definition utf8_width :: "nat \<Rightarrow> nat" where
  "utf8_width c = (if c \<le> 127 then 1 else if c \<le> 2047 then 2 else if c \<le> 65535 then 3 else 4)"

fun unquote_single :: "nat \<Rightarrow> pstr \<Rightarrow> pstr res" where
  "unquote_single decoded [] = Inr []"
| "unquote_single decoded (c # s) =
     (if c = 39 then
        (case s of
           d # s' \<Rightarrow>
             if d \<noteq> 39 then yaml_error ''single-quoted scalar is malformed''
             else if int decoded > int MAX_SCALAR - int (utf8_width 39)
             then yaml_error ''single-quoted scalar exceeds the decoded bound''
             else bind_r (unquote_single (decoded + utf8_width 39) s') (\<lambda>t. Inr (39 # t))
         | [] \<Rightarrow> yaml_error ''single-quoted scalar is malformed'')
      else if int decoded > int MAX_SCALAR - int (utf8_width c)
      then yaml_error ''single-quoted scalar exceeds the decoded bound''
      else bind_r (unquote_single (decoded + utf8_width c) s) (\<lambda>t. Inr (c # t)))"

definition unsafe_char :: "nat \<Rightarrow> bool" where
  "unsafe_char c \<longleftrightarrow> c < 32 \<or> (127 \<le> c \<and> c \<le> 159) \<or> c = 65279 \<or> (55296 \<le> c \<and> c \<le> 57343)"

definition safe_decoded_text :: "pstr \<Rightarrow> unit res" where
  "safe_decoded_text s =
     (if list_ex unsafe_char s then yaml_error ''quoted scalar decodes to control or surrogate text'' else Inr ())"

definition quoted_single :: "pstr \<Rightarrow> pstr res" where
  "quoted_single raw =
     (if length raw < 2 \<or> \<not> ends_with [39] raw then yaml_error ''single-quoted scalar is malformed''
      else bind_r (unquote_single 0 (butlast (drop 1 raw))) (\<lambda>value.
        bind_r (text_bytes ''quoted scalar'' value MAX_SCALAR) (\<lambda>_.
        bind_r (safe_decoded_text value) (\<lambda>_. Inr value))))"

definition quoted_double :: "pstr \<Rightarrow> pstr res" where
  "quoted_double raw =
     bind_r (try_r (json_loads default_hook 1 raw) (\<lambda>e. if e = JSONDecodeError
         then yaml_error ''double-quoted scalar is malformed'' else Inl e)) (\<lambda>v.
       case v of
         PStr value \<Rightarrow>
           bind_r (text_bytes ''quoted scalar'' value MAX_SCALAR) (\<lambda>_.
           bind_r (safe_decoded_text value) (\<lambda>_. Inr value))
       | _ \<Rightarrow> yaml_error ''double-quoted scalar must contain a string'')"

definition contains :: "pstr \<Rightarrow> pstr \<Rightarrow> bool" where
  "contains part s \<longleftrightarrow> list_ex (\<lambda>k. starts_with part (drop k s)) [0..<Suc (length s)]"

text \<open>\<^verbatim>\<open>(?:^| )[!&*]\<close> somewhere in the text.\<close>

definition marked_word :: "pstr \<Rightarrow> bool" where
  "marked_word s \<longleftrightarrow> (s \<noteq> [] \<and> hd s \<in> {33, 38, 42}) \<or> contains [32, 33] s \<or> contains [32, 38] s \<or> contains [32, 42] s"

definition AMBIGUOUS_WORDS :: "string list" where
  "AMBIGUOUS_WORDS = [''y'', ''n'', ''yes'', ''no'', ''on'', ''off'', ''true'', ''false'', ''null'', ''~'',
     ''.inf'', ''+.inf'', ''-.inf'', ''.nan'']"

definition forbidden_syntax :: "pstr \<Rightarrow> bool" where
  "forbidden_syntax raw \<longleftrightarrow>
     list_ex (\<lambda>c. starts_with [c] raw) [91, 93, 123, 125, 44, 33, 38, 42, 124, 62, 64, 96, 37]
     \<or> raw \<in> {[45], [63], [58]} \<or> starts_with [45, 32] raw \<or> starts_with [63, 32] raw
     \<or> ends_with [93] raw \<or> ends_with [58] raw \<or> contains [58, 32] raw \<or> marked_word raw"

definition ambiguous :: "pstr \<Rightarrow> bool" where
  "ambiguous raw \<longleftrightarrow> lower raw \<in> u ` set AMBIGUOUS_WORDS \<or> fullmatch NUMBERISH raw \<or> fullmatch RADIX raw
     \<or> fullmatch LEADING_DOT_FLOAT raw \<or> fullmatch SEXAGESIMAL raw \<or> fullmatch DATE raw"

definition integer_value :: "pstr \<Rightarrow> int" where
  "integer_value raw = (if starts_with [45] raw then - int (digits_value (drop 1 raw)) else int (digits_value raw))"

definition plain_scalar :: "pstr \<Rightarrow> pyval res" where
  "plain_scalar raw =
     bind_r (text_bytes ''scalar'' raw MAX_SCALAR) (\<lambda>_.
     if list_ex (\<lambda>c. c \<in> set raw) [34, 39, 123, 125, 35] then yaml_error ''flow or quoted syntax is malformed''
     else if forbidden_syntax raw then yaml_error ''typed, graph, block, or flow YAML syntax is forbidden''
     else if ambiguous raw then yaml_error ''ambiguous YAML scalar must be quoted''
     else if raw = u ''---'' \<or> raw = u ''...'' \<or> \<not> fullmatch PLAIN raw
     then yaml_error ''plain scalar is outside the conservative subset''
     else Inr (PStr raw))"

definition yaml_scalar :: "pstr \<Rightarrow> pyval res" where
  "yaml_scalar raw =
     (if raw = u ''{}'' then Inr (PDict [])
      else if raw = u ''[]'' then Inr (PList [])
      else if raw = u ''null'' then Inr PNone
      else if raw = u ''true'' then Inr (PBool True)
      else if raw = u ''false'' then Inr (PBool False)
      else if fullmatch INTEGER raw then
        (if int (length raw) - (if starts_with [45] raw then 1 else 0) > int MAX_INTEGER_DIGITS
         then yaml_error ''decimal integer exceeds the conversion work bound''
         else Inr (PInt (integer_value raw)))
      else if starts_with [34] raw then bind_r (quoted_double raw) (\<lambda>s. Inr (PStr s))
      else if starts_with [39] raw then bind_r (quoted_single raw) (\<lambda>s. Inr (PStr s))
      else plain_scalar raw)"

end
