(* ===== verification/KilYamlParser.thy ===== *)
theory KilYamlParser
  imports KilClosedYaml
begin

text \<open>
  \<^verbatim>\<open>src/kil/v3b2_closed_yaml.py\<close>, the block parser \<^verbatim>\<open>_Decoder\<close>. Its methods are mutually
  recursive functions on the index of the next line; each returns a value, the next index and
  the nodes counted so far. They terminate because no method gives lines back, which has to
  be known of the results of nested calls: it is proved on the domain of the functions first.
\<close>

subsection \<open>The parser\<close>

fun is_yaml_error :: "pyexc \<Rightarrow> bool" where
  "is_yaml_error (ClosedYAMLError _) = True"
| "is_yaml_error _ = False"

definition count_node :: "nat \<Rightarrow> nat res" where
  "count_node n = (if Suc n > MAX_NODES then yaml_error ''closed YAML exceeds the semantic node bound'' else Inr (Suc n))"

definition entry_at :: "yaml_line list \<Rightarrow> nat \<Rightarrow> nat \<Rightarrow> bool \<Rightarrow> bool" where
  "entry_at ls i indent sequence \<longleftrightarrow> i < length ls \<and> yl_indent (ls ! i) = indent \<and> yl_sequence (ls ! i) = sequence"

definition child_indents :: "yaml_line \<Rightarrow> nat \<Rightarrow> nat list" where
  "child_indents line parent = (if yl_sequence line then [parent, parent + 2] else [parent + 2])"

definition bare_child_at :: "yaml_line list \<Rightarrow> nat \<Rightarrow> nat \<Rightarrow> bool" where
  "bare_child_at ls i indent \<longleftrightarrow> i < length ls \<and> yl_indent (ls ! i) = indent + 2"

function (sequential)
  parse_block :: "yaml_line list \<Rightarrow> nat \<Rightarrow> nat \<Rightarrow> nat \<Rightarrow> nat \<Rightarrow> (pyval \<times> nat \<times> nat) res" and
  parse_child :: "yaml_line list \<Rightarrow> nat \<Rightarrow> nat \<Rightarrow> nat \<Rightarrow> nat \<Rightarrow> (pyval \<times> nat \<times> nat) res" and
  parse_put :: "yaml_line list \<Rightarrow> pydict \<Rightarrow> pstr \<Rightarrow> pstr option \<Rightarrow> nat \<Rightarrow> nat \<Rightarrow> nat \<Rightarrow> nat \<Rightarrow> (pydict \<times> nat \<times> nat) res" and
  parse_mapping :: "yaml_line list \<Rightarrow> pydict \<Rightarrow> nat \<Rightarrow> nat \<Rightarrow> nat \<Rightarrow> nat \<Rightarrow> (pydict \<times> nat \<times> nat) res" and
  parse_item :: "yaml_line list \<Rightarrow> pstr \<Rightarrow> nat \<Rightarrow> nat \<Rightarrow> nat \<Rightarrow> nat \<Rightarrow> (pyval \<times> nat \<times> nat) res" and
  parse_sequence :: "yaml_line list \<Rightarrow> pyval list \<Rightarrow> nat \<Rightarrow> nat \<Rightarrow> nat \<Rightarrow> nat \<Rightarrow> (pyval list \<times> nat \<times> nat) res" where
  "parse_block ls i indent depth n =
     (if depth > MAX_YAML_DEPTH \<or> i \<ge> length ls then yaml_error ''closed YAML nesting is invalid or unbounded''
      else if yl_indent (ls ! i) \<noteq> indent then yaml_error ''nested block indentation is inconsistent''
      else bind_r (count_node n) (\<lambda>n.
        if yl_sequence (ls ! i)
        then bind_r (parse_sequence ls [] i indent depth n) (\<lambda>(vs, i, n). Inr (PList vs, i, n))
        else bind_r (parse_mapping ls [] i indent depth n) (\<lambda>(d, i, n). Inr (PDict d, i, n))))"
| "parse_child ls i parent depth n =
     (if i \<ge> length ls then yaml_error ''nested mapping has no value''
      else if yl_indent (ls ! i) \<notin> set (child_indents (ls ! i) parent)
      then yaml_error ''nested block indentation is inconsistent''
      else parse_block ls i (yl_indent (ls ! i)) (depth + 1) n)"
| "parse_put ls d key raw i indent depth n =
     (if PStr key \<in> fst ` set d then yaml_error ''duplicate mapping key''
      else bind_r (count_node n) (\<lambda>n.
        case raw of
          None \<Rightarrow> bind_r (parse_child ls i indent depth n) (\<lambda>(v, i, n). Inr (d @ [(PStr key, v)], i, n))
        | Some text \<Rightarrow>
            bind_r (yaml_scalar text) (\<lambda>v. bind_r (count_node n) (\<lambda>n. Inr (d @ [(PStr key, v)], i, n)))))"
| "parse_mapping ls d i indent depth n =
     (if entry_at ls i indent False
      then bind_r (yaml_pair (yl_body (ls ! i))) (\<lambda>(key, raw).
        bind_r (parse_put ls d key raw (i + 1) indent depth n) (\<lambda>(d, i, n).
        parse_mapping ls d i indent depth n))
      else Inr (d, i, n))"
| "parse_item ls body i indent depth n =
     (if body = []
      then (if bare_child_at ls i indent then parse_block ls i (indent + 2) (depth + 1) n
            else yaml_error ''bare-dash child indentation is inconsistent'')
      else (case yaml_pair body of
          Inl e \<Rightarrow> if is_yaml_error e
            then bind_r (yaml_scalar body) (\<lambda>v. bind_r (count_node n) (\<lambda>n. Inr (v, i, n)))
            else Inl e
        | Inr (key, raw) \<Rightarrow>
            bind_r (count_node n) (\<lambda>n.
            bind_r (parse_put ls [] key raw i (indent + 2) (depth + 1) n) (\<lambda>(d, i, n).
            bind_r (parse_mapping ls d i (indent + 2) (depth + 1) n) (\<lambda>(d, i, n).
            Inr (PDict d, i, n))))))"
| "parse_sequence ls vs i indent depth n =
     (if entry_at ls i indent True
      then bind_r (parse_item ls (yl_body (ls ! i)) (i + 1) indent depth n) (\<lambda>(v, i, n).
        parse_sequence ls (vs @ [v]) i indent depth n)
      else Inr (vs, i, n))"
  by pat_completeness auto

lemmas parse_induct = parse_block_parse_child_parse_put_parse_mapping_parse_item_parse_sequence.pinduct

lemmas parse_psimps = parse_block.psimps parse_child.psimps parse_put.psimps parse_mapping.psimps
  parse_item.psimps parse_sequence.psimps

text \<open>No method gives lines back.\<close>

abbreviation parse_dom where
  "parse_dom \<equiv> parse_block_parse_child_parse_put_parse_mapping_parse_item_parse_sequence_dom"

lemma parse_forward:
  "parse_dom (Inl (Inl (ls, i, indent, depth, n))) \<Longrightarrow>
     (\<And>v j m. parse_block ls i indent depth n = Inr (v, j, m) \<Longrightarrow> i \<le> j)"
  "parse_dom (Inl (Inr (Inl (ls, i, indent, depth, n)))) \<Longrightarrow>
     (\<And>v j m. parse_child ls i indent depth n = Inr (v, j, m) \<Longrightarrow> i \<le> j)"
  "parse_dom (Inl (Inr (Inr (ls, d, key, raw, i, indent, depth, n)))) \<Longrightarrow>
     (\<And>v j m. parse_put ls d key raw i indent depth n = Inr (v, j, m) \<Longrightarrow> i \<le> j)"
  "parse_dom (Inr (Inl (ls, d, i, indent, depth, n))) \<Longrightarrow>
     (\<And>v j m. parse_mapping ls d i indent depth n = Inr (v, j, m) \<Longrightarrow> i \<le> j)"
  "parse_dom (Inr (Inr (Inl (ls, body, i, indent, depth, n)))) \<Longrightarrow>
     (\<And>v j m. parse_item ls body i indent depth n = Inr (v, j, m) \<Longrightarrow> i \<le> j)"
  "parse_dom (Inr (Inr (Inr (ls, vs, i, indent, depth, n)))) \<Longrightarrow>
     (\<And>v j m. parse_sequence ls vs i indent depth n = Inr (v, j, m) \<Longrightarrow> i \<le> j)"
proof (induction rule: parse_induct)
  case (1 ls i indent depth n)
  then show ?case by (auto simp: parse_psimps split: if_splits)
next
  case (2 ls i parent depth n)
  then show ?case by (auto simp: parse_psimps split: if_splits)
next
  case (3 ls d key raw i indent depth n)
  then show ?case by (auto simp: parse_psimps split: if_splits option.splits)
next
  case (4 ls d i indent depth n)
  show ?case
    using 4(1) 4(2)[OF _ _ refl] 4(3) 4(4) by (fastforce simp: parse_psimps split: if_splits)
next
  case (5 ls body i indent depth n)
  then show ?case by (fastforce simp: parse_psimps split: if_splits sum.splits)
next
  case (6 ls vs i indent depth n)
  then show ?case by (fastforce simp: parse_psimps split: if_splits)
qed

text \<open>
  So a call is made on fewer lines left, or, on as many, in the order of items, entries,
  children, blocks and loops.
\<close>

termination parse_block
proof (relation "measures
    [case_sum
       (case_sum (\<lambda>(ls, i, _). length ls - i)
         (case_sum (\<lambda>(ls, i, _). length ls - i) (\<lambda>(ls, _, _, _, i, _). length ls - i)))
       (case_sum (\<lambda>(ls, _, i, _). length ls - i)
         (case_sum (\<lambda>(ls, _, i, _). length ls - i) (\<lambda>(ls, _, i, _). length ls - i))),
     case_sum (case_sum (\<lambda>_. 1) (case_sum (\<lambda>_. 2) (\<lambda>_. 3)))
       (case_sum (\<lambda>_. 0) (case_sum (\<lambda>_. 4) (\<lambda>_. 0)))]", goal_cases)
  case 1
  show ?case by simp
qed (auto simp: entry_at_def dest: parse_forward)

end
