(* ===== verification/KilYamlDecode.thy ===== *)
theory KilYamlDecode
  imports KilYamlParser PyJsonRoundTrip
begin

text \<open>
  \<^verbatim>\<open>decode_closed_yaml\<close> and what it promises: the value is closed (unique conservative keys,
  safe bounded texts, bounded integers), its nodes are exactly the ones counted and within the
  bound, its nesting is bounded, and the only exception is ClosedYAMLError.
\<close>

definition decode_lines :: "yaml_line list \<Rightarrow> pydict res" where
  "decode_lines ls =
     (if ls = [\<lparr>yl_indent = 0, yl_sequence = False, yl_body = u ''{}''\<rparr>] then bind_r (count_node 0) (\<lambda>_. Inr [])
      else bind_r (parse_block ls 0 0 0 0) (\<lambda>(v, i, n).
        case v of
          PDict d \<Rightarrow> if i \<noteq> length ls then yaml_error ''closed YAML must contain exactly one mapping root'' else Inr d
        | _ \<Rightarrow> yaml_error ''closed YAML must contain exactly one mapping root''))"

definition decode_closed_yaml :: "pyval \<Rightarrow> pydict res" where
  "decode_closed_yaml v = bind_r (prepare_lines v) decode_lines"

subsection \<open>Closed values\<close>

definition closed_text :: "pstr \<Rightarrow> bool" where
  "closed_text s \<longleftrightarrow> list_all is_scalar s \<and> length s \<le> MAX_SCALAR
     \<and> length (concat (map utf8_char s)) \<le> MAX_SCALAR \<and> \<not> list_ex unsafe_char s"

definition closed_key :: "pstr \<Rightarrow> bool" where
  "closed_key k \<longleftrightarrow> fullmatch KEY k \<and> lower k \<notin> u ` set RESERVED_KEYS \<and> length k \<le> MAX_SCALAR"

fun keyed :: "pyval \<Rightarrow> bool" where
  "keyed (PStr k) = closed_key k"
| "keyed _ = False"

function closed_value :: "pyval \<Rightarrow> bool" where
  "closed_value PNone = True"
| "closed_value (PBool _) = True"
| "closed_value (PInt n) = (\<bar>n\<bar> < 10 ^ MAX_INTEGER_DIGITS)"
| "closed_value (PStr s) = closed_text s"
| "closed_value (PList vs) = list_all closed_value vs"
| "closed_value (PDict kvs) = (distinct (map fst kvs) \<and> list_all (\<lambda>kv. keyed (fst kv) \<and> closed_value (snd kv)) kvs)"
| "closed_value (PFloat _) = False"
| "closed_value (PBytes _) = False"
| "closed_value (PDec _) = False"
| "closed_value (PEnum _ _) = False"
| "closed_value (PTuple _) = False"
| "closed_value (PRec _ _) = False"
| "closed_value (PObj _) = False"
  by pat_completeness auto
termination
  by (relation "measure size") (auto dest: size_dict_value size_list_value)

function yaml_nodes :: "pyval \<Rightarrow> nat" where
  "yaml_nodes (PList vs) = Suc (sum_list (map yaml_nodes vs))"
| "yaml_nodes (PDict kvs) = Suc (sum_list (map (\<lambda>kv. Suc (yaml_nodes (snd kv))) kvs))"
| "yaml_nodes PNone = 1"
| "yaml_nodes (PBool _) = 1"
| "yaml_nodes (PInt _) = 1"
| "yaml_nodes (PStr _) = 1"
| "yaml_nodes (PFloat _) = 1"
| "yaml_nodes (PBytes _) = 1"
| "yaml_nodes (PDec _) = 1"
| "yaml_nodes (PEnum _ _) = 1"
| "yaml_nodes (PTuple _) = 1"
| "yaml_nodes (PRec _ _) = 1"
| "yaml_nodes (PObj _) = 1"
  by pat_completeness auto
termination
  by (relation "measure size") (auto dest: size_dict_value size_list_value)

subsection \<open>Scalars and keys\<close>

lemma text_bytes_Inr:
  "text_bytes msg s limit = Inr b \<longleftrightarrow> length s \<le> limit \<and> list_all is_scalar s
     \<and> length (concat (map utf8_char s)) \<le> limit \<and> b = map word_of_nat (concat (map utf8_char s))"
  by (auto simp: text_bytes_def utf8_encode_def bind_r_eq_Inr try_r_eq_Inr split: if_splits)

text \<open>The classes a pattern draws its characters from.\<close>

fun alphabet :: "regex \<Rightarrow> (nat \<times> nat) list" where
  "alphabet (Chars rs) = rs"
| "alphabet (Seq r q) = alphabet r @ alphabet q"
| "alphabet (Alt r q) = alphabet r @ alphabet q"
| "alphabet (Star r) = alphabet r"
| "alphabet _ = []"

lemma in_class_append [simp]: "in_class (rs @ qs) c \<longleftrightarrow> in_class rs c \<or> in_class qs c"
  by (simp add: in_class_def)

lemma matches_alphabet: "matches r s \<Longrightarrow> list_all (in_class (alphabet r)) s"
  by (induction rule: matches.induct) (auto simp: list_all_iff)

lemma fullmatch_alphabet:
  assumes "fullmatch r s" "list_all (\<lambda>(a, b). lo \<le> a \<and> b \<le> hi) (alphabet r)" "c \<in> set s"
  shows "lo \<le> c \<and> c \<le> hi"
  using assms matches_alphabet [of r s]
  by (fastforce simp: fullmatch_iff list_all_iff in_class_def list_ex_iff)

lemma plain_chars: "fullmatch PLAIN s \<Longrightarrow> c \<in> set s \<Longrightarrow> 32 \<le> c \<and> c \<le> 126"
  by (rule fullmatch_alphabet) (simp_all, code_simp)

lemma key_chars: "fullmatch KEY s \<Longrightarrow> c \<in> set s \<Longrightarrow> 45 \<le> c \<and> c \<le> 122"
  by (rule fullmatch_alphabet) (simp_all, code_simp)

lemma ascii_text:
  assumes "\<forall>c \<in> set s. 32 \<le> c \<and> c \<le> 126"
  shows "list_all is_scalar s" "\<not> list_ex unsafe_char s" "concat (map utf8_char s) = s"
  using assms
  by (induction s) (auto simp: is_scalar_def is_surrogate_def unsafe_char_def utf8_char_def)

lemma digits_value_less:
  assumes "\<forall>c \<in> set ds. 48 \<le> c \<and> c \<le> 57"
  shows "digits_value ds < 10 ^ length ds"
proof -
  have "fold (\<lambda>d n. 10 * n + (d - 48)) ds k < 10 ^ length ds * Suc k" if "\<forall>c \<in> set ds. 48 \<le> c \<and> c \<le> 57" for k
    using that
  proof (induction ds arbitrary: k)
    case (Cons d ds)
    have "fold (\<lambda>d n. 10 * n + (d - 48)) ds (10 * k + (d - 48)) < 10 ^ length ds * Suc (10 * k + (d - 48))"
      using Cons by simp
    also have "\<dots> \<le> 10 ^ length ds * (10 * Suc k)"
      using Cons.prems by (intro mult_le_mono2) auto
    finally show ?case by (simp add: algebra_simps)
  qed simp
  from this [of 0] assms show ?thesis by (simp add: digits_value_def)
qed

lemma INTEGER_digits:
  assumes "fullmatch INTEGER s"
  shows "\<forall>c \<in> set (if starts_with [45] s then drop 1 s else s). 48 \<le> c \<and> c \<le> 57"
proof -
  have star: "\<forall>c \<in> set t. 48 \<le> c \<and> c \<le> 57" if "matches (Star digit_re) t" for t
    using matches_alphabet [OF that] by (auto simp: list_all_iff in_class_def digit_re_def cls_def digit_class_def)
  have first: "\<exists>c. t = [c] \<and> 49 \<le> c \<and> c \<le> 57" if "matches (cls [(CHR ''1'', CHR ''9'')]) t" for t
    using that by (auto simp: cls_def in_class_def elim: matches_chars)
  have minus: "t = [45]" if "matches (lit ''-'') t" for t
    using that by (auto simp: cls_def in_class_def elim: matches_chars)
  have zero: "t = [48]" if "matches (lit ''0'') t" for t
    using that by (auto simp: cls_def in_class_def elim: matches_chars)
  show ?thesis using assms unfolding fullmatch_iff INTEGER_def
    by (auto elim!: matches_alt matches_seq dest!: star first minus zero simp: starts_with_def simp del: lit.simps)
qed

lemma integer_bound:
  assumes "fullmatch INTEGER raw" "int (length raw) - (if starts_with [45] raw then 1 else 0) \<le> int MAX_INTEGER_DIGITS"
  shows "\<bar>integer_value raw\<bar> < 10 ^ MAX_INTEGER_DIGITS"
proof -
  define ds where "ds = (if starts_with [45] raw then drop 1 raw else raw)"
  have "nat \<bar>integer_value raw\<bar> = digits_value ds" by (simp add: integer_value_def ds_def)
  also have "\<dots> < 10 ^ length ds" using digits_value_less INTEGER_digits [OF assms(1)] by (simp add: ds_def)
  also have "\<dots> \<le> 10 ^ MAX_INTEGER_DIGITS" using assms(2) by (intro power_increasing) (auto simp: ds_def)
  finally show ?thesis by simp
qed

lemma yaml_scalar_closed:
  assumes "yaml_scalar raw = Inr v"
  shows "closed_value v" "yaml_nodes v = 1" "nesting v \<le> 1"
proof -
  have quoted: "closed_text s" if "text_bytes msg s MAX_SCALAR = Inr b" "safe_decoded_text s = Inr x" for msg s b x
    using that by (auto simp: text_bytes_Inr safe_decoded_text_def closed_text_def split: if_splits)
  have plain: "closed_value v \<and> yaml_nodes v = 1 \<and> nesting v \<le> 1" if "plain_scalar raw = Inr v"
    using that ascii_text [of raw] plain_chars [of raw]
    by (auto simp: plain_scalar_def text_bytes_Inr closed_text_def split: if_splits)
  have single: "closed_text s" if "quoted_single raw = Inr s" for s
    using that quoted by (auto simp: quoted_single_def split: if_splits)
  have double: "closed_text s" if "quoted_double raw = Inr s" for s
    using that quoted by (auto simp: quoted_double_def split: pyval.splits)
  have "closed_value v \<and> yaml_nodes v = 1 \<and> nesting v \<le> 1"
    using assms unfolding yaml_scalar_def
    by (auto simp: integer_bound dest: single double plain split: if_splits)
  then show "closed_value v" "yaml_nodes v = 1" "nesting v \<le> 1" by simp_all
qed

lemma yaml_pair_closed: "yaml_pair body = Inr (key, raw) \<Longrightarrow> closed_key key"
  by (auto simp: yaml_pair_def Let_def text_bytes_Inr closed_key_def split: if_splits)

lemma count_node_Inr [simp]: "count_node n = Inr m \<longleftrightarrow> m = Suc n \<and> Suc n \<le> MAX_NODES"
  by (auto simp: count_node_def)

subsection \<open>What the parser returns\<close>

abbreviation dict_nodes :: "pydict \<Rightarrow> nat" where
  "dict_nodes d \<equiv> sum_list (map (\<lambda>kv. Suc (yaml_nodes (snd kv))) d)"

abbreviation list_nodes :: "pyval list \<Rightarrow> nat" where
  "list_nodes vs \<equiv> sum_list (map yaml_nodes vs)"

lemmas parse_total_induct = parse_block_parse_child_parse_put_parse_mapping_parse_item_parse_sequence.induct

lemmas parse_simps = parse_block.simps parse_child.simps parse_put.simps parse_mapping.simps
  parse_item.simps parse_sequence.simps

declare parse_simps [simp del]

text \<open>The successful runs of each method.\<close>

lemma parse_block_Inr:
  "parse_block ls i indent depth n = Inr (v, j, m) \<longleftrightarrow>
     depth \<le> MAX_YAML_DEPTH \<and> i < length ls \<and> yl_indent (ls ! i) = indent \<and> Suc n \<le> MAX_NODES
     \<and> (if yl_sequence (ls ! i) then \<exists>vs. v = PList vs \<and> parse_sequence ls [] i indent depth (Suc n) = Inr (vs, j, m)
        else \<exists>d. v = PDict d \<and> parse_mapping ls [] i indent depth (Suc n) = Inr (d, j, m))"
  by (auto simp: parse_block.simps [of ls i indent depth n] bind_r_eq_Inr)

lemma parse_child_Inr:
  "parse_child ls i parent depth n = Inr (v, j, m) \<longleftrightarrow>
     i < length ls \<and> yl_indent (ls ! i) \<in> set (child_indents (ls ! i) parent)
     \<and> parse_block ls i (yl_indent (ls ! i)) (Suc depth) n = Inr (v, j, m)"
  by (auto simp: parse_child.simps [of ls i parent depth n])

lemma parse_put_Inr:
  "parse_put ls d key raw i indent depth n = Inr (d', j, m) \<longleftrightarrow>
     PStr key \<notin> fst ` set d \<and> Suc n \<le> MAX_NODES
     \<and> (\<exists>v. d' = d @ [(PStr key, v)] \<and> (case raw of
          None \<Rightarrow> parse_child ls i indent depth (Suc n) = Inr (v, j, m)
        | Some text \<Rightarrow> yaml_scalar text = Inr v \<and> j = i \<and> m = Suc (Suc n) \<and> Suc (Suc n) \<le> MAX_NODES))"
  by (auto simp: parse_put.simps [of ls d key raw i indent depth n] bind_r_eq_Inr split: option.splits)

lemma parse_mapping_Inr:
  "parse_mapping ls d i indent depth n = Inr (d', j, m) \<longleftrightarrow>
     (if entry_at ls i indent False
      then \<exists>key raw d1 i1 n1. yaml_pair (yl_body (ls ! i)) = Inr (key, raw)
        \<and> parse_put ls d key raw (Suc i) indent depth n = Inr (d1, i1, n1)
        \<and> parse_mapping ls d1 i1 indent depth n1 = Inr (d', j, m)
      else d' = d \<and> j = i \<and> m = n)"
  by (subst parse_mapping.simps) (auto simp: bind_r_eq_Inr)

lemma parse_item_Inr:
  "parse_item ls body i indent depth n = Inr (v, j, m) \<longleftrightarrow>
     (if body = [] then bare_child_at ls i indent \<and> parse_block ls i (indent + 2) (Suc depth) n = Inr (v, j, m)
      else (case yaml_pair body of
          Inl e \<Rightarrow> is_yaml_error e \<and> yaml_scalar body = Inr v \<and> j = i \<and> m = Suc n \<and> Suc n \<le> MAX_NODES
        | Inr (key, raw) \<Rightarrow> Suc n \<le> MAX_NODES \<and> (\<exists>d1 i1 n1 d.
            parse_put ls [] key raw i (indent + 2) (Suc depth) (Suc n) = Inr (d1, i1, n1)
            \<and> parse_mapping ls d1 i1 (indent + 2) (Suc depth) n1 = Inr (d, j, m) \<and> v = PDict d)))"
  by (auto simp: parse_item.simps [of ls body i indent depth n] bind_r_eq_Inr split: sum.splits)

lemma parse_sequence_Inr:
  "parse_sequence ls vs i indent depth n = Inr (vs', j, m) \<longleftrightarrow>
     (if entry_at ls i indent True
      then \<exists>v i1 n1. parse_item ls (yl_body (ls ! i)) (Suc i) indent depth n = Inr (v, i1, n1)
        \<and> parse_sequence ls (vs @ [v]) i1 indent depth n1 = Inr (vs', j, m)
      else vs' = vs \<and> j = i \<and> m = n)"
  by (subst parse_sequence.simps) (auto simp: bind_r_eq_Inr)

text \<open>
  What holds of every run: relations between the depth, the nodes before, the value and the
  nodes after, that the steps of the methods keep.
\<close>

locale parse_invariant =
  fixes block :: "nat \<Rightarrow> nat \<Rightarrow> pyval \<Rightarrow> nat \<Rightarrow> bool"
    and entry :: "nat \<Rightarrow> pydict \<Rightarrow> nat \<Rightarrow> pydict \<Rightarrow> nat \<Rightarrow> bool"
    and mapping :: "nat \<Rightarrow> pydict \<Rightarrow> nat \<Rightarrow> pydict \<Rightarrow> nat \<Rightarrow> bool"
    and item :: "nat \<Rightarrow> nat \<Rightarrow> pyval \<Rightarrow> nat \<Rightarrow> bool"
    and elements :: "nat \<Rightarrow> pyval list \<Rightarrow> nat \<Rightarrow> pyval list \<Rightarrow> nat \<Rightarrow> bool"
  assumes block_list: "depth \<le> MAX_YAML_DEPTH \<Longrightarrow> Suc n \<le> MAX_NODES \<Longrightarrow> elements depth [] (Suc n) vs m \<Longrightarrow> block depth n (PList vs) m"
    and block_dict: "depth \<le> MAX_YAML_DEPTH \<Longrightarrow> Suc n \<le> MAX_NODES \<Longrightarrow> mapping depth [] (Suc n) d m \<Longrightarrow> block depth n (PDict d) m"
    and entry_block: "closed_key key \<Longrightarrow> PStr key \<notin> fst ` set d \<Longrightarrow> block (Suc depth) (Suc n) v m \<Longrightarrow>
      entry depth d n (d @ [(PStr key, v)]) m"
    and entry_scalar: "closed_key key \<Longrightarrow> PStr key \<notin> fst ` set d \<Longrightarrow> yaml_scalar raw = Inr v \<Longrightarrow> Suc (Suc n) \<le> MAX_NODES \<Longrightarrow>
      entry depth d n (d @ [(PStr key, v)]) (Suc (Suc n))"
    and mapping_stop: "mapping depth d n d n"
    and mapping_step: "entry depth d n d1 n1 \<Longrightarrow> mapping depth d1 n1 d2 n2 \<Longrightarrow> mapping depth d n d2 n2"
    and item_block: "block (Suc depth) n v m \<Longrightarrow> item depth n v m"
    and item_scalar: "yaml_scalar raw = Inr v \<Longrightarrow> Suc n \<le> MAX_NODES \<Longrightarrow> item depth n v (Suc n)"
    and item_dict: "Suc n \<le> MAX_NODES \<Longrightarrow> entry (Suc depth) [] (Suc n) d1 n1 \<Longrightarrow> mapping (Suc depth) d1 n1 d m \<Longrightarrow>
      item depth n (PDict d) m"
    and elements_stop: "elements depth vs n vs n"
    and elements_step: "item depth n v n1 \<Longrightarrow> elements depth (vs @ [v]) n1 vs2 n2 \<Longrightarrow> elements depth vs n vs2 n2"
begin

lemma parse_holds:
  "\<And>v j m. parse_block ls i indent depth n = Inr (v, j, m) \<Longrightarrow> block depth n v m"
  "\<And>v j m. parse_child ls i indent depth n = Inr (v, j, m) \<Longrightarrow> block (Suc depth) n v m"
  "\<And>d' j m. closed_key key \<Longrightarrow> parse_put ls d key raw i indent depth n = Inr (d', j, m) \<Longrightarrow> entry depth d n d' m"
  "\<And>d' j m. parse_mapping ls d i indent depth n = Inr (d', j, m) \<Longrightarrow> mapping depth d n d' m"
  "\<And>v j m. parse_item ls body i indent depth n = Inr (v, j, m) \<Longrightarrow> item depth n v m"
  "\<And>vs' j m. parse_sequence ls vs i indent depth n = Inr (vs', j, m) \<Longrightarrow> elements depth vs n vs' m"
proof (induction ls i indent depth n and ls i indent depth n and ls d key raw i indent depth n
    and ls d i indent depth n and ls body i indent depth n and ls vs i indent depth n
    rule: parse_total_induct)
  case (1 ls i indent depth n)
  from 1(3) show ?case unfolding parse_block_Inr
    using 1(1,2) block_list block_dict by (auto split: if_splits)
next
  case (2 ls i parent depth n)
  from 2(2) show ?case unfolding parse_child_Inr using 2(1) by auto
next
  case (3 ls d key raw i indent depth n)
  show ?case
  proof (cases raw)
    case None
    with 3(3) obtain v where v: "PStr key \<notin> fst ` set d" "Suc n \<le> MAX_NODES" "d' = d @ [(PStr key, v)]"
      "parse_child ls i indent depth (Suc n) = Inr (v, j, m)" by (auto simp: parse_put_Inr)
    then have "block (Suc depth) (Suc n) v m" using 3(1) [OF v(1) _ None v(4)] by simp
    with 3(2) v show ?thesis by (auto intro: entry_block)
  next
    case (Some raw')
    with 3 show ?thesis by (auto simp: parse_put_Inr intro: entry_scalar)
  qed
next
  case (4 ls d i indent depth n)
  show ?case
  proof (cases "entry_at ls i indent False")
    case True
    with 4(3) obtain key raw d1 i1 n1 where r: "yaml_pair (yl_body (ls ! i)) = Inr (key, raw)"
      "parse_put ls d key raw (Suc i) indent depth n = Inr (d1, i1, n1)"
      "parse_mapping ls d1 i1 indent depth n1 = Inr (d', j, m)"
      by (subst (asm) parse_mapping_Inr) auto
    have "entry depth d n d1 n1" using 4(1) [OF True r(1) refl yaml_pair_closed [OF r(1)]] r(2) by simp
    moreover have "mapping depth d1 n1 d' m"
      using 4(2) [OF True r(1) refl _ refl refl r(3)] r(2) by simp
    ultimately show ?thesis by (rule mapping_step)
  next
    case False
    with 4(3) show ?thesis by (subst (asm) parse_mapping_Inr) (auto intro: mapping_stop)
  qed
next
  case (5 ls body i indent depth n)
  show ?case
  proof (cases "body = []")
    case True
    with 5(4) 5(1) item_block show ?thesis by (auto simp: parse_item_Inr)
  next
    case False
    show ?thesis
    proof (cases "yaml_pair body")
      case (Inl e)
      with False 5(4) item_scalar show ?thesis by (auto simp: parse_item_Inr)
    next
      case (Inr kr)
      then obtain key raw where kr: "yaml_pair body = Inr (key, raw)" by (cases kr) auto
      with False 5(4) obtain d1 i1 n1 d where r: "Suc n \<le> MAX_NODES"
        "parse_put ls [] key raw i (indent + 2) (Suc depth) (Suc n) = Inr (d1, i1, n1)"
        "parse_mapping ls d1 i1 (indent + 2) (Suc depth) n1 = Inr (d, j, m)" "v = PDict d"
        by (auto simp: parse_item_Inr)
      have c: "count_node n = Inr (Suc n)" using r(1) by simp
      have "entry (Suc depth) [] (Suc n) d1 n1"
        using 5(2) [OF False kr refl c yaml_pair_closed [OF kr]] r(2) by simp
      moreover have "mapping (Suc depth) d1 n1 d m"
        using 5(3) [OF False kr refl c _ refl refl] r(2,3) by simp
      ultimately show ?thesis using item_dict r(1,4) by blast
    qed
  qed
next
  case (6 ls vs i indent depth n)
  show ?case
  proof (cases "entry_at ls i indent True")
    case True
    with 6(3) obtain v i1 n1 where r: "parse_item ls (yl_body (ls ! i)) (Suc i) indent depth n = Inr (v, i1, n1)"
      "parse_sequence ls (vs @ [v]) i1 indent depth n1 = Inr (vs', j, m)"
      by (subst (asm) parse_sequence_Inr) auto
    have "item depth n v n1" using 6(1) [OF True] r(1) by simp
    moreover have "elements depth (vs @ [v]) n1 vs' m" using 6(2) [OF True _ refl refl r(2)] r(1) by simp
    ultimately show ?thesis by (rule elements_step)
  next
    case False
    with 6(3) show ?thesis by (subst (asm) parse_sequence_Inr) (auto intro: elements_stop)
  qed
qed

end

subsection \<open>The promises of the parser\<close>

interpretation node_count: parse_invariant
  "\<lambda>depth n v m. m = n + yaml_nodes v \<and> m \<le> MAX_NODES"
  "\<lambda>depth d n d' m. m + dict_nodes d = n + dict_nodes d' \<and> m \<le> MAX_NODES"
  "\<lambda>depth d n d' m. m + dict_nodes d = n + dict_nodes d' \<and> (n \<le> MAX_NODES \<longrightarrow> m \<le> MAX_NODES)"
  "\<lambda>depth n v m. m = n + yaml_nodes v \<and> m \<le> MAX_NODES"
  "\<lambda>depth vs n vs' m. m + list_nodes vs = n + list_nodes vs' \<and> (n \<le> MAX_NODES \<longrightarrow> m \<le> MAX_NODES)"
  by unfold_locales (auto simp: yaml_scalar_closed(2))

interpretation closedness: parse_invariant
  "\<lambda>depth n v m. closed_value v"
  "\<lambda>depth d n d' m. closed_value (PDict d) \<longrightarrow> closed_value (PDict d')"
  "\<lambda>depth d n d' m. closed_value (PDict d) \<longrightarrow> closed_value (PDict d')"
  "\<lambda>depth n v m. closed_value v"
  "\<lambda>depth vs n vs' m. closed_value (PList vs) \<longrightarrow> closed_value (PList vs')"
  by unfold_locales (auto dest: yaml_scalar_closed(1))

text \<open>A block of depth \<open>k\<close> has at most \<open>67 - k\<close> levels: blocks to depth 64, an inline mapping, an empty container.\<close>

definition fits :: "nat \<Rightarrow> pyval \<Rightarrow> bool" where
  "fits depth v \<longleftrightarrow> nesting v \<le> MAX_YAML_DEPTH + 3 - depth"

lemma fits_containers:
  "depth \<le> MAX_YAML_DEPTH + 2 \<Longrightarrow> fits depth (PDict d) \<longleftrightarrow> list_all (\<lambda>kv. fits (Suc depth) (snd kv)) d"
  "depth \<le> MAX_YAML_DEPTH + 2 \<Longrightarrow> fits depth (PList vs) \<longleftrightarrow> list_all (fits (Suc depth)) vs"
  unfolding fits_def by (simp_all add: nesting_le_iff list_all_iff del: nesting.simps)

lemma fits_scalar: "yaml_scalar raw = Inr v \<Longrightarrow> depth \<le> MAX_YAML_DEPTH + 2 \<Longrightarrow> fits depth v"
  by (drule yaml_scalar_closed(3)) (simp add: fits_def)

interpretation nesting_bound: parse_invariant
  "\<lambda>depth n v m. fits depth v"
  "\<lambda>depth d n d' m. depth \<le> MAX_YAML_DEPTH + 1 \<longrightarrow> list_all (\<lambda>kv. fits (Suc depth) (snd kv)) d \<longrightarrow>
     list_all (\<lambda>kv. fits (Suc depth) (snd kv)) d'"
  "\<lambda>depth d n d' m. depth \<le> MAX_YAML_DEPTH + 1 \<longrightarrow> list_all (\<lambda>kv. fits (Suc depth) (snd kv)) d \<longrightarrow>
     list_all (\<lambda>kv. fits (Suc depth) (snd kv)) d'"
  "\<lambda>depth n v m. depth \<le> MAX_YAML_DEPTH \<longrightarrow> fits (Suc depth) v"
  "\<lambda>depth vs n vs' m. depth \<le> MAX_YAML_DEPTH \<longrightarrow> list_all (fits (Suc depth)) vs \<longrightarrow> list_all (fits (Suc depth)) vs'"
  by unfold_locales (simp_all add: fits_containers fits_scalar)

lemma decode_lines_Inr:
  assumes "decode_lines ls = Inr d"
  shows "closed_value (PDict d)" "yaml_nodes (PDict d) \<le> MAX_NODES" "nesting (PDict d) \<le> MAX_YAML_DEPTH + 3"
proof -
  consider "d = []" | i n where "parse_block ls 0 0 0 0 = Inr (PDict d, i, n)"
    using assms by (auto simp: decode_lines_def split: if_splits pyval.splits)
  then have "closed_value (PDict d) \<and> yaml_nodes (PDict d) \<le> MAX_NODES \<and> nesting (PDict d) \<le> MAX_YAML_DEPTH + 3"
  proof cases
    case 1
    then show ?thesis by (simp add: MAX_NODES_def)
  next
    case 2
    from closedness.parse_holds(1) [OF 2] node_count.parse_holds(1) [OF 2] nesting_bound.parse_holds(1) [OF 2]
    show ?thesis by (simp add: fits_def del: nesting.simps)
  qed
  then show "closed_value (PDict d)" "yaml_nodes (PDict d) \<le> MAX_NODES" "nesting (PDict d) \<le> MAX_YAML_DEPTH + 3"
    by simp_all
qed

subsection \<open>What the decoder raises\<close>

lemma text_bytes_raises [raises]: "only_raises is_yaml_error (text_bytes msg s limit)"
  by (auto simp: text_bytes_def utf8_encode_def only_raises_def)

lemma yaml_line_of_raises: "only_raises is_yaml_error (yaml_line_of raw)"
  by (auto simp: yaml_line_of_def Let_def)

lemma prepare_lines_raises [raises]: "only_raises is_yaml_error (prepare_lines v)"
proof -
  have "only_raises is_yaml_error (map_r yaml_line_of ws)" for ws
    using yaml_line_of_raises by (induction ws) (auto intro!: only_raises_bind)
  then show ?thesis
    by (auto simp: prepare_lines_def Let_def split: pyval.splits intro!: only_raises_bind text_bytes_raises)
qed

lemma yaml_pair_raises [raises]: "only_raises is_yaml_error (yaml_pair body)"
  unfolding yaml_pair_def Let_def
  by (intro only_raises_if only_raises_bind text_bytes_raises) simp_all

lemma unquote_single_raises: "only_raises is_yaml_error (unquote_single n s)"
proof (induction n s rule: unquote_single.induct)
  case (2 decoded c s)
  show ?case
  proof (cases "c = 39")
    case True
    with 2 show ?thesis
      by (cases s) (simp_all only: unquote_single.simps list.case if_True refl, auto intro!: only_raises_if only_raises_bind)
  next
    case False
    with 2 show ?thesis
      by (simp only: unquote_single.simps if_False) (auto intro!: only_raises_if only_raises_bind)
  qed
qed simp

declare unquote_single.simps(2) [simp del]

lemma safe_decoded_text_raises: "only_raises is_yaml_error (safe_decoded_text s)"
  by (simp add: safe_decoded_text_def)

lemma scan_string_raises: "only_raises (\<lambda>e. e = JSONDecodeError) (scan_string s)"
  using scan_string_error by (auto simp: only_raises_def)

lemma quoted_double_raises:
  assumes "starts_with [34] raw"
  shows "only_raises is_yaml_error (quoted_double raw)"
proof -
  obtain s where raw: "raw = 34 # s" using assms by (cases raw) (auto simp: starts_with_def)
  then have "json_value default_hook 1 (skip_ws raw) = bind_r (scan_string s) (\<lambda>(t, r). Inr (PStr t, r))"
    by (simp add: skip_ws_def json_ws_def json_scalar_def)
  then have "only_raises (\<lambda>e. e = JSONDecodeError) (json_loads default_hook 1 raw)"
    using raw by (auto simp: json_loads_def intro!: only_raises_bind scan_string_raises)
  then have "only_raises is_yaml_error (try_r (json_loads default_hook 1 raw) (\<lambda>e. if e = JSONDecodeError
      then yaml_error ''double-quoted scalar is malformed'' else Inl e))"
    by (cases "json_loads default_hook 1 raw") auto
  then show ?thesis
    by (auto simp: quoted_double_def intro!: only_raises_bind text_bytes_raises safe_decoded_text_raises split: pyval.splits)
qed

lemma yaml_scalar_raises [raises]: "only_raises is_yaml_error (yaml_scalar raw)"
  unfolding yaml_scalar_def plain_scalar_def quoted_single_def
  by (intro only_raises_if only_raises_bind text_bytes_raises quoted_double_raises unquote_single_raises
      safe_decoded_text_raises) simp_all

lemma count_node_raises [raises]: "only_raises is_yaml_error (count_node n)"
  by (simp add: count_node_def)

lemma parse_raises:
  "only_raises is_yaml_error (parse_block ls i indent depth n)"
  "only_raises is_yaml_error (parse_child ls i indent depth n)"
  "only_raises is_yaml_error (parse_put ls d key raw i indent depth n)"
  "only_raises is_yaml_error (parse_mapping ls d i indent depth n)"
  "only_raises is_yaml_error (parse_item ls body i indent depth n)"
  "only_raises is_yaml_error (parse_sequence ls vs i indent depth n)"
proof (induction ls i indent depth n and ls i indent depth n and ls d key raw i indent depth n
    and ls d i indent depth n and ls body i indent depth n and ls vs i indent depth n
    rule: parse_total_induct)
  case (1 ls i indent depth n)
  then show ?case
    by (subst parse_block.simps) (auto intro!: only_raises_if only_raises_bind count_node_raises)
next
  case (2 ls i parent depth n)
  then show ?case by (subst parse_child.simps) auto
next
  case (3 ls d key raw i indent depth n)
  then show ?case
    by (subst parse_put.simps)
      (auto intro!: only_raises_if only_raises_bind count_node_raises yaml_scalar_raises split: option.splits)
next
  case (4 ls d i indent depth n)
  then show ?case
    by (subst parse_mapping.simps) (auto intro!: only_raises_if only_raises_bind yaml_pair_raises)
next
  case (5 ls body i indent depth n)
  then show ?case
    using only_raisesD [OF yaml_pair_raises, of body]
    by (subst parse_item.simps)
      (auto intro!: only_raises_if only_raises_bind count_node_raises yaml_scalar_raises split: sum.splits)
next
  case (6 ls vs i indent depth n)
  then show ?case by (subst parse_sequence.simps) (auto intro!: only_raises_if only_raises_bind)
qed

lemma decode_raises: "only_raises is_yaml_error (decode_closed_yaml v)"
  unfolding decode_closed_yaml_def decode_lines_def
  by (auto intro!: only_raises_if only_raises_bind prepare_lines_raises parse_raises count_node_raises split: pyval.splits)

end
