(* ===== verification/KilYamlPrint.thy ===== *)
theory KilYamlPrint
  imports KilYamlDecode KilCanonical
begin

text \<open>
  A printer of closed values in the subset the decoder accepts, and the round trip: whatever
  closed mapping is printed within the decoder's bounds is decoded to itself.
\<close>

subsection \<open>The printer\<close>

definition quote_text :: "pstr \<Rightarrow> pstr" where
  "quote_text s = 39 # concat (map (\<lambda>c. if c = 39 then [39, 39] else [c]) s) @ [39]"

text \<open>Empty containers are written like scalars.\<close>

fun leaf :: "pyval \<Rightarrow> bool" where
  "leaf (PList vs) = (vs = [])"
| "leaf (PDict kvs) = (kvs = [])"
| "leaf _ = True"

fun scalar_text :: "pyval \<Rightarrow> pstr" where
  "scalar_text PNone = u ''null''"
| "scalar_text (PBool b) = (if b then u ''true'' else u ''false'')"
| "scalar_text (PInt n) = int_text n"
| "scalar_text (PStr s) = quote_text s"
| "scalar_text (PList _) = u ''[]''"
| "scalar_text (PDict _) = u ''{}''"
| "scalar_text _ = []"

function block_lines :: "nat \<Rightarrow> pyval \<Rightarrow> yaml_line list" where
  "block_lines ind (PDict kvs) = concat (map (\<lambda>kv.
     if leaf (snd kv)
     then [\<lparr>yl_indent = ind, yl_sequence = False, yl_body = key_text (fst kv) @ [58, 32] @ scalar_text (snd kv)\<rparr>]
     else \<lparr>yl_indent = ind, yl_sequence = False, yl_body = key_text (fst kv) @ [58]\<rparr> # block_lines (ind + 2) (snd kv)) kvs)"
| "block_lines ind (PList vs) = concat (map (\<lambda>v.
     if leaf v then [\<lparr>yl_indent = ind, yl_sequence = True, yl_body = scalar_text v\<rparr>]
     else \<lparr>yl_indent = ind, yl_sequence = True, yl_body = []\<rparr> # block_lines (ind + 2) v) vs)"
| "block_lines ind PNone = []"
| "block_lines ind (PBool _) = []"
| "block_lines ind (PInt _) = []"
| "block_lines ind (PFloat _) = []"
| "block_lines ind (PStr _) = []"
| "block_lines ind (PBytes _) = []"
| "block_lines ind (PDec _) = []"
| "block_lines ind (PEnum _ _) = []"
| "block_lines ind (PTuple _) = []"
| "block_lines ind (PRec _ _) = []"
| "block_lines ind (PObj _) = []"
  by pat_completeness auto
termination
  by (relation "measure (\<lambda>(_, v). size v)") (auto dest: size_dict_value size_list_value)

definition document_lines :: "pydict \<Rightarrow> yaml_line list" where
  "document_lines d = (if d = [] then [\<lparr>yl_indent = 0, yl_sequence = False, yl_body = u ''{}''\<rparr>] else block_lines 0 (PDict d))"

definition line_text :: "yaml_line \<Rightarrow> pstr" where
  "line_text l = replicate (yl_indent l) 32
     @ (if yl_sequence l then (if yl_body l = [] then [45] else [45, 32] @ yl_body l) else yl_body l)"

definition document_text :: "pydict \<Rightarrow> pstr" where
  "document_text d = concat (map (\<lambda>l. line_text l @ [10]) (document_lines d))"

subsection \<open>Scalars are read back\<close>

lemma utf8_width_length: "is_scalar c \<Longrightarrow> utf8_width c = length (utf8_char c)"
  by (auto simp: utf8_width_def utf8_char_def)

lemma unquote_quoted:
  assumes "list_all is_scalar s" "n + length (concat (map utf8_char s)) \<le> MAX_SCALAR"
  shows "unquote_single n (concat (map (\<lambda>c. if c = 39 then [39, 39] else [c]) s)) = Inr s"
  using assms
proof (induction s arbitrary: n)
  case (Cons c s)
  have w: "utf8_width c = length (utf8_char c)" using Cons.prems(1) by (simp add: utf8_width_length)
  have "unquote_single (n + utf8_width c) (concat (map (\<lambda>c. if c = 39 then [39, 39] else [c]) s)) = Inr s"
    using Cons w by simp
  moreover have "\<not> int n > int MAX_SCALAR - int (utf8_width c)" using Cons.prems(2) w by simp
  ultimately show ?case by (auto simp: unquote_single.simps(2))
qed simp

lemma quoted_single_quote_text: "closed_text s \<Longrightarrow> quoted_single (quote_text s) = Inr s"
  using unquote_quoted [of s 0]
  by (simp add: quoted_single_def quote_text_def ends_with_def starts_with_def closed_text_def butlast_append
      text_bytes_def utf8_encode_def safe_decoded_text_def)

lemma INTEGER_int_text: "fullmatch INTEGER (int_text n)"
proof -
  have star: "matches (Star digit_re) ds" if "\<forall>c \<in> set ds. 48 \<le> c \<and> c \<le> 57" for ds
    using that by (auto simp: digit_re_def cls_def digit_class_def matches_star_class in_class_def list_all_iff)
  have digits: "\<exists>c ds. nat_digits k = c # ds \<and> 49 \<le> c \<and> c \<le> 57 \<and> (\<forall>c \<in> set ds. 48 \<le> c \<and> c \<le> 57)" if "0 < k" for k
    using that
  proof (induction k rule: nat_digits.induct)
    case (1 k)
    show ?case
    proof (cases "k < 10")
      case True
      with 1 show ?thesis by (subst nat_digits.simps) auto
    next
      case False
      then obtain c ds where "nat_digits (k div 10) = c # ds" "49 \<le> c" "c \<le> 57" "\<forall>c \<in> set ds. 48 \<le> c \<and> c \<le> 57"
        using 1(1) by force
      with False show ?thesis by (subst nat_digits.simps) auto
    qed
  qed
  have positive: "matches (Seq (cls [(CHR ''1'', CHR ''9'')]) (Star digit_re)) (nat_digits k)" if pos: "0 < k" for k
  proof -
    obtain c ds where d: "nat_digits k = c # ds" "49 \<le> c" "c \<le> 57" "\<forall>c \<in> set ds. 48 \<le> c \<and> c \<le> 57"
      using digits [OF pos] by blast
    have "matches (cls [(CHR ''1'', CHR ''9'')]) [c]"
      using d(2,3) unfolding cls_def by (intro matches.chars) (simp add: in_class_def)
    from matches.seq [OF this star [OF d(4)]] d(1) show ?thesis by simp
  qed
  have minus: "matches (lit ''-'') [45]" "matches (lit ''0'') [48]"
    by (auto simp: cls_def in_class_def intro!: matches.chars)
  show ?thesis
  proof (cases "n = 0")
    case True
    with minus(2) show ?thesis
      by (auto simp: fullmatch_iff INTEGER_def int_text_def nat_digits.simps intro: matches.alt1 simp del: lit.simps)
  next
    case False
    show ?thesis
    proof (cases "n < 0")
      case True
      then have "matches (seqs [lit ''-'', cls [(CHR ''1'', CHR ''9'')], Star digit_re]) ([45] @ nat_digits (nat (- n)))"
        using minus(1) positive [of "nat (- n)"] by (auto intro!: matches.seq [of _ "[45]", simplified] simp del: lit.simps)
      with True show ?thesis
        by (auto simp: fullmatch_iff INTEGER_def int_text_def intro: matches.alt1 matches.alt2 simp del: lit.simps seqs.simps)
    next
      case not_neg: False
      then have "matches (seqs [cls [(CHR ''1'', CHR ''9'')], Star digit_re]) (nat_digits (nat n))"
        using \<open>n \<noteq> 0\<close> positive [of "nat n"] by simp
      with not_neg show ?thesis
        by (auto simp: fullmatch_iff INTEGER_def int_text_def intro: matches.alt1 matches.alt2 simp del: lit.simps seqs.simps)
    qed
  qed
qed

lemma int_text_chars: "c \<in> set (int_text n) \<Longrightarrow> c = 45 \<or> (48 \<le> c \<and> c \<le> 57)"
  using nat_digits_digit by (auto simp: int_text_def is_digit_def split: if_splits)

lemma int_text_head:
  "int_text n \<noteq> []" "starts_with [45] (int_text n) \<longleftrightarrow> n < 0" "starts_with [34] (int_text n) = False"
proof -
  show ne: "int_text n \<noteq> []" by (simp add: int_text_def)
  obtain c cs where c: "int_text n = c # cs" using ne by (cases "int_text n") auto
  have "c = 45 \<longleftrightarrow> n < 0"
  proof (cases "n < 0")
    case False
    then have "c \<in> set (nat_digits (nat n))" using c by (simp add: int_text_def)
    from nat_digits_digit [OF this] False show ?thesis by (auto simp: is_digit_def)
  qed (use c in \<open>simp add: int_text_def\<close>)
  then show "starts_with [45] (int_text n) \<longleftrightarrow> n < 0" by (simp add: c starts_with_def)
  show "starts_with [34] (int_text n) = False" using int_text_chars [of c n] c by (auto simp: starts_with_def)
qed

lemma yaml_scalar_int:
  assumes "\<bar>n\<bar> < 10 ^ MAX_INTEGER_DIGITS"
  shows "yaml_scalar (int_text n) = Inr (PInt n)"
proof -
  have words: "int_text n \<noteq> u w" if odd_w: "list_ex (\<lambda>c. c \<noteq> 45 \<and> (c < 48 \<or> 57 < c)) (u w)" for w
  proof
    assume eq: "int_text n = u w"
    obtain c where "c \<in> set (int_text n)" "c \<noteq> 45" "c < 48 \<or> 57 < c"
      using odd_w unfolding eq by (auto simp only: list_ex_iff)
    with int_text_chars [of c n] show False by auto
  qed
  have val: "integer_value (int_text n) = n"
    using int_text_head(2) [of n] by (simp add: integer_value_def) (auto simp: int_text_def)
  have "nat \<bar>n\<bar> < 10 ^ MAX_INTEGER_DIGITS" using assms by (simp add: nat_less_iff)
  moreover have "0 < MAX_INTEGER_DIGITS" by (simp add: MAX_INTEGER_DIGITS_def)
  ultimately have "ndigits (nat \<bar>n\<bar>) \<le> MAX_INTEGER_DIGITS" by (simp add: ndigits_le_iff)
  then have "int (length (int_text n)) - (if starts_with [45] (int_text n) then 1 else 0) \<le> int MAX_INTEGER_DIGITS"
    using int_text_head(2) [of n] by (auto simp: int_text_def length_nat_digits)
  moreover have "int_text n \<noteq> u ''{}''" "int_text n \<noteq> u ''[]''" "int_text n \<noteq> u ''null''"
    "int_text n \<noteq> u ''true''" "int_text n \<noteq> u ''false''"
    by (rule words, simp add: u_def)+
  ultimately show ?thesis
    unfolding yaml_scalar_def using INTEGER_int_text [of n] val by simp
qed

lemma not_integer_quoted: "\<not> fullmatch INTEGER (39 # s)"
  using INTEGER_digits [of "39 # s"] by (auto simp: starts_with_def)

lemma yaml_scalar_text: "closed_text s \<Longrightarrow> yaml_scalar (quote_text s) = Inr (PStr s)"
  using quoted_single_quote_text [of s] not_integer_quoted
  by (simp add: yaml_scalar_def quote_text_def starts_with_def) (simp add: u_def)

lemma yaml_scalar_leaf: "closed_value v \<Longrightarrow> leaf v \<Longrightarrow> yaml_scalar (scalar_text v) = Inr v"
  by (cases v) (auto simp: yaml_scalar_int yaml_scalar_text, auto simp: yaml_scalar_def)

text \<open>No scalar is taken for an entry, and entries are taken apart at their colon.\<close>

lemma class_avoids:
  "fullmatch r s \<Longrightarrow> list_all (\<lambda>(a, b). b < k \<or> k < a) (alphabet r) \<Longrightarrow> c \<in> set s \<Longrightarrow> c \<noteq> k"
  using matches_alphabet [of r s] by (fastforce simp: fullmatch_iff list_all_iff in_class_def list_ex_iff)

lemma key_no_colon: "fullmatch KEY s \<Longrightarrow> c \<in> set s \<Longrightarrow> c \<noteq> 58"
  by (rule class_avoids) (simp_all, code_simp)

lemma key_no_quote: "fullmatch KEY s \<Longrightarrow> c \<in> set s \<Longrightarrow> c \<noteq> 39"
  using key_chars [of s c] by auto

lemma key_no_angle: "fullmatch KEY s \<Longrightarrow> c \<in> set s \<Longrightarrow> c \<noteq> 60"
  by (rule class_avoids) (simp_all, code_simp)

lemma key_not_Nil: "\<not> fullmatch KEY []"
  by code_simp

lemma yaml_pair_entry:
  assumes "closed_key k" "t \<noteq> []" "10 \<notin> set t"
  shows "yaml_pair (k @ [58]) = Inr (k, None)" "yaml_pair (k @ [58, 32] @ t) = Inr (k, Some t)"
proof -
  have key: "fullmatch KEY k" "lower k \<notin> u ` set RESERVED_KEYS" "length k \<le> MAX_SCALAR"
    using assms(1) by (simp_all add: closed_key_def)
  have "\<forall>c \<in> set k. c \<noteq> 58" using key_no_colon [OF key(1)] by blast
  then have split: "takeWhile (\<lambda>c. c \<noteq> 58) (k @ 58 # r) = k" for r
    by (subst takeWhile_append2) auto
  have ne: "k \<noteq> []" "k \<noteq> u ''<<''"
    using key_not_Nil key_no_angle [OF key(1)] key(1) by (auto simp: u_def)
  have ascii: "\<forall>c \<in> set k. 32 \<le> c \<and> c \<le> 126" using key_chars [OF key(1)] by fastforce
  obtain b where b: "text_bytes ''mapping key'' k MAX_SCALAR = Inr b"
    using ascii_text [OF ascii] key(3) by (auto simp: text_bytes_Inr)
  show "yaml_pair (k @ [58]) = Inr (k, None)"
    by (simp add: yaml_pair_def Let_def split ne key b)
  show "yaml_pair (k @ [58, 32] @ t) = Inr (k, Some t)"
    using assms(2,3) by (simp add: yaml_pair_def Let_def split ne key b starts_with_def)
qed

lemma yaml_pair_scalar:
  assumes "closed_value v" "leaf v"
  shows "\<exists>e. yaml_pair (scalar_text v) = Inl e \<and> is_yaml_error e"
proof -
  have plain: "\<exists>e. yaml_pair s = Inl e \<and> is_yaml_error e" if "58 \<notin> set s" for s
  proof -
    have whole: "takeWhile (\<lambda>c. c \<noteq> 58) s = s" using that by (auto simp: takeWhile_eq_all_conv)
    show ?thesis unfolding yaml_pair_def Let_def whole by (simp add: starts_with_def)
  qed
  have quoted: "\<exists>e. yaml_pair (39 # s) = Inl e \<and> is_yaml_error e" for s
    using key_no_quote [of "39 # takeWhile (\<lambda>c. c \<noteq> 58) s" 39]
    by (auto simp: yaml_pair_def Let_def simp del: fullmatch.simps)
  have "58 \<notin> set (int_text n)" for n using int_text_chars [of 58 n] by auto
  with assms show ?thesis
    by (cases v) (simp_all add: plain quoted quote_text_def u_def)
qed

subsection \<open>Blocks are read back\<close>

definition entry_lines :: "nat \<Rightarrow> pyval \<times> pyval \<Rightarrow> yaml_line list" where
  "entry_lines ind kv =
     (if leaf (snd kv)
      then [\<lparr>yl_indent = ind, yl_sequence = False, yl_body = key_text (fst kv) @ [58, 32] @ scalar_text (snd kv)\<rparr>]
      else \<lparr>yl_indent = ind, yl_sequence = False, yl_body = key_text (fst kv) @ [58]\<rparr> # block_lines (ind + 2) (snd kv))"

definition item_lines :: "nat \<Rightarrow> pyval \<Rightarrow> yaml_line list" where
  "item_lines ind v =
     (if leaf v then [\<lparr>yl_indent = ind, yl_sequence = True, yl_body = scalar_text v\<rparr>]
      else \<lparr>yl_indent = ind, yl_sequence = True, yl_body = []\<rparr> # block_lines (ind + 2) v)"

lemma block_lines_containers:
  "block_lines ind (PDict kvs) = concat (map (entry_lines ind) kvs)"
  "block_lines ind (PList vs) = concat (map (item_lines ind) vs)"
  by (simp_all add: entry_lines_def [abs_def] item_lines_def [abs_def])

declare block_lines.simps(1,2) [simp del]

lemma first_line:
  "\<exists>l ls. entry_lines ind kv = l # ls \<and> yl_indent l = ind \<and> \<not> yl_sequence l"
  "\<exists>l ls. item_lines ind v = l # ls \<and> yl_indent l = ind \<and> yl_sequence l"
  by (simp_all add: entry_lines_def item_lines_def)

text \<open>What follows a block is less indented, or nothing follows.\<close>

definition block_end :: "nat \<Rightarrow> yaml_line list \<Rightarrow> bool" where
  "block_end ind post \<longleftrightarrow> post = [] \<or> yl_indent (hd post) < ind"

lemma no_entry_at_end: "block_end ind post \<Longrightarrow> \<not> entry_at (pre @ post) (length pre) ind b"
  by (cases post) (auto simp: block_end_def entry_at_def)

lemma end_before_entries:
  "block_end ind post \<Longrightarrow> block_end (ind + 2) (concat (map (entry_lines ind) kvs) @ post)"
  "block_end ind post \<Longrightarrow> block_end (ind + 2) (concat (map (item_lines ind) vs) @ post)"
proof -
  assume e: "block_end ind post"
  show "block_end (ind + 2) (concat (map (entry_lines ind) kvs) @ post)"
  proof (cases kvs)
    case (Cons kv rest)
    then show ?thesis using first_line(1) [of ind kv] by (auto simp: block_end_def)
  qed (use e in \<open>auto simp: block_end_def\<close>)
  show "block_end (ind + 2) (concat (map (item_lines ind) vs) @ post)"
  proof (cases vs)
    case (Cons v rest)
    then show ?thesis using first_line(2) [of ind v] by (auto simp: block_end_def)
  qed (use e in \<open>auto simp: block_end_def\<close>)
qed

text \<open>A block is read back from its place among the lines, with its nodes counted.\<close>

definition block_read :: "pyval \<Rightarrow> bool" where
  "block_read v \<longleftrightarrow> (\<forall>ind pre post depth n. block_end ind post \<longrightarrow> depth + nesting v \<le> MAX_YAML_DEPTH + 1
     \<longrightarrow> n + yaml_nodes v \<le> MAX_NODES
     \<longrightarrow> parse_block (pre @ block_lines ind v @ post) (length pre) ind depth n
          = Inr (v, length pre + length (block_lines ind v), n + yaml_nodes v))"

lemma block_readD:
  assumes "block_read v" "block_end ind post" "depth + nesting v \<le> MAX_YAML_DEPTH + 1" "n + yaml_nodes v \<le> MAX_NODES"
  shows "parse_block (pre @ block_lines ind v @ post) (length pre) ind depth n
    = Inr (v, length pre + length (block_lines ind v), n + yaml_nodes v)"
  using assms unfolding block_read_def by blast

lemma block_lines_first:
  assumes "\<not> leaf v" "closed_value v"
  shows "\<exists>l ls. block_lines ind v = l # ls \<and> yl_indent l = ind \<and> (yl_sequence l \<longleftrightarrow> (\<exists>vs. v = PList vs))"
proof (cases v)
  case (PList vs)
  with assms obtain w ws where "vs = w # ws" by (cases vs) auto
  with PList first_line(2) [of ind w] show ?thesis by (auto simp: block_lines_containers)
next
  case (PDict kvs)
  with assms obtain kv rest where "kvs = kv # rest" by (cases kvs) auto
  with PDict first_line(1) [of ind kv] show ?thesis by (auto simp: block_lines_containers)
qed (use assms in auto)

lemma scalar_text_facts:
  assumes "closed_value v" "leaf v"
  shows "scalar_text v \<noteq> []" "10 \<notin> set (scalar_text v)" "yaml_nodes v = 1"
proof -
  show "yaml_nodes v = 1" using yaml_scalar_closed(2) [OF yaml_scalar_leaf [OF assms]] .
  show "scalar_text v \<noteq> []" using assms by (cases v) (auto simp: quote_text_def int_text_head(1))
  have "10 \<notin> set s" if "closed_text s" for s
    using that by (auto simp: closed_text_def unsafe_char_def list_ex_iff)
  moreover have "10 \<notin> set (int_text n)" for n using int_text_chars [of 10 n] by auto
  ultimately show "10 \<notin> set (scalar_text v)"
    using assms by (cases v) (auto simp: quote_text_def u_def split: if_splits)
qed

lemma parse_put_read:
  assumes "closed_key k" "closed_value v" "PStr k \<notin> fst ` set d"
    and read_v: "\<not> leaf v \<Longrightarrow> block_read v"
    and "block_end (ind + 2) post" "depth + 1 + nesting v \<le> MAX_YAML_DEPTH + 1" "n + 1 + yaml_nodes v \<le> MAX_NODES"
    and raw: "raw = (if leaf v then Some (scalar_text v) else None)"
    and ls: "ls = pre @ (if leaf v then [] else block_lines (ind + 2) v) @ post"
  shows "parse_put ls d k raw (length pre) ind depth n
    = Inr (d @ [(PStr k, v)], length pre + length (if leaf v then [] else block_lines (ind + 2) v), n + 1 + yaml_nodes v)"
proof (cases "leaf v")
  case True
  with assms scalar_text_facts(3) [OF assms(2) True] yaml_scalar_leaf [OF assms(2) True] show ?thesis
    by (simp add: parse_put_Inr)
next
  case False
  obtain l rest where l: "block_lines (ind + 2) v = l # rest" "yl_indent l = ind + 2"
    using block_lines_first [OF False assms(2)] by blast
  have at: "ls ! length pre = l" "length pre < length ls" using ls False l(1) by simp_all
  have "parse_block ls (length pre) (ind + 2) (Suc depth) (Suc n)
    = Inr (v, length pre + length (block_lines (ind + 2) v), Suc n + yaml_nodes v)"
    using block_readD [OF read_v [OF False] assms(5), of "Suc depth" "Suc n" pre] assms(6,7) ls False by simp
  with at l(2) have "parse_child ls (length pre) ind depth (Suc n)
    = Inr (v, length pre + length (block_lines (ind + 2) v), Suc n + yaml_nodes v)"
    by (simp add: parse_child_Inr child_indents_def)
  with False assms(3,7) raw show ?thesis by (simp add: parse_put_Inr)
qed

lemma parse_mapping_read:
  assumes "closed_value (PDict (d @ kvs))" "\<forall>kv \<in> set kvs. \<not> leaf (snd kv) \<longrightarrow> block_read (snd kv)"
    and "block_end ind post" "\<forall>kv \<in> set kvs. depth + 1 + nesting (snd kv) \<le> MAX_YAML_DEPTH + 1"
    and "n + dict_nodes kvs \<le> MAX_NODES"
  shows "parse_mapping (pre @ concat (map (entry_lines ind) kvs) @ post) d (length pre) ind depth n
    = Inr (d @ kvs, length pre + length (concat (map (entry_lines ind) kvs)), n + dict_nodes kvs)"
  using assms
proof (induction kvs arbitrary: d pre n)
  case Nil
  then show ?case using no_entry_at_end [of ind post pre False] by (simp add: parse_mapping_Inr)
next
  case (Cons kv kvs)
  obtain k v where kv: "kv = (PStr k, v)" using Cons.prems(1) by (cases kv; cases "fst kv") auto
  define raw where "raw = (if leaf v then Some (scalar_text v) else None)"
  define own where "own = (if leaf v then [] else block_lines (ind + 2) v)"
  define l where "l = \<lparr>yl_indent = ind, yl_sequence = False,
    yl_body = if leaf v then k @ [58, 32] @ scalar_text v else k @ [58]\<rparr>"
  define rest where "rest = concat (map (entry_lines ind) kvs) @ post"
  have lines: "entry_lines ind (PStr k, v) = l # own" by (simp add: entry_lines_def l_def own_def)
  define ls where "ls = (pre @ [l]) @ own @ rest"
  have goal_ls: "pre @ concat (map (entry_lines ind) (kv # kvs)) @ post = ls" by (simp add: ls_def lines kv rest_def)
  have c: "closed_key k" "closed_value v" "PStr k \<notin> fst ` set d" using Cons.prems(1) kv by auto
  have at: "ls ! length pre = l" "entry_at ls (length pre) ind False" by (simp_all add: ls_def entry_at_def l_def)
  have pair: "yaml_pair (yl_body l) = Inr (k, raw)"
    using yaml_pair_entry [OF c(1), of "[0]"] yaml_pair_entry [OF c(1), of "scalar_text v"] scalar_text_facts [OF c(2)]
    by (simp add: l_def raw_def)
  have "parse_put ls d k raw (length (pre @ [l])) ind depth n
      = Inr (d @ [(PStr k, v)], length (pre @ [l]) + length own, n + 1 + yaml_nodes v)"
    unfolding own_def
    by (rule parse_put_read [OF c _ end_before_entries(1) [OF Cons.prems(3)] _ _ raw_def])
      (use Cons.prems(2,4,5) kv in \<open>auto simp: ls_def own_def rest_def\<close>)
  moreover have "parse_mapping ls (d @ [(PStr k, v)]) (Suc (length pre + length own)) ind depth (n + 1 + yaml_nodes v)
      = Inr (d @ kv # kvs, length pre + length (concat (map (entry_lines ind) (kv # kvs))), n + dict_nodes (kv # kvs))"
    using Cons.IH [of "d @ [kv]" "n + 1 + yaml_nodes v" "pre @ l # own"] Cons.prems kv
    by (simp add: lines ls_def rest_def add.assoc)
  ultimately show ?case unfolding goal_ls
    using at pair by (subst parse_mapping.simps) simp
qed

lemma parse_sequence_read:
  assumes "closed_value (PList (vs0 @ vs))" "\<forall>v \<in> set vs. \<not> leaf v \<longrightarrow> block_read v"
    and "block_end ind post" "\<forall>v \<in> set vs. depth + 1 + nesting v \<le> MAX_YAML_DEPTH + 1"
    and "n + list_nodes vs \<le> MAX_NODES"
  shows "parse_sequence (pre @ concat (map (item_lines ind) vs) @ post) vs0 (length pre) ind depth n
    = Inr (vs0 @ vs, length pre + length (concat (map (item_lines ind) vs)), n + list_nodes vs)"
  using assms
proof (induction vs arbitrary: vs0 pre n)
  case Nil
  then show ?case using no_entry_at_end [of ind post pre True] by (simp add: parse_sequence_Inr)
next
  case (Cons v vs)
  define own where "own = (if leaf v then [] else block_lines (ind + 2) v)"
  define l where "l = \<lparr>yl_indent = ind, yl_sequence = True, yl_body = if leaf v then scalar_text v else []\<rparr>"
  define rest where "rest = concat (map (item_lines ind) vs) @ post"
  define ls where "ls = (pre @ [l]) @ own @ rest"
  have lines: "item_lines ind v = l # own" by (simp add: item_lines_def l_def own_def)
  have goal_ls: "pre @ concat (map (item_lines ind) (v # vs)) @ post = ls" by (simp add: ls_def lines rest_def)
  have c: "closed_value v" using Cons.prems(1) by simp
  have at: "ls ! length pre = l" "entry_at ls (length pre) ind True" by (simp_all add: ls_def entry_at_def l_def)
  have item: "parse_item ls (yl_body l) (length (pre @ [l])) ind depth n
      = Inr (v, length (pre @ [l]) + length own, n + yaml_nodes v)"
  proof (cases "leaf v")
    case True
    obtain e where e: "yaml_pair (scalar_text v) = Inl e" "is_yaml_error e" using yaml_pair_scalar [OF c True] by blast
    with True scalar_text_facts [OF c True] yaml_scalar_leaf [OF c True] Cons.prems(5) show ?thesis
      by (simp add: parse_item_Inr l_def own_def)
  next
    case False
    obtain first more where first: "block_lines (ind + 2) v = first # more" "yl_indent first = ind + 2"
      using block_lines_first [OF False c] by blast
    have "bare_child_at ls (length (pre @ [l])) ind" using first False by (simp add: ls_def own_def bare_child_at_def nth_append)
    moreover have "parse_block ((pre @ [l]) @ block_lines (ind + 2) v @ rest) (length (pre @ [l])) (ind + 2) (Suc depth) n
        = Inr (v, length (pre @ [l]) + length (block_lines (ind + 2) v), n + yaml_nodes v)"
      by (rule block_readD) (use Cons.prems False end_before_entries(2) in \<open>auto simp: rest_def\<close>)
    ultimately show ?thesis using False by (simp add: parse_item_Inr l_def own_def ls_def)
  qed
  moreover have "parse_sequence ls (vs0 @ [v]) (Suc (length pre + length own)) ind depth (n + yaml_nodes v)
      = Inr (vs0 @ v # vs, length pre + length (concat (map (item_lines ind) (v # vs))), n + list_nodes (v # vs))"
    using Cons.IH [of "vs0 @ [v]" "n + yaml_nodes v" "pre @ l # own"] Cons.prems
    by (simp add: lines ls_def rest_def add.assoc)
  ultimately show ?case unfolding goal_ls
    using at by (subst parse_sequence.simps) simp
qed

lemma block_read_closed: "closed_value v \<Longrightarrow> \<not> leaf v \<Longrightarrow> block_read v"
proof (induction v rule: measure_induct_rule [of size])
  case (less v)
  show ?case
  proof (cases v)
    case (PList vs)
    have sub: "\<forall>w \<in> set vs. \<not> leaf w \<longrightarrow> block_read w"
      using less size_list_value [of _ vs] by (auto simp: PList list_all_iff)
    show ?thesis unfolding block_read_def
    proof (intro allI impI)
      fix ind pre post depth n
      assume a: "block_end ind post" "depth + nesting v \<le> MAX_YAML_DEPTH + 1" "n + yaml_nodes v \<le> MAX_NODES"
      obtain l rest where l: "block_lines ind v = l # rest" "yl_indent l = ind" "yl_sequence l"
        using block_lines_first [OF less.prems(2,1), of ind] PList by auto
      have "\<forall>w \<in> set vs. depth + 1 + nesting w \<le> MAX_YAML_DEPTH + 1"
        using a(2) nesting_elem [of _ vs] unfolding PList by fastforce
      then have "parse_sequence (pre @ block_lines ind v @ post) [] (length pre) ind depth (Suc n)
          = Inr (vs, length pre + length (block_lines ind v), n + yaml_nodes v)"
        using parse_sequence_read [of "[]" vs ind post depth "Suc n" pre] less.prems(1) sub a
        by (simp add: PList block_lines_containers)
      moreover have "depth \<le> MAX_YAML_DEPTH" using a(2) PList by simp
      ultimately show "parse_block (pre @ block_lines ind v @ post) (length pre) ind depth n
          = Inr (v, length pre + length (block_lines ind v), n + yaml_nodes v)"
        using l a(3) by (simp add: parse_block_Inr) (simp add: PList)
    qed
  next
    case (PDict kvs)
    have sub: "\<forall>kv \<in> set kvs. \<not> leaf (snd kv) \<longrightarrow> block_read (snd kv)"
      using less size_dict_value [of _ kvs] by (auto simp: PDict list_all_iff)
    show ?thesis unfolding block_read_def
    proof (intro allI impI)
      fix ind pre post depth n
      assume a: "block_end ind post" "depth + nesting v \<le> MAX_YAML_DEPTH + 1" "n + yaml_nodes v \<le> MAX_NODES"
      obtain l rest where l: "block_lines ind v = l # rest" "yl_indent l = ind" "\<not> yl_sequence l"
        using block_lines_first [OF less.prems(2,1), of ind] PDict by auto
      have "\<forall>kv \<in> set kvs. depth + 1 + nesting (snd kv) \<le> MAX_YAML_DEPTH + 1"
        using a(2) nesting_item [of _ kvs] unfolding PDict by fastforce
      then have "parse_mapping (pre @ block_lines ind v @ post) [] (length pre) ind depth (Suc n)
          = Inr (kvs, length pre + length (block_lines ind v), n + yaml_nodes v)"
        using parse_mapping_read [of "[]" kvs ind post depth "Suc n" pre] less.prems(1) sub a
        by (simp add: PDict block_lines_containers)
      moreover have "depth \<le> MAX_YAML_DEPTH" using a(2) PDict by simp
      ultimately show "parse_block (pre @ block_lines ind v @ post) (length pre) ind depth n
          = Inr (v, length pre + length (block_lines ind v), n + yaml_nodes v)"
        using l a(3) by (simp add: parse_block_Inr) (simp add: PDict)
    qed
  qed (use less.prems in auto)
qed

lemma decode_document_lines:
  assumes "closed_value (PDict d)" "nesting (PDict d) \<le> MAX_YAML_DEPTH + 1" "yaml_nodes (PDict d) \<le> MAX_NODES"
  shows "decode_lines (document_lines d) = Inr d"
proof (cases "d = []")
  case True
  then show ?thesis by (simp add: document_lines_def decode_lines_def bind_r_eq_Inr MAX_NODES_def)
next
  case False
  then have "parse_block ([] @ block_lines 0 (PDict d) @ []) (length ([] :: yaml_line list)) 0 0 0
      = Inr (PDict d, length ([] :: yaml_line list) + length (block_lines 0 (PDict d)), 0 + yaml_nodes (PDict d))"
    using assms by (intro block_readD block_read_closed) (simp_all add: block_end_def del: nesting.simps)
  moreover have "block_lines 0 (PDict d) \<noteq> [\<lparr>yl_indent = 0, yl_sequence = False, yl_body = u ''{}''\<rparr>]"
  proof
    assume eq: "block_lines 0 (PDict d) = [\<lparr>yl_indent = 0, yl_sequence = False, yl_body = u ''{}''\<rparr>]"
    obtain kv rest where d: "d = kv # rest" using False by (cases d) auto
    obtain k v where kv: "kv = (PStr k, v)" using assms(1) d by (cases kv; cases "fst kv") auto
    have "k @ [58, 32] @ scalar_text v = u ''{}'' \<or> k @ [58] = u ''{}''"
      using eq by (auto simp: d kv block_lines_containers entry_lines_def split: if_splits)
    then have "58 \<in> set (u ''{}'')" by (metis append_Cons in_set_conv_decomp)
    then show False by (simp add: u_def)
  qed
  ultimately show ?thesis using False by (simp add: document_lines_def decode_lines_def)
qed

end
