(* ===== verification/KilYamlRoundTrip.thy ===== *)
theory KilYamlRoundTrip
  imports KilYamlPrint
begin

text \<open>
  The printed lines as text: the decoder cuts the text of a document into the lines it was
  made of. With that the properties of \<^verbatim>\<open>decode_closed_yaml\<close>: its round trip, the bounds and
  form of what it returns, and the exception it raises.
\<close>

subsection \<open>Lines as text\<close>

definition text_char :: "nat \<Rightarrow> bool" where
  "text_char c \<longleftrightarrow> is_scalar c \<and> c \<noteq> 10 \<and> \<not> forbidden_char c"

definition good_body :: "bool \<Rightarrow> pstr \<Rightarrow> bool" where
  "good_body sequence body \<longleftrightarrow> list_all text_char body
     \<and> (if body = [] then sequence else last body \<noteq> 32 \<and> (sequence \<or> hd body \<notin> {32, 35, 37, 45, 46}))"

definition good_line :: "yaml_line \<Rightarrow> bool" where
  "good_line l \<longleftrightarrow> yl_indent l mod 2 = 0 \<and> good_body (yl_sequence l) (yl_body l)"

lemma ends_with_single: "ends_with [c] s \<longleftrightarrow> s \<noteq> [] \<and> last s = c"
  by (cases s rule: rev_cases) (auto simp: ends_with_def starts_with_def)

lemma yaml_line_of_text:
  assumes "good_line l"
  shows "yaml_line_of (line_text l) = Inr l"
proof -
  obtain ind sq body where l: "l = \<lparr>yl_indent = ind, yl_sequence = sq, yl_body = body\<rparr>" by (cases l)
  define rest where "rest = (if sq then (if body = [] then [45] else [45, 32] @ body) else body)"
  have written: "line_text l = replicate ind 32 @ rest" by (simp add: line_text_def l rest_def)
  have ok: "ind mod 2 = 0" "rest \<noteq> []" "hd rest \<noteq> 32" "last rest \<noteq> 32"
    using assms by (auto simp: good_line_def good_body_def l rest_def split: if_splits)
  have "takeWhile (\<lambda>c. c = 32) (replicate ind 32 @ rest) = replicate ind 32"
    using ok(2,3) by (cases rest) (simp_all add: takeWhile_append)
  then have cut: "length (takeWhile (\<lambda>c. c = 32) (line_text l)) = ind" "drop ind (line_text l) = rest"
    by (simp_all add: written)
  have "\<not> ends_with [32] (line_text l)" "line_text l \<noteq> []" using ok by (simp_all add: ends_with_single written)
  then have line: "yaml_line_of (line_text l) =
    (if starts_with [35] rest then yaml_error ''comments are forbidden''
     else if starts_with [37] rest \<or> rest = u ''---'' \<or> rest = u ''...''
     then yaml_error ''YAML directives and document markers are forbidden''
     else if rest = [45] then Inr \<lparr>yl_indent = ind, yl_sequence = True, yl_body = []\<rparr>
     else if starts_with [45, 32] rest then Inr \<lparr>yl_indent = ind, yl_sequence = True, yl_body = drop 2 rest\<rparr>
     else Inr \<lparr>yl_indent = ind, yl_sequence = False, yl_body = rest\<rparr>)"
    using ok(1,2) by (simp add: yaml_line_of_def cut)
  show ?thesis
  proof (cases sq)
    case True
    then show ?thesis unfolding line by (simp add: l rest_def starts_with_def u_def)
  next
    case False
    then obtain c cs where "rest = c # cs" "body = c # cs" "c \<noteq> 35" "c \<noteq> 37" "c \<noteq> 45" "c \<noteq> 46"
      using assms by (cases body) (auto simp: rest_def good_line_def good_body_def l)
    with False show ?thesis unfolding line by (simp add: l starts_with_def u_def)
  qed
qed

lemma split_on_lines:
  "\<forall>w \<in> set ws. 10 \<notin> set w \<Longrightarrow> split_on 10 (concat (map (\<lambda>w. w @ [10]) ws)) = ws @ [[]]"
  by (induction ws) (simp_all add: split_on_append)

lemma count_lines: "\<forall>w \<in> set ws. 10 \<notin> set w \<Longrightarrow> count_list (concat (map (\<lambda>w. w @ [10]) ws)) 10 = length ws"
  by (induction ws) (simp_all add: count_list_0_iff)

lemma text_char_safe: "is_scalar c \<Longrightarrow> \<not> unsafe_char c \<Longrightarrow> text_char c"
  by (auto simp: text_char_def unsafe_char_def forbidden_char_def)

lemma text_char_ascii: "32 \<le> c \<Longrightarrow> c \<le> 126 \<Longrightarrow> text_char c"
  by (auto simp: text_char_def forbidden_char_def is_scalar_def is_surrogate_def)

lemma line_text_chars: "good_line l \<Longrightarrow> list_all text_char (line_text l)"
  by (auto simp: good_line_def good_body_def line_text_def list_all_iff text_char_ascii)

lemma prepare_lines_text:
  assumes "ls \<noteq> []" "\<forall>l \<in> set ls. good_line l" "length ls < MAX_NODES"
    and "length (concat (map utf8_char (concat (map (\<lambda>l. line_text l @ [10]) ls)))) \<le> MAX_INPUT"
  shows "prepare_lines (PStr (concat (map (\<lambda>l. line_text l @ [10]) ls))) = Inr ls"
proof -
  define ws where "ws = map line_text ls"
  define s where "s = concat (map (\<lambda>w. w @ [10]) ws)"
  have s: "concat (map (\<lambda>l. line_text l @ [10]) ls) = s" by (simp add: s_def ws_def comp_def)
  have chars: "\<forall>w \<in> set ws. list_all text_char w" using assms(2) line_text_chars by (auto simp: ws_def)
  then have no_lf: "\<forall>w \<in> set ws. 10 \<notin> set w" by (auto simp: list_all_iff text_char_def)
  have all: "\<forall>c \<in> set s. is_scalar c \<and> \<not> forbidden_char c"
    using chars by (auto simp: s_def list_all_iff text_char_def is_scalar_def is_surrogate_def forbidden_char_def)
  then have scalar: "list_all is_scalar s" and "\<not> list_ex forbidden_char s" by (auto simp: list_all_iff list_ex_iff)
  have "length s \<le> length (concat (map utf8_char s))"
    by (induction s) (auto simp: utf8_char_def)
  then have bytes: "length s \<le> MAX_INPUT" "length (concat (map utf8_char s)) \<le> MAX_INPUT"
    using assms(4) s by simp_all
  then obtain b where b: "text_bytes ''closed YAML'' s MAX_INPUT = Inr b" using scalar by (auto simp: text_bytes_Inr)
  have raw: "raw_lines s = ws" using split_on_lines [OF no_lf] by (simp add: raw_lines_def s_def Let_def)
  have "ws \<noteq> []" using assms(1) by (simp add: ws_def)
  then have "ends_with [10] s" by (cases ws rule: rev_cases) (auto simp: s_def ends_with_single)
  moreover have "count_list s 10 = length ls" using count_lines [OF no_lf] by (simp add: s_def ws_def)
  moreover have "map_r yaml_line_of ws = Inr ls"
    using assms(2) yaml_line_of_text by (auto simp: ws_def map_r_eq_Inr list_all2_map1 intro!: list_all2_all_nthI)
  moreover have "\<not> MAX_LINES < length ls" using assms(3) by (simp add: MAX_NODES_def MAX_LINES_def)
  ultimately show ?thesis
    using \<open>\<not> list_ex forbidden_char s\<close> bytes b raw \<open>ws \<noteq> []\<close> assms(3)
    by (simp add: s prepare_lines_def Let_def)
qed

subsection \<open>The lines of a document are good\<close>

lemma scalar_text_good:
  assumes "closed_value v" "leaf v"
  shows "list_all text_char (scalar_text v)" "last (scalar_text v) \<noteq> 32"
proof -
  have "list_all text_char s" if "closed_text s" for s
    using that text_char_safe by (auto simp: closed_text_def list_all_iff list_ex_iff)
  moreover have "list_all text_char (int_text n)" for n
    using int_text_chars [of _ n] text_char_ascii by (force simp: list_all_iff)
  ultimately show "list_all text_char (scalar_text v)"
    using assms text_char_ascii by (cases v) (auto simp: quote_text_def u_def list_all_iff)
  have "last (int_text n) \<noteq> 32" for n
    using int_text_chars [of "last (int_text n)" n] int_text_head(1) [of n] by auto
  with assms show "last (scalar_text v) \<noteq> 32" by (cases v) (auto simp: quote_text_def u_def)
qed

lemma key_good:
  assumes "closed_key k"
  shows "k \<noteq> []" "list_all text_char k" "hd k \<notin> {32, 35, 37, 45, 46}"
proof -
  have k: "fullmatch KEY k" using assms by (simp add: closed_key_def)
  then show ne: "k \<noteq> []" using key_not_Nil by auto
  show "list_all text_char k" using key_chars [OF k] text_char_ascii by (force simp: list_all_iff)
  from k have "matches (Seq (cls (letter_class @ single ''_'')) (Star (cls (letter_class @ digit_class @ single ''_.-/'')))) k"
    by (simp add: fullmatch_iff KEY_def)
  then obtain s t where "k = s @ t" "matches (cls (letter_class @ single ''_'')) s" by (auto elim: matches_seq)
  then obtain c where "k = c # t" "in_class (map (\<lambda>(a, b). (of_char a, of_char b)) (letter_class @ single ''_'')) c"
    by (auto simp: cls_def elim: matches_chars)
  then show "hd k \<notin> {32, 35, 37, 45, 46}" by (auto simp: in_class_def letter_class_def single_def)
qed

lemma block_lines_good: "closed_value v \<Longrightarrow> ind mod 2 = 0 \<Longrightarrow> l \<in> set (block_lines ind v) \<Longrightarrow> good_line l"
proof (induction v arbitrary: ind l rule: measure_induct_rule [of size])
  case (less v)
  show ?case
  proof (cases v)
    case (PList vs)
    with less.prems(3) obtain w where w: "w \<in> set vs" "l \<in> set (item_lines ind w)" by (auto simp: block_lines_containers)
    then have c: "closed_value w" "size w < size v" using less.prems(1) size_list_value [of w vs] by (auto simp: PList list_all_iff)
    show ?thesis
      using w(2) less.IH [OF c(2,1), of "ind + 2" l] less.prems(2) scalar_text_good [OF c(1)] scalar_text_facts(1) [OF c(1)]
      by (auto simp: item_lines_def good_line_def good_body_def split: if_splits)
  next
    case (PDict kvs)
    with less.prems(3) obtain k w where w: "(k, w) \<in> set kvs" "l \<in> set (entry_lines ind (k, w))" by (auto simp: block_lines_containers)
    then have c: "closed_value w" "size w < size v" "keyed k"
      using less.prems(1) size_dict_value [of "(k, w)" kvs] by (auto simp: PDict list_all_iff)
    obtain key where key: "k = PStr key" "closed_key key" using c(3) by (cases k) auto
    show ?thesis
      using w(2) less.IH [OF c(2,1), of "ind + 2" l] less.prems(2) scalar_text_good [OF c(1)] scalar_text_facts(1) [OF c(1)]
        key_good [OF key(2)] text_char_ascii
      by (auto simp: entry_lines_def good_line_def good_body_def key(1) split: if_splits)
  qed (use less.prems in auto)
qed

text \<open>Every line has a node of its own, and the root has one more.\<close>

lemma block_lines_nodes: "closed_value v \<Longrightarrow> length (block_lines ind v) < yaml_nodes v"
proof (induction v arbitrary: ind rule: measure_induct_rule [of size])
  case (less v)
  show ?case
  proof (cases v)
    case (PList vs)
    have "length (item_lines ind w) \<le> yaml_nodes w" if "w \<in> set vs" for w
      using less.IH [of w "ind + 2"] less.prems that size_list_value [of w vs] scalar_text_facts(3) [of w]
      by (auto simp: item_lines_def PList list_all_iff)
    then have "(\<Sum>w\<leftarrow>vs. length (item_lines ind w)) \<le> list_nodes vs" by (rule sum_list_mono)
    then show ?thesis by (simp add: PList block_lines_containers length_concat comp_def)
  next
    case (PDict kvs)
    have "length (entry_lines ind kv) \<le> Suc (yaml_nodes (snd kv))" if "kv \<in> set kvs" for kv
      using less.IH [of "snd kv" "ind + 2"] less.prems that size_dict_value [of kv kvs]
      by (auto simp: entry_lines_def PDict list_all_iff)
    then have "(\<Sum>kv\<leftarrow>kvs. length (entry_lines ind kv)) \<le> dict_nodes kvs" by (rule sum_list_mono)
    then show ?thesis by (simp add: PDict block_lines_containers length_concat comp_def)
  qed (use less.prems in auto)
qed

subsection \<open>The properties\<close>

lemma document_round_trip:
  assumes "closed_value (PDict d)" "nesting (PDict d) \<le> MAX_YAML_DEPTH + 1" "yaml_nodes (PDict d) \<le> MAX_NODES"
    and "length (concat (map utf8_char (document_text d))) \<le> MAX_INPUT"
  shows "decode_closed_yaml (PStr (document_text d)) = Inr d"
proof -
  have braces: "good_line \<lparr>yl_indent = 0, yl_sequence = False, yl_body = u ''{}''\<rparr>"
    by (simp add: good_line_def good_body_def u_def text_char_ascii)
  have lines: "document_lines d \<noteq> [] \<and> (\<forall>l \<in> set (document_lines d). good_line l) \<and> length (document_lines d) < MAX_NODES"
  proof (cases "d = []")
    case True
    with braces show ?thesis by (simp add: document_lines_def MAX_NODES_def)
  next
    case False
    then have "block_lines 0 (PDict d) \<noteq> []" using block_lines_first [OF _ assms(1), of 0] by auto
    with False block_lines_good [OF assms(1), of 0] block_lines_nodes [OF assms(1), of 0] assms(3) show ?thesis
      by (auto simp: document_lines_def)
  qed
  have "prepare_lines (PStr (document_text d)) = Inr (document_lines d)"
    using prepare_lines_text [of "document_lines d"] lines assms(4) unfolding document_text_def by blast
  then show ?thesis by (simp add: decode_closed_yaml_def decode_document_lines [OF assms(1-3)])
qed

definition sample_document :: pydict where
  "sample_document =
     [(PStr (u ''kind''), PStr (u ''Cluster'')), (PStr (u ''replicas''), PInt (- 12)),
      (PStr (u ''nodes''), PList [PStr (u ''it'' @ 39 # u ''s: a''), PList [PNone, PBool True],
         PDict [(PStr (u ''role''), PDict [])]])]"

lemma sample_document_facts:
  "nesting (PDict sample_document) \<le> MAX_YAML_DEPTH + 1" "yaml_nodes (PDict sample_document) \<le> MAX_NODES"
  "length (concat (map utf8_char (document_text sample_document))) \<le> MAX_INPUT"
  by code_simp+

lemma sample_document_closed: "closed_value (PDict sample_document)"
proof -
  have "closed_text (u ''Cluster'')" "closed_text (u ''it'' @ 39 # u ''s: a'')" by code_simp+
  moreover have "closed_key (u ''kind'')" "closed_key (u ''replicas'')" "closed_key (u ''nodes'')" "closed_key (u ''role'')"
    by code_simp+
  moreover have "(12 :: int) < 10 ^ MAX_INTEGER_DIGITS"
  proof -
    have "(12 :: int) < 10 ^ 2" by simp
    also have "\<dots> \<le> 10 ^ MAX_INTEGER_DIGITS" by (rule power_increasing) (simp_all add: MAX_INTEGER_DIGITS_def)
    finally show ?thesis .
  qed
  ultimately show ?thesis by (simp add: sample_document_def)
qed

text \<open>
  Claim C38: the decoder reads back what is printed. Every closed mapping within the bounds of
  nesting, nodes and size has a document, its entries at their indentation and its strings in
  single quotes, that decodes to that mapping and nothing else.
\<close>

theorem yaml_round_trip:
  assumes "closed_value (PDict d)" "nesting (PDict d) \<le> MAX_YAML_DEPTH + 1" "yaml_nodes (PDict d) \<le> MAX_NODES"
    and "length (concat (map utf8_char (document_text d))) \<le> MAX_INPUT"
  shows "decode_closed_yaml (PStr (document_text d)) = Inr d"
  by (rule document_round_trip [OF assms])

theorem yaml_round_trip_witness:
  "decode_closed_yaml (PStr (document_text sample_document)) = Inr sample_document"
  by (rule yaml_round_trip [OF sample_document_closed sample_document_facts])

text \<open>
  Claim C39: the decoder is total and its results are closed. Whatever it is given, it raises
  ClosedYAMLError and no other exception, or returns a mapping whose keys are unique and
  conservative at every level, whose strings are bounded text without control characters or
  surrogates, whose integers have at most 5000 digits, with at most 32768 nodes and 67 levels
  of nesting.
\<close>

theorem yaml_decodes_closed:
  "case decode_closed_yaml v of
     Inl e \<Rightarrow> is_yaml_error e
   | Inr d \<Rightarrow> closed_value (PDict d) \<and> yaml_nodes (PDict d) \<le> MAX_NODES \<and> nesting (PDict d) \<le> MAX_YAML_DEPTH + 3"
proof (cases "decode_closed_yaml v")
  case (Inl e)
  with only_raisesD [OF decode_raises Inl] show ?thesis by simp
next
  case (Inr d)
  then obtain ls where "decode_lines ls = Inr d" by (auto simp: decode_closed_yaml_def)
  from decode_lines_Inr [OF this] Inr show ?thesis by (simp del: nesting.simps yaml_nodes.simps closed_value.simps)
qed

text \<open>A document with a key twice is refused, one with a sequence below its key read.\<close>

lemma decode_examples:
  "decode_closed_yaml (PStr (u ''a: 1'' @ 10 # u ''a: 2'' @ [10])) = yaml_error ''duplicate mapping key''"
  "decode_closed_yaml (PStr (u ''a:'' @ 10 # u ''- b: x'' @ 10 # u ''  c: null'' @ 10 # u ''- -4'' @ [10]))
   = Inr [(PStr (u ''a''), PList [PDict [(PStr (u ''b''), PStr (u ''x'')), (PStr (u ''c''), PNone)], PInt (- 4)])]"
  by code_simp+

end
