(* ===== verification/KilContracts.thy ===== *)
theory KilContracts
  imports PyJsonRoundTrip
begin

text \<open>
  \<^verbatim>\<open>src/kil/v3b2_contracts.py\<close>: the closed schemas of the cluster laboratory and its immutable
  profile. The fields of a schema are lists of names; the profile is read from a bounded
  regular file whose system calls are an environment, checked against the approved lookup as a
  JSON object and again as a record.
\<close>

abbreviation schema_error :: "string \<Rightarrow> 'a res" where
  "schema_error msg \<equiv> Inl (SchemaError msg)"

subsection \<open>Constants\<close>

definition LAB_IDENTITY :: string where "LAB_IDENTITY = ''kil-v3-lab''"
definition LAB_TRACKS :: "string list" where
  "LAB_TRACKS =
     [''credential_policy_baseline'', ''signed_state_only'', ''signed_plus_local_reduce'']"

definition APPLICATION_NAMESPACES :: "string list" where
  "APPLICATION_NAMESPACES =
     [''kil-v3-baseline'', ''kil-v3-signed'', ''kil-v3-local-reduce'']"

definition TRACK_NAMESPACES :: "(string \<times> string) list" where
  "TRACK_NAMESPACES = zip LAB_TRACKS APPLICATION_NAMESPACES"

definition NOMINAL_REQUEST_ID :: string where "NOMINAL_REQUEST_ID = ''v3b1-central-request''"

definition PROFILE_SCHEMA :: string where "PROFILE_SCHEMA = ''kil.v3b2-profile.v1''"
definition JOURNAL_SCHEMA :: string where "JOURNAL_SCHEMA = ''kil.v3b2-journal.v1''"
definition PRIVATE_MANIFEST_SCHEMA :: string where "PRIVATE_MANIFEST_SCHEMA = ''kil.v3b2-private-manifest.v1''"
definition PUBLIC_MANIFEST_SCHEMA :: string where "PUBLIC_MANIFEST_SCHEMA = ''kil.v3b2-public-manifest.v1''"
definition CAMPAIGN_SCHEMA :: string where "CAMPAIGN_SCHEMA = ''kil.v3b2-campaign.v1''"

definition PROFILE_FIELDS :: "string list" where
  "PROFILE_FIELDS =
     [''schema_version'', ''host_os'', ''host_arch'', ''colima_version'', ''colima_profile'',
      ''lima_version'', ''docker_cli_version'', ''kind_version'', ''kubernetes_version'',
      ''kind_node_image'', ''kubectl_version'', ''envoy_image'', ''calico_version'',
      ''calico_upstream_url'', ''calico_upstream_sha256'', ''calico_manifest_path'',
      ''calico_manifest_sha256'', ''calico_images'', ''cluster_name'', ''pod_subnet'', ''service_subnet'',
      ''system_namespaces'', ''application_namespaces'', ''evidence_scope'']"

definition JOURNAL_FIELDS :: "string list" where
  "JOURNAL_FIELDS =
     [''schema_version'', ''run_id'', ''execution_nonce'', ''source_commit'', ''profile_sha256'',
      ''phase'', ''global_context_before'', ''foreign_profiles_before'', ''expected_objects'',
      ''lifecycle_mode'', ''teardown_from_sequence'', ''profile_start_refused_sequence'',
      ''expected_inputs_sha256'', ''owned_identity'', ''events'']"

definition PRIVATE_MANIFEST_FIELDS :: "string list" where
  "PRIVATE_MANIFEST_FIELDS =
     [''schema_version'', ''run_id'', ''execution_nonce'', ''source_commit'', ''profile_sha256'',
      ''tool_identities'', ''content_identities'', ''expected_topology'', ''expected_policy_graph'',
      ''request_cases'', ''runtime_identities'', ''source_attestations'', ''foreign_profiles_before'',
      ''global_context_before'']"

definition PUBLIC_MANIFEST_FIELDS :: "string list" where
  "PUBLIC_MANIFEST_FIELDS =
     [''schema_version'', ''run_id'', ''source_commit'', ''profile_sha256'', ''evidence_scope'',
      ''result_class'', ''promotion_status'', ''content_identities'', ''topology_attestation'',
      ''policy_attestation'', ''request_results'', ''semantic_joins'', ''source_attestations'',
      ''foreign_profile_attestation'', ''global_context_unchanged'', ''owned_teardown'',
      ''claim_exclusions'', ''public_commitment_sha256'']"

definition CAMPAIGN_FIELDS :: "string list" where
  "CAMPAIGN_FIELDS =
     [''schema_version'', ''source_commit'', ''case_contract_sha256'', ''cases'', ''run_bundles'',
      ''coverage'', ''duplicate_case_ids'', ''omitted_case_ids'', ''promotion_status'',
      ''claim_exclusions'', ''public_commitment_sha256'']"

definition SCHEMA_FIELDS :: "(string \<times> string list) list" where
  "SCHEMA_FIELDS = [(PROFILE_SCHEMA, PROFILE_FIELDS), (JOURNAL_SCHEMA, JOURNAL_FIELDS),
     (PRIVATE_MANIFEST_SCHEMA, PRIVATE_MANIFEST_FIELDS), (PUBLIC_MANIFEST_SCHEMA, PUBLIC_MANIFEST_FIELDS),
     (CAMPAIGN_SCHEMA, CAMPAIGN_FIELDS)]"

definition MAX_PROFILE_BYTES :: nat where "MAX_PROFILE_BYTES = 64 * 1024"

definition V3B1_VERIFIER_SCHEMAS :: "string list" where
  "V3B1_VERIFIER_SCHEMAS =
     [''kil.v3b1-manifest.v1'', ''kil.v3b1-manifest.v2'', ''kil.v3b1-manifest.v3'',
      ''kil.v3b1-public-manifest.v1'', ''kil.v3b1-public-manifest.v2'', ''kil.v3b1-public-manifest.v3'',
      ''kil.v3b1-driver-result.v1'']"

definition SYSTEM_NAMESPACES :: "string list" where
  "SYSTEM_NAMESPACES =
     [''default'', ''kube-node-lease'', ''kube-public'', ''kube-system'', ''local-path-storage'']"

definition CALICO_IMAGES :: "(string \<times> string) list" where
  "CALICO_IMAGES =
     [(''cni'', ''quay.io/calico/cni@sha256:1cfc6aa9c4dad3575fdf36b78185fd7d68bcd4acc95778f8342be4fb6a851a14''),
      (''node'', ''quay.io/calico/node@sha256:f4fafd8ba641d96c5a91b01e5a519117d77d55dee789a3562ba3ad4aa125b36a''),
      (''kube_controllers'', ''quay.io/calico/kube-controllers@sha256:adf0ac895796d21bca5383bc81c4cd2614be3a4308085b47857d7999f4cc2b1f'')]"

definition EXACT_SCALARS :: "(string \<times> string) list" where
  "EXACT_SCALARS =
     [(''schema_version'', PROFILE_SCHEMA),
      (''host_os'', ''darwin''),
      (''host_arch'', ''arm64''),
      (''colima_version'', ''0.10.3''),
      (''colima_profile'', LAB_IDENTITY),
      (''lima_version'', ''2.2.0''),
      (''docker_cli_version'', ''29.7.2''),
      (''kind_version'', ''0.32.0''),
      (''kubernetes_version'', ''1.36.1''),
      (''kind_node_image'', ''kindest/node:v1.36.1@sha256:3489c7674813ba5d8b1a9977baea8a6e553784dab7b84759d1014dbd78f7ebd5''),
      (''kubectl_version'', ''1.36.3''),
      (''envoy_image'', ''docker.io/envoyproxy/envoy:v1.39.1''),
      (''calico_version'', ''3.32.0''),
      (''calico_upstream_url'', ''https://raw.githubusercontent.com/projectcalico/calico/v3.32.0/manifests/calico.yaml''),
      (''calico_upstream_sha256'', ''bccabc607685551db918f66da724893eca3e69a50c5a3e3077029b02dbab8d35''),
      (''calico_manifest_path'', ''deploy/kind/calico-v3.32.0.yaml''),
      (''calico_manifest_sha256'', ''ac5ab7451dda57cfbf47d584ee901b896b1a9ff388d95b6f01b59f1e1130fdfa''),
      (''cluster_name'', LAB_IDENTITY),
      (''pod_subnet'', ''10.244.0.0/16''),
      (''service_subnet'', ''10.96.0.0/16''),
      (''evidence_scope'', ''kind_calico_boundary'')]"

subsection \<open>Closed objects\<close>

definition require_closed_object :: "string \<Rightarrow> pyval \<Rightarrow> string list \<Rightarrow> pydict res" where
  "require_closed_object label v expected = (case v of
     PDict d \<Rightarrow>
       if \<not> list_all (\<lambda>kv. is_str (fst kv)) d then schema_error (label @ '' field names must be strings'')
       else if has_unknown d expected then schema_error (''unknown '' @ label @ '' fields'')
       else if has_missing d expected then schema_error (''missing '' @ label @ '' fields'')
       else Inr d
   | _ \<Rightarrow> schema_error (label @ '' must be a JSON object''))"

text \<open>The duplicate key the hook refuses is left out of its message.\<close>

definition closed_json_object :: "pydict \<Rightarrow> pyval res" where
  "closed_json_object = closed_hook (SchemaError ''duplicate JSON field'')"

subsection \<open>Reading the profile's file\<close>

text \<open>What the system calls on the path and on the descriptor return.\<close>

record ProfileFile =
  pf_stat :: "(bool \<times> nat \<times> nat) res"
  pf_open :: "unit res"
  pf_fstat :: "(bool \<times> (nat \<times> nat) \<times> nat) res"
  pf_fdopen :: "unit res"
  pf_read :: "nat \<Rightarrow> bytes res"
  pf_stream_close :: "unit res"
  pf_close :: "unit res"

definition os_to_schema :: "string \<Rightarrow> 'a res \<Rightarrow> 'a res" where
  "os_to_schema msg m = try_r m (\<lambda>e. if is_os_error e then schema_error msg else Inl e)"

text \<open>
  The body of the second \<^verbatim>\<open>try\<close>, up to the stream, whose descriptor is then its own: what it
  raises before that goes through the \<^verbatim>\<open>finally\<close> that closes the descriptor.
\<close>

definition check_descriptor :: "ProfileFile \<Rightarrow> nat \<times> nat \<Rightarrow> unit res" where
  "check_descriptor f inspected =
     bind_r (pf_fstat f) (\<lambda>(regular, identity, size).
     if \<not> regular then schema_error ''V3B-2 profile must be a regular file''
     else if identity \<noteq> inspected then schema_error ''V3B-2 profile was replaced during safe open''
     else if size > MAX_PROFILE_BYTES then schema_error ''V3B-2 profile exceeds 64 KiB''
     else pf_fdopen f)"

text \<open>The \<^verbatim>\<open>with\<close> statement closes the stream whatever the read did; an error of closing replaces it.\<close>

definition read_stream :: "ProfileFile \<Rightarrow> bytes res" where
  "read_stream f =
     bind_r (case pf_stream_close f of Inl e \<Rightarrow> Inl e | Inr _ \<Rightarrow> pf_read f (MAX_PROFILE_BYTES + 1)) (\<lambda>content.
     if length content > MAX_PROFILE_BYTES then schema_error ''V3B-2 profile exceeds 64 KiB'' else Inr content)"

definition read_bounded_regular_file :: "ProfileFile \<Rightarrow> bytes res" where
  "read_bounded_regular_file f =
     bind_r (os_to_schema ''cannot open V3B-2 profile safely''
       (bind_r (pf_stat f) (\<lambda>(regular, inspected).
        if \<not> regular then schema_error ''V3B-2 profile must be a non-symlink regular file''
        else bind_r (pf_open f) (\<lambda>_. Inr inspected)))) (\<lambda>inspected.
     case check_descriptor f inspected of
       Inl e \<Rightarrow> bind_r (pf_close f) (\<lambda>_. os_to_schema ''cannot read V3B-2 profile safely'' (Inl e))
     | Inr _ \<Rightarrow> os_to_schema ''cannot read V3B-2 profile safely'' (read_stream f))"

subsection \<open>The profile\<close>

fun validate_exact_scalars :: "(string \<Rightarrow> pyval res) \<Rightarrow> (string \<times> string) list \<Rightarrow> unit res" where
  "validate_exact_scalars lookup [] = Inr ()"
| "validate_exact_scalars lookup ((name, expected) # rest) =
     bind_r (lookup name) (\<lambda>actual.
     if actual \<noteq> PStr (u expected) then schema_error (name @ '' must be exactly '' @ expected)
     else validate_exact_scalars lookup rest)"

definition string_tuple :: "string list \<Rightarrow> pyval" where
  "string_tuple xs = PTuple (map (PStr \<circ> u) xs)"

definition image_tuple :: "(string \<times> string) list \<Rightarrow> pyval" where
  "image_tuple xs = PTuple (map (\<lambda>(k, v). PTuple [PStr (u k), PStr (u v)]) xs)"

definition require_exact_string_tuple :: "string \<Rightarrow> pyval \<Rightarrow> string list \<Rightarrow> unit res" where
  "require_exact_string_tuple label v expected = (case v of
     PTuple vs \<Rightarrow>
       if \<not> list_all is_str vs then schema_error (label @ '' must contain only exact strings in an exact tuple'')
       else if v \<noteq> string_tuple expected then schema_error (label @ '' must be the exact immutable approved sequence'')
       else Inr ()
   | _ \<Rightarrow> schema_error (label @ '' must contain only exact strings in an exact tuple''))"

definition is_string_pair :: "pyval \<Rightarrow> bool" where
  "is_string_pair v = (case v of PTuple [a, b] \<Rightarrow> is_str a \<and> is_str b | _ \<Rightarrow> False)"

definition require_exact_image_tuple :: "pyval \<Rightarrow> unit res" where
  "require_exact_image_tuple v = (case v of
     PTuple vs \<Rightarrow>
       if \<not> list_all is_string_pair vs then schema_error ''calico_images entries must be exact two-string tuple pairs''
       else if v \<noteq> image_tuple CALICO_IMAGES then schema_error ''calico_images must be the exact immutable image tuple''
       else Inr ()
   | _ \<Rightarrow> schema_error ''calico_images must be an exact tuple'')"

record V3B2Profile =
  vp_schema_version :: pyval
  vp_host_os :: pyval
  vp_host_arch :: pyval
  vp_colima_version :: pyval
  vp_colima_profile :: pyval
  vp_lima_version :: pyval
  vp_docker_cli_version :: pyval
  vp_kind_version :: pyval
  vp_kubernetes_version :: pyval
  vp_kind_node_image :: pyval
  vp_kubectl_version :: pyval
  vp_envoy_image :: pyval
  vp_calico_version :: pyval
  vp_calico_upstream_url :: pyval
  vp_calico_upstream_sha256 :: pyval
  vp_calico_manifest_path :: pyval
  vp_calico_manifest_sha256 :: pyval
  vp_calico_images :: pyval
  vp_cluster_name :: pyval
  vp_pod_subnet :: pyval
  vp_service_subnet :: pyval
  vp_system_namespaces :: pyval
  vp_application_namespaces :: pyval
  vp_evidence_scope :: pyval

text \<open>The fields the constructor checks against \<^verbatim>\<open>_EXACT_SCALARS\<close>, by name.\<close>

definition profile_scalars :: "V3B2Profile \<Rightarrow> (string \<times> pyval) list" where
  "profile_scalars p =
     [(''schema_version'', vp_schema_version p), (''host_os'', vp_host_os p),
      (''host_arch'', vp_host_arch p), (''colima_version'', vp_colima_version p),
      (''colima_profile'', vp_colima_profile p), (''lima_version'', vp_lima_version p),
      (''docker_cli_version'', vp_docker_cli_version p), (''kind_version'', vp_kind_version p),
      (''kubernetes_version'', vp_kubernetes_version p), (''kind_node_image'', vp_kind_node_image p),
      (''kubectl_version'', vp_kubectl_version p), (''envoy_image'', vp_envoy_image p),
      (''calico_version'', vp_calico_version p), (''calico_upstream_url'', vp_calico_upstream_url p),
      (''calico_upstream_sha256'', vp_calico_upstream_sha256 p),
      (''calico_manifest_path'', vp_calico_manifest_path p),
      (''calico_manifest_sha256'', vp_calico_manifest_sha256 p),
      (''cluster_name'', vp_cluster_name p), (''pod_subnet'', vp_pod_subnet p),
      (''service_subnet'', vp_service_subnet p), (''evidence_scope'', vp_evidence_scope p)]"

definition make_V3B2Profile :: "V3B2Profile \<Rightarrow> V3B2Profile res" where
  "make_V3B2Profile p =
     bind_r (validate_exact_scalars (\<lambda>name. case map_of (profile_scalars p) name of
        None \<Rightarrow> Inl (KeyError name) | Some v \<Rightarrow> Inr v) EXACT_SCALARS) (\<lambda>_.
     bind_r (require_exact_image_tuple (vp_calico_images p)) (\<lambda>_.
     bind_r (require_exact_string_tuple ''system_namespaces'' (vp_system_namespaces p) SYSTEM_NAMESPACES) (\<lambda>_.
     bind_r (require_exact_string_tuple ''application_namespaces'' (vp_application_namespaces p) APPLICATION_NAMESPACES) (\<lambda>_.
     Inr p))))"

text \<open>\<^verbatim>\<open>cls(**lookup)\<close>, for a mapping whose keys are the fields.\<close>

definition field_value :: "pydict \<Rightarrow> string \<Rightarrow> pyval" where
  "field_value d k = (case dict_get d k of None \<Rightarrow> PNone | Some v \<Rightarrow> v)"

definition profile_of :: "pydict \<Rightarrow> V3B2Profile" where
  "profile_of d =
     \<lparr>vp_schema_version = field_value d ''schema_version'', vp_host_os = field_value d ''host_os'',
      vp_host_arch = field_value d ''host_arch'',
      vp_colima_version = field_value d ''colima_version'',
      vp_colima_profile = field_value d ''colima_profile'',
      vp_lima_version = field_value d ''lima_version'',
      vp_docker_cli_version = field_value d ''docker_cli_version'',
      vp_kind_version = field_value d ''kind_version'',
      vp_kubernetes_version = field_value d ''kubernetes_version'',
      vp_kind_node_image = field_value d ''kind_node_image'',
      vp_kubectl_version = field_value d ''kubectl_version'',
      vp_envoy_image = field_value d ''envoy_image'',
      vp_calico_version = field_value d ''calico_version'',
      vp_calico_upstream_url = field_value d ''calico_upstream_url'',
      vp_calico_upstream_sha256 = field_value d ''calico_upstream_sha256'',
      vp_calico_manifest_path = field_value d ''calico_manifest_path'',
      vp_calico_manifest_sha256 = field_value d ''calico_manifest_sha256'',
      vp_calico_images = field_value d ''calico_images'',
      vp_cluster_name = field_value d ''cluster_name'', vp_pod_subnet = field_value d ''pod_subnet'',
      vp_service_subnet = field_value d ''service_subnet'',
      vp_system_namespaces = field_value d ''system_namespaces'',
      vp_application_namespaces = field_value d ''application_namespaces'',
      vp_evidence_scope = field_value d ''evidence_scope''\<rparr>"

text \<open>The check of a JSON array of strings against its approved sequence; the tuple it becomes.\<close>

definition approved_array :: "string \<Rightarrow> pyval \<Rightarrow> string list \<Rightarrow> pyval res" where
  "approved_array label v expected = (case v of
     PList vs \<Rightarrow>
       if \<not> list_all is_str vs then schema_error (label @ '' must be a JSON string array'')
       else if PTuple vs \<noteq> string_tuple expected then schema_error (label @ '' must be the exact approved sequence'')
       else Inr (PTuple vs)
   | _ \<Rightarrow> schema_error (label @ '' must be a JSON string array''))"

fun approved_images :: "pydict \<Rightarrow> (string \<times> string) list \<Rightarrow> unit res" where
  "approved_images images [] = Inr ()"
| "approved_images images ((name, expected) # rest) =
     bind_r (dict_item images name) (\<lambda>actual.
     if actual \<noteq> PStr (u expected) then schema_error (''calico_images.'' @ name @ '' must be digest-pinned'')
     else approved_images images rest)"

definition profile_from_mapping :: "pyval \<Rightarrow> V3B2Profile res" where
  "profile_from_mapping mapping =
     bind_r (require_closed_object ''V3B-2 profile'' mapping PROFILE_FIELDS) (\<lambda>d.
     bind_r (validate_exact_scalars (dict_item d) EXACT_SCALARS) (\<lambda>_.
     bind_r (dict_item d ''system_namespaces'') (\<lambda>system.
     bind_r (dict_item d ''application_namespaces'') (\<lambda>application.
     bind_r (approved_array ''system_namespaces'' system SYSTEM_NAMESPACES) (\<lambda>system.
     bind_r (approved_array ''application_namespaces'' application APPLICATION_NAMESPACES) (\<lambda>application.
     bind_r (dict_item d ''calico_images'') (\<lambda>v.
     bind_r (require_closed_object ''calico_images'' v (map fst CALICO_IMAGES)) (\<lambda>images.
     bind_r (approved_images images CALICO_IMAGES) (\<lambda>_.
     make_V3B2Profile (profile_of
       (dict_put (dict_put (dict_put d (PStr (u ''calico_images'')) (image_tuple CALICO_IMAGES))
          (PStr (u ''system_namespaces'')) system) (PStr (u ''application_namespaces'')) application)))))))))))"

definition profile_load :: "nat \<Rightarrow> ProfileFile \<Rightarrow> V3B2Profile res" where
  "profile_load limit f =
     bind_r (try_r (bind_r (read_bounded_regular_file f) (\<lambda>content.
         bind_r (utf8_decode content) (json_loads closed_json_object limit)))
       (\<lambda>e. if e = UnicodeError \<or> e = JSONDecodeError then schema_error ''cannot decode V3B-2 profile'' else Inl e))
       profile_from_mapping"

subsection \<open>Dispatch\<close>

definition dispatch_schema :: "pyval \<Rightarrow> pstr res" where
  "dispatch_schema v = (case v of
     PDict d \<Rightarrow>
       (case dict_get d ''schema_version'' of
          Some (PStr schema) \<Rightarrow>
            if schema \<in> u ` set V3B1_VERIFIER_SCHEMAS then Inr schema
            else if schema = u CAMPAIGN_SCHEMA
            then bind_r (require_closed_object CAMPAIGN_SCHEMA v CAMPAIGN_FIELDS) (\<lambda>_.
              schema_error ''campaign_not_implemented'')
            else (case find (\<lambda>(name, _). u name = schema) SCHEMA_FIELDS of
                None \<Rightarrow> schema_error ''unknown schema_version''
              | Some (name, expected) \<Rightarrow>
                  if schema = u PROFILE_SCHEMA then bind_r (profile_from_mapping v) (\<lambda>_. Inr schema)
                  else bind_r (require_closed_object name v expected) (\<lambda>_. Inr schema))
        | _ \<Rightarrow> schema_error ''schema_version must be present and a string'')
   | _ \<Rightarrow> schema_error ''schema-bearing value must be a JSON object'')"

subsection \<open>What is accepted\<close>

lemma require_closed_object_Inr:
  "require_closed_object label v expected = Inr d \<longleftrightarrow> v = PDict d \<and> keys_exact d expected"
proof -
  have "list_all (\<lambda>kv. is_str (fst kv)) d" if "\<not> has_unknown d expected"
    using that by (auto simp: has_unknown_def list_all_iff list_ex_iff)
  then show ?thesis by (auto simp: require_closed_object_def keys_exact_def split: pyval.splits if_splits)
qed

lemma validate_exact_scalars_Inr:
  "validate_exact_scalars lookup xs = Inr x \<longleftrightarrow> (\<forall>(k, s) \<in> set xs. lookup k = Inr (PStr (u s)))"
  by (induction lookup xs rule: validate_exact_scalars.induct) (auto simp: bind_r_eq_Inr)

lemma dict_item_eq_Inr: "dict_item d k = Inr v \<longleftrightarrow> dict_get d k = Some v"
  by (auto simp: dict_item_def split: option.splits)

lemma approved_images_Inr:
  "approved_images images xs = Inr x \<longleftrightarrow> (\<forall>(k, s) \<in> set xs. dict_get images k = Some (PStr (u s)))"
  by (induction images xs rule: approved_images.induct) (auto simp: bind_r_eq_Inr dict_item_eq_Inr)

lemma approved_array_Inr:
  "approved_array label v expected = Inr t \<longleftrightarrow> v = PList (map (PStr \<circ> u) expected) \<and> t = string_tuple expected"
  by (auto simp: approved_array_def string_tuple_def list_all_iff split: pyval.splits if_splits)

text \<open>The one profile: the value of each field, and the JSON object it is read from.\<close>

definition approved_field :: "string \<Rightarrow> pyval" where
  "approved_field k =
     (if k = ''calico_images'' then image_tuple CALICO_IMAGES
      else if k = ''system_namespaces'' then string_tuple SYSTEM_NAMESPACES
      else if k = ''application_namespaces'' then string_tuple APPLICATION_NAMESPACES
      else case map_of EXACT_SCALARS k of None \<Rightarrow> PNone | Some s \<Rightarrow> PStr (u s))"

definition approved_profile :: V3B2Profile where
  "approved_profile = profile_of (map (\<lambda>k. (PStr (u k), approved_field k)) PROFILE_FIELDS)"

definition approved_image_object :: "pydict \<Rightarrow> bool" where
  "approved_image_object images \<longleftrightarrow> keys_exact images (map fst CALICO_IMAGES)
     \<and> list_all (\<lambda>(k, s). dict_get images k = Some (PStr (u s))) CALICO_IMAGES"

definition approved_json :: "pyval \<Rightarrow> bool" where
  "approved_json v = (case v of
     PDict d \<Rightarrow> keys_exact d PROFILE_FIELDS
       \<and> list_all (\<lambda>(k, s). dict_get d k = Some (PStr (u s))) EXACT_SCALARS
       \<and> dict_get d ''system_namespaces'' = Some (PList (map (PStr \<circ> u) SYSTEM_NAMESPACES))
       \<and> dict_get d ''application_namespaces'' = Some (PList (map (PStr \<circ> u) APPLICATION_NAMESPACES))
       \<and> (case dict_get d ''calico_images'' of Some (PDict images) \<Rightarrow> approved_image_object images | _ \<Rightarrow> False)
   | _ \<Rightarrow> False)"

lemma dict_get_put: "dict_get (dict_put d (PStr (u k)) v) k' = (if k = k' then Some v else dict_get d k')"
  unfolding dict_get_def by (induction d "PStr (u k)" v rule: dict_put.induct) auto

lemma profile_of_cong:
  "(\<And>k. k \<in> set PROFILE_FIELDS \<Longrightarrow> field_value d k = field_value d' k) \<Longrightarrow> profile_of d = profile_of d'"
  by (simp add: profile_of_def PROFILE_FIELDS_def)

lemma profile_scalars_of: "profile_scalars (profile_of d) = map (\<lambda>(k, _). (k, field_value d k)) EXACT_SCALARS"
  by (simp add: profile_scalars_def profile_of_def EXACT_SCALARS_def)

lemma profile_fields_cover:
  "k \<in> set PROFILE_FIELDS \<longleftrightarrow> k \<in> fst ` set EXACT_SCALARS \<or> k \<in> {''calico_images'', ''system_namespaces'', ''application_namespaces''}"
  by (auto simp: PROFILE_FIELDS_def EXACT_SCALARS_def)

lemma exact_scalars_distinct:
  "distinct (map fst EXACT_SCALARS)" "''calico_images'' \<notin> fst ` set EXACT_SCALARS"
  "''system_namespaces'' \<notin> fst ` set EXACT_SCALARS" "''application_namespaces'' \<notin> fst ` set EXACT_SCALARS"
  by (simp_all add: EXACT_SCALARS_def)

lemma field_value_approved:
  assumes "k \<in> set PROFILE_FIELDS"
  shows "field_value (map (\<lambda>k. (PStr (u k), approved_field k)) PROFILE_FIELDS) k = approved_field k"
proof -
  have "map_of (map (\<lambda>k. (PStr (u k), approved_field k)) ks) (PStr (u k)) = (if k \<in> set ks then Some (approved_field k) else None)" for ks
    by (induction ks) auto
  with assms show ?thesis by (simp add: field_value_def dict_get_def)
qed

text \<open>The record of a mapping whose fields are approved is the profile, and passes its own checks.\<close>

lemma make_approved_profile:
  assumes "\<And>k. k \<in> set PROFILE_FIELDS \<Longrightarrow> field_value d k = approved_field k"
  shows "make_V3B2Profile (profile_of d) = Inr approved_profile"
proof -
  have p: "profile_of d = approved_profile"
    unfolding approved_profile_def using assms field_value_approved by (intro profile_of_cong) simp
  have fields: "vp_calico_images (profile_of d) = image_tuple CALICO_IMAGES"
    "vp_system_namespaces (profile_of d) = string_tuple SYSTEM_NAMESPACES"
    "vp_application_namespaces (profile_of d) = string_tuple APPLICATION_NAMESPACES"
    using assms [of "''calico_images''"] assms [of "''system_namespaces''"] assms [of "''application_namespaces''"]
    by (simp_all add: profile_of_def profile_fields_cover approved_field_def)
  have "map_of (map (\<lambda>(k, _). (k, field_value d k)) xs) k = (if k \<in> fst ` set xs then Some (field_value d k) else None)"
    for xs :: "(string \<times> string) list" and k
    by (induction xs) auto
  moreover have "field_value d k = PStr (u s)" if ks: "(k, s) \<in> set EXACT_SCALARS" for k s
  proof -
    have "k \<in> fst ` set EXACT_SCALARS" using ks by force
    moreover from this have "k \<notin> {''calico_images'', ''system_namespaces'', ''application_namespaces''}"
      using exact_scalars_distinct by blast
    ultimately show ?thesis
      using assms [of k] map_of_is_SomeI [OF exact_scalars_distinct(1) ks] by (simp add: profile_fields_cover approved_field_def)
  qed
  ultimately have "validate_exact_scalars (\<lambda>name. case map_of (profile_scalars (profile_of d)) name of
      None \<Rightarrow> Inl (KeyError name) | Some v \<Rightarrow> Inr v) EXACT_SCALARS = Inr ()"
    by (force simp: validate_exact_scalars_Inr profile_scalars_of)
  moreover have "require_exact_image_tuple (image_tuple CALICO_IMAGES) = Inr ()"
    by (simp add: require_exact_image_tuple_def image_tuple_def CALICO_IMAGES_def is_string_pair_def)
  moreover have "require_exact_string_tuple label (string_tuple xs) xs = Inr ()" for label xs
    by (simp add: require_exact_string_tuple_def string_tuple_def list_all_iff)
  ultimately show ?thesis by (simp add: make_V3B2Profile_def fields [unfolded p] p)
qed

lemma from_mapping_iff: "profile_from_mapping v = Inr p \<longleftrightarrow> approved_json v \<and> p = approved_profile"
proof -
  define put where "put d = dict_put (dict_put (dict_put d (PStr (u ''calico_images'')) (image_tuple CALICO_IMAGES))
      (PStr (u ''system_namespaces'')) (string_tuple SYSTEM_NAMESPACES))
      (PStr (u ''application_namespaces'')) (string_tuple APPLICATION_NAMESPACES)" for d
  have made: "make_V3B2Profile (profile_of (put d)) = Inr approved_profile"
    if scal: "\<forall>(k, s) \<in> set EXACT_SCALARS. dict_get d k = Some (PStr (u s))" for d
  proof (rule make_approved_profile)
    fix k assume "k \<in> set PROFILE_FIELDS"
    then consider s where "(k, s) \<in> set EXACT_SCALARS"
      | "k \<in> {''calico_images'', ''system_namespaces'', ''application_namespaces''}"
      unfolding profile_fields_cover by force
    then show "field_value (put d) k = approved_field k"
    proof cases
      case 1
      then have "k \<in> fst ` set EXACT_SCALARS" by force
      then have "k \<notin> {''calico_images'', ''system_namespaces'', ''application_namespaces''}"
        using exact_scalars_distinct by blast
      with 1 scal map_of_is_SomeI [OF exact_scalars_distinct(1) 1] show ?thesis
        by (auto simp: field_value_def put_def dict_get_put approved_field_def)
    qed (auto simp: field_value_def put_def dict_get_put approved_field_def)
  qed
  show ?thesis
  proof
    assume "profile_from_mapping v = Inr p"
    then show "approved_json v \<and> p = approved_profile"
      using made unfolding profile_from_mapping_def
      by (auto simp: require_closed_object_Inr validate_exact_scalars_Inr approved_array_Inr approved_images_Inr
          dict_item_eq_Inr approved_json_def approved_image_object_def list_all_iff put_def)
  next
    assume "approved_json v \<and> p = approved_profile"
    then show "profile_from_mapping v = Inr p"
      using made unfolding profile_from_mapping_def
      by (auto simp: require_closed_object_Inr validate_exact_scalars_Inr approved_array_Inr approved_images_Inr
          dict_item_eq_Inr approved_json_def approved_image_object_def list_all_iff put_def bind_r_eq_Inr
          split: pyval.splits option.splits)
  qed
qed

text \<open>
  A mapping is accepted as the cluster profile exactly when it has the approved fields
  and no other, each with its approved value (versions, digests, namespaces, pinned images), in
  whatever order they are; the profile is then the one approved record.
\<close>

theorem profile_from_mapping_iff:
  "profile_from_mapping v = Inr p \<longleftrightarrow> approved_json v \<and> p = approved_profile"
  by (rule from_mapping_iff)

text \<open>
  Claim C40: dispatch returns the schema a value names, exactly when it is one of the driver
  laboratory's, which are not looked into, or the value has the closed fields of a journal or a
  manifest, or it is the approved profile. A campaign is never accepted.
\<close>

theorem dispatch_schema_iff:
  "dispatch_schema v = Inr s \<longleftrightarrow>
     (\<exists>d. v = PDict d \<and> dict_get d ''schema_version'' = Some (PStr s)
        \<and> (s \<in> u ` set V3B1_VERIFIER_SCHEMAS
           \<or> (s = u PROFILE_SCHEMA \<and> approved_json v)
           \<or> (s = u JOURNAL_SCHEMA \<and> keys_exact d JOURNAL_FIELDS)
           \<or> (s = u PRIVATE_MANIFEST_SCHEMA \<and> keys_exact d PRIVATE_MANIFEST_FIELDS)
           \<or> (s = u PUBLIC_MANIFEST_SCHEMA \<and> keys_exact d PUBLIC_MANIFEST_FIELDS)))"
proof -
  have found: "find (\<lambda>(name, _). u name = t) SCHEMA_FIELDS =
      (if t = u PROFILE_SCHEMA then Some (PROFILE_SCHEMA, PROFILE_FIELDS)
       else if t = u JOURNAL_SCHEMA then Some (JOURNAL_SCHEMA, JOURNAL_FIELDS)
       else if t = u PRIVATE_MANIFEST_SCHEMA then Some (PRIVATE_MANIFEST_SCHEMA, PRIVATE_MANIFEST_FIELDS)
       else if t = u PUBLIC_MANIFEST_SCHEMA then Some (PUBLIC_MANIFEST_SCHEMA, PUBLIC_MANIFEST_FIELDS)
       else if t = u CAMPAIGN_SCHEMA then Some (CAMPAIGN_SCHEMA, CAMPAIGN_FIELDS) else None)" for t
    by (auto simp: SCHEMA_FIELDS_def)
  have names: "distinct [PROFILE_SCHEMA, JOURNAL_SCHEMA, PRIVATE_MANIFEST_SCHEMA, PUBLIC_MANIFEST_SCHEMA, CAMPAIGN_SCHEMA]"
    by (simp add: PROFILE_SCHEMA_def JOURNAL_SCHEMA_def PRIVATE_MANIFEST_SCHEMA_def PUBLIC_MANIFEST_SCHEMA_def
        CAMPAIGN_SCHEMA_def)
  have "CAMPAIGN_SCHEMA \<notin> set V3B1_VERIFIER_SCHEMAS"
    by (simp add: CAMPAIGN_SCHEMA_def V3B1_VERIFIER_SCHEMAS_def)
  then have foreign: "u CAMPAIGN_SCHEMA \<notin> u ` set V3B1_VERIFIER_SCHEMAS" by (auto simp: inj_image_mem_iff [OF injI])
  show ?thesis
    unfolding dispatch_schema_def found
    using names foreign
    by (auto simp: require_closed_object_Inr from_mapping_iff bind_r_eq_Inr split: pyval.splits option.splits if_splits)
qed

text \<open>
  Loading from a file raises SchemaError, but for nesting and integers beyond the limits of the
  JSON reader, which are not JSONDecodeError, for an error of closing the descriptor in the
  \<^verbatim>\<open>finally\<close>, and for what is not an OSError of the calls themselves.
\<close>

definition load_escapes :: "ProfileFile \<Rightarrow> pyexc \<Rightarrow> bool" where
  "load_escapes f e \<longleftrightarrow> e = RecursionError \<or> e = ValueError ''Exceeds the limit for integer string conversion''
     \<or> pf_close f = Inl e
     \<or> (\<not> is_os_error e \<and> (pf_stat f = Inl e \<or> pf_open f = Inl e \<or> pf_fstat f = Inl e \<or> pf_fdopen f = Inl e
          \<or> pf_read f (MAX_PROFILE_BYTES + 1) = Inl e \<or> pf_stream_close f = Inl e))"

fun is_schema_error :: "pyexc \<Rightarrow> bool" where
  "is_schema_error (SchemaError _) = True"
| "is_schema_error _ = False"

lemma require_closed_object_raises: "only_raises is_schema_error (require_closed_object label v expected)"
  by (auto simp: require_closed_object_def split: pyval.splits)

lemma validate_exact_scalars_raises:
  "(\<And>k. k \<in> fst ` set xs \<Longrightarrow> \<exists>v. lookup k = Inr v) \<Longrightarrow> only_raises is_schema_error (validate_exact_scalars lookup xs)"
proof (induction lookup xs rule: validate_exact_scalars.induct)
  case (2 lookup name expected rest)
  obtain v where "lookup name = Inr v" using 2(2) [of name] by auto
  with 2 show ?case by auto
qed simp

lemma approved_images_raises:
  "(\<And>k. k \<in> fst ` set xs \<Longrightarrow> \<exists>v. dict_item images k = Inr v) \<Longrightarrow> only_raises is_schema_error (approved_images images xs)"
proof (induction images xs rule: approved_images.induct)
  case (2 images name expected rest)
  obtain v where "dict_item images name = Inr v" using 2(2) [of name] by auto
  with 2 show ?case by auto
qed simp

lemma make_V3B2Profile_raises: "only_raises is_schema_error (make_V3B2Profile p)"
proof -
  have "map fst (profile_scalars p) = map fst EXACT_SCALARS" by (simp add: profile_scalars_def EXACT_SCALARS_def)
  then have "fst ` set (profile_scalars p) = fst ` set EXACT_SCALARS" by (metis set_map)
  then have "\<exists>v. (case map_of (profile_scalars p) k of None \<Rightarrow> Inl (KeyError k) | Some v \<Rightarrow> Inr v) = Inr v"
    if "k \<in> fst ` set EXACT_SCALARS" for k
    using that by (cases "map_of (profile_scalars p) k") (auto simp: map_of_eq_None_iff)
  then show ?thesis
    unfolding make_V3B2Profile_def
    by (intro only_raises_bind validate_exact_scalars_raises)
      (auto simp: require_exact_image_tuple_def require_exact_string_tuple_def split: pyval.splits)
qed

lemma from_mapping_raises: "only_raises is_schema_error (profile_from_mapping v)"
proof -
  have "k \<in> set PROFILE_FIELDS" if "k \<in> fst ` set EXACT_SCALARS \<or> k \<in> {''calico_images'', ''system_namespaces'', ''application_namespaces''}" for k
    using that by (simp add: profile_fields_cover)
  then have items: "\<exists>v. dict_item d k = Inr v" if "keys_exact d PROFILE_FIELDS"
    "k \<in> fst ` set EXACT_SCALARS \<or> k \<in> {''calico_images'', ''system_namespaces'', ''application_namespaces''}" for d k
    using keys_exact_item [OF that(1)] that(2) by blast
  have "\<exists>v. dict_item im k = Inr v" if "keys_exact im (map fst CALICO_IMAGES)" "k \<in> fst ` set CALICO_IMAGES" for im k
    using keys_exact_item [OF that(1)] that(2) by simp
  note images = approved_images_raises [OF this]
  have arrays: "only_raises is_schema_error (approved_array label w xs)" for label w xs
    by (auto simp: approved_array_def split: pyval.splits)
  have item: "only_raises is_schema_error (dict_item d k)" if kx: "keys_exact d PROFILE_FIELDS" and kin:
    "k \<in> {''calico_images'', ''system_namespaces'', ''application_namespaces''}" for d k
  proof -
    obtain v where "dict_item d k = Inr v" using items [OF kx] kin by blast
    then show ?thesis by simp
  qed
  show ?thesis
    unfolding profile_from_mapping_def
  proof (rule only_raises_bind [OF require_closed_object_raises], goal_cases)
    case (1 d)
    then have k: "keys_exact d PROFILE_FIELDS" by (simp add: require_closed_object_Inr)
    have scalars: "only_raises is_schema_error (validate_exact_scalars (dict_item d) EXACT_SCALARS)"
      by (rule validate_exact_scalars_raises) (use items [OF k] in blast)
    have pinned: "only_raises is_schema_error (approved_images im CALICO_IMAGES)"
      if "require_closed_object l w (map fst CALICO_IMAGES) = Inr im" for l w im
      by (rule images) (use that in \<open>simp_all add: require_closed_object_Inr\<close>)
    show ?case
      by (intro only_raises_bind scalars item [OF k] arrays require_closed_object_raises make_V3B2Profile_raises)
        (simp_all add: pinned)
  qed
qed

lemma profile_load_raises:
  assumes "profile_load limit f = Inl e"
  shows "is_schema_error e \<or> load_escapes f e"
proof -
  have loads: "json_loads closed_json_object limit w = Inl e \<Longrightarrow> json_error e \<or> is_schema_error e" for w e
    unfolding closed_json_object_def by (drule json_loads_error) (auto simp: closed_hook_def split: if_splits)
  have os: "os_to_schema msg m = Inl e \<Longrightarrow> is_schema_error e \<or> (m = Inl e \<and> \<not> is_os_error e)" for msg m e
    by (cases m) (auto simp: os_to_schema_def split: if_splits)
  have check: "is_schema_error e \<or> pf_fstat f = Inl e \<or> pf_fdopen f = Inl e" if "check_descriptor f i = Inl e" for i e
    using that by (auto simp: check_descriptor_def bind_r_eq_Inl split: if_splits)
  have stream: "is_schema_error e \<or> pf_stream_close f = Inl e \<or> pf_read f (MAX_PROFILE_BYTES + 1) = Inl e"
    if "read_stream f = Inl e" for e
    using that by (auto simp: read_stream_def bind_r_eq_Inl split: sum.splits if_splits)
  have reading: "is_schema_error e \<or> load_escapes f e" if r: "read_bounded_regular_file f = Inl e" for e
    using r unfolding read_bounded_regular_file_def
  proof (rule bind_r_InlE)
    assume "os_to_schema ''cannot open V3B-2 profile safely''
       (bind_r (pf_stat f) (\<lambda>(regular, inspected).
        if \<not> regular then schema_error ''V3B-2 profile must be a non-symlink regular file''
        else bind_r (pf_open f) (\<lambda>_. Inr inspected))) = Inl e"
    from os [OF this] show ?thesis by (auto simp: bind_r_eq_Inl load_escapes_def split: if_splits)
  next
    fix i
    assume "(case check_descriptor f i of
       Inl e \<Rightarrow> bind_r (pf_close f) (\<lambda>_. os_to_schema ''cannot read V3B-2 profile safely'' (Inl e))
     | Inr _ \<Rightarrow> os_to_schema ''cannot read V3B-2 profile safely'' (read_stream f)) = Inl e"
    then show ?thesis
      by (auto simp: bind_r_eq_Inl load_escapes_def split: sum.splits dest!: os check stream)
  qed
  define decoded where "decoded = bind_r (read_bounded_regular_file f) (\<lambda>content.
    bind_r (utf8_decode content) (json_loads closed_json_object limit))"
  have inner: "is_schema_error e \<or> load_escapes f e \<or> e = UnicodeError \<or> e = JSONDecodeError" if "decoded = Inl e" for e
    using that loads unfolding decoded_def
    by (auto simp: bind_r_eq_Inl utf8_decode_def json_error_def load_escapes_def dest: reading split: option.splits)
  have load: "profile_load limit f = bind_r (try_r decoded
      (\<lambda>e. if e = UnicodeError \<or> e = JSONDecodeError then schema_error ''cannot decode V3B-2 profile'' else Inl e))
      profile_from_mapping"
    by (simp add: profile_load_def decoded_def)
  show ?thesis
  proof (cases decoded)
    case (Inl e')
    with inner [OF this] assms load show ?thesis by (auto split: if_splits)
  next
    case (Inr v)
    with assms load only_raisesD [OF from_mapping_raises] show ?thesis by simp
  qed
qed

end
