(* ===== verification/PyPath.thy ===== *)
theory PyPath
  imports PyText
begin

text \<open>
  \<^verbatim>\<open>pathlib\<close> on POSIX as the code uses it on texts: a path is a root (nothing, one slash or
  exactly two) and the names behind it, without the empty ones and the single dots.
\<close>

definition path_root :: "pstr \<Rightarrow> pstr" where
  "path_root s =
     (if starts_with [47, 47] s \<and> \<not> starts_with [47, 47, 47] s then [47, 47]
      else if starts_with [47] s then [47] else [])"

definition path_names :: "pstr \<Rightarrow> pstr list" where
  "path_names s = filter (\<lambda>p. p \<noteq> [] \<and> p \<noteq> [46]) (split_on 47 s)"

definition path_of :: "pstr \<Rightarrow> pstr list \<Rightarrow> pstr" where
  "path_of r names = (if r = [] \<and> names = [] then [46] else r @ join_with [47] names)"

definition path_text :: "pstr \<Rightarrow> pstr" where
  "path_text s = path_of (path_root s) (path_names s)"

definition path_parts :: "pstr \<Rightarrow> pstr list" where
  "path_parts s = (if path_root s = [] then path_names s else path_root s # path_names s)"

definition path_absolute :: "pstr \<Rightarrow> bool" where
  "path_absolute s \<longleftrightarrow> path_root s \<noteq> []"

definition dot_dot :: pstr where "dot_dot = [46, 46]"

text \<open>\<^verbatim>\<open>Path(text).parent / name\<close>, as a text.\<close>

definition path_sibling :: "pstr \<Rightarrow> pstr \<Rightarrow> pstr" where
  "path_sibling s name = path_of (path_root s) (butlast (path_names s) @ [name])"

lemma path_examples:
  "path_text (u ''/a/b'') = u ''/a/b''" "path_text (u ''/a//b/./c/'') = u ''/a/b/c''" "path_text (u ''//x'') = u ''//x''"
  "path_text (u ''///x'') = u ''/x''" "path_text [] = u ''.''" "path_parts (u ''/a/b'') = [u ''/'', u ''a'', u ''b'']"
  "path_sibling (u ''/a/b'') (u ''c'') = u ''/a/c''"
  by code_simp+

end
