(* ===== verification/KilJournalEvents.thy ===== *)
theory KilJournalEvents
  imports KilContracts PyPath
begin

text \<open>
  \<^verbatim>\<open>src/kil/v3b2_journal.py\<close>, the events of the lifecycle journal: the checks of exact strings,
  digests and paths, the families of events with their closed details, and the check of one
  event, which names its family, its stage and the key of the pair it belongs to. The binding
  of a profile, from \<^verbatim>\<open>src/kil/v3b2_profile_state.py\<close>, is part of those details.
\<close>

abbreviation journal_error :: "string \<Rightarrow> 'a res" where
  "journal_error msg \<equiv> Inl (JournalError msg)"

subsection \<open>Exact values\<close>

definition exact_string :: "string \<Rightarrow> nat \<Rightarrow> pyval \<Rightarrow> pstr res" where
  "exact_string label maximum v = (case v of
     PStr s \<Rightarrow>
       if s = [] then journal_error (label @ '' must be an exact bounded nonempty string'')
       else bind_r (try_r (utf8_encode s) (\<lambda>e. if e = UnicodeError
           then journal_error (label @ '' contains invalid Unicode'') else Inl e)) (\<lambda>encoded.
         if length encoded > maximum then journal_error (label @ '' must be an exact bounded nonempty string'')
         else Inr s)
   | _ \<Rightarrow> journal_error (label @ '' must be an exact bounded nonempty string''))"

definition hex_digits :: "nat \<Rightarrow> pstr \<Rightarrow> bool" where
  "hex_digits n s \<longleftrightarrow> length s = n \<and> list_all is_hex s"

definition exact_digest :: "string \<Rightarrow> nat \<Rightarrow> pyval \<Rightarrow> pstr res" where
  "exact_digest label digits v = (case v of
     PStr s \<Rightarrow> if hex_digits digits s then Inr s else journal_error (label @ '' must be an exact lowercase hexadecimal digest'')
   | _ \<Rightarrow> journal_error (label @ '' must be an exact lowercase hexadecimal digest''))"

definition absolute_path :: "string \<Rightarrow> pyval \<Rightarrow> pstr res" where
  "absolute_path label v =
     bind_r (exact_string label 4096 v) (\<lambda>s.
     if \<not> path_absolute s \<or> dot_dot \<in> set (path_parts s) \<or> path_text s \<noteq> s
     then journal_error (label @ '' must be a normalized absolute path'') else Inr s)"

text \<open>The content references of images, as the patterns write them.\<close>

definition prefixed_digest :: "string \<Rightarrow> pstr \<Rightarrow> bool" where
  "prefixed_digest prefix s \<longleftrightarrow> starts_with (u prefix) s \<and> hex_digits 64 (drop (length prefix) s)"

definition kil_image :: "pstr \<Rightarrow> bool" where
  "kil_image = prefixed_digest ''kil.local/kil-v3b2:sha256-''"

definition envoy_image :: "pstr \<Rightarrow> bool" where
  "envoy_image = prefixed_digest ''docker.io/envoyproxy/envoy@sha256:''"

definition JOURNAL_NAMESPACES :: "string list" where
  "JOURNAL_NAMESPACES = [''kil-v3-baseline'', ''kil-v3-local-reduce'', ''kil-v3-signed'']"

subsection \<open>Families, stages and their details\<close>

datatype family =
    ProfileStart | ProfileStop | ProfileDelete | ClusterCreate | ClusterDelete | ImageImport
  | ImageLoad | CalicoApply | ApplicationApply | Readiness | EnvoyQuiesce | DriverStart
  | DriverCancel | EvidenceFreeze | ClusterAbsence | ProfileAbsence | ForeignComparison
  | Publication | Request

datatype stage = Intent | Complete | Failed | Abandoned

definition PAIR_DETAILS :: "(family \<times> string \<times> string list) list" where
  "PAIR_DETAILS =
     [(ProfileStart, ''profile_start'', [''colima_profile'']),
      (ProfileStop, ''profile_stop'', [''colima_profile'']),
      (ProfileDelete, ''profile_delete'', [''colima_profile'']),
      (ClusterCreate, ''cluster_create'', [''kind_cluster'', ''kubeconfig'']),
      (ClusterDelete, ''cluster_delete'', [''kind_cluster'', ''kubeconfig'']),
      (ImageImport, ''image_import'', [''archive_sha256'', ''image'', ''envoy_image'']),
      (ImageLoad, ''image_load'', [''image'', ''envoy_image'']),
      (CalicoApply, ''calico_apply'', [''manifest_sha256'']),
      (ApplicationApply, ''application_apply'', [''manifest_sha256'']),
      (Readiness, ''readiness'', [''attestation_sha256'']),
      (EnvoyQuiesce, ''envoy_quiesce'', [''attestation_sha256'']),
      (DriverStart, ''driver_start'', [''namespace'', ''pod'', ''uid'']),
      (DriverCancel, ''driver_cancel'', [''namespace'', ''pod'', ''uid'']),
      (EvidenceFreeze, ''evidence_freeze'', [''evidence_sha256'']),
      (ClusterAbsence, ''cluster_absence_proof'', [''kind_cluster'', ''node_container_id'']),
      (ProfileAbsence, ''profile_absence_proof'', [''colima_profile'']),
      (ForeignComparison, ''foreign_snapshot_comparison'', [''unchanged'', ''attestation_sha256'']),
      (Publication, ''publication'', [''destination'', ''public_commitment_sha256'', ''tree_commitment_sha256''])]"

definition REQUEST_INTENT_FIELDS :: "string list" where
  "REQUEST_INTENT_FIELDS = [''track'', ''request_id'', ''case_sha256'']"
definition REQUEST_RESULT_FIELDS :: "string list" where
  "REQUEST_RESULT_FIELDS = [''track'', ''request_id'', ''case_sha256'', ''result_sha256'']"
definition CLUSTER_COMPLETE_FIELDS :: "string list" where
  "CLUSTER_COMPLETE_FIELDS =
     [''kind_cluster'', ''kubeconfig'', ''cluster_incarnation_uid'', ''node_container_id'', ''docker_host'']"
definition FAILURE_FIELDS :: "string list" where
  "FAILURE_FIELDS = [''failure_category'', ''proof_sha256'']"
definition ABANDONMENT_FIELDS :: "string list" where
  "ABANDONMENT_FIELDS = [''abandoned_family'', ''stage_category'', ''observation_sha256'', ''promotion_forbidden'']"

definition FAILURE_FAMILIES :: "family list" where
  "FAILURE_FAMILIES =
     [ProfileStart, ProfileStop, ProfileDelete, ClusterCreate, ClusterDelete, ImageImport, ImageLoad,
      CalicoApply, ApplicationApply, EnvoyQuiesce, DriverStart, DriverCancel]"

definition family_name :: "family \<Rightarrow> string" where
  "family_name f = (case map_of PAIR_DETAILS f of None \<Rightarrow> ''request'' | Some (name, _) \<Rightarrow> name)"

definition pair_fields :: "family \<Rightarrow> string list" where
  "pair_fields f = (case map_of PAIR_DETAILS f of None \<Rightarrow> [] | Some (_, names) \<Rightarrow> names)"

text \<open>
  The family of an event's name: the two events of a request, or the first suffix of a stage
  that leaves the name of a family of pairs.
\<close>

definition STAGE_SUFFIXES :: "(string \<times> stage) list" where
  "STAGE_SUFFIXES = [(''_abandoned_for_teardown'', Abandoned), (''_intent'', Intent), (''_complete'', Complete), (''_failed'', Failed)]"

fun find_family :: "pstr \<Rightarrow> (string \<times> stage) list \<Rightarrow> (family \<times> stage) res" where
  "find_family name [] = journal_error ''unknown journal event''"
| "find_family name ((suffix, stage) # rest) =
     (if ends_with (u suffix) name
      then (case find (\<lambda>(_, n, _). u n = take (length name - length suffix) name) PAIR_DETAILS of
          Some (family, _) \<Rightarrow> Inr (family, stage)
        | None \<Rightarrow> find_family name rest)
      else find_family name rest)"

definition event_family :: "pstr \<Rightarrow> (family \<times> stage) res" where
  "event_family name =
     (if name = u ''request_intent'' then Inr (Request, Intent)
      else if name = u ''request_result'' then Inr (Request, Complete)
      else find_family name STAGE_SUFFIXES)"

text \<open>A field of a dictionary whose keys were checked.\<close>

definition item :: "pydict \<Rightarrow> string \<Rightarrow> pyval" where
  "item d k = (case dict_get d k of None \<Rightarrow> PNone | Some v \<Rightarrow> v)"

definition without :: "string \<Rightarrow> pydict \<Rightarrow> pydict" where
  "without k d = filter (\<lambda>kv. fst kv \<noteq> str k) d"

subsection \<open>The binding of a profile\<close>

definition DISK_NAME :: string where "DISK_NAME = ''colima-kil-v3-lab''"
definition DISK_SIZE :: int where "DISK_SIZE = 60 * 1024 ^ 3"

abbreviation profile_error :: "string \<Rightarrow> 'a res" where
  "profile_error msg \<equiv> Inl (ProfileStateError msg)"

text \<open>
  The file type of a mode, as \<^verbatim>\<open>stat.S_ISDIR\<close> and its likes read it. The mode of the host the
  profile is pinned to has 16 bits; a larger integer does not convert to it.
\<close>

datatype resource_kind = Directory | RegularFile | Link

fun kind_bits :: "resource_kind \<Rightarrow> int" where
  "kind_bits Directory = 4"
| "kind_bits RegularFile = 8"
| "kind_bits Link = 10"

definition mode_is :: "resource_kind \<Rightarrow> int \<Rightarrow> bool res" where
  "mode_is kind mode = (if mode \<ge> 2 ^ 16 then Inl OverflowError else Inr (mode div 4096 = kind_bits kind))"

definition record_identity :: "pyval \<Rightarrow> resource_kind \<Rightarrow> pydict res" where
  "record_identity v kind = (case v of
     PDict d \<Rightarrow>
       if list_ex (\<lambda>k. case item d k of PInt n \<Rightarrow> n < 0 | _ \<Rightarrow> True) [''device'', ''inode'', ''mode'']
       then profile_error ''resource identity is invalid''
       else bind_r (case item d ''mode'' of PInt mode \<Rightarrow> mode_is kind mode | _ \<Rightarrow> Inr False) (\<lambda>b.
         if b then Inr (map (\<lambda>k. (str k, item d k)) [''device'', ''inode'', ''mode''])
         else profile_error ''resource type is invalid'')
   | _ \<Rightarrow> profile_error ''resource identity is invalid'')"

text \<open>\<^verbatim>\<open>set(value)\<close> of a JSON value: its keys, its characters or its elements.\<close>

definition set_of :: "pyval \<Rightarrow> pyval set res" where
  "set_of v = (case v of
     PDict d \<Rightarrow> Inr (set (map fst d))
   | PStr s \<Rightarrow> Inr (set (map (\<lambda>c. PStr [c]) s))
   | PList vs \<Rightarrow>
       if list_ex (\<lambda>w. case w of PList _ \<Rightarrow> True | PDict _ \<Rightarrow> True | _ \<Rightarrow> False) vs
       then Inl (TypeError ''unhashable type'') else Inr (set vs)
   | _ \<Rightarrow> Inl (TypeError ''object is not iterable''))"

definition BINDING_FIELDS :: "string list" where
  "BINDING_FIELDS = [''resources'', ''config_sha256'', ''lima_config_sha256'', ''data_disk_size'', ''data_disk_format'', ''lock_target'']"

definition RESOURCE_FIELDS :: "string list" where
  "RESOURCE_FIELDS = [''profile'', ''instance'', ''disk'', ''profile_config'', ''instance_config'', ''data_disk'', ''root_disk'', ''lima_config'']"

definition check_resource :: "pyval \<times> pyval \<Rightarrow> unit res" where
  "check_resource kv =
     bind_r (set_of (snd kv)) (\<lambda>keys.
     if keys \<noteq> set (map str [''device'', ''inode'', ''mode'']) then profile_error ''profile identity binding fields are invalid''
     else bind_r (record_identity (snd kv)
       (if fst kv \<in> set (map str [''profile'', ''instance'', ''disk'']) then Directory else RegularFile)) (\<lambda>_. Inr ()))"

definition sha_text :: "pyval \<Rightarrow> bool" where
  "sha_text v = (case v of PStr s \<Rightarrow> hex_digits 64 s | _ \<Rightarrow> False)"

definition lock_target_ok :: "pyval \<Rightarrow> bool" where
  "lock_target_ok v = (case v of
     PStr s \<Rightarrow> path_absolute s \<and> dot_dot \<notin> set (path_parts s)
       \<and> drop (length (path_parts s) - 3) (path_parts s) = map u [''.colima'', ''_lima'', DISK_NAME]
   | _ \<Rightarrow> False)"

definition validate_binding :: "pyval \<Rightarrow> unit res" where
  "validate_binding v = (case v of
     PDict b \<Rightarrow>
       if \<not> keys_exact b BINDING_FIELDS then profile_error ''profile binding fields are invalid''
       else bind_r (case item b ''resources'' of
           PDict r \<Rightarrow> if keys_exact r RESOURCE_FIELDS then fold_r (\<lambda>_. check_resource) () r
             else profile_error ''profile resource binding fields are invalid''
         | _ \<Rightarrow> profile_error ''profile resource binding fields are invalid'') (\<lambda>_.
       if \<not> (case item b ''config_sha256'' of
           PDict h \<Rightarrow> keys_exact h [''profile'', ''instance''] \<and> list_all (\<lambda>kv. sha_text (snd kv)) h | _ \<Rightarrow> False)
       then profile_error ''profile saved hash bindings are invalid''
       else if \<not> sha_text (item b ''lima_config_sha256'') then profile_error ''Lima config hash binding is invalid''
       else if item b ''data_disk_size'' \<noteq> PInt DISK_SIZE \<or> item b ''data_disk_format'' \<noteq> str ''raw''
       then profile_error ''profile disk binding is invalid''
       else if \<not> lock_target_ok (item b ''lock_target'') then profile_error ''profile disk lock binding is invalid''
       else Inr ())
   | _ \<Rightarrow> profile_error ''profile binding fields are invalid'')"

subsection \<open>The check of one event\<close>

definition closed_details :: "pyval \<Rightarrow> string list \<Rightarrow> pydict res" where
  "closed_details v expected = (case v of
     PDict d \<Rightarrow> if keys_exact d expected then Inr d else journal_error ''details fields are not closed''
   | _ \<Rightarrow> journal_error ''details fields are not closed'')"

text \<open>The text of a field that was checked to be one.\<close>

definition text_of :: "pydict \<Rightarrow> string \<Rightarrow> pstr" where
  "text_of d k = (case item d k of PStr s \<Rightarrow> s | _ \<Rightarrow> [])"

text \<open>A terminal event may carry the digest of its proof, the start of the profile its binding too.\<close>

definition strip_observed :: "family \<Rightarrow> stage \<Rightarrow> pyval \<Rightarrow> pyval res" where
  "strip_observed family stage v = (case v of
     PDict d \<Rightarrow>
       if family \<noteq> Request \<and> stage \<noteq> Intent \<and> dict_get d ''observed_proof_sha256'' \<noteq> None
       then bind_r (exact_digest ''observed proof SHA-256'' 64 (item d ''observed_proof_sha256'')) (\<lambda>_.
         let d' = without ''observed_proof_sha256'' d in
         if family = ProfileStart \<and> stage \<in> {Complete, Abandoned} \<and> dict_get d' ''profile_binding'' \<noteq> None
         then bind_r (validate_binding (item d' ''profile_binding'')) (\<lambda>_. Inr (PDict (without ''profile_binding'' d')))
         else Inr (PDict d'))
       else Inr v
   | _ \<Rightarrow> Inr v)"

definition request_details :: "stage \<Rightarrow> pyval \<Rightarrow> pstr list res" where
  "request_details stage v =
     bind_r (closed_details v (if stage = Intent then REQUEST_INTENT_FIELDS else REQUEST_RESULT_FIELDS)) (\<lambda>d.
     if item d ''track'' \<notin> set (map str LAB_TRACKS) then journal_error ''request track is not reviewed''
     else if item d ''request_id'' \<noteq> str NOMINAL_REQUEST_ID then journal_error ''request ID is not the fixed nominal request''
     else bind_r (exact_digest ''request case SHA-256'' 64 (item d ''case_sha256'')) (\<lambda>_.
       bind_r (if stage = Complete then exact_digest ''request result SHA-256'' 64 (item d ''result_sha256'') else Inr []) (\<lambda>_.
       Inr [text_of d ''track'', text_of d ''request_id''])))"

definition check_field :: "pydict \<Rightarrow> string \<Rightarrow> (pyval \<Rightarrow> 'a res) \<Rightarrow> unit res" where
  "check_field d k check = (if dict_get d k = None then Inr () else bind_r (check (item d k)) (\<lambda>_. Inr ()))"

definition must_be :: "string \<Rightarrow> string \<Rightarrow> pyval \<Rightarrow> unit res" where
  "must_be msg expected v = (if v = str expected then Inr () else journal_error msg)"

definition failure_details :: "pydict \<Rightarrow> unit res" where
  "failure_details d =
     bind_r (in_string_set (item d ''failure_category'') [''execution_not_started'', ''not_applied'']) (\<lambda>b.
     if \<not> b then journal_error ''failure category is not reviewed''
     else bind_r (exact_digest ''failure proof SHA-256'' 64 (item d ''proof_sha256'')) (\<lambda>_. Inr ()))"

definition abandonment_details :: "family \<Rightarrow> pydict \<Rightarrow> unit res" where
  "abandonment_details family d =
     (if family \<in> {Request, Publication} then journal_error ''family cannot be abandoned for teardown''
      else if item d ''abandoned_family'' \<noteq> str (family_name family)
        \<or> item d ''stage_category'' \<noteq> str ''uncertain_or_partial'' \<or> item d ''promotion_forbidden'' \<noteq> PBool True
      then journal_error ''abandonment identity/category is invalid''
      else bind_r (exact_digest ''abandonment observation SHA-256'' 64 (item d ''observation_sha256'')) (\<lambda>_. Inr ()))"

definition cluster_complete_details :: "pyval \<Rightarrow> pydict res" where
  "cluster_complete_details v =
     bind_r (closed_details v CLUSTER_COMPLETE_FIELDS) (\<lambda>d.
     bind_r (exact_string ''cluster incarnation UID'' 4096 (item d ''cluster_incarnation_uid'')) (\<lambda>_.
     bind_r (exact_digest ''node container ID'' 64 (item d ''node_container_id'')) (\<lambda>_.
     bind_r (exact_string ''Docker endpoint'' 4096 (item d ''docker_host'')) (\<lambda>endpoint.
     if starts_with (u ''unix:///'') endpoint then Inr d else journal_error ''Docker endpoint must be an explicit Unix socket''))))"

definition driver_key :: "pydict \<Rightarrow> pstr list res" where
  "driver_key d =
     (if item d ''namespace'' \<notin> set (map str JOURNAL_NAMESPACES) then journal_error ''driver namespace is not reviewed''
      else if item d ''pod'' \<noteq> str ''driver'' then journal_error ''driver Pod name is not fixed''
      else bind_r (exact_string ''driver Pod UID'' 4096 (item d ''uid'')) (\<lambda>uid.
        Inr [text_of d ''namespace'', text_of d ''pod'', uid]))"

definition image_reference :: "(pstr \<Rightarrow> bool) \<Rightarrow> pyval \<Rightarrow> bool" where
  "image_reference pattern v = (case v of PStr s \<Rightarrow> pattern s | _ \<Rightarrow> False)"

definition pair_checks :: "family \<Rightarrow> pydict \<Rightarrow> unit res" where
  "pair_checks family d =
     bind_r (check_field d ''colima_profile'' (must_be ''event may name only the owned Colima profile'' LAB_IDENTITY)) (\<lambda>_.
     bind_r (check_field d ''kind_cluster'' (must_be ''event may name only the owned Kind cluster'' LAB_IDENTITY)) (\<lambda>_.
     bind_r (check_field d ''kubeconfig'' (absolute_path ''event kubeconfig'')) (\<lambda>_.
     bind_r (fold_r (\<lambda>_ k. check_field d k (exact_digest k 64)) ()
       [''manifest_sha256'', ''attestation_sha256'', ''evidence_sha256'', ''public_commitment_sha256'', ''tree_commitment_sha256'']) (\<lambda>_.
     bind_r (check_field d ''node_container_id'' (exact_digest ''node container ID'' 64)) (\<lambda>_.
     if family \<in> {ImageImport, ImageLoad}
       \<and> (\<not> image_reference kil_image (item d ''image'') \<or> \<not> image_reference envoy_image (item d ''envoy_image''))
     then journal_error ''image load content reference is not exact''
     else bind_r (if family = ImageImport then exact_digest ''image archive SHA-256'' 64 (item d ''archive_sha256'') else Inr []) (\<lambda>_.
     bind_r (if family = Publication then absolute_path ''publication destination'' (item d ''destination'') else Inr []) (\<lambda>_. Inr ())))))))"

definition pair_details :: "family \<Rightarrow> stage \<Rightarrow> pyval \<Rightarrow> pstr list res" where
  "pair_details family stage v =
     (if stage = Failed \<and> family \<notin> set FAILURE_FAMILIES then journal_error ''failure transition is not permitted for this family''
      else bind_r (if family = ClusterCreate \<and> stage = Complete then cluster_complete_details v
         else closed_details v (pair_fields family
           @ (if stage = Failed then FAILURE_FIELDS else if stage = Abandoned then ABANDONMENT_FIELDS else []))) (\<lambda>d.
       bind_r (if stage = Failed then failure_details d else Inr ()) (\<lambda>_.
       bind_r (if stage = Abandoned then abandonment_details family d else Inr ()) (\<lambda>_.
       bind_r (pair_checks family d) (\<lambda>_.
       bind_r (if family \<in> {DriverStart, DriverCancel} then driver_key d else Inr []) (\<lambda>key.
       if family = ForeignComparison \<and> item d ''unchanged'' \<notin> {PBool True, PBool False}
       then journal_error ''foreign comparison result must be an exact boolean''
       else Inr key))))))"

type_synonym event_kind = "family \<times> stage \<times> pstr list"

definition validate_event_details :: "pstr \<Rightarrow> pyval \<Rightarrow> event_kind res" where
  "validate_event_details name details =
     bind_r (event_family name) (\<lambda>(family, stage).
     bind_r (strip_observed family stage details) (\<lambda>v.
     bind_r (if family = Request then request_details stage v else pair_details family stage v) (\<lambda>key.
     Inr (family, stage, key))))"

subsection \<open>What the checks raise\<close>

fun is_journal_error :: "pyexc \<Rightarrow> bool" where
  "is_journal_error (JournalError _) = True"
| "is_journal_error _ = False"

text \<open>
  The exceptions of the details that are not the journal's own: a value without a hash, or that
  cannot be iterated, a mode beyond the host's, and the error of a profile's binding.
\<close>

fun is_detail_error :: "pyexc \<Rightarrow> bool" where
  "is_detail_error (JournalError _) = True"
| "is_detail_error (TypeError _) = True"
| "is_detail_error (ProfileStateError _) = True"
| "is_detail_error OverflowError = True"
| "is_detail_error _ = False"

lemma exact_raises [raises]:
  "only_raises is_journal_error (exact_string label n v)" "only_raises is_journal_error (exact_digest label m v)"
  "only_raises is_journal_error (absolute_path label v)"
proof -
  show *: "only_raises is_journal_error (exact_string label n v)" for n
    by (auto simp: exact_string_def try_r_def utf8_encode_def split: pyval.splits sum.splits if_splits)
  show "only_raises is_journal_error (exact_digest label m v)"
    by (auto simp: exact_digest_def split: pyval.splits)
  show "only_raises is_journal_error (absolute_path label v)"
    unfolding absolute_path_def by (rule only_raises_bind [OF *]) simp
qed

end
