(* ===== verification/KilJournalHistory.thy ===== *)
theory KilJournalHistory
  imports KilJournalEvents "HOL-Library.AList"
begin

text \<open>
  \<^verbatim>\<open>src/kil/v3b2_journal.py\<close>, the state machine \<^verbatim>\<open>_validate_history\<close> runs over the events of a
  journal: what each family requires before its intent, and what a terminal event must match.
  Its local variables are the record \<open>history\<close>.
\<close>

subsection \<open>The state\<close>

datatype lifecycle_mode = Nominal | RequestFree

datatype progress = Pending | Ended stage

type_synonym state_key = "family \<times> pstr list"

record history =
  hs_states :: "(state_key \<times> progress \<times> pydict) list"
  hs_active :: "state_key option"
  hs_completed :: "state_key set"
  hs_driver_starts :: "(pstr \<times> pstr list) list"
  hs_driver_cancels :: "pstr set"
  hs_request_claims :: "pstr list"
  hs_request_results :: "pstr set"
  hs_foreign_unchanged :: "bool option"
  hs_failed :: "family set"
  hs_abandoned :: "family set"

definition empty_history :: history where
  "empty_history = \<lparr>hs_states = [], hs_active = None, hs_completed = {}, hs_driver_starts = [],
     hs_driver_cancels = {}, hs_request_claims = [], hs_request_results = {}, hs_foreign_unchanged = None,
     hs_failed = {}, hs_abandoned = {}\<rparr>"

definition family_done :: "history \<Rightarrow> family \<Rightarrow> bool" where
  "family_done h f \<longleftrightarrow> (f, []) \<in> hs_completed h"

definition started :: "history \<Rightarrow> pstr set" where
  "started h = set (map fst (hs_driver_starts h))"

definition require :: "bool \<Rightarrow> string \<Rightarrow> unit res" where
  "require condition msg = ensure condition (JournalError (''journal lifecycle phase/order violation: '' @ msg))"

definition nth_r :: "'a list \<Rightarrow> nat \<Rightarrow> 'a res" where
  "nth_r xs n = (if n < length xs then Inr (xs ! n) else Inl IndexError)"

subsection \<open>Intents\<close>

definition SAFE_TEARDOWN :: "family list" where
  "SAFE_TEARDOWN = [DriverCancel, EnvoyQuiesce, EvidenceFreeze, ClusterDelete, ClusterAbsence, ProfileStop,
     ProfileDelete, ProfileAbsence, ForeignComparison]"

definition AFTER_ABANDONED_REQUEST :: "family list" where
  "AFTER_ABANDONED_REQUEST = [DriverCancel, ClusterDelete, ClusterAbsence, ProfileStop, ProfileDelete,
     ProfileAbsence, ForeignComparison, Publication]"

definition request_pending :: "history \<Rightarrow> bool" where
  "request_pending h \<longleftrightarrow> hs_request_claims h \<noteq> [] \<and> last (hs_request_claims h) \<notin> hs_request_results h"

definition teardown_only :: "int option \<Rightarrow> int \<Rightarrow> history \<Rightarrow> bool" where
  "teardown_only latch sequence h \<longleftrightarrow> hs_failed h \<noteq> {} \<or> hs_abandoned h \<noteq> {}
     \<or> (case latch of None \<Rightarrow> False | Some n \<Rightarrow> sequence \<ge> n)"

definition driver_start_guard :: "lifecycle_mode \<Rightarrow> history \<Rightarrow> pydict \<Rightarrow> unit res" where
  "driver_start_guard mode h d =
     bind_r (require (family_done h Readiness \<and> \<not> family_done h EvidenceFreeze) ''driver start requires readiness before freeze'') (\<lambda>_.
     bind_r (require (text_of d ''namespace'' \<notin> started h) ''driver start is duplicated'') (\<lambda>_.
     bind_r (nth_r (map u APPLICATION_NAMESPACES) (length (hs_driver_starts h))) (\<lambda>expected.
     bind_r (require (text_of d ''namespace'' = expected) ''driver starts are out of fixed order'') (\<lambda>_.
     if hs_driver_starts h \<noteq> [] \<and> mode = Nominal
     then bind_r (nth_r (map u LAB_TRACKS) (length (hs_driver_starts h) - 1)) (\<lambda>prior.
       require (prior \<in> hs_request_results h) ''next-track driver requires prior request result'')
     else Inr ()))))"

definition request_guard :: "lifecycle_mode \<Rightarrow> history \<Rightarrow> pydict \<Rightarrow> unit res" where
  "request_guard mode h d =
     bind_r (require (mode = Nominal) ''request-free mode prohibits request events'') (\<lambda>_.
     bind_r (require (family_done h Readiness \<and> \<not> family_done h EvidenceFreeze) ''request requires readiness before freeze'') (\<lambda>_.
     bind_r (nth_r (map u LAB_TRACKS) (length (hs_request_claims h))) (\<lambda>expected.
     bind_r (require (text_of d ''track'' = expected) ''requests are out of fixed track order'') (\<lambda>_.
     bind_r (case map_of (map (\<lambda>(t, n). (u t, u n)) TRACK_NAMESPACES) (text_of d ''track'') of
         None \<Rightarrow> Inl (KeyError ''track'') | Some n \<Rightarrow> Inr n) (\<lambda>namespace.
     bind_r (require (namespace \<in> started h) ''request lacks a completed bound driver'') (\<lambda>_.
     if hs_request_claims h \<noteq> []
     then require (last (hs_request_claims h) \<in> hs_request_results h) ''prior request is still pending''
     else Inr ()))))))"

definition evidence_freeze_guard :: "lifecycle_mode \<Rightarrow> history \<Rightarrow> unit res" where
  "evidence_freeze_guard mode h =
     bind_r (require (family_done h Readiness) ''evidence freeze requires completed readiness'') (\<lambda>_.
     if mode = RequestFree \<and> hs_driver_starts h \<noteq> []
     then bind_r (require (started h = hs_driver_cancels h) ''request-free freeze requires all waiting drivers canceled'') (\<lambda>_.
       require (family_done h EnvoyQuiesce \<or> EnvoyQuiesce \<in> hs_abandoned h)
         ''request-free freeze requires Envoy quiescence or diagnostic abandonment'')
     else Inr ())"

definition envoy_quiesce_guard :: "lifecycle_mode \<Rightarrow> bool \<Rightarrow> history \<Rightarrow> unit res" where
  "envoy_quiesce_guard mode teardown h =
     bind_r (require (family_done h Readiness \<and> \<not> family_done h EvidenceFreeze) ''Envoy quiescence requires readiness before freeze'') (\<lambda>_.
     if mode = RequestFree
     then bind_r (require (teardown \<or> length (hs_driver_starts h) = length LAB_TRACKS)
         ''request-free quiescence requires all waiting drivers'') (\<lambda>_.
       require (started h = hs_driver_cancels h) ''request-free quiescence requires waiting-driver cancellation'')
     else Inr ())"

definition driver_tuple :: "pydict \<Rightarrow> pstr list" where
  "driver_tuple d = [text_of d ''namespace'', text_of d ''pod'', text_of d ''uid'']"

text \<open>A teardown may cancel a driver whose start was never completed: it is taken over first.\<close>

definition driver_cancel_guard :: "lifecycle_mode \<Rightarrow> bool \<Rightarrow> history \<Rightarrow> pydict \<Rightarrow> history res" where
  "driver_cancel_guard mode teardown h d =
     bind_r (require (family_done h EvidenceFreeze \<or> mode = RequestFree) ''driver cancellation requires durable evidence freeze'') (\<lambda>_.
     let namespace = text_of d ''namespace'';
         h1 = (if namespace \<notin> started h \<and> teardown \<and> family_done h Readiness
           then h\<lparr>hs_driver_starts := AList.update namespace (driver_tuple d) (hs_driver_starts h)\<rparr> else h);
         remaining = filter (\<lambda>n. n \<in> started h1 \<and> n \<notin> hs_driver_cancels h1) (map u APPLICATION_NAMESPACES) in
     bind_r (require (namespace \<in> started h1) ''driver cancellation lacks a started driver'') (\<lambda>_.
     bind_r (require (map_of (hs_driver_starts h1) namespace = Some (driver_tuple d)) ''driver cancellation UID does not match start'') (\<lambda>_.
     bind_r (require (namespace \<notin> hs_driver_cancels h1) ''driver cancellation is duplicated'') (\<lambda>_.
     bind_r (require (remaining \<noteq> [] \<and> namespace = hd remaining) ''driver cancellations are out of fixed order'') (\<lambda>_.
     Inr h1)))))"

fun family_guard :: "lifecycle_mode \<Rightarrow> bool \<Rightarrow> int \<Rightarrow> history \<Rightarrow> pydict \<Rightarrow> family \<Rightarrow> unit res" where
  "family_guard mode teardown sequence h d ProfileStart = require (sequence = 1) ''profile start must be first''"
| "family_guard mode teardown sequence h d ClusterCreate =
     require (family_done h ProfileStart) ''cluster create requires profile start completion''"
| "family_guard mode teardown sequence h d CalicoApply =
     require (family_done h ClusterCreate \<and> family_done h ImageLoad) ''Calico apply requires cluster and image load completion''"
| "family_guard mode teardown sequence h d ImageImport =
     require (family_done h ClusterCreate) ''image import requires cluster create completion''"
| "family_guard mode teardown sequence h d ImageLoad =
     require (family_done h ClusterCreate \<and> family_done h ImageImport) ''image load requires cluster and import completion''"
| "family_guard mode teardown sequence h d ApplicationApply =
     require (family_done h CalicoApply) ''application apply requires Calico completion''"
| "family_guard mode teardown sequence h d Readiness =
     require (family_done h ApplicationApply) ''readiness requires application completion''"
| "family_guard mode teardown sequence h d DriverStart = driver_start_guard mode h d"
| "family_guard mode teardown sequence h d Request = request_guard mode h d"
| "family_guard mode teardown sequence h d EvidenceFreeze = evidence_freeze_guard mode h"
| "family_guard mode teardown sequence h d EnvoyQuiesce = envoy_quiesce_guard mode teardown h"
| "family_guard mode teardown sequence h d DriverCancel = Inr ()"
| "family_guard mode teardown sequence h d ClusterDelete =
     bind_r (require (family_done h ClusterCreate \<or> ClusterCreate \<in> hs_abandoned h) ''cluster deletion requires proved creation ownership'') (\<lambda>_.
     bind_r (require (started h = hs_driver_cancels h) ''cluster deletion requires all drivers canceled'') (\<lambda>_.
     require (\<not> family_done h Readiness \<or> family_done h EvidenceFreeze \<or> hs_abandoned h \<noteq> {})
       ''post-readiness deletion requires evidence freeze or diagnostic abandonment''))"
| "family_guard mode teardown sequence h d ClusterAbsence =
     require (family_done h ClusterDelete) ''cluster absence requires delete completion''"
| "family_guard mode teardown sequence h d ProfileStop =
     bind_r (require (family_done h ProfileStart \<or> ProfileStart \<in> hs_abandoned h) ''profile stop requires proved start ownership'') (\<lambda>_.
     require (\<not> (family_done h ClusterCreate \<or> ClusterCreate \<in> hs_abandoned h) \<or> family_done h ClusterAbsence)
       ''profile stop requires cluster absence'')"
| "family_guard mode teardown sequence h d ProfileDelete =
     require (family_done h ProfileStop) ''profile delete requires stop completion''"
| "family_guard mode teardown sequence h d ProfileAbsence =
     require (family_done h ProfileDelete \<or> ProfileStart \<in> hs_failed h)
       ''profile absence requires delete completion or proven start absence''"
| "family_guard mode teardown sequence h d ForeignComparison =
     require (family_done h ProfileAbsence) ''foreign comparison requires owned absence''"
| "family_guard mode teardown sequence h d Publication =
     bind_r (require (\<not> teardown) ''failed lifecycle cannot publish nominal evidence'') (\<lambda>_.
     bind_r (require (family_done h ForeignComparison) ''publication requires foreign comparison'') (\<lambda>_.
     require (hs_foreign_unchanged h = Some True) ''promotable publication requires unchanged foreign resources''))"

definition history_intent ::
  "lifecycle_mode \<Rightarrow> int option \<Rightarrow> int \<Rightarrow> family \<Rightarrow> pstr list \<Rightarrow> pydict \<Rightarrow> history \<Rightarrow> history res" where
  "history_intent mode latch sequence family key d h =
     (let pending = request_pending h; abandoned = pending \<and> family_done h EvidenceFreeze;
          teardown = teardown_only latch sequence h in
      if map_of (hs_states h) (family, key) \<noteq> None then journal_error ''intent is duplicated or already pending''
      else if hs_active h \<noteq> None then journal_error ''journal lifecycle has overlapping pending intents''
      else if teardown \<and> family \<notin> set SAFE_TEARDOWN then journal_error ''failed lifecycle permits only safe teardown''
      else if pending \<and> \<not> abandoned \<and> family \<notin> {EnvoyQuiesce, EvidenceFreeze}
      then journal_error ''request intent is terminal-pending until its result or evidence freeze''
      else if abandoned \<and> family \<notin> set AFTER_ABANDONED_REQUEST
      then journal_error ''abandoned request permits only ordered teardown and publication''
      else bind_r (family_guard mode teardown sequence h d family) (\<lambda>_.
        bind_r (if family = DriverCancel then driver_cancel_guard mode teardown h d else Inr h) (\<lambda>h1.
        let h2 = h1\<lparr>hs_states := AList.update (family, key) (Pending, d) (hs_states h1)\<rparr> in
        Inr (if family = Request then h2\<lparr>hs_request_claims := hs_request_claims h2 @ [text_of d ''track'']\<rparr>
             else h2\<lparr>hs_active := Some (family, key)\<rparr>))))"

subsection \<open>Terminal events\<close>

text \<open>The observed results of the foreign comparison may differ from its intent.\<close>

definition observed_result :: "family \<Rightarrow> stage \<Rightarrow> pydict \<Rightarrow> pyval \<Rightarrow> bool" where
  "observed_result family stage d k \<longleftrightarrow> family = ForeignComparison \<and> stage = Complete
     \<and> dict_get d ''observed_proof_sha256'' \<noteq> None \<and> k \<in> {str ''unchanged'', str ''attestation_sha256''}"

definition matches_intent :: "family \<Rightarrow> stage \<Rightarrow> pydict \<Rightarrow> pydict \<Rightarrow> bool" where
  "matches_intent family stage intent d \<longleftrightarrow>
     list_all (\<lambda>(k, v). observed_result family stage d k \<or> (case map_of d k of None \<Rightarrow> PNone | Some w \<Rightarrow> w) = v) intent"

definition close_stage :: "family \<Rightarrow> stage \<Rightarrow> state_key \<Rightarrow> history \<Rightarrow> history res" where
  "close_stage family stage key h =
     (if stage = Complete then Inr (h\<lparr>hs_completed := insert key (hs_completed h)\<rparr>)
      else if stage = Failed then Inr (h\<lparr>hs_failed := insert family (hs_failed h)\<rparr>)
      else bind_r (require (family \<in> {ProfileStart, ClusterCreate} \<or> family_done h ClusterCreate \<or> ClusterCreate \<in> hs_abandoned h)
          ''abandonment requires exact established ownership'') (\<lambda>_.
        Inr (h\<lparr>hs_abandoned := insert family (hs_abandoned h)\<rparr>)))"

text \<open>What a terminal event records beyond its stage.\<close>

definition record_effects :: "family \<Rightarrow> stage \<Rightarrow> pydict \<Rightarrow> history \<Rightarrow> history" where
  "record_effects family stage d h =
     (let h1 = (if family = DriverCancel \<and> stage \<in> {Abandoned, Complete}
           then h\<lparr>hs_driver_cancels := insert (text_of d ''namespace'') (hs_driver_cancels h)\<rparr> else h) in
      if stage \<in> {Failed, Abandoned} then h1
      else if family = DriverStart
      then h1\<lparr>hs_driver_starts := AList.update (text_of d ''namespace'') (driver_tuple d) (hs_driver_starts h1)\<rparr>
      else if family = ForeignComparison
      then h1\<lparr>hs_foreign_unchanged := Some (item d ''unchanged'' = PBool True)\<rparr>
      else h1)"

definition history_terminal ::
  "int option \<Rightarrow> int \<Rightarrow> family \<Rightarrow> stage \<Rightarrow> pstr list \<Rightarrow> pydict \<Rightarrow> history \<Rightarrow> history res" where
  "history_terminal latch sequence family stage key d h =
     (case map_of (hs_states h) (family, key) of
        Some (Pending, intent) \<Rightarrow>
          if family = Request \<and> (case latch of None \<Rightarrow> False | Some n \<Rightarrow> sequence \<ge> n)
          then journal_error ''teardown-only lifecycle cannot promote a late request result''
          else if family = Request \<and> (hs_active h \<noteq> None \<or> list_ex (\<lambda>(k, _). fst k = EvidenceFreeze) (hs_states h))
          then journal_error ''request completion lifecycle order/overlap violation: terminal after recovery begins''
          else if \<not> matches_intent family stage intent d then journal_error ''completion details do not match intent''
          else bind_r (close_stage family stage (family, key)
              (h\<lparr>hs_states := AList.update (family, key) (Ended stage, d) (hs_states h)\<rparr>)) (\<lambda>h1.
            if family = Request
            then Inr (record_effects family stage d (h1\<lparr>hs_request_results := insert (text_of d ''track'') (hs_request_results h1)\<rparr>))
            else if hs_active h1 \<noteq> Some (family, key) then journal_error ''completion is out of lifecycle order''
            else Inr (record_effects family stage d (h1\<lparr>hs_active := None\<rparr>)))
      | _ \<Rightarrow> journal_error ''completion lacks its exact intent'')"

subsection \<open>The history\<close>

definition dict_value :: "pyval \<Rightarrow> pydict" where
  "dict_value v = (case v of PDict d \<Rightarrow> d | _ \<Rightarrow> [])"

definition history_step :: "lifecycle_mode \<Rightarrow> int option \<Rightarrow> int \<times> history \<Rightarrow> pyval \<Rightarrow> (int \<times> history) res" where
  "history_step mode latch s record = (case s of (sequence, h) \<Rightarrow>
     (case record of
        PDict r \<Rightarrow>
          if \<not> keys_exact r [''sequence'', ''event'', ''details''] then journal_error ''journal event fields are not closed''
          else if item r ''sequence'' \<noteq> PInt sequence then journal_error ''journal event sequence is not contiguous''
          else (case item r ''event'' of
              PStr name \<Rightarrow>
                bind_r (validate_event_details name (item r ''details'')) (\<lambda>(family, stage, key).
                bind_r (if stage = Intent then history_intent mode latch sequence family key (dict_value (item r ''details'')) h
                   else history_terminal latch sequence family stage key (dict_value (item r ''details'')) h) (\<lambda>h'.
                Inr (sequence + 1, h')))
            | _ \<Rightarrow> journal_error ''journal event name must be an exact string'')
      | _ \<Rightarrow> journal_error ''journal event fields are not closed''))"

definition MAX_EVENTS :: nat where "MAX_EVENTS = 10000"

definition run_history :: "lifecycle_mode \<Rightarrow> int option \<Rightarrow> pyval list \<Rightarrow> (int \<times> history) res" where
  "run_history mode latch events = fold_r (history_step mode latch) (1, empty_history) events"

definition validate_history :: "lifecycle_mode \<Rightarrow> int option \<Rightarrow> pyval \<Rightarrow> unit res" where
  "validate_history mode latch v = (case v of
     PList events \<Rightarrow>
       if length events > MAX_EVENTS then journal_error ''journal events must be a bounded exact list''
       else bind_r (run_history mode latch events) (\<lambda>_. Inr ())
   | _ \<Rightarrow> journal_error ''journal events must be a bounded exact list'')"

end
