(* ===== verification/KilLifecycle.thy ===== *)
theory KilLifecycle
  imports KilJournalHistory
begin

text \<open>
  What the lifecycle machine of \<open>KilJournalHistory\<close> enforces. The events of an accepted history
  are read as families, stages and keys; each component of the machine's state is a function of
  the events so far, and so each guard is a condition on what happened before.
\<close>

subsection \<open>Events of a history\<close>

type_synonym lifecycle_event = "family \<times> stage \<times> pstr list \<times> pydict"

definition event_of :: "int \<Rightarrow> pyval \<Rightarrow> lifecycle_event res" where
  "event_of sequence record = (case record of
     PDict r \<Rightarrow>
       if \<not> keys_exact r [''sequence'', ''event'', ''details''] then journal_error ''journal event fields are not closed''
       else if item r ''sequence'' \<noteq> PInt sequence then journal_error ''journal event sequence is not contiguous''
       else (case item r ''event'' of
           PStr name \<Rightarrow> bind_r (validate_event_details name (item r ''details'')) (\<lambda>(family, stage, key).
             Inr (family, stage, key, dict_value (item r ''details'')))
         | _ \<Rightarrow> journal_error ''journal event name must be an exact string'')
   | _ \<Rightarrow> journal_error ''journal event fields are not closed'')"

fun event_step :: "lifecycle_mode \<Rightarrow> int option \<Rightarrow> int \<Rightarrow> lifecycle_event \<Rightarrow> history \<Rightarrow> history res" where
  "event_step mode latch n (family, stage, key, d) h =
     (if stage = Intent then history_intent mode latch n family key d h
      else history_terminal latch n family stage key d h)"

lemma history_step_event:
  "history_step mode latch (n, h) record =
     bind_r (event_of n record) (\<lambda>e. bind_r (event_step mode latch n e h) (\<lambda>h'. Inr (n + 1, h')))"
  by (auto simp: history_step_def event_of_def bind_r_def split: pyval.splits sum.splits prod.splits)

text \<open>The accepted histories as runs: the events read and the state behind them.\<close>

inductive runs :: "lifecycle_mode \<Rightarrow> int option \<Rightarrow> lifecycle_event list \<Rightarrow> history \<Rightarrow> bool" for mode latch where
  runs_empty: "runs mode latch [] empty_history"
| runs_event: "runs mode latch es h \<Longrightarrow> event_step mode latch (int (length es) + 1) e h = Inr h' \<Longrightarrow> runs mode latch (es @ [e]) h'"

inductive_cases runs_snocE: "runs mode latch (es @ [e]) h"

lemma run_history_runs:
  "run_history mode latch events = Inr (n, h) \<Longrightarrow>
     n = int (length events) + 1 \<and> (\<exists>es. length es = length events \<and> runs mode latch es h
       \<and> (\<forall>i < length events. event_of (int i + 1) (events ! i) = Inr (es ! i)))"
proof (induction events arbitrary: n h rule: rev_induct)
  case Nil
  then show ?case by (auto simp: run_history_def intro: runs_empty)
next
  case (snoc ev events)
  from snoc.prems obtain n0 h0 where 0: "run_history mode latch events = Inr (n0, h0)"
    and s: "history_step mode latch (n0, h0) ev = Inr (n, h)"
    by (auto simp: run_history_def fold_r_append)
  from snoc.IH [OF 0] obtain es where es: "length es = length events" "runs mode latch es h0"
    "\<forall>i < length events. event_of (int i + 1) (events ! i) = Inr (es ! i)" and n0: "n0 = int (length events) + 1" by blast
  from s obtain e where e: "event_of n0 ev = Inr e" "event_step mode latch n0 e h0 = Inr h" "n = n0 + 1"
    by (auto simp: history_step_event)
  have "runs mode latch (es @ [e]) h" by (rule runs_event [OF es(2)]) (use e(2) n0 es(1) in simp)
  moreover have "\<forall>i < length (events @ [ev]). event_of (int i + 1) ((events @ [ev]) ! i) = Inr ((es @ [e]) ! i)"
    using es e(1) n0 by (auto simp: nth_append less_Suc_eq)
  ultimately show ?case using es(1) e(3) n0 by (intro conjI exI [of _ "es @ [e]"]) auto
qed

lemma runs_prefix: "runs mode latch (xs @ ys) h \<Longrightarrow> \<exists>h0. runs mode latch xs h0"
proof (induction ys arbitrary: h rule: rev_induct)
  case (snoc y ys)
  from snoc.prems have "runs mode latch ((xs @ ys) @ [y]) h" by simp
  then obtain h0 where "runs mode latch (xs @ ys) h0" by (rule runs_snocE)
  then show ?case by (rule snoc.IH)
qed auto

text \<open>Every event of a run is a step from the state behind the events before it.\<close>

lemma runs_at:
  assumes "runs mode latch es h" "i < length es"
  obtains h0 h1 where "runs mode latch (take i es) h0" "event_step mode latch (int i + 1) (es ! i) h0 = Inr h1"
proof -
  have "runs mode latch ((take i es @ [es ! i]) @ drop (Suc i) es) h" using assms by (simp add: id_take_nth_drop [symmetric])
  from runs_prefix [OF this] obtain h1 where "runs mode latch (take i es @ [es ! i]) h1" by blast
  then show thesis by (rule runs_snocE) (use that assms(2) in auto)
qed

subsection \<open>The state as a function of the events\<close>

definition happened :: "lifecycle_event list \<Rightarrow> family \<Rightarrow> stage \<Rightarrow> bool" where
  "happened es f s \<longleftrightarrow> (\<exists>k d. (f, s, k, d) \<in> set es)"

fun event_key :: "lifecycle_event \<Rightarrow> state_key" where
  "event_key (f, s, k, d) = (f, k)"

fun event_stage :: "lifecycle_event \<Rightarrow> stage" where
  "event_stage (f, s, k, d) = s"

definition intents :: "lifecycle_event list \<Rightarrow> state_key list" where
  "intents es = map event_key (filter (\<lambda>e. event_stage e = Intent) es)"

definition terminals :: "lifecycle_event list \<Rightarrow> state_key list" where
  "terminals es = map event_key (filter (\<lambda>e. event_stage e \<noteq> Intent) es)"

definition claimed_tracks :: "lifecycle_event list \<Rightarrow> pstr list" where
  "claimed_tracks es = map (\<lambda>(f, s, k, d). text_of d ''track'') (filter (\<lambda>(f, s, k, d). f = Request \<and> s = Intent) es)"

definition answered_tracks :: "lifecycle_event list \<Rightarrow> pstr set" where
  "answered_tracks es = {text_of d ''track'' | d. \<exists>s k. (Request, s, k, d) \<in> set es \<and> s \<noteq> Intent}"

definition canceled_drivers :: "lifecycle_event list \<Rightarrow> pstr set" where
  "canceled_drivers es = {text_of d ''namespace'' | d. \<exists>s k. (DriverCancel, s, k, d) \<in> set es \<and> s \<in> {Complete, Abandoned}}"

definition started_drivers :: "lifecycle_event list \<Rightarrow> pstr set" where
  "started_drivers es = {text_of d ''namespace'' | d. \<exists>k. (DriverStart, Complete, k, d) \<in> set es}"

lemma happened_snoc [simp]: "happened (es @ [(f, s, k, d)]) f' s' \<longleftrightarrow> happened es f' s' \<or> (f = f' \<and> s = s')"
  by (auto simp: happened_def)

lemma events_snoc [simp]:
  "claimed_tracks (es @ [(f, s, k, d)]) = claimed_tracks es @ (if f = Request \<and> s = Intent then [text_of d ''track''] else [])"
  "answered_tracks (es @ [(f, s, k, d)]) = (if f = Request \<and> s \<noteq> Intent then insert (text_of d ''track'') (answered_tracks es) else answered_tracks es)"
  "canceled_drivers (es @ [(f, s, k, d)])
   = (if f = DriverCancel \<and> s \<in> {Complete, Abandoned} then insert (text_of d ''namespace'') (canceled_drivers es) else canceled_drivers es)"
  "started_drivers (es @ [(f, s, k, d)])
   = (if f = DriverStart \<and> s = Complete then insert (text_of d ''namespace'') (started_drivers es) else started_drivers es)"
  "intents (es @ [(f, s, k, d)]) = intents es @ (if s = Intent then [(f, k)] else [])"
  by (auto simp: claimed_tracks_def answered_tracks_def canceled_drivers_def started_drivers_def intents_def)

text \<open>The drivers a cancellation was intended for: a teardown takes them over as started.\<close>

definition adopted_drivers :: "lifecycle_event list \<Rightarrow> pstr set" where
  "adopted_drivers es = {text_of d ''namespace'' | d. \<exists>k. (DriverCancel, Intent, k, d) \<in> set es}"

lemma adopted_snoc [simp]:
  "adopted_drivers (es @ [(f, s, k, d)])
   = (if f = DriverCancel \<and> s = Intent then insert (text_of d ''namespace'') (adopted_drivers es) else adopted_drivers es)"
  by (auto simp: adopted_drivers_def)

definition reflects :: "lifecycle_event list \<Rightarrow> history \<Rightarrow> bool" where
  "reflects es h \<longleftrightarrow>
     hs_completed h = {(f, k). \<exists>d. (f, Complete, k, d) \<in> set es}
     \<and> hs_failed h = {f. happened es f Failed}
     \<and> hs_abandoned h = {f. happened es f Abandoned}
     \<and> hs_request_claims h = claimed_tracks es
     \<and> hs_request_results h = answered_tracks es
     \<and> hs_driver_cancels h = canceled_drivers es
     \<and> map fst (hs_states h) = intents es
     \<and> started_drivers es \<subseteq> started h
     \<and> started h \<subseteq> started_drivers es \<union> adopted_drivers es"

lemma update_keys: "map fst (AList.update k v al) = (if k \<in> set (map fst al) then map fst al else map fst al @ [k])"
  by (induction al) auto

lemma update_key_set: "set (map fst (AList.update k v al)) = insert k (set (map fst al))"
  by (simp add: update_keys insert_absorb del: set_map)

lemma reflects_empty: "reflects [] empty_history"
  by (simp add: reflects_def empty_history_def happened_def claimed_tracks_def answered_tracks_def canceled_drivers_def
      intents_def started_drivers_def started_def)

lemma lifecycle_require_Inr [simp]: "require c msg = Inr x \<longleftrightarrow> c"
  by (simp add: require_def)

lemma driver_cancel_guard_Inr:
  assumes "driver_cancel_guard mode teardown h d = Inr h1"
  shows "(h1 = h \<or> h1 = h\<lparr>hs_driver_starts := AList.update (text_of d ''namespace'') (driver_tuple d) (hs_driver_starts h)\<rparr>)
    \<and> (family_done h EvidenceFreeze \<or> mode = RequestFree) \<and> text_of d ''namespace'' \<in> started h1
    \<and> (text_of d ''namespace'' \<notin> started h \<longrightarrow> teardown \<and> family_done h Readiness)
    \<and> text_of d ''namespace'' \<notin> hs_driver_cancels h \<and> map_of (hs_driver_starts h1) (text_of d ''namespace'') = Some (driver_tuple d)"
  using assms by (auto simp: driver_cancel_guard_def Let_def bind_r_eq_Inr split: if_splits)

lemma history_intentE:
  assumes "history_intent mode latch n family key d h = Inr h'"
  obtains h1 where "h1 = h \<or> family = DriverCancel
      \<and> h1 = h\<lparr>hs_driver_starts := AList.update (text_of d ''namespace'') (driver_tuple d) (hs_driver_starts h)\<rparr>"
    "family = DriverCancel \<longrightarrow> driver_cancel_guard mode (teardown_only latch n h) h d = Inr h1"
    "map_of (hs_states h) (family, key) = None" "hs_active h = None"
    "teardown_only latch n h \<Longrightarrow> family \<in> set SAFE_TEARDOWN"
    "request_pending h \<Longrightarrow> \<not> family_done h EvidenceFreeze \<Longrightarrow> family \<in> {EnvoyQuiesce, EvidenceFreeze}"
    "request_pending h \<Longrightarrow> family_done h EvidenceFreeze \<Longrightarrow> family \<in> set AFTER_ABANDONED_REQUEST"
    "family_guard mode (teardown_only latch n h) n h d family = Inr ()"
    "h' = (let h2 = h1\<lparr>hs_states := AList.update (family, key) (Pending, d) (hs_states h1)\<rparr> in
       if family = Request then h2\<lparr>hs_request_claims := hs_request_claims h2 @ [text_of d ''track'']\<rparr>
       else h2\<lparr>hs_active := Some (family, key)\<rparr>)"
proof -
  obtain h1 where 1: "(if family = DriverCancel then driver_cancel_guard mode (teardown_only latch n h) h d else Inr h) = Inr h1"
    using assms by (auto simp: history_intent_def Let_def split: if_splits)
  have shape: "h1 = h \<or> family = DriverCancel
      \<and> h1 = h\<lparr>hs_driver_starts := AList.update (text_of d ''namespace'') (driver_tuple d) (hs_driver_starts h)\<rparr>"
    using 1 driver_cancel_guard_Inr [of mode "teardown_only latch n h" h d h1] by (cases "family = DriverCancel") auto
  show thesis
    by (rule that [of h1]) (use assms 1 shape in \<open>simp_all add: history_intent_def Let_def bind_r_eq_Inr del: not_None_eq family_guard.simps split: if_splits\<close>)
qed

lemma history_terminalE:
  assumes "history_terminal latch n family stage key d h = Inr h'"
  obtains intent h1 where "map_of (hs_states h) (family, key) = Some (Pending, intent)"
    "family = Request \<Longrightarrow> \<not> (case latch of None \<Rightarrow> False | Some m \<Rightarrow> n \<ge> m)"
    "family = Request \<Longrightarrow> hs_active h = None \<and> EvidenceFreeze \<notin> fst ` set (map fst (hs_states h))"
    "matches_intent family stage intent d"
    "close_stage family stage (family, key) (h\<lparr>hs_states := AList.update (family, key) (Ended stage, d) (hs_states h)\<rparr>) = Inr h1"
    "family \<noteq> Request \<Longrightarrow> hs_active h1 = Some (family, key)"
    "h' = record_effects family stage d (if family = Request
       then h1\<lparr>hs_request_results := insert (text_of d ''track'') (hs_request_results h1)\<rparr> else h1\<lparr>hs_active := None\<rparr>)"
proof -
  obtain intent where m: "map_of (hs_states h) (family, key) = Some (Pending, intent)"
    using assms by (auto simp: history_terminal_def split: option.splits prod.splits progress.splits)
  obtain h1 where c: "close_stage family stage (family, key)
      (h\<lparr>hs_states := AList.update (family, key) (Ended stage, d) (hs_states h)\<rparr>) = Inr h1"
    using assms m by (auto simp: history_terminal_def split: if_splits)
  note body = assms [unfolded history_terminal_def m option.simps prod.case progress.simps c bind_r_Inr]
  show thesis
    by (rule that [OF m _ _ _ c]) (use body in \<open>auto simp: list_ex_iff simp del: not_None_eq split: if_splits\<close>)
qed

lemma close_stage_Inr:
  assumes "close_stage family stage key h = Inr h1" "stage \<noteq> Intent"
  shows "h1 = h\<lparr>hs_completed := (if stage = Complete then insert key (hs_completed h) else hs_completed h),
      hs_failed := (if stage = Failed then insert family (hs_failed h) else hs_failed h),
      hs_abandoned := (if stage = Abandoned then insert family (hs_abandoned h) else hs_abandoned h)\<rparr>"
proof (cases "stage = Complete \<or> stage = Failed")
  case True
  with assms(1) show ?thesis by (cases h; cases h1) (elim disjE; simp add: close_stage_def)
next
  case False
  with assms(2) have "stage = Abandoned" by (cases stage) simp_all
  with assms(1) show ?thesis by (simp add: close_stage_def bind_r_eq_Inr)
qed

lemma close_stage_owned:
  assumes "close_stage family Abandoned key h = Inr h1"
  shows "family \<in> {ProfileStart, ClusterCreate} \<or> family_done h ClusterCreate \<or> ClusterCreate \<in> hs_abandoned h"
  using assms by (simp add: close_stage_def bind_r_eq_Inr)

lemma close_stage_unchanged:
  "close_stage family stage key h = Inr h1 \<Longrightarrow> hs_foreign_unchanged h1 = hs_foreign_unchanged h
     \<and> hs_request_claims h1 = hs_request_claims h \<and> hs_request_results h1 = hs_request_results h"
  by (auto simp: close_stage_def split: if_splits)

lemma record_effects_fields [simp]:
  "hs_states (record_effects f s d h) = hs_states h" "hs_active (record_effects f s d h) = hs_active h"
  "hs_completed (record_effects f s d h) = hs_completed h" "hs_request_claims (record_effects f s d h) = hs_request_claims h"
  "hs_request_results (record_effects f s d h) = hs_request_results h"
  "hs_failed (record_effects f s d h) = hs_failed h" "hs_abandoned (record_effects f s d h) = hs_abandoned h"
  "hs_driver_cancels (record_effects f s d h)
   = (if f = DriverCancel \<and> s \<in> {Abandoned, Complete} then insert (text_of d ''namespace'') (hs_driver_cancels h) else hs_driver_cancels h)"
  "hs_driver_starts (record_effects f s d h)
   = (if f = DriverStart \<and> s \<notin> {Failed, Abandoned} then AList.update (text_of d ''namespace'') (driver_tuple d) (hs_driver_starts h) else hs_driver_starts h)"
  "hs_foreign_unchanged (record_effects f s d h)
   = (if f = ForeignComparison \<and> s \<notin> {Failed, Abandoned} then Some (item d ''unchanged'' = PBool True) else hs_foreign_unchanged h)"
  by (auto simp: record_effects_def Let_def)

lemma started_update [simp]:
  "started (h\<lparr>hs_driver_starts := AList.update k v (hs_driver_starts h)\<rparr>) = insert k (started h)"
  by (simp add: started_def dom_update flip: set_map) (simp add: update_keys insert_absorb)

lemma reflects_intent:
  assumes "reflects es h" "history_intent mode latch n family key d h = Inr h'"
  shows "reflects (es @ [(family, Intent, key, d)]) h'"
proof -
  have fresh: "(family, key) \<notin> set (map fst al)" if "map_of al (family, key) = None" for al :: "(state_key \<times> progress \<times> pydict) list"
    using that by (simp add: map_of_eq_None_iff)
  from assms(2) show ?thesis
  proof (cases rule: history_intentE)
    case (1 h1)
    have st: "hs_states h1 = hs_states h" using 1(1) by auto
    have "started h1 \<subseteq> insert (text_of d ''namespace'') (started h)" "started h \<subseteq> started h1"
      "family \<noteq> DriverCancel \<Longrightarrow> started h1 = started h" using 1(1) by auto
    moreover have "started h' = started h1" "hs_completed h' = hs_completed h" "hs_failed h' = hs_failed h"
      "hs_abandoned h' = hs_abandoned h" "hs_request_results h' = hs_request_results h"
      "hs_driver_cancels h' = hs_driver_cancels h" "map fst (hs_states h') = map fst (hs_states h) @ [(family, key)]"
      "hs_request_claims h' = hs_request_claims h @ (if family = Request then [text_of d ''track''] else [])"
      using 1(1) fresh [OF 1(3)] by (auto simp: 1(9) Let_def started_def update_keys)
    ultimately show ?thesis
      using assms(1) unfolding reflects_def by (cases "family = DriverCancel") (simp_all add: happened_def, blast+)
  qed
qed

lemma reflects_terminal:
  assumes "reflects es h" "history_terminal latch n family stage key d h = Inr h'" "stage \<noteq> Intent"
  shows "reflects (es @ [(family, stage, key, d)]) h'"
  using assms(2)
proof (cases rule: history_terminalE)
  case (1 intent h1)
  note h1 = close_stage_Inr [OF 1(5) assms(3)]
  have keys: "map fst (hs_states h') = map fst (hs_states h)"
  proof -
    have "map_of (hs_states h) (family, key) \<noteq> None" using 1(1) by simp
    then have "(family, key) \<in> set (map fst (hs_states h))" by (simp only: map_of_eq_None_iff set_map not_not)
    then show ?thesis by (cases "family = Request") (simp_all add: 1(7) h1 update_keys)
  qed
  have "started h' = (if family = DriverStart \<and> stage = Complete then insert (text_of d ''namespace'') (started h) else started h)"
    using assms(3) by (cases stage) (simp_all add: 1(7) h1 started_def update_key_set del: set_map)
  moreover have "hs_completed h' = (if stage = Complete then insert (family, key) (hs_completed h) else hs_completed h)"
    "hs_failed h' = (if stage = Failed then insert family (hs_failed h) else hs_failed h)"
    "hs_abandoned h' = (if stage = Abandoned then insert family (hs_abandoned h) else hs_abandoned h)"
    "hs_request_results h' = (if family = Request then insert (text_of d ''track'') (hs_request_results h) else hs_request_results h)"
    "hs_driver_cancels h' = (if family = DriverCancel \<and> stage \<in> {Complete, Abandoned}
       then insert (text_of d ''namespace'') (hs_driver_cancels h) else hs_driver_cancels h)"
    "hs_request_claims h' = hs_request_claims h"
    by (auto simp: 1(7) h1)
  moreover note keys
  ultimately show ?thesis
    using assms(1,3) unfolding reflects_def by (cases stage) (auto simp: happened_def)
qed

lemma runs_reflects: "runs mode latch es h \<Longrightarrow> reflects es h"
proof (induction rule: runs.induct)
  case runs_empty
  show ?case by (rule reflects_empty)
next
  case (runs_event es h e h')
  obtain f s k d where e: "e = (f, s, k, d)" by (cases e)
  show ?case
  proof (cases "s = Intent")
    case True
    with runs_event.hyps(2) show ?thesis by (simp add: e reflects_intent [OF runs_event.IH])
  next
    case False
    with runs_event.hyps(2) show ?thesis by (simp add: e reflects_terminal [OF runs_event.IH])
  qed
qed

subsection \<open>Accepted histories\<close>

text \<open>Only requests and the two events of a driver have a key of their own.\<close>

fun well_keyed :: "lifecycle_event \<Rightarrow> bool" where
  "well_keyed (f, s, k, d) \<longleftrightarrow> (f \<in> {Request, DriverStart, DriverCancel} \<or> k = []) \<and> (f = Request \<longrightarrow> s \<in> {Intent, Complete})"

lemma find_SomeD: "find P xs = Some x \<Longrightarrow> P x" "find P xs = Some x \<Longrightarrow> x \<in> set xs"
  by (auto simp: find_Some_iff)

lemma find_family_Inr:
  "find_family name xs = Inr (f, s) \<Longrightarrow> f \<noteq> Request"
proof (induction name xs rule: find_family.induct)
  case (2 name suffix stage rest)
  have *: "find P PAIR_DETAILS \<noteq> Some (Request, x)" for P x
    by (rule notI, drule find_SomeD(2)) (auto simp: PAIR_DETAILS_def)
  from 2 show ?case by (auto simp: * split: if_splits option.splits)
qed simp

lemma event_family_Request: "event_family name = Inr (Request, s) \<Longrightarrow> s \<in> {Intent, Complete}"
  by (auto simp: event_family_def split: if_splits dest: find_family_Inr)

lemma event_of_well_keyed: "event_of n v = Inr e \<Longrightarrow> well_keyed e"
  by (auto simp: event_of_def validate_event_details_def pair_details_def bind_r_eq_Inr
      split: pyval.splits if_splits dest: event_family_Request)

definition accepted_events :: "lifecycle_mode \<Rightarrow> int option \<Rightarrow> pyval list \<Rightarrow> lifecycle_event list \<Rightarrow> bool" where
  "accepted_events mode latch events es \<longleftrightarrow>
     validate_history mode latch (PList events) = Inr () \<and> length es = length events
     \<and> (\<forall>i < length events. event_of (int i + 1) (events ! i) = Inr (es ! i))"

lemma accepted_runs:
  assumes "accepted_events mode latch events es"
  shows "(\<exists>h. runs mode latch es h) \<and> list_all well_keyed es"
proof -
  obtain n h where "run_history mode latch events = Inr (n, h)"
    using assms by (auto simp: accepted_events_def validate_history_def split: if_splits)
  from run_history_runs [OF this] obtain es' where es': "length es' = length events" "runs mode latch es' h"
    "\<forall>i < length events. event_of (int i + 1) (events ! i) = Inr (es' ! i)" by blast
  then have "es' = es" using assms by (auto simp: accepted_events_def intro!: nth_equalityI)
  with es'(2) assms show ?thesis by (auto simp: accepted_events_def list_all_length dest: event_of_well_keyed)
qed

lemma runs_at_intent:
  assumes "runs mode latch es h" "list_all well_keyed es" "i < length es" "es ! i = (f, Intent, k, d)"
  obtains h0 h1 where "runs mode latch (take i es) h0" "reflects (take i es) h0" "list_all well_keyed (take i es)"
    "history_intent mode latch (int i + 1) f k d h0 = Inr h1"
proof -
  from runs_at [OF assms(1,3)] obtain h0 h1 where "runs mode latch (take i es) h0"
    "event_step mode latch (int i + 1) (es ! i) h0 = Inr h1" .
  moreover have "list_all well_keyed (take i es)" using assms(2) by (auto simp: list_all_iff dest: in_set_takeD)
  ultimately show thesis using that runs_reflects assms(4) by simp
qed

lemma family_done_iff:
  assumes "reflects es h" "list_all well_keyed es" "f \<notin> {Request, DriverStart, DriverCancel}"
  shows "family_done h f \<longleftrightarrow> happened es f Complete"
  using assms by (fastforce simp: family_done_def reflects_def happened_def list_all_iff)

lemma teardown_iff:
  "reflects es h \<Longrightarrow> teardown_only latch n h \<longleftrightarrow>
     (\<exists>f. happened es f Failed \<or> happened es f Abandoned) \<or> (\<exists>m. latch = Some m \<and> n \<ge> m)"
  by (auto simp: teardown_only_def reflects_def split: option.splits)

text \<open>A terminal event has its intent before it.\<close>

lemma terminal_has_intent:
  assumes "runs mode latch es h" "(f, s, k, d) \<in> set es"
  shows "(f, k) \<in> set (intents es)"
proof -
  from assms(2) obtain i where i: "i < length es" "es ! i = (f, s, k, d)" by (auto simp: in_set_conv_nth)
  have mono: "set (intents (take i es)) \<subseteq> set (intents es)"
    using set_take_subset [of i es] by (auto simp: intents_def)
  show ?thesis
  proof (cases "s = Intent")
    case True
    with assms(2) show ?thesis by (force simp: intents_def)
  next
    case False
    from runs_at [OF assms(1) i(1)] obtain h0 h1 where h0: "runs mode latch (take i es) h0"
      "event_step mode latch (int i + 1) (es ! i) h0 = Inr h1" .
    from h0(2) i(2) False have "history_terminal latch (int i + 1) f s k d h0 = Inr h1" by simp
    then obtain intent where "map_of (hs_states h0) (f, k) = Some (Pending, intent)" by (rule history_terminalE)
    then have "(f, k) \<in> set (map fst (hs_states h0))" by (force dest: map_of_SomeD)
    with runs_reflects [OF h0(1)] mono show ?thesis by (auto simp: reflects_def)
  qed
qed

lemma intent_position:
  assumes "runs mode latch es h" "happened es f s"
  obtains j k d where "j < length es" "es ! j = (f, Intent, k, d)"
proof -
  obtain k d where "(f, s, k, d) \<in> set es" using assms(2) by (auto simp: happened_def)
  from terminal_has_intent [OF assms(1) this] obtain d' where "(f, Intent, k, d') \<in> set es"
    by (auto simp: intents_def elim!: event_key.elims)
  then show thesis using that by (auto simp: in_set_conv_nth)
qed

lemma happened_take: "happened (take i es) f s \<Longrightarrow> happened es f s"
  by (auto simp: happened_def dest: in_set_takeD)

subsection \<open>What an intent needs\<close>

fun needs :: "family \<Rightarrow> family list" where
  "needs ClusterCreate = [ProfileStart]"
| "needs ImageImport = [ClusterCreate]"
| "needs ImageLoad = [ClusterCreate, ImageImport]"
| "needs CalicoApply = [ClusterCreate, ImageLoad]"
| "needs ApplicationApply = [CalicoApply]"
| "needs Readiness = [ApplicationApply]"
| "needs DriverStart = [Readiness]"
| "needs Request = [Readiness]"
| "needs EvidenceFreeze = [Readiness]"
| "needs EnvoyQuiesce = [Readiness]"
| "needs ClusterAbsence = [ClusterDelete]"
| "needs ProfileDelete = [ProfileStop]"
| "needs ForeignComparison = [ProfileAbsence]"
| "needs Publication = [ForeignComparison]"
| "needs _ = []"

lemma guard_needs:
  assumes "family_guard mode t n h d f = Inr ()" "g \<in> set (needs f)"
  shows "family_done h g"
  using assms
  by (cases f; auto simp: driver_start_guard_def request_guard_def evidence_freeze_guard_def envoy_quiesce_guard_def bind_r_eq_Inr)

lemma intent_needs:
  assumes "runs mode latch es h" "list_all well_keyed es" "i < length es" "es ! i = (f, Intent, k, d)" "g \<in> set (needs f)"
  shows "happened (take i es) g Complete"
proof -
  from runs_at_intent [OF assms(1-4)] obtain h0 h1 where h0: "reflects (take i es) h0" "list_all well_keyed (take i es)"
    "history_intent mode latch (int i + 1) f k d h0 = Inr h1" .
  from h0(3) obtain t where "family_guard mode t (int i + 1) h0 d f = Inr ()" by (rule history_intentE)
  from guard_needs [OF this assms(5)] have "family_done h0 g" .
  moreover have "g \<notin> {Request, DriverStart, DriverCancel}" using assms(5) by (cases f) auto
  ultimately show ?thesis using family_done_iff [OF h0(1,2)] by simp
qed

lemma happened_needs:
  assumes "runs mode latch es h" "list_all well_keyed es" "happened es f s" "g \<in> set (needs f)"
  shows "happened es g Complete"
proof -
  from intent_position [OF assms(1,3)] obtain j k d where "j < length es" "es ! j = (f, Intent, k, d)" .
  from intent_needs [OF assms(1,2) this assms(4)] show ?thesis by (rule happened_take)
qed

text \<open>The guard of an intent, on the events before it.\<close>

lemma guard_at:
  assumes "accepted_events mode latch events es" "i < length es" "es ! i = (f, Intent, k, d)"
  obtains h0 h1 where "runs mode latch (take i es) h0" "reflects (take i es) h0" "list_all well_keyed (take i es)"
    "history_intent mode latch (int i + 1) f k d h0 = Inr h1"
    "family_guard mode (teardown_only latch (int i + 1) h0) (int i + 1) h0 d f = Inr ()"
    "teardown_only latch (int i + 1) h0 \<Longrightarrow> f \<in> set SAFE_TEARDOWN"
proof -
  obtain h where "runs mode latch es h" "list_all well_keyed es" using accepted_runs [OF assms(1)] by blast
  from runs_at_intent [OF this assms(2,3)] obtain h0 h1 where h0: "runs mode latch (take i es) h0" "reflects (take i es) h0"
    "list_all well_keyed (take i es)" "history_intent mode latch (int i + 1) f k d h0 = Inr h1" .
  from h0(4) show thesis by (rule history_intentE) (rule that [OF h0])
qed

lemma runs_unchanged:
  "runs mode latch es h \<Longrightarrow> hs_foreign_unchanged h = Some b \<Longrightarrow>
     \<exists>k d. (ForeignComparison, Complete, k, d) \<in> set es \<and> (item d ''unchanged'' = PBool True \<longleftrightarrow> b)"
proof (induction arbitrary: b rule: runs.induct)
  case runs_empty
  then show ?case by (simp add: empty_history_def)
next
  case (runs_event es h e h')
  obtain f s k d where e: "e = (f, s, k, d)" by (cases e)
  show ?case
  proof (cases "f = ForeignComparison \<and> s = Complete")
    case True
    then have "history_terminal latch (int (length es) + 1) f s k d h = Inr h'" using runs_event.hyps(2) by (simp add: e)
    then show ?thesis
      by (rule history_terminalE) (use runs_event.prems True in \<open>auto simp: e\<close>)
  next
    case False
    have "hs_foreign_unchanged h' = hs_foreign_unchanged h"
    proof (cases "s = Intent")
      case True
      then have "history_intent mode latch (int (length es) + 1) f k d h = Inr h'" using runs_event.hyps(2) by (simp add: e)
      then show ?thesis by (rule history_intentE) (auto simp: Let_def)
    next
      case ni: False
      then have "history_terminal latch (int (length es) + 1) f s k d h = Inr h'" using runs_event.hyps(2) by (simp add: e)
      then show ?thesis
        by (rule history_terminalE) (use False ni in \<open>cases s; auto dest: close_stage_unchanged\<close>)
    qed
    with runs_event.IH [of b] runs_event.prems show ?thesis by auto
  qed
qed

end
