(* ===== verification/KilLifecycleRules.thy ===== *)
theory KilLifecycleRules
  imports KilLifecycle
begin

text \<open>
  The rules of the lifecycle, as properties of every accepted history of
  \<^verbatim>\<open>src/kil/v3b2_journal.py\<close>: pairs of events, the order of requests, teardown and publication,
  the teardown latch, and which exceptions the check of a history raises.
\<close>

subsection \<open>Pairs\<close>

definition open_keys :: "lifecycle_event list \<Rightarrow> state_key set" where
  "open_keys es = set (intents es) - set (terminals es)"

lemma terminals_snoc [simp]:
  "terminals (es @ [(f, s, k, d)]) = terminals es @ (if s \<noteq> Intent then [(f, k)] else [])"
  by (simp add: terminals_def)

definition paired :: "lifecycle_event list \<Rightarrow> history \<Rightarrow> bool" where
  "paired es h \<longleftrightarrow> distinct (intents es) \<and> distinct (terminals es) \<and> set (terminals es) \<subseteq> set (intents es)
     \<and> (\<forall>key. (\<exists>d. map_of (hs_states h) key = Some (Pending, d)) \<longleftrightarrow> key \<in> open_keys es)
     \<and> (\<forall>key \<in> open_keys es. fst key = Request \<or> hs_active h = Some key)
     \<and> (\<forall>key. hs_active h = Some key \<longrightarrow> key \<in> open_keys es)"

lemma paired_intent:
  assumes "paired es h" "reflects es h" "history_intent mode latch n f k d h = Inr h'"
  shows "paired (es @ [(f, Intent, k, d)]) h'"
  using assms(3)
proof (cases rule: history_intentE)
  case (1 h1)
  have states: "map_of (hs_states h') = (map_of (hs_states h))((f, k) \<mapsto> (Pending, d))"
    using 1(1) by (auto simp: 1(9) Let_def update_conv')
  have "hs_active h1 = None" using 1(1,4) by auto
  then have active: "hs_active h' = (if f = Request then None else Some (f, k))" by (simp add: 1(9) Let_def)
  have "(f, k) \<notin> fst ` set (hs_states h)" using 1(3) by (simp add: map_of_eq_None_iff)
  moreover have "intents es = map fst (hs_states h)" using assms(2) by (simp add: reflects_def)
  ultimately have fresh: "(f, k) \<notin> set (intents es)" by simp
  with assms(1) have "open_keys (es @ [(f, Intent, k, d)]) = insert (f, k) (open_keys es)"
    by (auto simp: open_keys_def paired_def)
  moreover have "\<forall>key \<in> open_keys es. fst key = Request" using assms(1) 1(4) by (auto simp: paired_def)
  ultimately show ?thesis
    using assms(1) fresh unfolding paired_def states active by (auto simp: fun_upd_def)
qed

lemma paired_terminal:
  assumes "paired es h" "history_terminal latch n f s k d h = Inr h'" "s \<noteq> Intent"
  shows "paired (es @ [(f, s, k, d)]) h'"
  using assms(2)
proof (cases rule: history_terminalE)
  case (1 intent h1)
  note h1 = close_stage_Inr [OF 1(5) assms(3)]
  have states: "map_of (hs_states h') = (map_of (hs_states h))((f, k) \<mapsto> (Ended s, d))"
    by (simp add: 1(7) h1 update_conv')
  have opened: "(f, k) \<in> open_keys es" using assms(1) 1(1) unfolding paired_def by blast
  have active: "f \<noteq> Request \<longrightarrow> hs_active h = Some (f, k) \<and> hs_active h' = None" "f = Request \<longrightarrow> hs_active h' = hs_active h \<and> hs_active h = None"
    using 1(3,6) by (auto simp: 1(7) h1)
  have "open_keys (es @ [(f, s, k, d)]) = open_keys es - {(f, k)}"
    using assms(3) by (auto simp: open_keys_def)
  then show ?thesis
    using assms(1,3) opened active unfolding paired_def states
    by (cases "f = Request") (auto simp: open_keys_def split: if_splits)
qed

lemma runs_paired: "runs mode latch es h \<Longrightarrow> paired es h"
proof (induction rule: runs.induct)
  case runs_empty
  show ?case by (simp add: paired_def empty_history_def intents_def terminals_def open_keys_def)
next
  case (runs_event es h e h')
  obtain f s k d where e: "e = (f, s, k, d)" by (cases e)
  show ?case
    using runs_event.hyps(2) paired_intent [OF runs_event.IH runs_reflects [OF runs_event.hyps(1)]]
      paired_terminal [OF runs_event.IH]
    by (cases "s = Intent") (simp_all add: e)
qed

text \<open>What is pending is what its intent said, and a terminal event says the same.\<close>

lemma pending_intent:
  "runs mode latch es h \<Longrightarrow> map_of (hs_states h) (f, k) = Some (Pending, d) \<Longrightarrow> (f, Intent, k, d) \<in> set es"
proof (induction rule: runs.induct)
  case runs_empty
  then show ?case by (simp add: empty_history_def)
next
  case (runs_event es h e h')
  obtain f' s' k' d' where e: "e = (f', s', k', d')" by (cases e)
  show ?case
  proof (cases "s' = Intent")
    case True
    with runs_event.hyps(2) have "history_intent mode latch (int (length es) + 1) f' k' d' h = Inr h'" by (simp add: e)
    then have "map_of (hs_states h') = (map_of (hs_states h))((f', k') \<mapsto> (Pending, d'))"
      by (rule history_intentE) (auto simp: Let_def update_conv')
    with runs_event.IH runs_event.prems True show ?thesis by (auto simp: e split: if_splits)
  next
    case False
    with runs_event.hyps(2) have "history_terminal latch (int (length es) + 1) f' s' k' d' h = Inr h'" by (simp add: e)
    then show ?thesis
    proof (cases rule: history_terminalE)
      case (1 intent h1)
      note h1 = close_stage_Inr [OF 1(5) False]
      have "map_of (hs_states h') = (map_of (hs_states h))((f', k') \<mapsto> (Ended s', d'))"
        by (simp add: 1(7) h1 update_conv')
      with runs_event.IH runs_event.prems show ?thesis by (auto split: if_splits)
    qed
  qed
qed

lemma terminal_closes:
  assumes "runs mode latch es h" "i < length es" "es ! i = (f, s, k, d)" "s \<noteq> Intent"
  shows "\<exists>j < i. \<exists>d0. es ! j = (f, Intent, k, d0) \<and> matches_intent f s d0 d"
proof -
  from runs_at [OF assms(1,2)] obtain h0 h1 where h0: "runs mode latch (take i es) h0"
    "event_step mode latch (int i + 1) (es ! i) h0 = Inr h1" .
  with assms(3,4) have "history_terminal latch (int i + 1) f s k d h0 = Inr h1" by simp
  then obtain d0 where d0: "map_of (hs_states h0) (f, k) = Some (Pending, d0)" "matches_intent f s d0 d"
    by (rule history_terminalE)
  from pending_intent [OF h0(1) d0(1)] have "(f, Intent, k, d0) \<in> set (take i es)" .
  then obtain j where "j < i" "es ! j = (f, Intent, k, d0)" using assms(2) by (auto simp: in_set_conv_nth)
  with d0(2) show ?thesis by blast
qed

subsection \<open>Requests\<close>

text \<open>Nothing failed or was abandoned so far, and the teardown latch is ahead.\<close>

definition undisturbed :: "int option \<Rightarrow> int \<Rightarrow> lifecycle_event list \<Rightarrow> bool" where
  "undisturbed latch n es \<longleftrightarrow> (\<forall>f. \<not> happened es f Failed \<and> \<not> happened es f Abandoned)
     \<and> (\<forall>m. latch = Some m \<longrightarrow> n < m)"

lemma undisturbed_iff: "reflects es h \<Longrightarrow> undisturbed latch n es \<longleftrightarrow> \<not> teardown_only latch n h"
  by (auto simp: teardown_iff undisturbed_def not_less)

lemma butlast_last_subset: "set (butlast xs) \<subseteq> A \<Longrightarrow> (xs \<noteq> [] \<longrightarrow> last xs \<in> A) \<Longrightarrow> set xs \<subseteq> A"
  by (cases xs rule: rev_cases) auto

lemma claims_ordered:
  assumes "runs mode latch es h"
  shows "length (hs_request_claims h) \<le> length LAB_TRACKS
    \<and> hs_request_claims h = map u (take (length (hs_request_claims h)) LAB_TRACKS)
    \<and> set (butlast (hs_request_claims h)) \<subseteq> hs_request_results h"
  using assms
proof (induction rule: runs.induct)
  case runs_empty
  show ?case by (simp add: empty_history_def)
next
  case (runs_event es h e h')
  obtain f s k d where e: "e = (f, s, k, d)" by (cases e)
  show ?case
  proof (cases "s = Intent")
    case False
    then have "history_terminal latch (int (length es) + 1) f s k d h = Inr h'" using runs_event.hyps(2) by (simp add: e)
    then have "hs_request_claims h' = hs_request_claims h \<and> hs_request_results h \<subseteq> hs_request_results h'"
      by (rule history_terminalE) (drule close_stage_unchanged, simp add: subset_insertI)
    with runs_event.IH show ?thesis by auto
  next
    case True
    then have step: "history_intent mode latch (int (length es) + 1) f k d h = Inr h'" using runs_event.hyps(2) by (simp add: e)
    from step show ?thesis
    proof (cases rule: history_intentE)
      case (1 h1)
      show ?thesis
      proof (cases "f = Request")
        case False
        then have "hs_request_claims h' = hs_request_claims h" "hs_request_results h' = hs_request_results h"
          using 1(1) by (auto simp: 1(9) Let_def)
        with runs_event.IH show ?thesis by simp
      next
        case True
        let ?n = "length (hs_request_claims h)"
        have g: "request_guard mode h d = Inr ()" using 1(8) True by simp
        then have n: "?n < length LAB_TRACKS" "text_of d ''track'' = u (LAB_TRACKS ! ?n)"
          "hs_request_claims h \<noteq> [] \<longrightarrow> last (hs_request_claims h) \<in> hs_request_results h"
          by (auto simp: request_guard_def nth_r_def bind_r_eq_Inr split: if_splits)
        have h': "hs_request_claims h' = hs_request_claims h @ [u (LAB_TRACKS ! ?n)]" "hs_request_results h' = hs_request_results h"
          using 1(1) True n(2) by (auto simp: 1(9) Let_def)
        have "set (hs_request_claims h) \<subseteq> hs_request_results h"
          using runs_event.IH n(3) by (simp add: butlast_last_subset)
        with runs_event.IH n(1) show ?thesis by (simp add: h' take_Suc_conv_app_nth)
      qed
    qed
  qed
qed

lemma adopted_frozen:
  assumes "runs Nominal latch es h" "list_all well_keyed es" "x \<in> adopted_drivers es"
  shows "happened es EvidenceFreeze Complete"
proof -
  obtain i k d where i: "i < length es" "es ! i = (DriverCancel, Intent, k, d)"
    using assms(3) by (auto simp: adopted_drivers_def in_set_conv_nth)
  from runs_at_intent [OF assms(1,2) i] obtain h0 h1 where h0: "reflects (take i es) h0" "list_all well_keyed (take i es)"
    "history_intent Nominal latch (int i + 1) DriverCancel k d h0 = Inr h1" .
  from h0(3) obtain h2 where "driver_cancel_guard Nominal (teardown_only latch (int i + 1) h0) h0 d = Inr h2"
    by (rule history_intentE) blast
  from driver_cancel_guard_Inr [OF this] have "family_done h0 EvidenceFreeze" by simp
  then have "happened (take i es) EvidenceFreeze Complete" by (simp add: family_done_iff [OF h0(1,2)])
  then show ?thesis by (rule happened_take)
qed

lemma request_rule:
  assumes "accepted_events mode latch events es" "i < length es" "es ! i = (Request, Intent, k, d)"
  defines "p \<equiv> take i es"
  defines "n \<equiv> length (claimed_tracks p)"
  shows "mode = Nominal \<and> n < length LAB_TRACKS \<and> text_of d ''track'' = u (LAB_TRACKS ! n)
    \<and> claimed_tracks p = map u (take n LAB_TRACKS) \<and> set (claimed_tracks p) \<subseteq> answered_tracks p
    \<and> u (APPLICATION_NAMESPACES ! n) \<in> started_drivers p
    \<and> happened p Readiness Complete \<and> \<not> happened p EvidenceFreeze Complete
    \<and> undisturbed latch (int i + 1) p"
proof -
  from guard_at [OF assms(1-3)] obtain h0 h1 where h0: "runs mode latch p h0" "reflects p h0" "list_all well_keyed p"
    and g: "family_guard mode (teardown_only latch (int i + 1) h0) (int i + 1) h0 d Request = Inr ()"
    and t: "teardown_only latch (int i + 1) h0 \<Longrightarrow> Request \<in> set SAFE_TEARDOWN" unfolding p_def by blast
  have c: "hs_request_claims h0 = claimed_tracks p" "hs_request_results h0 = answered_tracks p"
    "started h0 \<subseteq> started_drivers p \<union> adopted_drivers p" using h0(2) by (simp_all add: reflects_def)
  from g have g': "mode = Nominal" "family_done h0 Readiness" "\<not> family_done h0 EvidenceFreeze" "n < length LAB_TRACKS"
    "text_of d ''track'' = u (LAB_TRACKS ! n)" "claimed_tracks p \<noteq> [] \<longrightarrow> last (claimed_tracks p) \<in> answered_tracks p"
    and ns: "\<exists>ns. map_of (map (\<lambda>(t, n). (u t, u n)) TRACK_NAMESPACES) (text_of d ''track'') = Some ns \<and> ns \<in> started h0"
    by (auto simp: request_guard_def nth_r_def bind_r_eq_Inr c n_def split: if_splits option.splits)
  have frozen: "\<not> happened p EvidenceFreeze Complete" "happened p Readiness Complete"
    using g'(2,3) by (simp_all add: family_done_iff [OF h0(2,3)])
  have "map_of (map (\<lambda>(t, n). (u t, u n)) TRACK_NAMESPACES) (u (LAB_TRACKS ! n)) = Some (u (APPLICATION_NAMESPACES ! n))"
  proof -
    have "n = 0 \<or> n = 1 \<or> n = 2" using g'(4) by (auto simp: LAB_TRACKS_def)
    then show ?thesis by (elim disjE) (simp_all add: TRACK_NAMESPACES_def LAB_TRACKS_def APPLICATION_NAMESPACES_def)
  qed
  with ns g'(5) have "u (APPLICATION_NAMESPACES ! n) \<in> started h0" by auto
  moreover have "adopted_drivers p = {}" using adopted_frozen [of latch p h0] h0(1,3) g'(1) frozen(1) by auto
  ultimately have started: "u (APPLICATION_NAMESPACES ! n) \<in> started_drivers p" using c(3) by auto
  have results: "claimed_tracks p = map u (take n LAB_TRACKS)" "set (claimed_tracks p) \<subseteq> answered_tracks p"
  proof -
    from claims_ordered [OF h0(1)] show "claimed_tracks p = map u (take n LAB_TRACKS)" by (simp add: c n_def)
    from claims_ordered [OF h0(1)] g'(6) show "set (claimed_tracks p) \<subseteq> answered_tracks p"
      by (simp add: c butlast_last_subset)
  qed
  have "undisturbed latch (int i + 1) p" using t by (auto simp: SAFE_TEARDOWN_def undisturbed_iff [OF h0(2)])
  then show ?thesis using g'(1,4,5) started results frozen by blast
qed

subsection \<open>Teardown and publication\<close>

lemma stage_needs:
  assumes "runs mode latch es h" "list_all well_keyed es" "happened es f s"
  shows "f = ProfileAbsence \<Longrightarrow> happened es ProfileDelete Complete \<or> happened es ProfileStart Failed"
    and "f = ProfileStop \<Longrightarrow> happened es ProfileStart Complete \<or> happened es ProfileStart Abandoned"
proof -
  from intent_position [OF assms(1,3)] obtain j k d where j: "j < length es" "es ! j = (f, Intent, k, d)" .
  from runs_at_intent [OF assms(1,2) j] obtain h0 h1 where h0: "reflects (take j es) h0" "list_all well_keyed (take j es)"
    "history_intent mode latch (int j + 1) f k d h0 = Inr h1" .
  from h0(3) obtain t where g: "family_guard mode t (int j + 1) h0 d f = Inr ()" by (rule history_intentE)
  have sets: "g \<in> hs_failed h0 \<longleftrightarrow> happened (take j es) g Failed" "g \<in> hs_abandoned h0 \<longleftrightarrow> happened (take j es) g Abandoned" for g
    using h0(1) by (simp_all add: reflects_def)
  note fin = family_done_iff [OF h0(1,2)]
  show "happened es ProfileDelete Complete \<or> happened es ProfileStart Failed" if "f = ProfileAbsence"
    using g that by (auto simp: fin sets dest: happened_take)
  show "happened es ProfileStart Complete \<or> happened es ProfileStart Abandoned" if "f = ProfileStop"
    using g that by (auto simp: fin sets bind_r_eq_Inr dest: happened_take)
qed

lemma publication_rule:
  assumes "accepted_events mode latch events es" "i < length es" "es ! i = (Publication, Intent, k, d)"
  defines "p \<equiv> take i es"
  shows "undisturbed latch (int i + 1) p
    \<and> (\<forall>f \<in> {ProfileStart, ProfileStop, ProfileDelete, ProfileAbsence, ForeignComparison}. happened p f Complete)
    \<and> (\<exists>k d. (ForeignComparison, Complete, k, d) \<in> set p \<and> item d ''unchanged'' = PBool True)"
proof -
  from guard_at [OF assms(1-3)] obtain h0 h1 where h0: "runs mode latch p h0" "reflects p h0" "list_all well_keyed p"
    and g: "family_guard mode (teardown_only latch (int i + 1) h0) (int i + 1) h0 d Publication = Inr ()" unfolding p_def by blast
  then have u: "undisturbed latch (int i + 1) p" and f: "happened p ForeignComparison Complete" and "hs_foreign_unchanged h0 = Some True"
    by (simp_all add: undisturbed_iff bind_r_eq_Inr family_done_iff)
  from runs_unchanged [OF h0(1) this(3)] have unchanged: "\<exists>k d. (ForeignComparison, Complete, k, d) \<in> set p \<and> item d ''unchanged'' = PBool True"
    by simp
  have none: "\<not> happened p g Failed" "\<not> happened p g Abandoned" for g using u by (simp_all add: undisturbed_def)
  have absence: "happened p ProfileAbsence Complete" by (rule happened_needs [OF h0(1,3) f]) simp
  have delete: "happened p ProfileDelete Complete" using stage_needs(1) [OF h0(1,3) absence refl] none by simp
  have stop: "happened p ProfileStop Complete" by (rule happened_needs [OF h0(1,3) delete]) simp
  have "happened p ProfileStart Complete" using stage_needs(2) [OF h0(1,3) stop refl] none by simp
  with u f absence delete stop unchanged show ?thesis by simp
qed

lemma teardown_rule:
  assumes "accepted_events mode latch events es" "i < length es" "es ! i = (f, Intent, k, d)"
  defines "p \<equiv> take i es"
  shows "(f = ClusterDelete \<longrightarrow> (happened p ClusterCreate Complete \<or> happened p ClusterCreate Abandoned)
      \<and> started_drivers p \<subseteq> canceled_drivers p
      \<and> (happened p Readiness Complete \<longrightarrow> happened p EvidenceFreeze Complete \<or> (\<exists>g. happened p g Abandoned)))
    \<and> (f = DriverCancel \<longrightarrow> (happened p EvidenceFreeze Complete \<or> mode = RequestFree)
      \<and> text_of d ''namespace'' \<notin> canceled_drivers p)
    \<and> (f = ProfileStop \<longrightarrow> (happened p ProfileStart Complete \<or> happened p ProfileStart Abandoned)
      \<and> (happened p ClusterCreate Complete \<or> happened p ClusterCreate Abandoned
         \<longrightarrow> happened p ClusterDelete Complete \<and> happened p ClusterAbsence Complete))
    \<and> (f = ClusterAbsence \<longrightarrow> happened p ClusterDelete Complete)
    \<and> (f = ProfileDelete \<longrightarrow> happened p ProfileStop Complete)
    \<and> (f = ProfileAbsence \<longrightarrow> happened p ProfileDelete Complete \<or> happened p ProfileStart Failed)
    \<and> (f = ForeignComparison \<longrightarrow> happened p ProfileAbsence Complete)"
proof -
  from guard_at [OF assms(1-3)] obtain h0 h1 where h0: "runs mode latch p h0" "reflects p h0" "list_all well_keyed p"
    and step: "history_intent mode latch (int i + 1) f k d h0 = Inr h1"
    and g: "family_guard mode (teardown_only latch (int i + 1) h0) (int i + 1) h0 d f = Inr ()" unfolding p_def by blast
  note fin = family_done_iff [OF h0(2,3)]
  have sets: "hs_abandoned h0 = {g. happened p g Abandoned}" "hs_failed h0 = {g. happened p g Failed}"
    "hs_driver_cancels h0 = canceled_drivers p"
    "started_drivers p \<subseteq> started h0" using h0(2) by (simp_all add: reflects_def)
  have "(happened p ClusterCreate Complete \<or> happened p ClusterCreate Abandoned)
      \<and> started_drivers p \<subseteq> canceled_drivers p
      \<and> (happened p Readiness Complete \<longrightarrow> happened p EvidenceFreeze Complete \<or> (\<exists>g. happened p g Abandoned))"
    if "f = ClusterDelete" using g sets that by (auto simp: fin bind_r_eq_Inr)
  moreover have "(happened p EvidenceFreeze Complete \<or> mode = RequestFree) \<and> text_of d ''namespace'' \<notin> canceled_drivers p"
    if "f = DriverCancel"
  proof -
    from step that obtain h2 where "driver_cancel_guard mode (teardown_only latch (int i + 1) h0) h0 d = Inr h2"
      by (elim history_intentE) simp
    from driver_cancel_guard_Inr [OF this] show ?thesis by (simp add: fin sets)
  qed
  moreover have "(happened p ProfileStart Complete \<or> happened p ProfileStart Abandoned)
      \<and> (happened p ClusterCreate Complete \<or> happened p ClusterCreate Abandoned
         \<longrightarrow> happened p ClusterDelete Complete \<and> happened p ClusterAbsence Complete)" if "f = ProfileStop"
    using g sets(1) that happened_needs [OF h0(1,3), of ClusterAbsence Complete ClusterDelete] by (auto simp: fin bind_r_eq_Inr)
  moreover have "happened p ClusterDelete Complete" if "f = ClusterAbsence" using g that by (simp add: fin)
  moreover have "happened p ProfileStop Complete" if "f = ProfileDelete" using g that by (simp add: fin)
  moreover have "happened p ProfileDelete Complete \<or> happened p ProfileStart Failed" if "f = ProfileAbsence"
    using g that by (simp add: fin sets(2))
  moreover have "happened p ProfileAbsence Complete" if "f = ForeignComparison" using g that by (simp add: fin)
  ultimately show ?thesis by blast
qed

lemma latch_rule:
  assumes "accepted_events mode latch events es" "i < length es" "es ! i = (f, s, k, d)"
    and "\<not> undisturbed latch (int i + 1) (take i es)"
  shows "(s = Intent \<longrightarrow> f \<in> set SAFE_TEARDOWN) \<and> (s \<noteq> Intent \<longrightarrow> f = Request \<longrightarrow> (\<forall>m. latch = Some m \<longrightarrow> int i + 1 < m))"
proof -
  obtain h where runs: "runs mode latch es h" "list_all well_keyed es" using accepted_runs [OF assms(1)] by blast
  have "f \<in> set SAFE_TEARDOWN" if "s = Intent"
  proof -
    from assms(3) that have e: "es ! i = (f, Intent, k, d)" by simp
    from guard_at [OF assms(1,2) e] obtain h0 where "reflects (take i es) h0"
      "teardown_only latch (int i + 1) h0 \<Longrightarrow> f \<in> set SAFE_TEARDOWN" by blast
    with assms(4) show ?thesis by (simp add: undisturbed_iff)
  qed
  moreover have "\<forall>m. latch = Some m \<longrightarrow> int i + 1 < m" if "s \<noteq> Intent" "f = Request"
  proof -
    from runs_at [OF runs(1) assms(2)] obtain h0 h1 where "event_step mode latch (int i + 1) (es ! i) h0 = Inr h1" .
    then have "history_terminal latch (int i + 1) f s k d h0 = Inr h1" using assms(3) that(1) by simp
    then show ?thesis by (rule history_terminalE) (use that(2) in auto)
  qed
  ultimately show ?thesis by blast
qed

end
