(* ===== verification/KilLifecycleErrors.thy ===== *)
theory KilLifecycleErrors
  imports KilLifecycleRules
begin

text \<open>
  Which exceptions the check of a history (\<^verbatim>\<open>src/kil/v3b2_journal.py\<close>) raises. Its lookups by
  position and by track cannot fail: the namespaces of started drivers and the claimed tracks
  are distinct and reviewed. What is left are the journal's own error and those of details.
\<close>

subsection \<open>Details\<close>

lemma detail_error_journal: "is_journal_error e \<Longrightarrow> is_detail_error e"
  by (cases e) simp_all

lemma only_raises_mono: "only_raises P m \<Longrightarrow> (\<And>e. P e \<Longrightarrow> Q e) \<Longrightarrow> only_raises Q m"
  by (simp add: only_raises_def)

lemma journal_raises_detail: "only_raises is_journal_error m \<Longrightarrow> only_raises is_detail_error m"
  by (erule only_raises_mono) (rule detail_error_journal)

lemma exact_raises_detail [raises]:
  "only_raises is_detail_error (exact_string label n v)" "only_raises is_detail_error (exact_digest label m v)"
  "only_raises is_detail_error (absolute_path label v)"
  by (rule journal_raises_detail, rule exact_raises)+

lemma fold_r_raises:
  "(\<And>s x. x \<in> set xs \<Longrightarrow> only_raises P (f s x)) \<Longrightarrow> only_raises P (fold_r f s xs)"
  by (induction xs arbitrary: s) (auto intro: only_raises_bind)

lemma check_field_raises [raises]: "(\<And>v. only_raises P (check v)) \<Longrightarrow> only_raises P (check_field d k check)"
  by (auto simp: check_field_def intro: only_raises_bind)

lemma must_be_raises [raises]: "only_raises is_detail_error (must_be msg s v)"
  by (simp add: must_be_def)

lemma only_raises_dict [raises]:
  "(\<And>d. only_raises P (f d)) \<Longrightarrow> only_raises P g \<Longrightarrow> only_raises P (case v of PDict d \<Rightarrow> f d | _ \<Rightarrow> g)"
  by (cases v) simp_all

lemma record_identity_raises [raises]: "only_raises is_detail_error (record_identity w kind)"
proof -
  have "only_raises is_detail_error (case item d ''mode'' of PInt mode \<Rightarrow> mode_is kind mode | _ \<Rightarrow> Inr False)" for d
    by (cases "item d ''mode''") (simp_all add: mode_is_def)
  then show ?thesis unfolding record_identity_def by (intro raises) simp_all
qed

lemma set_of_raises [raises]: "only_raises is_detail_error (set_of w)"
  by (cases w) (simp_all add: set_of_def)

lemma binding_raises [raises]: "only_raises is_detail_error (validate_binding v)"
proof -
  have "only_raises is_detail_error (check_resource kv)" for kv
    unfolding check_resource_def by (intro raises) simp_all
  then have "only_raises is_detail_error (fold_r (\<lambda>_. check_resource) s r)" for s r
    by (rule fold_r_raises)
  then show ?thesis unfolding validate_binding_def by (intro raises) simp_all
qed

lemma closed_details_raises [raises]: "only_raises is_detail_error (closed_details v ks)"
  by (auto simp: closed_details_def split: pyval.splits)

lemma in_string_set_detail [raises]: "only_raises is_detail_error (in_string_set v names)"
  by (auto simp: in_string_set_def split: pyval.splits)

lemma event_family_raises [raises]: "only_raises is_detail_error (event_family name)"
proof -
  have "only_raises is_detail_error (find_family name xs)" for xs
    by (induction name xs rule: find_family.induct) (auto split: option.splits)
  then show ?thesis by (simp add: event_family_def)
qed

lemma strip_observed_raises [raises]: "only_raises is_detail_error (strip_observed f s v)"
  by (auto simp: strip_observed_def Let_def split: pyval.splits intro!: raises)

lemma request_details_raises [raises]: "only_raises is_detail_error (request_details s v)"
  unfolding request_details_def by (intro raises) auto

lemma pair_details_raises [raises]: "only_raises is_detail_error (pair_details f s v)"
proof -
  have "only_raises is_detail_error (failure_details d)" for d
    unfolding failure_details_def by (intro raises; simp)
  moreover have "only_raises is_detail_error (abandonment_details f d)" for d
    unfolding abandonment_details_def by (intro raises; simp)
  moreover have "only_raises is_detail_error (cluster_complete_details w)" for w
    unfolding cluster_complete_details_def by (intro raises; simp)
  moreover have "only_raises is_detail_error (pair_checks f d)" for d
    unfolding pair_checks_def by (intro raises fold_r_raises; simp)
  moreover have "only_raises is_detail_error (driver_key d)" for d
    unfolding driver_key_def by (intro raises; simp)
  ultimately show ?thesis
    unfolding pair_details_def by (intro raises; simp)
qed

lemma event_details_raises [raises]: "only_raises is_detail_error (validate_event_details name v)"
  unfolding validate_event_details_def by (auto intro!: raises)

lemma event_of_raises: "only_raises is_detail_error (event_of n v)"
  by (auto simp: event_of_def split: pyval.splits intro!: raises)

subsection \<open>Reviewed names\<close>

text \<open>What the details of an event are known to hold: its namespace, or its track, is a reviewed one.\<close>

fun reviewed :: "lifecycle_event \<Rightarrow> bool" where
  "reviewed (f, s, k, d) \<longleftrightarrow>
     (f \<in> {DriverStart, DriverCancel} \<longrightarrow> text_of d ''namespace'' \<in> u ` set JOURNAL_NAMESPACES)
     \<and> (f = Request \<longrightarrow> text_of d ''track'' \<in> u ` set LAB_TRACKS \<and> k = [text_of d ''track'', u NOMINAL_REQUEST_ID])"

lemma item_without [simp]: "k \<noteq> k' \<Longrightarrow> item (without k' d) k = item d k"
proof -
  assume "k \<noteq> k'"
  then have "map_of (filter (\<lambda>kv. fst kv \<noteq> str k') d) (str k) = map_of d (str k)"
    by (induction d) auto
  then show ?thesis by (simp add: item_def dict_get_def without_def)
qed

lemma strip_observed_item:
  "strip_observed f s v = Inr w \<Longrightarrow> k \<noteq> ''observed_proof_sha256'' \<Longrightarrow> k \<noteq> ''profile_binding'' \<Longrightarrow>
     item (dict_value w) k = item (dict_value v) k"
  by (auto simp: strip_observed_def Let_def dict_value_def split: pyval.splits if_splits)

lemma event_of_reviewed: "event_of n v = Inr e \<Longrightarrow> reviewed e"
proof -
  assume e: "event_of n v = Inr e"
  obtain r name f s k w where r: "v = PDict r" "event_family name = Inr (f, s)"
    "strip_observed f s (item r ''details'') = Inr w"
    "(if f = Request then request_details s w else pair_details f s w) = Inr k" "e = (f, s, k, dict_value (item r ''details''))"
    using e by (auto simp: event_of_def validate_event_details_def split: pyval.splits if_splits)
  let ?d = "dict_value (item r ''details'')"
  have same: "text_of ?d ''namespace'' = text_of (dict_value w) ''namespace''" "text_of ?d ''track'' = text_of (dict_value w) ''track''"
    using strip_observed_item [OF r(3), of "''namespace''"] strip_observed_item [OF r(3), of "''track''"] by (simp_all add: text_of_def)
  have "text_of (dict_value w) ''namespace'' \<in> u ` set JOURNAL_NAMESPACES" if "f \<in> {DriverStart, DriverCancel}"
  proof -
    from that r(4) obtain d where "w = PDict d" "driver_key d = Inr k"
      by (auto simp: pair_details_def closed_details_def bind_r_eq_Inr split: if_splits pyval.splits)
    then show ?thesis by (auto simp: driver_key_def dict_value_def text_of_def split: if_splits)
  qed
  moreover have "text_of (dict_value w) ''track'' \<in> u ` set LAB_TRACKS
    \<and> k = [text_of (dict_value w) ''track'', u NOMINAL_REQUEST_ID]" if "f = Request"
  proof -
    from that r(4) obtain d where "w = PDict d" "item d ''track'' \<in> set (map str LAB_TRACKS)"
      "item d ''request_id'' = str NOMINAL_REQUEST_ID" "k = [text_of d ''track'', text_of d ''request_id'']"
      by (auto simp: request_details_def closed_details_def bind_r_eq_Inr split: if_splits pyval.splits)
    then show ?thesis by (auto simp: dict_value_def text_of_def)
  qed
  ultimately show ?thesis by (simp add: r(5) same)
qed

text \<open>So the started drivers are few and the claimed tracks have their keys.\<close>

definition bounded_names :: "history \<Rightarrow> bool" where
  "bounded_names h \<longleftrightarrow> distinct (map fst (hs_driver_starts h)) \<and> started h \<subseteq> u ` set JOURNAL_NAMESPACES
     \<and> (\<forall>t \<in> set (hs_request_claims h). (Request, [t, u NOMINAL_REQUEST_ID]) \<in> set (map fst (hs_states h)))"

lemma bounded_names_step:
  assumes "bounded_names h" "reviewed e" "event_step mode latch n e h = Inr h'"
  shows "bounded_names h'"
proof -
  obtain f s k d where e: "e = (f, s, k, d)" by (cases e)
  show ?thesis
  proof (cases "s = Intent")
    case True
    with assms(3) have "history_intent mode latch n f k d h = Inr h'" by (simp add: e)
    then show ?thesis
    proof (cases rule: history_intentE)
      case (1 h1)
      have "distinct (map fst (hs_driver_starts h1)) \<and> started h1 \<subseteq> u ` set JOURNAL_NAMESPACES
          \<and> hs_states h1 = hs_states h \<and> hs_request_claims h1 = hs_request_claims h"
        using assms(1,2) 1(1) by (auto simp: bounded_names_def e distinct_update started_def update_key_set simp del: set_map)
      then show ?thesis
        using assms(1,2) by (auto simp: bounded_names_def 1(9) Let_def e started_def update_key_set simp del: set_map)
    qed
  next
    case False
    with assms(3) have "history_terminal latch n f s k d h = Inr h'" by (simp add: e)
    then show ?thesis
    proof (cases rule: history_terminalE)
      case (1 intent h1)
      note h1 = close_stage_Inr [OF 1(5) False]
      show ?thesis
        using assms(1,2) by (auto simp: bounded_names_def 1(7) h1 e distinct_update started_def update_key_set simp del: set_map)
    qed
  qed
qed

lemma few_drivers:
  assumes "bounded_names h" "ns \<in> u ` set JOURNAL_NAMESPACES" "ns \<notin> started h"
  shows "length (hs_driver_starts h) < 3"
proof -
  have "started h \<subset> u ` set JOURNAL_NAMESPACES" using assms by (auto simp: bounded_names_def)
  then have "card (started h) < card (u ` set JOURNAL_NAMESPACES)" by (rule psubset_card_mono [rotated]) simp
  also have "\<dots> \<le> length JOURNAL_NAMESPACES" using card_image_le card_length le_trans by (metis List.finite_set)
  finally have "card (started h) < 3" by (simp add: JOURNAL_NAMESPACES_def)
  moreover have "card (started h) = length (hs_driver_starts h)"
    using assms(1) by (simp add: bounded_names_def started_def distinct_card del: set_map)
  ultimately show ?thesis by simp
qed

lemma require_raises_journal [raises]: "only_raises is_journal_error (require c msg)"
  by (simp add: require_def)

lemma nth_r_ok: "n < length xs \<Longrightarrow> nth_r xs n = Inr (xs ! n)"
  by (simp add: nth_r_def)

lemma driver_start_guard_raises:
  assumes "bounded_names h" "text_of d ''namespace'' \<in> u ` set JOURNAL_NAMESPACES"
  shows "only_raises is_journal_error (driver_start_guard mode h d)"
proof (cases "text_of d ''namespace'' \<in> started h")
  case True
  then show ?thesis unfolding driver_start_guard_def by (intro only_raises_bind raises) auto
next
  case False
  have "length (hs_driver_starts h) < 3" by (rule few_drivers [OF assms False])
  then have "nth_r (map u APPLICATION_NAMESPACES) (length (hs_driver_starts h)) = Inr (map u APPLICATION_NAMESPACES ! length (hs_driver_starts h))"
    "nth_r (map u LAB_TRACKS) (length (hs_driver_starts h) - 1) = Inr (map u LAB_TRACKS ! (length (hs_driver_starts h) - 1))"
    by (auto intro!: nth_r_ok simp: APPLICATION_NAMESPACES_def LAB_TRACKS_def)
  then show ?thesis unfolding driver_start_guard_def by (auto intro!: raises)
qed

lemma request_guard_raises:
  assumes "text_of d ''track'' \<in> u ` set LAB_TRACKS" "length (hs_request_claims h) < length LAB_TRACKS"
  shows "only_raises is_journal_error (request_guard mode h d)"
proof -
  have "\<exists>ns. map_of (map (\<lambda>(t, n). (u t, u n)) TRACK_NAMESPACES) (text_of d ''track'') = Some ns"
    using assms(1) by (auto simp: TRACK_NAMESPACES_def LAB_TRACKS_def APPLICATION_NAMESPACES_def)
  moreover have "nth_r (map u LAB_TRACKS) (length (hs_request_claims h)) = Inr (map u LAB_TRACKS ! length (hs_request_claims h))"
    by (rule nth_r_ok) (simp add: assms(2))
  ultimately show ?thesis unfolding request_guard_def by (auto intro!: raises)
qed

text \<open>When all three tracks are claimed, a further request has its key already.\<close>

lemma fresh_request:
  assumes "runs mode latch es h" "bounded_names h" "reviewed (Request, s, k, d)" "map_of (hs_states h) (Request, k) = None"
  shows "length (hs_request_claims h) < length LAB_TRACKS"
proof (rule ccontr)
  assume "\<not> ?thesis"
  with claims_ordered [OF assms(1)] have "hs_request_claims h = map u LAB_TRACKS" by (metis not_less take_all)
  with assms(3) have "text_of d ''track'' \<in> set (hs_request_claims h)" by simp
  with assms(2,3) have "(Request, k) \<in> set (map fst (hs_states h))" by (auto simp: bounded_names_def)
  with assms(4) show False by (simp add: map_of_eq_None_iff)
qed

lemma event_step_raises:
  assumes "runs mode latch es h" "bounded_names h" "reviewed e"
  shows "only_raises is_journal_error (event_step mode latch n e h)"
proof -
  obtain f s k d where e: "e = (f, s, k, d)" by (cases e)
  show ?thesis
  proof (cases "s = Intent")
    case False
    have "only_raises is_journal_error (close_stage f s key g)" for key g
      unfolding close_stage_def by (auto intro!: raises)
    then have "only_raises is_journal_error (history_terminal latch n f s k d h)"
      unfolding history_terminal_def
      by (cases "map_of (hs_states h) (f, k)") (auto split: progress.splits intro!: raises)
    with False show ?thesis by (simp add: e)
  next
    case True
    have cancel: "only_raises is_journal_error (driver_cancel_guard mode t h d)" for t
      unfolding driver_cancel_guard_def Let_def by (intro raises) simp_all
    have freeze: "only_raises is_journal_error (evidence_freeze_guard mode h)"
      unfolding evidence_freeze_guard_def by (intro raises) simp_all
    have quiesce: "only_raises is_journal_error (envoy_quiesce_guard mode t h)" for t
      unfolding envoy_quiesce_guard_def by (intro raises) simp_all
    have guard: "only_raises is_journal_error (family_guard mode t n h d f)" if "map_of (hs_states h) (f, k) = None" for t
    proof (cases f)
      case DriverStart
      with assms(3) show ?thesis by (simp add: e driver_start_guard_raises [OF assms(2)])
    next
      case Request
      with assms(3) fresh_request [OF assms(1,2), of s k d] that show ?thesis by (simp add: e request_guard_raises)
    qed (simp_all add: require_raises_journal freeze quiesce only_raises_bind)
    then have "only_raises is_journal_error (history_intent mode latch n f k d h)"
      unfolding history_intent_def Let_def by (intro raises) (simp_all add: cancel del: not_None_eq family_guard.simps)
    with True show ?thesis by (simp add: e)
  qed
qed

lemma run_history_raises:
  "only_raises is_detail_error (run_history mode latch events)
   \<and> (\<forall>n h. run_history mode latch events = Inr (n, h) \<longrightarrow> bounded_names h)"
proof (induction events rule: rev_induct)
  case Nil
  show ?case by (simp add: run_history_def empty_history_def bounded_names_def started_def)
next
  case (snoc v events)
  have eq: "run_history mode latch (events @ [v]) =
      bind_r (run_history mode latch events) (\<lambda>(n, h). history_step mode latch (n, h) v)"
    by (simp add: run_history_def fold_r_append) (simp add: bind_r_def split: sum.splits)
  show ?case
  proof (cases "run_history mode latch events")
    case (Inl e)
    with snoc show ?thesis by (simp add: eq)
  next
    case (Inr nh)
    obtain n h where nh: "nh = (n, h)" by (cases nh)
    from run_history_runs [of mode latch events n h] Inr nh obtain es where es: "runs mode latch es h" by auto
    have names: "bounded_names h" using snoc Inr nh by simp
    show ?thesis
    proof (cases "event_of n v")
      case (Inl e)
      with event_of_raises [of n v] \<open>run_history mode latch events = Inr nh\<close> nh show ?thesis
        by (simp add: eq history_step_event)
    next
      case e: (Inr e)
      note reviewed = event_of_reviewed [OF e]
      have "only_raises is_detail_error (event_step mode latch n e h)"
        by (rule journal_raises_detail [OF event_step_raises [OF es names reviewed]])
      then show ?thesis
        using bounded_names_step [OF names reviewed] Inr nh e
        by (cases "event_step mode latch n e h") (auto simp: eq history_step_event)
    qed
  qed
qed

lemma validate_history_raises: "only_raises is_detail_error (validate_history mode latch v)"
  using run_history_raises [of mode latch] by (auto simp: validate_history_def split: pyval.splits intro!: raises)

subsection \<open>Open pairs\<close>

lemma accepted_reviewed: "accepted_events mode latch events es \<Longrightarrow> list_all reviewed es"
  by (auto simp: accepted_events_def list_all_length dest: event_of_reviewed)

lemma last_outside: "x \<in> set xs \<Longrightarrow> x \<notin> A \<Longrightarrow> set (butlast xs) \<subseteq> A \<Longrightarrow> x = last xs"
  by (cases xs rule: rev_cases) auto

lemma open_requests:
  assumes "runs mode latch es h" "list_all reviewed es" "(Request, k) \<in> open_keys es"
  shows "claimed_tracks es \<noteq> [] \<and> k = [last (claimed_tracks es), u NOMINAL_REQUEST_ID]"
proof -
  have r: "hs_request_claims h = claimed_tracks es" "hs_request_results h = answered_tracks es"
    using runs_reflects [OF assms(1)] by (simp_all add: reflects_def)
  from assms(3) obtain d where d: "(Request, Intent, k, d) \<in> set es"
    by (auto simp: open_keys_def intents_def elim!: event_key.elims)
  with assms(2) have k: "k = [text_of d ''track'', u NOMINAL_REQUEST_ID]" by (auto simp: list_all_iff)
  have claimed: "text_of d ''track'' \<in> set (claimed_tracks es)" using d by (force simp: claimed_tracks_def)
  have "text_of d ''track'' \<notin> answered_tracks es"
  proof
    assume "text_of d ''track'' \<in> answered_tracks es"
    then obtain s k' d' where a: "(Request, s, k', d') \<in> set es" "s \<noteq> Intent" "text_of d' ''track'' = text_of d ''track''"
      by (auto simp: answered_tracks_def)
    with assms(2) k have "k' = k" by (auto simp: list_all_iff)
    with a have "(Request, k) \<in> set (terminals es)" by (force simp: terminals_def)
    with assms(3) show False by (simp add: open_keys_def)
  qed
  with claims_ordered [OF assms(1)] claimed last_outside [of "text_of d ''track''" "claimed_tracks es" "answered_tracks es"] k
  show ?thesis by (auto simp: r)
qed

lemma open_pairs:
  assumes "runs mode latch es h" "list_all reviewed es"
  shows "distinct (intents es) \<and> distinct (terminals es) \<and> set (terminals es) \<subseteq> set (intents es)
    \<and> (\<exists>key. {x \<in> open_keys es. fst x \<noteq> Request} \<subseteq> {key}) \<and> (\<exists>key. {x \<in> open_keys es. fst x = Request} \<subseteq> {key})"
proof -
  have p: "paired es h" by (rule runs_paired [OF assms(1)])
  have "{x \<in> open_keys es. fst x \<noteq> Request} \<subseteq> {the (hs_active h)}" using p by (auto simp: paired_def)
  moreover have "{x \<in> open_keys es. fst x = Request} \<subseteq> {(Request, [last (claimed_tracks es), u NOMINAL_REQUEST_ID])}"
    using open_requests [OF assms] by auto
  moreover have "distinct (intents es)" "distinct (terminals es)" "set (terminals es) \<subseteq> set (intents es)"
    using p by (simp_all add: paired_def)
  ultimately show ?thesis by blast
qed

lemma pairs_rule:
  assumes "accepted_events mode latch events es"
  defines "p \<equiv> \<lambda>i. take i es"
  shows "distinct (intents (p i)) \<and> distinct (terminals (p i)) \<and> set (terminals (p i)) \<subseteq> set (intents (p i))
    \<and> (\<exists>key. {x \<in> open_keys (p i). fst x \<noteq> Request} \<subseteq> {key}) \<and> (\<exists>key. {x \<in> open_keys (p i). fst x = Request} \<subseteq> {key})
    \<and> (\<forall>i < length es. \<forall>f s k d. es ! i = (f, s, k, d) \<and> s \<noteq> Intent \<longrightarrow>
         (\<exists>j < i. \<exists>d0. es ! j = (f, Intent, k, d0) \<and> (\<forall>(name, expected) \<in> set d0.
            (case map_of d name of None \<Rightarrow> PNone | Some found \<Rightarrow> found) = expected
            \<or> (f = ForeignComparison \<and> s = Complete \<and> dict_get d ''observed_proof_sha256'' \<noteq> None
                 \<and> name \<in> {str ''unchanged'', str ''attestation_sha256''}))))"
proof -
  obtain h where runs: "runs mode latch es h" using accepted_runs [OF assms(1)] by blast
  then have "runs mode latch (take i es @ drop i es) h" by simp
  from runs_prefix [OF this] obtain h0 where h0: "runs mode latch (take i es) h0" by blast
  have reviewed: "list_all reviewed (take i es)"
    using accepted_reviewed [OF assms(1)] by (auto simp: list_all_iff dest: in_set_takeD)
  have "\<exists>j < i. \<exists>d0. es ! j = (f, Intent, k, d0) \<and> (\<forall>(name, expected) \<in> set d0.
            (case map_of d name of None \<Rightarrow> PNone | Some found \<Rightarrow> found) = expected
            \<or> (f = ForeignComparison \<and> s = Complete \<and> dict_get d ''observed_proof_sha256'' \<noteq> None
                 \<and> name \<in> {str ''unchanged'', str ''attestation_sha256''}))"
    if "i < length es" "es ! i = (f, s, k, d)" "s \<noteq> Intent" for i f s k and d :: pydict
  proof -
    from terminal_closes [OF runs that] obtain j d0 where "j < i" "es ! j = (f, Intent, k, d0)" "matches_intent f s d0 d" by blast
    then show ?thesis
      by (intro exI [of _ j] conjI exI [of _ d0])
        (auto simp: matches_intent_def observed_result_def list_all_iff simp del: not_None_eq)
  qed
  with open_pairs [OF h0 reviewed] show ?thesis unfolding p_def by blast
qed

end
