(* ===== verification/KilLifecycleSafety.thy ===== *)
theory KilLifecycleSafety
  imports KilLifecycleErrors
begin

text \<open>
  The properties of the lifecycle journal's histories (\<^verbatim>\<open>src/kil/v3b2_journal.py\<close>), with one
  complete nominal history as their witness, and a history that is accepted although it should
  not be.
\<close>

subsection \<open>Sample histories\<close>

type_synonym sample_event = "string \<times> (string \<times> pyval) list"

definition sample_pair :: "string \<Rightarrow> (string \<times> pyval) list \<Rightarrow> sample_event list" where
  "sample_pair name d = [(name @ ''_intent'', d), (name @ ''_complete'', d)]"

definition sample_events :: "sample_event list \<Rightarrow> pyval list" where
  "sample_events xs = map (\<lambda>(n, name, d). PDict [(str ''sequence'', PInt (int n)), (str ''event'', str name),
     (str ''details'', PDict (map (\<lambda>(k, v). (str k, v)) d))]) (zip [1..<Suc (length xs)] xs)"

definition zero_digest :: pyval where "zero_digest = PStr (replicate 64 48)"

definition profile_details :: "(string \<times> pyval) list" where
  "profile_details = [(''colima_profile'', str LAB_IDENTITY)]"

definition cluster_details :: "(string \<times> pyval) list" where
  "cluster_details = [(''kind_cluster'', str LAB_IDENTITY), (''kubeconfig'', str ''/p/kubeconfig'')]"

definition image_details :: "(string \<times> pyval) list" where
  "image_details = [(''image'', PStr (u ''kil.local/kil-v3b2:sha256-'' @ replicate 64 48)),
     (''envoy_image'', PStr (u ''docker.io/envoyproxy/envoy@sha256:'' @ replicate 64 48))]"

definition driver_details :: "string \<Rightarrow> (string \<times> pyval) list" where
  "driver_details ns = [(''namespace'', str ns), (''pod'', str ''driver''), (''uid'', str ''1'')]"

definition sample_request :: "string \<Rightarrow> sample_event list" where
  "sample_request t =
     (let d = [(''track'', str t), (''request_id'', str NOMINAL_REQUEST_ID), (''case_sha256'', zero_digest)] in
      [(''request_intent'', d), (''request_result'', d @ [(''result_sha256'', zero_digest)])])"

definition sample_setup :: "sample_event list" where
  "sample_setup = sample_pair ''profile_start'' profile_details
     @ [(''cluster_create_intent'', cluster_details), (''cluster_create_complete'', cluster_details
          @ [(''cluster_incarnation_uid'', str ''u''), (''node_container_id'', zero_digest), (''docker_host'', str ''unix:///d'')])]
     @ sample_pair ''image_import'' ((''archive_sha256'', zero_digest) # image_details)
     @ sample_pair ''image_load'' image_details
     @ sample_pair ''calico_apply'' [(''manifest_sha256'', zero_digest)]
     @ sample_pair ''application_apply'' [(''manifest_sha256'', zero_digest)]
     @ sample_pair ''readiness'' [(''attestation_sha256'', zero_digest)]"

definition sample_requests :: "sample_event list" where
  "sample_requests = concat (map (\<lambda>(t, ns). sample_pair ''driver_start'' (driver_details ns) @ sample_request t) TRACK_NAMESPACES)"

definition sample_teardown :: "sample_event list" where
  "sample_teardown = sample_pair ''evidence_freeze'' [(''evidence_sha256'', zero_digest)]
     @ concat (map (\<lambda>ns. sample_pair ''driver_cancel'' (driver_details ns)) APPLICATION_NAMESPACES)
     @ sample_pair ''cluster_delete'' cluster_details
     @ sample_pair ''cluster_absence_proof'' [(''kind_cluster'', str LAB_IDENTITY), (''node_container_id'', zero_digest)]
     @ sample_pair ''profile_stop'' profile_details @ sample_pair ''profile_delete'' profile_details
     @ sample_pair ''profile_absence_proof'' profile_details
     @ sample_pair ''foreign_snapshot_comparison'' [(''unchanged'', PBool True), (''attestation_sha256'', zero_digest)]
     @ sample_pair ''publication'' [(''destination'', str ''/p/out''), (''public_commitment_sha256'', zero_digest),
         (''tree_commitment_sha256'', zero_digest)]"

definition sample_history :: "pyval list" where
  "sample_history = sample_events (sample_setup @ sample_requests @ sample_teardown)"

lemma sample_history_length: "length sample_history = 48"
  by code_simp

lemma sample_history_accepted: "validate_history Nominal None (PList sample_history) = Inr ()"
  by code_simp

text \<open>The events read from a history, and the short history of a run that never started.\<close>

definition read_events :: "pyval list \<Rightarrow> lifecycle_event list" where
  "read_events events = map (\<lambda>(n, v). projr (event_of (int n) v)) (zip [1..<Suc (length events)] events)"

lemma read_events_nth: "i < length events \<Longrightarrow> read_events events ! i = projr (event_of (int i + 1) (events ! i))"
  by (simp add: read_events_def add.commute del: upt_Suc)

lemma read_events_length [simp]: "length (read_events events) = length events"
  by (simp add: read_events_def del: upt_Suc)

lemma accepted_read_events:
  assumes "validate_history mode latch (PList events) = Inr ()"
  shows "accepted_events mode latch events (read_events events)"
proof -
  obtain n h where "run_history mode latch events = Inr (n, h)"
    using assms by (auto simp: validate_history_def split: if_splits)
  from run_history_runs [OF this] obtain es where
    "\<forall>i < length events. event_of (int i + 1) (events ! i) = Inr (es ! i)" by blast
  then have "\<forall>i < length events. event_of (int i + 1) (events ! i) = Inr (read_events events ! i)"
    by (simp add: read_events_nth)
  with assms show ?thesis by (simp add: accepted_events_def)
qed

definition failed_start :: "pyval list" where
  "failed_start = sample_events
     [(''profile_start_intent'', profile_details),
      (''profile_start_failed'', profile_details @ [(''failure_category'', str ''execution_not_started''), (''proof_sha256'', zero_digest)]),
      (''profile_absence_proof_intent'', profile_details)]"

lemma failed_start_accepted: "validate_history Nominal None (PList failed_start) = Inr ()"
  by code_simp

lemma failed_start_events: "read_events failed_start =
    [(ProfileStart, Intent, [], [(str ''colima_profile'', str LAB_IDENTITY)]),
     (ProfileStart, Failed, [], [(str ''colima_profile'', str LAB_IDENTITY), (str ''failure_category'', str ''execution_not_started''),
        (str ''proof_sha256'', zero_digest)]),
     (ProfileAbsence, Intent, [], [(str ''colima_profile'', str LAB_IDENTITY)])]"
  by code_simp

lemma sample_intent:
  assumes "i < 48" "event_of (int i + 1) (sample_history ! i) = Inr e"
  shows "read_events sample_history ! i = e"
  using assms by (simp add: read_events_nth sample_history_length)

lemma sample_request_event:
  "event_of (int 20 + 1) (sample_history ! 20) = Inr (Request, Intent, [u ''signed_state_only'', u NOMINAL_REQUEST_ID],
     [(str ''track'', str ''signed_state_only''), (str ''request_id'', str NOMINAL_REQUEST_ID), (str ''case_sha256'', zero_digest)])"
  by code_simp

lemma sample_delete_event:
  "event_of (int 34 + 1) (sample_history ! 34) = Inr (ClusterDelete, Intent, [],
     [(str ''kind_cluster'', str LAB_IDENTITY), (str ''kubeconfig'', str ''/p/kubeconfig'')])"
  by code_simp

lemma sample_publication_event:
  "event_of (int 46 + 1) (sample_history ! 46) = Inr (Publication, Intent, [],
     [(str ''destination'', str ''/p/out''), (str ''public_commitment_sha256'', zero_digest), (str ''tree_commitment_sha256'', zero_digest)])"
  by code_simp

subsection \<open>The properties\<close>

text \<open>
  Claim C21: requests go out in order and at most once. When an accepted history intends a
  request, the mode is nominal, the tracks claimed so far are the first of the fixed order and
  all of them are answered, this one is the next, its own driver was started, readiness is
  complete, evidence not frozen, nothing failed and the teardown latch is ahead.
\<close>

theorem request_ordered:
  assumes "accepted_events mode latch events es" "i < length es" "es ! i = (Request, Intent, k, d)"
  defines "p \<equiv> take i es"
  defines "n \<equiv> length (claimed_tracks p)"
  shows "mode = Nominal \<and> n < length LAB_TRACKS \<and> text_of d ''track'' = u (LAB_TRACKS ! n)
    \<and> claimed_tracks p = map u (take n LAB_TRACKS) \<and> set (claimed_tracks p) \<subseteq> answered_tracks p
    \<and> u (APPLICATION_NAMESPACES ! n) \<in> started_drivers p
    \<and> happened p Readiness Complete \<and> \<not> happened p EvidenceFreeze Complete \<and> undisturbed latch (int i + 1) p"
  unfolding p_def n_def by (rule request_rule [OF assms(1-3)])

theorem request_ordered_witness:
  "claimed_tracks (take 20 (read_events sample_history)) = map u (take (length (claimed_tracks (take 20 (read_events sample_history)))) LAB_TRACKS)
   \<and> set (claimed_tracks (take 20 (read_events sample_history))) \<subseteq> answered_tracks (take 20 (read_events sample_history))"
  using request_ordered [OF accepted_read_events [OF sample_history_accepted], of 20] sample_intent [OF _ sample_request_event]
  by (simp add: sample_history_length)

text \<open>
  Claim C20: publication is the end of an undisturbed run. When an accepted history intends a
  publication, no event failed or was abandoned, the teardown latch is ahead, the profile was
  started, stopped, deleted and proved absent, and the foreign resources were compared and
  found unchanged.
\<close>

theorem publication_earned:
  assumes "accepted_events mode latch events es" "i < length es" "es ! i = (Publication, Intent, k, d)"
  shows "undisturbed latch (int i + 1) (take i es)
    \<and> (\<forall>f \<in> {ProfileStart, ProfileStop, ProfileDelete, ProfileAbsence, ForeignComparison}. happened (take i es) f Complete)
    \<and> (\<exists>k d. (ForeignComparison, Complete, k, d) \<in> set (take i es) \<and> item d ''unchanged'' = PBool True)"
  by (rule publication_rule [OF assms])

theorem publication_earned_witness: "happened (take 46 (read_events sample_history)) ProfileAbsence Complete"
  using publication_earned [OF accepted_read_events [OF sample_history_accepted], of 46] sample_intent [OF _ sample_publication_event]
  by (simp add: sample_history_length)

text \<open>
  Claim C23: teardown is ordered. The cluster is deleted only when its creation is proved or
  was abandoned, every started driver is canceled, and, after readiness, the evidence is frozen
  or something was abandoned; a driver is canceled once, behind the frozen evidence unless no
  request is made; the cluster's absence is proved behind its deletion; the profile is stopped
  only when it was started, and after the absence of its cluster, deleted only after its stop
  and proved absent only after its deletion or a start that failed; and the foreign resources
  are compared only behind the profile's absence.
\<close>

theorem teardown_ordered:
  assumes "accepted_events mode latch events es" "i < length es" "es ! i = (f, Intent, k, d)"
  defines "p \<equiv> take i es"
  shows "(f = ClusterDelete \<longrightarrow> (happened p ClusterCreate Complete \<or> happened p ClusterCreate Abandoned)
      \<and> started_drivers p \<subseteq> canceled_drivers p
      \<and> (happened p Readiness Complete \<longrightarrow> happened p EvidenceFreeze Complete \<or> (\<exists>g. happened p g Abandoned)))
    \<and> (f = DriverCancel \<longrightarrow> (happened p EvidenceFreeze Complete \<or> mode = RequestFree)
      \<and> text_of d ''namespace'' \<notin> canceled_drivers p)
    \<and> (f = ProfileStop \<longrightarrow> (happened p ProfileStart Complete \<or> happened p ProfileStart Abandoned)
      \<and> (happened p ClusterCreate Complete \<or> happened p ClusterCreate Abandoned
         \<longrightarrow> happened p ClusterDelete Complete \<and> happened p ClusterAbsence Complete))
    \<and> (f = ClusterAbsence \<longrightarrow> happened p ClusterDelete Complete)
    \<and> (f = ProfileDelete \<longrightarrow> happened p ProfileStop Complete)
    \<and> (f = ProfileAbsence \<longrightarrow> happened p ProfileDelete Complete \<or> happened p ProfileStart Failed)
    \<and> (f = ForeignComparison \<longrightarrow> happened p ProfileAbsence Complete)"
  unfolding p_def by (rule teardown_rule [OF assms(1-3)])

theorem teardown_ordered_witness:
  "started_drivers (take 34 (read_events sample_history)) \<subseteq> canceled_drivers (take 34 (read_events sample_history))"
  using teardown_ordered [OF accepted_read_events [OF sample_history_accepted], of 34] sample_intent [OF _ sample_delete_event]
  by (simp add: sample_history_length)

text \<open>
  Claim C22: a disturbed run is only torn down. Once an event failed or was abandoned, or the
  teardown latch is reached, an accepted history intends nothing but safe teardown, and from
  the latch on no request is answered.
\<close>

theorem disturbed_only_teardown:
  assumes "accepted_events mode latch events es" "i < length es" "es ! i = (f, s, k, d)"
    and "\<not> undisturbed latch (int i + 1) (take i es)"
  shows "(s = Intent \<longrightarrow> f \<in> set SAFE_TEARDOWN) \<and> (s \<noteq> Intent \<longrightarrow> f = Request \<longrightarrow> (\<forall>m. latch = Some m \<longrightarrow> int i + 1 < m))"
  by (rule latch_rule [OF assms])

theorem disturbed_only_teardown_witness: "fst (read_events failed_start ! 2) \<in> set SAFE_TEARDOWN"
proof -
  have "\<not> undisturbed None (int 2 + 1) (take 2 (read_events failed_start))"
    by (auto simp: failed_start_events undisturbed_def happened_def)
  then show ?thesis
    using disturbed_only_teardown [OF accepted_read_events [OF failed_start_accepted], of 2]
    by (simp add: failed_start_events)
qed

text \<open>
  Claim C24: pairs. At every point of an accepted history each intent was made once and each
  terminal event once and after its intent, and at most one request and one other pair are
  open. Every terminal event repeats each detail of its own intent with the same value, but
  for the two observed results of a foreign comparison that names its observed proof.
\<close>

theorem history_pairs:
  assumes "accepted_events mode latch events es"
  defines "p \<equiv> \<lambda>i. take i es"
  shows "distinct (intents (p i)) \<and> distinct (terminals (p i)) \<and> set (terminals (p i)) \<subseteq> set (intents (p i))
    \<and> (\<exists>key. {x \<in> open_keys (p i). fst x \<noteq> Request} \<subseteq> {key}) \<and> (\<exists>key. {x \<in> open_keys (p i). fst x = Request} \<subseteq> {key})
    \<and> (\<forall>i < length es. \<forall>f s k d. es ! i = (f, s, k, d) \<and> s \<noteq> Intent \<longrightarrow>
         (\<exists>j < i. \<exists>d0. es ! j = (f, Intent, k, d0) \<and> (\<forall>(name, expected) \<in> set d0.
            (case map_of d name of None \<Rightarrow> PNone | Some found \<Rightarrow> found) = expected
            \<or> (f = ForeignComparison \<and> s = Complete \<and> dict_get d ''observed_proof_sha256'' \<noteq> None
                 \<and> name \<in> {str ''unchanged'', str ''attestation_sha256''}))))"
  unfolding p_def by (rule pairs_rule [OF assms(1)])

theorem history_pairs_witness: "distinct (intents (take 40 (read_events sample_history)))"
  using history_pairs [OF accepted_read_events [OF sample_history_accepted], of 40] by simp

text \<open>
  Claim C25: the check of a history is total but for its details. Whatever it is given, it
  accepts or raises JournalError or what the details can raise: TypeError for a value without a
  hash or that cannot be iterated, OverflowError for a mode beyond the host's, and the error of
  a profile's binding. Its lookups by position and by track never fail.
\<close>

theorem history_errors: "case validate_history mode latch v of Inl e \<Rightarrow> is_detail_error e | Inr _ \<Rightarrow> True"
  using only_raisesD [OF validate_history_raises [of mode latch v]] by (simp split: sum.split)

text \<open>
  A cluster can be created behind the proof of the profile's absence, and a run with it can
  still be published; and a failure category without a hash is not the journal's own error.
\<close>

lemma published_with_cluster:
  "validate_history Nominal None (PList (sample_events
     (sample_pair ''profile_start'' profile_details @ sample_pair ''profile_stop'' profile_details
      @ sample_pair ''profile_delete'' profile_details @ sample_pair ''profile_absence_proof'' profile_details
      @ [(''cluster_create_intent'', cluster_details), (''cluster_create_complete'', cluster_details
          @ [(''cluster_incarnation_uid'', str ''u''), (''node_container_id'', zero_digest), (''docker_host'', str ''unix:///d'')])]
      @ sample_pair ''foreign_snapshot_comparison'' [(''unchanged'', PBool True), (''attestation_sha256'', zero_digest)]
      @ sample_pair ''publication'' [(''destination'', str ''/p/out''), (''public_commitment_sha256'', zero_digest),
         (''tree_commitment_sha256'', zero_digest)]))) = Inr ()"
  by code_simp

lemma unhashable_category:
  "validate_history Nominal None (PList (sample_events
     [(''profile_start_intent'', profile_details),
      (''profile_start_failed'', profile_details @ [(''failure_category'', PList []), (''proof_sha256'', zero_digest)])]))
   = Inl (TypeError ''unhashable type: list'')"
  by code_simp

end
