(* ===== verification/KilJournal.thy ===== *)
theory KilJournal
  imports KilJournalHistory
begin

text \<open>
  \<^verbatim>\<open>src/kil/v3b2_journal.py\<close>, the journal as a value: the identity of the owned cluster, the
  inputs of a run, the JSON budget and canonical bytes, and the check of a whole journal.
\<close>

subsection \<open>The owned identity\<close>

record OwnedIdentity =
  oi_colima_profile :: pstr
  oi_docker_host :: "pstr option"
  oi_kind_cluster :: "pstr option"
  oi_kubeconfig :: "pstr option"
  oi_cluster_incarnation_uid :: "pstr option"
  oi_node_container_id :: "pstr option"

definition optional :: "(pyval \<Rightarrow> pstr res) \<Rightarrow> pyval \<Rightarrow> pstr option res" where
  "optional check v = (if v = PNone then Inr None else bind_r (check v) (\<lambda>s. Inr (Some s)))"

definition owned_endpoint :: "pyval \<Rightarrow> pstr res" where
  "owned_endpoint v =
     bind_r (exact_string ''owned Docker endpoint'' 4096 v) (\<lambda>s.
     if starts_with (u ''unix:///'') s \<and> ends_with (u ''/kil-v3-lab/docker.sock'') s then Inr s
     else journal_error ''owned Docker endpoint must bind the kil-v3-lab socket'')"

definition owned_name :: "string \<Rightarrow> pyval \<Rightarrow> pstr res" where
  "owned_name msg v = (if v = str LAB_IDENTITY then Inr (u LAB_IDENTITY) else journal_error msg)"

definition make_OwnedIdentity :: "pyval \<Rightarrow> pyval \<Rightarrow> pyval \<Rightarrow> pyval \<Rightarrow> pyval \<Rightarrow> pyval \<Rightarrow> OwnedIdentity res" where
  "make_OwnedIdentity profile docker_host kind_cluster kubeconfig uid node =
     bind_r (owned_name ''owned Colima profile must be exact kil-v3-lab'' profile) (\<lambda>profile'.
     bind_r (optional owned_endpoint docker_host) (\<lambda>host'.
     bind_r (optional (owned_name ''owned Kind cluster must be exact kil-v3-lab'') kind_cluster) (\<lambda>cluster'.
     bind_r (optional (absolute_path ''owned kubeconfig'') kubeconfig) (\<lambda>kubeconfig'.
     bind_r (optional (exact_string ''cluster incarnation UID'' 4096) uid) (\<lambda>uid'.
     bind_r (optional (exact_digest ''Kind node container ID'' 64) node) (\<lambda>node'.
     Inr \<lparr>oi_colima_profile = profile', oi_docker_host = host', oi_kind_cluster = cluster', oi_kubeconfig = kubeconfig',
       oi_cluster_incarnation_uid = uid', oi_node_container_id = node'\<rparr>))))))"

definition IDENTITY_FIELDS :: "string list" where
  "IDENTITY_FIELDS = [''colima_profile'', ''docker_host'', ''kind_cluster'', ''kubeconfig'', ''cluster_incarnation_uid'', ''node_container_id'']"

definition identity_from_mapping :: "pyval \<Rightarrow> OwnedIdentity res" where
  "identity_from_mapping v = (case v of
     PDict d \<Rightarrow>
       if keys_exact d IDENTITY_FIELDS
       then make_OwnedIdentity (item d ''colima_profile'') (item d ''docker_host'') (item d ''kind_cluster'')
         (item d ''kubeconfig'') (item d ''cluster_incarnation_uid'') (item d ''node_container_id'')
       else journal_error ''owned identity fields are not closed''
   | _ \<Rightarrow> journal_error ''owned identity fields are not closed'')"

definition opt_value :: "pstr option \<Rightarrow> pyval" where
  "opt_value s = (case s of None \<Rightarrow> PNone | Some t \<Rightarrow> PStr t)"

definition identity_mapping :: "OwnedIdentity \<Rightarrow> pydict" where
  "identity_mapping i =
     [(str ''colima_profile'', PStr (oi_colima_profile i)), (str ''docker_host'', opt_value (oi_docker_host i)),
      (str ''kind_cluster'', opt_value (oi_kind_cluster i)), (str ''kubeconfig'', opt_value (oi_kubeconfig i)),
      (str ''cluster_incarnation_uid'', opt_value (oi_cluster_incarnation_uid i)),
      (str ''node_container_id'', opt_value (oi_node_container_id i))]"

subsection \<open>The inputs of a run\<close>

record JournalInputs =
  ji_run_id :: pstr
  ji_execution_nonce :: pstr
  ji_source_commit :: pstr
  ji_profile_sha256 :: pstr
  ji_global_context_before :: pstr
  ji_foreign_profiles_before :: "(pstr \<times> pstr) list"
  ji_expected_objects :: "pstr list"
  ji_owned_identity :: OwnedIdentity
  ji_lifecycle_mode :: lifecycle_mode
  ji_expected_inputs_sha256 :: "pstr option"

definition lower_alnum :: "nat \<Rightarrow> bool" where
  "lower_alnum c \<longleftrightarrow> is_lower c \<or> is_digit c"

definition safe_name :: "pstr \<Rightarrow> bool" where
  "safe_name s \<longleftrightarrow> s \<noteq> [] \<and> length s \<le> 253 \<and> list_all (\<lambda>c. lower_alnum c \<or> c = 46 \<or> c = 45) s
     \<and> lower_alnum (hd s) \<and> lower_alnum (last s)"

definition foreign_profile :: "pyval \<Rightarrow> (pstr \<times> pstr) res" where
  "foreign_profile v = (case v of
     PList [PStr name, PStr status] \<Rightarrow>
       if safe_name name \<and> name \<noteq> u LAB_IDENTITY \<and> status \<in> {u ''Running'', u ''Stopped''} then Inr (name, status)
       else journal_error ''foreign profile snapshot contains an invalid record''
   | _ \<Rightarrow> journal_error ''foreign profile snapshot contains an invalid record'')"

definition foreign_profiles :: "pyval list \<Rightarrow> (pstr \<times> pstr) list res" where
  "foreign_profiles vs =
     (if length vs > 1024 then journal_error ''foreign profile snapshot exceeds its record bound''
      else bind_r (map_r foreign_profile vs) (\<lambda>ps.
        if sorted (map fst ps) \<and> distinct (map fst ps) then Inr ps
        else journal_error ''foreign profile snapshot must be sorted and duplicate-free''))"

definition expected_objects :: "pyval list \<Rightarrow> pstr list res" where
  "expected_objects vs =
     bind_r (map_r (exact_string ''expected object'' 4096) vs) (\<lambda>ss.
     if length ss > 4096 then journal_error ''expected objects exceed their record bound''
     else if sorted ss \<and> distinct ss then Inr ss
     else journal_error ''expected objects must be sorted and duplicate-free'')"

definition lifecycle_mode_of :: "pyval \<Rightarrow> lifecycle_mode res" where
  "lifecycle_mode_of v =
     (if v = str ''nominal'' then Inr Nominal else if v = str ''request-free'' then Inr RequestFree
      else journal_error ''journal lifecycle mode is not reviewed'')"

definition mode_text :: "lifecycle_mode \<Rightarrow> string" where
  "mode_text m = (case m of Nominal \<Rightarrow> ''nominal'' | RequestFree \<Rightarrow> ''request-free'')"

text \<open>The constructor's checks of the inputs, on the fields of a journal.\<close>

definition make_JournalInputs :: "pydict \<Rightarrow> pyval list \<Rightarrow> pyval list \<Rightarrow> OwnedIdentity \<Rightarrow> JournalInputs res" where
  "make_JournalInputs d foreign objects identity =
     bind_r (must_be ''journal schema version is not V3B-2'' JOURNAL_SCHEMA (item d ''schema_version'')) (\<lambda>_.
     bind_r (exact_digest ''run ID'' 64 (item d ''run_id'')) (\<lambda>run_id.
     bind_r (exact_digest ''execution nonce'' 64 (item d ''execution_nonce'')) (\<lambda>nonce.
     bind_r (exact_digest ''source commit'' 40 (item d ''source_commit'')) (\<lambda>commit.
     bind_r (exact_digest ''profile SHA-256'' 64 (item d ''profile_sha256'')) (\<lambda>profile.
     bind_r (optional (exact_digest ''expected inputs SHA-256'' 64) (item d ''expected_inputs_sha256'')) (\<lambda>inputs.
     bind_r (exact_string ''global Docker context'' 4096 (item d ''global_context_before'')) (\<lambda>context.
     bind_r (foreign_profiles foreign) (\<lambda>foreign'.
     bind_r (expected_objects objects) (\<lambda>objects'.
     bind_r (lifecycle_mode_of (item d ''lifecycle_mode'')) (\<lambda>mode.
     Inr \<lparr>ji_run_id = run_id, ji_execution_nonce = nonce, ji_source_commit = commit, ji_profile_sha256 = profile,
       ji_global_context_before = context, ji_foreign_profiles_before = foreign', ji_expected_objects = objects',
       ji_owned_identity = identity, ji_lifecycle_mode = mode, ji_expected_inputs_sha256 = inputs\<rparr>))))))))))"

definition inputs_from_journal :: "pydict \<Rightarrow> JournalInputs res" where
  "inputs_from_journal d =
     (case item d ''foreign_profiles_before'' of
        PList foreign \<Rightarrow>
          if list_ex (\<lambda>v. case v of PList vs \<Rightarrow> length vs \<noteq> 2 | _ \<Rightarrow> True) foreign
          then journal_error ''foreign profile snapshot is not canonical''
          else (case item d ''expected_objects'' of
              PList objects \<Rightarrow>
                bind_r (identity_from_mapping (item d ''owned_identity'')) (\<lambda>identity.
                make_JournalInputs d foreign objects identity)
            | _ \<Rightarrow> journal_error ''expected objects are not canonical'')
      | _ \<Rightarrow> journal_error ''foreign profile snapshot is not canonical'')"

text \<open>The journal of a new run.\<close>

definition inputs_mapping :: "JournalInputs \<Rightarrow> pydict" where
  "inputs_mapping i =
     [(str ''schema_version'', str JOURNAL_SCHEMA), (str ''run_id'', PStr (ji_run_id i)),
      (str ''execution_nonce'', PStr (ji_execution_nonce i)), (str ''source_commit'', PStr (ji_source_commit i)),
      (str ''profile_sha256'', PStr (ji_profile_sha256 i)), (str ''phase'', str ''prepared''),
      (str ''global_context_before'', PStr (ji_global_context_before i)),
      (str ''foreign_profiles_before'', PList (map (\<lambda>(n, s). PList [PStr n, PStr s]) (ji_foreign_profiles_before i))),
      (str ''expected_objects'', PList (map PStr (ji_expected_objects i))),
      (str ''lifecycle_mode'', str (mode_text (ji_lifecycle_mode i))),
      (str ''teardown_from_sequence'', PNone), (str ''profile_start_refused_sequence'', PNone),
      (str ''expected_inputs_sha256'', opt_value (ji_expected_inputs_sha256 i)),
      (str ''owned_identity'', PDict (identity_mapping (ji_owned_identity i))), (str ''events'', PList [])]"

subsection \<open>JSON budget and canonical bytes\<close>

definition MAX_JOURNAL_BYTES :: nat where "MAX_JOURNAL_BYTES = 1024 * 1024"
definition MAX_JSON_DEPTH :: nat where "MAX_JSON_DEPTH = 32"
definition MAX_JSON_ITEMS :: nat where "MAX_JSON_ITEMS = 100000"
definition MAX_STRING_BYTES :: nat where "MAX_STRING_BYTES = 64 * 1024"

definition string_budget :: "nat \<Rightarrow> pstr \<Rightarrow> nat res" where
  "string_budget depth s =
     (if depth > MAX_JSON_DEPTH then journal_error ''journal JSON nesting is too deep''
      else bind_r (try_r (utf8_encode s) (\<lambda>e. if e = UnicodeError
          then journal_error ''journal string contains invalid Unicode'' else Inl e)) (\<lambda>bs.
        if length bs > MAX_STRING_BYTES then journal_error ''journal string exceeds its bound'' else Inr 1))"

definition bounded_count :: "nat \<Rightarrow> nat res" where
  "bounded_count n = (if n > MAX_JSON_ITEMS then journal_error ''journal JSON contains too many items'' else Inr n)"

lemma map_r_cong [fundef_cong]:
  "xs = ys \<Longrightarrow> (\<And>x. x \<in> set ys \<Longrightarrow> f x = g x) \<Longrightarrow> map_r f xs = map_r g ys"
proof (induction xs arbitrary: ys)
  case (Cons x xs)
  then show ?case by (cases ys) (auto intro: bind_r_cong)
qed simp

function json_budget :: "nat \<Rightarrow> pyval \<Rightarrow> nat res" where
  "json_budget depth (PStr s) = string_budget depth s"
| "json_budget depth PNone = (if depth > MAX_JSON_DEPTH then journal_error ''journal JSON nesting is too deep'' else Inr 1)"
| "json_budget depth (PBool b) = (if depth > MAX_JSON_DEPTH then journal_error ''journal JSON nesting is too deep'' else Inr 1)"
| "json_budget depth (PInt i) = (if depth > MAX_JSON_DEPTH then journal_error ''journal JSON nesting is too deep'' else Inr 1)"
| "json_budget depth (PList vs) =
     (if depth > MAX_JSON_DEPTH then journal_error ''journal JSON nesting is too deep''
      else bind_r (map_r (json_budget (depth + 1)) vs) (\<lambda>ns. bounded_count (1 + sum_list ns)))"
| "json_budget depth (PDict d) =
     (if depth > MAX_JSON_DEPTH then journal_error ''journal JSON nesting is too deep''
      else bind_r (map_r (\<lambda>kv. case fst kv of
            PStr k \<Rightarrow> bind_r (string_budget (depth + 1) k) (\<lambda>n. bind_r (json_budget (depth + 1) (snd kv)) (\<lambda>m. Inr (n + m)))
          | _ \<Rightarrow> journal_error ''journal object keys must be strings'') d) (\<lambda>ns. bounded_count (1 + sum_list ns)))"
| "json_budget depth (PFloat s) = journal_error (if depth > MAX_JSON_DEPTH then ''journal JSON nesting is too deep'' else ''journal contains a non-JSON value'')"
| "json_budget depth (PBytes s) = journal_error (if depth > MAX_JSON_DEPTH then ''journal JSON nesting is too deep'' else ''journal contains a non-JSON value'')"
| "json_budget depth (PDec s) = journal_error (if depth > MAX_JSON_DEPTH then ''journal JSON nesting is too deep'' else ''journal contains a non-JSON value'')"
| "json_budget depth (PEnum c s) = journal_error (if depth > MAX_JSON_DEPTH then ''journal JSON nesting is too deep'' else ''journal contains a non-JSON value'')"
| "json_budget depth (PTuple s) = journal_error (if depth > MAX_JSON_DEPTH then ''journal JSON nesting is too deep'' else ''journal contains a non-JSON value'')"
| "json_budget depth (PRec c s) = journal_error (if depth > MAX_JSON_DEPTH then ''journal JSON nesting is too deep'' else ''journal contains a non-JSON value'')"
| "json_budget depth (PObj s) = journal_error (if depth > MAX_JSON_DEPTH then ''journal JSON nesting is too deep'' else ''journal contains a non-JSON value'')"
  by pat_completeness auto
termination json_budget
  by (relation "measure (\<lambda>(_, v). size v)") (auto dest: size_dict_value size_list_value)

text \<open>\<^verbatim>\<open>_canonical_bytes\<close>: whatever the serialization raises is the journal's own error.\<close>

definition serialization_error :: "pyexc \<Rightarrow> bool" where
  "serialization_error e \<longleftrightarrow> is_value_error e \<or> e = RecursionError \<or> (case e of TypeError _ \<Rightarrow> True | _ \<Rightarrow> False)"

definition canonical_bytes :: "pyval \<Rightarrow> bytes res" where
  "canonical_bytes v = try_r (bind_r (json_dumps v) (\<lambda>t. utf8_encode (t @ [10])))
     (\<lambda>e. if serialization_error e then journal_error ''canonical journal value is not closed UTF-8 JSON'' else Inl e)"

subsection \<open>The check of a journal\<close>

text \<open>\<^verbatim>\<open>len(events)\<close>, \<^verbatim>\<open>events[-1]["event"]\<close> and the sequence a latch holds.\<close>

definition py_len :: "pyval \<Rightarrow> int res" where
  "py_len v = (case v of
     PList vs \<Rightarrow> Inr (int (length vs)) | PDict d \<Rightarrow> Inr (int (length d)) | PStr s \<Rightarrow> Inr (int (length s))
   | _ \<Rightarrow> Inl (TypeError ''object has no len()''))"

definition event_field :: "pyval \<Rightarrow> string \<Rightarrow> pyval" where
  "event_field v k = item (dict_value v) k"

definition latch_of :: "pyval \<Rightarrow> pyval \<Rightarrow> int option res" where
  "latch_of events v = (case v of
     PNone \<Rightarrow> Inr None
   | PInt n \<Rightarrow>
       if n < 1 then journal_error ''teardown latch sequence is invalid''
       else bind_r (py_len events) (\<lambda>len. if n > len + 1 then journal_error ''teardown latch sequence is invalid'' else Inr (Some n))
   | _ \<Rightarrow> journal_error ''teardown latch sequence is invalid'')"

definition refusal_ok :: "pyval \<Rightarrow> pyval list \<Rightarrow> int option \<Rightarrow> bool" where
  "refusal_ok refused events latch \<longleftrightarrow> refused = PNone
     \<or> (refused = PInt 1 \<and> length events = 1 \<and> event_field (hd events) ''sequence'' = PInt 1
        \<and> event_field (hd events) ''event'' = str ''profile_start_intent'' \<and> latch \<noteq> None)"

definition expected_phase :: "pyval list \<Rightarrow> pyval" where
  "expected_phase events = (if events = [] then str ''prepared'' else event_field (last events) ''event'')"

definition validate_journal :: "pyval \<Rightarrow> unit res" where
  "validate_journal v = (case v of
     PDict d \<Rightarrow>
       if \<not> keys_exact d JOURNAL_FIELDS then journal_error ''journal fields are not closed''
       else bind_r (inputs_from_journal d) (\<lambda>inputs.
         if \<not> (case item d ''phase'' of PStr s \<Rightarrow> s \<noteq> [] | _ \<Rightarrow> False) then journal_error ''journal phase is invalid''
         else bind_r (latch_of (item d ''events'') (item d ''teardown_from_sequence'')) (\<lambda>latch.
           bind_r (validate_history (ji_lifecycle_mode inputs) latch (item d ''events'')) (\<lambda>_.
           let events = (case item d ''events'' of PList vs \<Rightarrow> vs | _ \<Rightarrow> []) in
           if \<not> refusal_ok (item d ''profile_start_refused_sequence'') events latch
           then journal_error ''profile start refusal must retain its exact pending intent and teardown latch''
           else if item d ''phase'' \<noteq> expected_phase events then journal_error ''journal phase does not match its event history''
           else Inr ())))
   | _ \<Rightarrow> journal_error ''journal fields are not closed'')"

end
