(* ===== verification/KilJournalFile.thy ===== *)
theory KilJournalFile
  imports KilJournal
begin

text \<open>
  \<^verbatim>\<open>src/kil/v3b2_journal.py\<close>, the journal as a file. Every system call's outcome is a field of an
  environment; the state is the content of the journal's name and whether a temporary file
  stayed behind. An operation returns its result and the state after it.
\<close>

subsection \<open>Places\<close>

record FileStat =
  fs_regular :: bool
  fs_link :: bool
  fs_directory :: bool
  fs_mode :: nat
  fs_owned :: bool
  fs_identity :: "nat \<times> nat"
  fs_size :: nat
  fs_links :: nat

definition MODE_600 :: nat where "MODE_600 = 384"
definition MODE_700 :: nat where "MODE_700 = 448"

record AncestryEnv =
  ae_resolve :: "pstr \<Rightarrow> pstr res"
  ae_stat :: "pstr \<Rightarrow> FileStat res"

record LocationEnv =
  le_exists :: "bool res"
  le_parent :: AncestryEnv
  le_mkdir :: "unit res"
  le_before :: AncestryEnv
  le_stat :: "FileStat res"
  le_after :: AncestryEnv

definition os_journal :: "string \<Rightarrow> 'a res \<Rightarrow> 'a res" where
  "os_journal msg m = try_r m (\<lambda>e. if is_os_error e then journal_error msg else Inl e)"

text \<open>\<^verbatim>\<open>finally\<close>: what the last block raises replaces what came before.\<close>

definition finally_r :: "'a res \<Rightarrow> unit res \<Rightarrow> 'a res" where
  "finally_r m cleanup = bind_r cleanup (\<lambda>_. m)"

definition ancestors :: "pstr \<Rightarrow> pstr list" where
  "ancestors s = map (\<lambda>k. path_of (path_root s) (take k (path_names s))) [1..<Suc (length (path_names s))]"

definition require_directory :: "AncestryEnv \<Rightarrow> pstr \<Rightarrow> unit res" where
  "require_directory env s =
     bind_r (os_journal ''journal directory ancestor is unavailable'' (ae_stat env s)) (\<lambda>inspected.
     if fs_link inspected then journal_error ''journal directory ancestry must not contain symlinks''
     else if \<not> fs_directory inspected then journal_error ''journal directory ancestry must contain only directories''
     else Inr ())"

definition directory_ancestry :: "AncestryEnv \<Rightarrow> pstr \<Rightarrow> pstr res" where
  "directory_ancestry env directory =
     bind_r (os_journal ''journal directory ancestry is unavailable'' (ae_resolve env directory)) (\<lambda>resolved.
     if directory \<noteq> resolved then journal_error ''journal directory ancestry must be a canonical path without symlinks''
     else bind_r (fold_r (\<lambda>_. require_directory env) () (ancestors directory)) (\<lambda>_. Inr resolved))"

definition parent_path :: "pstr \<Rightarrow> pstr" where
  "parent_path s = path_of (path_root s) (butlast (path_names s))"

definition create_parent :: "LocationEnv \<Rightarrow> pstr \<Rightarrow> unit res" where
  "create_parent env private_root =
     bind_r (le_exists env) (\<lambda>present.
     if present then Inr ()
     else bind_r (directory_ancestry (le_parent env) (parent_path private_root)) (\<lambda>_.
       os_journal ''cannot create private journal root'' (le_mkdir env)))"

definition private_location :: "LocationEnv \<Rightarrow> pstr \<Rightarrow> bool \<Rightarrow> (pstr \<times> pstr) res" where
  "private_location env path create =
     (let private_root = parent_path path in
      if \<not> path_absolute path \<or> dot_dot \<in> set (path_parts path) then journal_error ''journal path must be an absolute normalized path''
      else if length (path_names path) < 2 then journal_error ''journal must be a direct child of a private root''
      else bind_r (if create then create_parent env private_root else Inr ()) (\<lambda>_.
        bind_r (directory_ancestry (le_before env) private_root) (\<lambda>resolved.
        bind_r (os_journal ''private journal root is unavailable'' (le_stat env)) (\<lambda>inspected.
        if \<not> fs_directory inspected \<or> fs_link inspected then journal_error ''private journal root must be a non-symlink directory''
        else if fs_mode inspected \<noteq> MODE_700 then journal_error ''private journal root must have mode 0700''
        else if \<not> fs_owned inspected then journal_error ''private journal root must be owned by the current user''
        else if private_root \<noteq> resolved then journal_error ''journal path must be canonical and contained by its private root''
        else bind_r (directory_ancestry (le_after env) private_root) (\<lambda>_. Inr (path, resolved))))))"

text \<open>Opening, synchronizing and closing the directory.\<close>

definition fsync_parent :: "(nat \<Rightarrow> unit res) \<Rightarrow> unit res" where
  "fsync_parent call = bind_r (call 0) (\<lambda>_. finally_r (call 1) (call 2))"

subsection \<open>The state and reading\<close>

record JournalStore =
  js_journal :: "bytes option"
  js_stray :: bool

record ReadEnv =
  rd_location :: LocationEnv
  rd_stat :: "FileStat res"
  rd_open :: "unit res"
  rd_fstat :: "FileStat res"
  rd_reads :: "nat \<Rightarrow> nat res"
  rd_final :: "FileStat res"
  rd_close :: "unit res"

text \<open>
  The loop of bounded reads: a call gives at least one of the bytes left, none at the end only.
\<close>

function read_chunks :: "(nat \<Rightarrow> nat res) \<Rightarrow> nat \<Rightarrow> bytes \<Rightarrow> bytes \<Rightarrow> bytes res" where
  "read_chunks reads k rest payload =
     (if length payload > MAX_JOURNAL_BYTES then Inr payload
      else bind_r (reads k) (\<lambda>n.
        let chunk = take (max 1 (min n (min 65536 (MAX_JOURNAL_BYTES + 1 - length payload)))) rest in
        if chunk = [] then Inr payload else read_chunks reads (Suc k) (drop (length chunk) rest) (payload @ chunk)))"
  by pat_completeness auto
termination read_chunks
  by (relation "measure (\<lambda>(_, _, _, payload). Suc MAX_JOURNAL_BYTES - length payload)")
    (auto simp: diff_less_mono2 min_def)

declare read_chunks.simps [simp del]

definition read_open :: "ReadEnv \<Rightarrow> FileStat \<Rightarrow> bytes \<Rightarrow> bytes res" where
  "read_open env inspected content =
     bind_r (rd_fstat env) (\<lambda>current.
     if \<not> fs_regular current \<or> fs_identity current \<noteq> fs_identity inspected then journal_error ''journal identity changed while opening''
     else bind_r (read_chunks (rd_reads env) 0 content []) (\<lambda>payload.
       if length payload > MAX_JOURNAL_BYTES then journal_error ''journal exceeds its byte bound''
       else bind_r (rd_final env) (\<lambda>final.
         if (fs_identity final, fs_size final) \<noteq> (fs_identity current, fs_size current)
         then journal_error ''journal changed during its bounded read'' else Inr payload)))"

definition read_bounded :: "ReadEnv \<Rightarrow> pstr \<Rightarrow> JournalStore \<Rightarrow> bytes res" where
  "read_bounded env path store =
     bind_r (private_location (rd_location env) path False) (\<lambda>_.
     case js_journal store of
       None \<Rightarrow> journal_error ''cannot open journal safely''
     | Some content \<Rightarrow>
         bind_r (os_journal ''cannot open journal safely'' (bind_r (rd_stat env) (\<lambda>inspected.
           if fs_link inspected \<or> \<not> fs_regular inspected then journal_error ''journal must be a safe non-symlink regular file''
           else if fs_mode inspected \<noteq> MODE_600 then journal_error ''journal must have mode 0600''
           else if fs_size inspected > MAX_JOURNAL_BYTES then journal_error ''journal exceeds its byte bound''
           else bind_r (rd_open env) (\<lambda>_. Inr inspected)))) (\<lambda>inspected.
         finally_r (read_open env inspected content) (rd_close env)))"

definition journal_json :: "nat \<Rightarrow> bytes \<Rightarrow> pyval res" where
  "journal_json limit payload = bind_r (utf8_decode payload) (json_loads (closed_hook (JournalError ''duplicate JSON field'')) limit)"

definition parse_journal :: "nat \<Rightarrow> bytes \<Rightarrow> pyval res" where
  "parse_journal limit payload = try_r (journal_json limit payload) (\<lambda>e.
     if is_journal_error e then Inl e
     else if is_value_error e \<or> e = RecursionError then journal_error ''journal is not closed UTF-8 JSON'' else Inl e)"

definition load_journal :: "nat \<Rightarrow> ReadEnv \<Rightarrow> pstr \<Rightarrow> JournalStore \<Rightarrow> pydict res" where
  "load_journal limit env path store =
     bind_r (read_bounded env path store) (\<lambda>payload.
     bind_r (parse_journal limit payload) (\<lambda>v.
     case v of
       PDict d \<Rightarrow>
         bind_r (json_budget 0 v) (\<lambda>_.
         bind_r (canonical_bytes v) (\<lambda>bs.
         if payload \<noteq> bs then journal_error ''journal JSON is not canonical''
         else bind_r (validate_journal v) (\<lambda>_. Inr d)))
     | _ \<Rightarrow> journal_error ''journal must be a JSON object''))"

lemma take_drop_length: "take m xs @ drop (length (take m xs)) xs = xs"
  by (cases "m \<le> length xs") simp_all

lemma read_chunks_content:
  "read_chunks reads k rest payload = Inr bs \<Longrightarrow> length bs \<le> MAX_JOURNAL_BYTES \<Longrightarrow> bs = payload @ rest"
proof (induction reads k rest payload rule: read_chunks.induct)
  case (1 reads k rest payload)
  define chunk where "chunk n = take (max 1 (min n (min 65536 (MAX_JOURNAL_BYTES + 1 - length payload)))) rest" for n
  have split: "chunk n @ drop (length (chunk n)) rest = rest" for n
    unfolding chunk_def by (rule take_drop_length)
  show ?case
  proof (cases "length payload > MAX_JOURNAL_BYTES")
    case False
    then have "read_chunks reads k rest payload = bind_r (reads k) (\<lambda>n. if chunk n = [] then Inr payload
        else read_chunks reads (Suc k) (drop (length (chunk n)) rest) (payload @ chunk n))"
      unfolding chunk_def by (subst read_chunks.simps) (simp only: if_False Let_def)
    with "1.prems"(1) obtain n where n: "reads k = Inr n" and step: "(if chunk n = [] then Inr payload
        else read_chunks reads (Suc k) (drop (length (chunk n)) rest) (payload @ chunk n)) = Inr bs" by auto
    show ?thesis
    proof (cases "chunk n = []")
      case True
      moreover from this have "rest = []" by (auto simp: chunk_def)
      ultimately show ?thesis using step by simp
    next
      case nonempty: False
      with step have "bs = (payload @ chunk n) @ drop (length (chunk n)) rest"
        using "1.prems"(2) by (intro "1.IH" [OF False n chunk_def]) simp_all
      then show ?thesis using split [of n] by simp
    qed
  qed (use 1 in \<open>simp add: read_chunks.simps\<close>)
qed

lemma read_bounded_content: "read_bounded env path store = Inr bs \<Longrightarrow> js_journal store = Some bs"
  by (auto simp: read_bounded_def read_open_def finally_r_def Let_def bind_r_eq_Inr
      dest!: read_chunks_content split: option.splits if_splits)

text \<open>What a loaded journal is: the content is its canonical bytes, and it passed every check.\<close>

lemma parse_journal_Inr: "parse_journal limit bs = Inr v \<longleftrightarrow> journal_json limit bs = Inr v"
  by (auto simp: parse_journal_def try_r_def split: sum.splits)

lemma load_journal_facts:
  assumes "load_journal limit env path store = Inr d"
  obtains bs where "js_journal store = Some bs" "canonical_bytes (PDict d) = Inr bs"
    "validate_journal (PDict d) = Inr ()" "journal_json limit bs = Inr (PDict d)"
    "\<exists>n. json_budget 0 (PDict d) = Inr n"
proof -
  from assms obtain bs v where bs: "read_bounded env path store = Inr bs" and v: "journal_json limit bs = Inr v"
    and rest: "(case v of PDict d \<Rightarrow>
         bind_r (json_budget 0 v) (\<lambda>_.
         bind_r (canonical_bytes v) (\<lambda>cs.
         if bs \<noteq> cs then journal_error ''journal JSON is not canonical''
         else bind_r (validate_journal v) (\<lambda>_. Inr d)))
       | _ \<Rightarrow> journal_error ''journal must be a JSON object'') = Inr d"
    unfolding load_journal_def by (auto simp: bind_r_eq_Inr parse_journal_Inr simp del: json_budget.simps)
  from rest obtain e where "v = PDict e" by (cases v) simp_all
  with rest bs v that [of bs] show thesis
    by (auto simp: bind_r_eq_Inr dest!: read_bounded_content split: if_splits simp del: json_budget.simps)
qed

end
