(* ===== verification/KilJournalWrite.thy ===== *)
theory KilJournalWrite
  imports KilJournalFile
begin

text \<open>
  \<^verbatim>\<open>src/kil/v3b2_journal.py\<close>, the operations that change the journal: its creation, and the
  transactions under the append lock that replace it atomically. Each returns its result and the
  state after it, whatever the system calls of its environment do.
\<close>

subsection \<open>The append lock\<close>

record LockEnv =
  lk_location :: LocationEnv
  lk_create :: "unit res"
  lk_chmod :: "unit res"
  lk_sync :: "unit res"
  lk_parent :: "nat \<Rightarrow> unit res"
  lk_open :: "unit res"
  lk_fstat :: "FileStat res"
  lk_stat :: "FileStat res"
  lk_flock :: "unit res"
  lk_after :: "FileStat res"
  lk_unlock :: "unit res"
  lk_close :: "unit res"

definition file_exists :: "pyexc \<Rightarrow> bool" where
  "file_exists e = (case e of OSError c _ \<Rightarrow> c = ''FileExistsError'' | _ \<Rightarrow> False)"

definition lock_entered :: "LockEnv \<Rightarrow> unit res" where
  "lock_entered env = try_r
     (bind_r (lk_create env) (\<lambda>_. bind_r (lk_chmod env) (\<lambda>_. bind_r (lk_sync env) (\<lambda>_. fsync_parent (lk_parent env)))))
     (\<lambda>e. if file_exists e then lk_open env else Inl e)"

definition lock_inode :: "LockEnv \<Rightarrow> FileStat res" where
  "lock_inode env =
     bind_r (lk_fstat env) (\<lambda>current.
     bind_r (lk_stat env) (\<lambda>named.
     if \<not> fs_regular current \<or> fs_link named \<or> fs_identity current \<noteq> fs_identity named
       \<or> fs_links current \<noteq> 1 \<or> fs_mode current \<noteq> MODE_600 \<or> \<not> fs_owned current
     then journal_error ''journal lock must be an owned 0600 single-link regular file''
     else bind_r (lk_flock env) (\<lambda>_. Inr current)))"

definition lock_kept :: "LockEnv \<Rightarrow> FileStat \<Rightarrow> unit res" where
  "lock_kept env current =
     bind_r (lk_after env) (\<lambda>after.
     if fs_link after \<or> fs_identity after \<noteq> fs_identity current
     then journal_error ''journal lock identity changed during acquisition'' else Inr ())"

definition lock_release :: "LockEnv \<Rightarrow> bool \<Rightarrow> unit res" where
  "lock_release env locked =
     (let msg = ''cannot release journal lock safely'' in
      case (if locked then lk_unlock env else Inr ()) of
        Inl e \<Rightarrow> if is_os_error e
          then bind_r (os_journal msg (lk_close env)) (\<lambda>_. journal_error msg) else Inl e
      | Inr _ \<Rightarrow> os_journal msg (lk_close env))"

definition with_lock :: "LockEnv \<Rightarrow> pstr \<Rightarrow> (JournalStore \<Rightarrow> 'a res \<times> JournalStore) \<Rightarrow> JournalStore \<Rightarrow> 'a res \<times> JournalStore" where
  "with_lock env path body store =
     (case private_location (lk_location env) path False of
        Inl e \<Rightarrow> (Inl e, store)
      | Inr _ \<Rightarrow>
          let held = bind_r (lock_entered env) (\<lambda>_. lock_inode env);
              created = is_ok (lk_create env);
              (result, store') = (case bind_r held (lock_kept env) of
                  Inl e \<Rightarrow> (Inl e, store) | Inr _ \<Rightarrow> body store);
              result' = os_journal ((if created then ''cannot create'' else ''cannot acquire'') @ '' journal lock safely'') result;
              released = (if created \<or> is_ok (lock_entered env) then lock_release env (is_ok held) else Inr ()) in
          (finally_r result' released, store'))"

subsection \<open>Replacing the journal\<close>

record ReplaceEnv =
  rp_location :: LocationEnv
  rp_read :: ReadEnv
  rp_temporary :: "unit res"
  rp_chmod :: "unit res"
  rp_write :: "unit res"
  rp_sync :: "unit res"
  rp_rename :: "unit res"
  rp_parent :: "nat \<Rightarrow> unit res"
  rp_close :: "unit res"
  rp_unlink :: "unit res"

text \<open>What a replacement may not change, and the bytes it writes.\<close>

definition replacement_bytes :: "pydict \<Rightarrow> pydict \<Rightarrow> bytes res" where
  "replacement_bytes prior d =
     (if item d ''expected_inputs_sha256'' \<noteq> item prior ''expected_inputs_sha256''
      then journal_error ''immutable expected inputs commitment cannot change''
      else if item prior ''teardown_from_sequence'' \<noteq> PNone \<and> item d ''teardown_from_sequence'' \<noteq> item prior ''teardown_from_sequence''
      then journal_error ''permanent teardown latch cannot be cleared or moved''
      else if item prior ''profile_start_refused_sequence'' \<noteq> PNone
        \<and> item d ''profile_start_refused_sequence'' \<noteq> item prior ''profile_start_refused_sequence''
      then journal_error ''permanent profile start refusal cannot be cleared or moved''
      else bind_r (canonical_bytes (PDict d)) (\<lambda>payload.
        if length payload > MAX_JOURNAL_BYTES then journal_error ''updated journal exceeds its byte bound'' else Inr payload))"

text \<open>
  The temporary file is closed and, unless it took the journal's name, removed; an error of the
  cleanup replaces the one before it.
\<close>

definition install :: "ReplaceEnv \<Rightarrow> bytes \<Rightarrow> JournalStore \<Rightarrow> unit res \<times> JournalStore" where
  "install env payload store =
     (let renamed = bind_r (rp_temporary env) (\<lambda>_. bind_r (rp_chmod env) (\<lambda>_. bind_r (rp_write env) (\<lambda>_.
            bind_r (rp_sync env) (\<lambda>_. rp_rename env))));
          result = bind_r renamed (\<lambda>_. fsync_parent (rp_parent env));
          store' = (if is_ok renamed then store\<lparr>js_journal := Some payload\<rparr> else store) in
      if \<not> is_ok (rp_temporary env) then (result, store')
      else let removed = bind_r (rp_close env) (\<lambda>_. if is_ok renamed then Inr () else rp_unlink env) in
        (finally_r result removed,
         if is_ok renamed \<or> is_ok removed then store' else store'\<lparr>js_stray := True\<rparr>))"

definition replace_journal :: "nat \<Rightarrow> ReplaceEnv \<Rightarrow> pstr \<Rightarrow> pydict \<Rightarrow> JournalStore \<Rightarrow> unit res \<times> JournalStore" where
  "replace_journal limit env path d store =
     (case bind_r (private_location (rp_location env) path False) (\<lambda>_.
         bind_r (load_journal limit (rp_read env) path store) (\<lambda>prior. replacement_bytes prior d)) of
        Inl e \<Rightarrow> (Inl e, store)
      | Inr payload \<Rightarrow> install env payload store)"

subsection \<open>Transactions\<close>

text \<open>
  Every operation loads the journal under the lock and plans a candidate from it, or returns what
  it loaded; a validated candidate replaces the journal.
\<close>

record TransactionEnv =
  tx_lock :: LockEnv
  tx_read :: ReadEnv
  tx_replace :: ReplaceEnv

type_synonym plan = "pydict \<Rightarrow> pydict option res"

definition validated :: "pydict \<Rightarrow> pydict option res" where
  "validated d = bind_r (validate_journal (PDict d)) (\<lambda>_. Inr (Some d))"

definition transact :: "nat \<Rightarrow> TransactionEnv \<Rightarrow> pstr \<Rightarrow> plan \<Rightarrow> JournalStore \<Rightarrow> pydict res \<times> JournalStore" where
  "transact limit env path plan = with_lock (tx_lock env) path (\<lambda>store.
     case load_journal limit (tx_read env) path store of
       Inl e \<Rightarrow> (Inl e, store)
     | Inr d \<Rightarrow> (case plan d of
           Inl e \<Rightarrow> (Inl e, store)
         | Inr None \<Rightarrow> (Inr d, store)
         | Inr (Some candidate) \<Rightarrow>
             (case replace_journal limit (tx_replace env) path candidate store of
                (result, store') \<Rightarrow> (bind_r result (\<lambda>_. Inr candidate), store'))))"

definition set_item :: "string \<Rightarrow> pyval \<Rightarrow> pydict \<Rightarrow> pydict" where
  "set_item k v d = dict_put d (str k) v"

definition journal_events :: "pydict \<Rightarrow> pyval list" where
  "journal_events d = (case item d ''events'' of PList vs \<Rightarrow> vs | _ \<Rightarrow> [])"

definition next_sequence :: "pydict \<Rightarrow> pyval" where
  "next_sequence d = PInt (int (length (journal_events d)) + 1)"

definition append_plan :: "pstr \<Rightarrow> pydict \<Rightarrow> plan" where
  "append_plan event details d =
     bind_r (event_family event) (\<lambda>(family, stage).
     if item d ''expected_inputs_sha256'' \<noteq> PNone \<and> family \<noteq> Request \<and> stage \<noteq> Intent
     then journal_error ''non-request terminal requires the observed proof writer''
     else let entry = PDict [(str ''sequence'', next_sequence d), (str ''event'', PStr event), (str ''details'', PDict details)];
              candidate = set_item ''events'' (PList (journal_events d @ [entry])) (set_item ''phase'' (PStr event) d) in
       bind_r (json_budget 0 (PDict candidate)) (\<lambda>_. validated candidate))"

definition append_event :: "nat \<Rightarrow> TransactionEnv \<Rightarrow> pstr \<Rightarrow> pyval \<Rightarrow> pyval \<Rightarrow> JournalStore \<Rightarrow> pydict res \<times> JournalStore" where
  "append_event limit env path event details store = (case event of
     PStr name \<Rightarrow> (case details of
         PDict ds \<Rightarrow> transact limit env path (append_plan name ds) store
       | _ \<Rightarrow> (journal_error ''event details must be an exact dict'', store))
   | _ \<Rightarrow> (journal_error ''event name must be an exact string'', store))"

definition latch_plan :: plan where
  "latch_plan d =
     (if item d ''teardown_from_sequence'' \<noteq> PNone then Inr None
      else validated (set_item ''teardown_from_sequence'' (next_sequence d) d))"

definition latch_teardown :: "nat \<Rightarrow> TransactionEnv \<Rightarrow> pstr \<Rightarrow> JournalStore \<Rightarrow> pydict res \<times> JournalStore" where
  "latch_teardown limit env path = transact limit env path latch_plan"

text \<open>\<^verbatim>\<open>a or b\<close>: a latch is no false value, it is at least 1.\<close>

definition refusal_plan :: plan where
  "refusal_plan d =
     (if item d ''profile_start_refused_sequence'' \<noteq> PNone then Inr None
      else if length (journal_events d) \<noteq> 1 \<or> event_field (hd (journal_events d)) ''event'' \<noteq> str ''profile_start_intent''
      then journal_error ''profile start refusal requires the exact pending start intent''
      else let latch = item d ''teardown_from_sequence'' in
        validated (set_item ''teardown_from_sequence'' (if latch \<noteq> PNone then latch else next_sequence d)
          (set_item ''profile_start_refused_sequence'' (event_field (hd (journal_events d)) ''sequence'') d)))"

definition latch_profile_start_refusal :: "nat \<Rightarrow> TransactionEnv \<Rightarrow> pstr \<Rightarrow> JournalStore \<Rightarrow> pydict res \<times> JournalStore" where
  "latch_profile_start_refusal limit env path = transact limit env path refusal_plan"

definition mode_plan :: "pyval \<Rightarrow> plan" where
  "mode_plan mode d =
     (if journal_events d \<noteq> []
      then if item d ''lifecycle_mode'' \<noteq> mode then journal_error ''lifecycle mode cannot change after events'' else Inr None
      else validated (set_item ''lifecycle_mode'' mode d))"

definition select_lifecycle_mode :: "nat \<Rightarrow> TransactionEnv \<Rightarrow> pstr \<Rightarrow> pyval \<Rightarrow> JournalStore \<Rightarrow> pydict res \<times> JournalStore" where
  "select_lifecycle_mode limit env path mode store =
     (if mode \<in> {str ''nominal'', str ''request-free''} then transact limit env path (mode_plan mode) store
      else (journal_error ''journal lifecycle mode is not reviewed'', store))"

subsection \<open>Creation\<close>

record CreateEnv =
  cr_location :: LocationEnv
  cr_open :: "unit res"
  cr_chmod :: "unit res"
  cr_write :: "unit res"
  cr_partial :: nat
  cr_sync :: "unit res"
  cr_unlink :: "unit res"
  cr_close :: "unit res"
  cr_parent :: "nat \<Rightarrow> unit res"

text \<open>
  An exclusive creation: a name that is taken is left alone. After a failed write the file is
  removed, with the part of the payload it holds; it stays if that fails too, and that error is
  the one raised.
\<close>

definition create_content :: "CreateEnv \<Rightarrow> bytes \<Rightarrow> unit res \<times> bytes option" where
  "create_content env payload =
     (let written = bind_r (cr_chmod env) (\<lambda>_. bind_r (cr_write env) (\<lambda>_. cr_sync env));
          content = (if \<not> is_ok (cr_chmod env) then [] else if \<not> is_ok (cr_write env) then take (cr_partial env) payload else payload);
          result = (if is_ok written then written else bind_r (cr_unlink env) (\<lambda>_. written)) in
      (finally_r result (cr_close env), if is_ok written \<or> \<not> is_ok (cr_unlink env) then Some content else None))"

definition create_journal :: "CreateEnv \<Rightarrow> pstr \<Rightarrow> JournalInputs \<Rightarrow> JournalStore \<Rightarrow> pydict res \<times> JournalStore" where
  "create_journal env path inputs store =
     (let d = inputs_mapping inputs in
      case bind_r (validate_journal (PDict d)) (\<lambda>_.
          bind_r (canonical_bytes (PDict d)) (\<lambda>payload.
          if length payload > MAX_JOURNAL_BYTES then journal_error ''new journal exceeds its byte bound''
          else bind_r (private_location (cr_location env) path True) (\<lambda>_. Inr payload))) of
        Inl e \<Rightarrow> (Inl e, store)
      | Inr payload \<Rightarrow>
          (case (if js_journal store \<noteq> None then Inl (OSError ''FileExistsError'' (Some 17)) else cr_open env) of
             Inl e \<Rightarrow> (if file_exists e then journal_error ''journal already exists; explicit recovery required''
                else os_journal ''cannot create journal safely'' (Inl e), store)
           | Inr _ \<Rightarrow>
               (case create_content env payload of (written, content) \<Rightarrow>
                 (bind_r written (\<lambda>_. bind_r (fsync_parent (cr_parent env)) (\<lambda>_. Inr d)), store\<lparr>js_journal := content\<rparr>))))"

end
