(* ===== verification/KilJournalLog.thy ===== *)
theory KilJournalLog
  imports KilJournalWrite KilCanonical "HOL-Library.Sublist"
begin

text \<open>
  What the operations of the journal promise: each leaves the file as it was or installs the
  canonical bytes of a valid journal whole, and over any sequence of them, whatever fails, the
  journal only grows.
\<close>

subsection \<open>Growth\<close>

text \<open>The fields no operation changes, and what the others may do.\<close>

definition FIXED_FIELDS :: "string list" where
  "FIXED_FIELDS = filter (\<lambda>k. k \<notin> {''phase'', ''events'', ''lifecycle_mode'', ''teardown_from_sequence'',
     ''profile_start_refused_sequence''}) JOURNAL_FIELDS"

definition keeps :: "string \<Rightarrow> pydict \<Rightarrow> pydict \<Rightarrow> bool" where
  "keeps k d c \<longleftrightarrow> item d k \<noteq> PNone \<longrightarrow> item c k = item d k"

definition grows :: "pydict \<Rightarrow> pydict \<Rightarrow> bool" where
  "grows d c \<longleftrightarrow>
     prefix (journal_events d) (journal_events c)
     \<and> list_all (\<lambda>k. item c k = item d k) FIXED_FIELDS
     \<and> keeps ''teardown_from_sequence'' d c
     \<and> keeps ''profile_start_refused_sequence'' d c
     \<and> (journal_events d \<noteq> [] \<longrightarrow> item c ''lifecycle_mode'' = item d ''lifecycle_mode'')"

lemma grows_refl: "grows d d"
  by (simp add: grows_def keeps_def list_all_iff)

lemma grows_trans: "grows d c \<Longrightarrow> grows c b \<Longrightarrow> grows d b"
  unfolding grows_def keeps_def list_all_iff
  by (intro conjI impI ballI; elim conjE; (rule prefix_order.trans; assumption)?; force simp: prefix_def)

lemma item_set_item: "item (set_item k v d) k' = (if k = k' then v else item d k')"
  by (simp add: item_def set_item_def dict_get_put)

lemma journal_events_set_item:
  "journal_events (set_item k v d) = (if k = ''events'' then (case v of PList vs \<Rightarrow> vs | _ \<Rightarrow> []) else journal_events d)"
  by (simp add: journal_events_def item_set_item)

subsection \<open>Bytes\<close>

text \<open>A value within the budget, of distinct keys and printable integers is one the round trip covers.\<close>

lemma string_budget_depth: "string_budget k s = Inr n \<Longrightarrow> k \<le> MAX_JSON_DEPTH"
  by (simp add: string_budget_def split: if_splits)

lemma map_r_memberE:
  assumes "map_r f xs = Inr ys" "x \<in> set xs"
  obtains y where "f x = Inr y"
  using assms by (induction xs arbitrary: ys) (auto simp: bind_r_eq_Inr)

lemma budget_good:
  "json_budget k v = Inr n \<Longrightarrow> wf_value v \<Longrightarrow> ints_ok v \<Longrightarrow> good (Suc MAX_JSON_DEPTH - k) v"
proof (induction k v arbitrary: n rule: json_budget.induct)
  case (5 k vs)
  then have k: "\<not> MAX_JSON_DEPTH < k" by (auto split: if_splits)
  then have S: "Suc MAX_JSON_DEPTH - k = Suc (Suc MAX_JSON_DEPTH - (k + 1))" by simp
  from 5 k obtain ns where ns: "map_r (json_budget (k + 1)) vs = Inr ns" by (auto simp: bind_r_eq_Inr)
  show ?case unfolding S good_list
  proof
    fix v assume v: "v \<in> set vs"
    with ns obtain m where "json_budget (k + 1) v = Inr m" by (rule map_r_memberE)
    with 5(1) [OF k v this] 5(3,4) v show "good (Suc MAX_JSON_DEPTH - (k + 1)) v" by (simp add: list_all_iff)
  qed
next
  case (6 k d)
  then have k: "\<not> MAX_JSON_DEPTH < k" by (auto split: if_splits)
  then have S: "Suc MAX_JSON_DEPTH - k = Suc (Suc MAX_JSON_DEPTH - (k + 1))" by simp
  from 6 k obtain ns where ns: "map_r (\<lambda>kv. case fst kv of
            PStr t \<Rightarrow> bind_r (string_budget (k + 1) t) (\<lambda>n. bind_r (json_budget (k + 1) (snd kv)) (\<lambda>m. Inr (n + m)))
          | _ \<Rightarrow> journal_error ''journal object keys must be strings'') d = Inr ns" by (auto simp: bind_r_eq_Inr)
  have "is_str (fst kv) \<and> good (Suc MAX_JSON_DEPTH - (k + 1)) (snd kv)" if kv: "kv \<in> set d" for kv
  proof -
    from map_r_memberE [OF ns kv] obtain y where "(case fst kv of
            PStr t \<Rightarrow> bind_r (string_budget (k + 1) t) (\<lambda>n. bind_r (json_budget (k + 1) (snd kv)) (\<lambda>m. Inr (n + m)))
          | _ \<Rightarrow> journal_error ''journal object keys must be strings'') = Inr y" .
    then obtain t a b where t: "fst kv = PStr t" "string_budget (k + 1) t = Inr a" "json_budget (k + 1) (snd kv) = Inr b"
      by (cases "fst kv") (auto simp: bind_r_eq_Inr)
    from 6(1) [OF k kv t] 6(3,4) kv t(1) show ?thesis by (simp add: list_all_iff)
  qed
  with 6(3) show ?case unfolding S good_dict by simp
qed (auto split: if_splits)

lemma canonical_bytes_ints: "canonical_bytes v = Inr bs \<Longrightarrow> ints_ok v"
  by (auto simp: canonical_bytes_def try_r_def json_dumps_def split: sum.splits if_splits)

lemma canonical_sorted: "canonical v \<Longrightarrow> sorted_form v = v"
proof (induction v rule: sorted_form.induct)
  case (1 kvs)
  then have "sort_items kvs = kvs" by (simp add: sort_items_sorted)
  moreover have "map (\<lambda>kv. (fst kv, sorted_form (snd kv))) kvs = kvs"
    by (rule map_idI) (use 1 in \<open>auto simp: list_all_iff sort_items_def\<close>)
  ultimately show ?case by simp
next
  case (2 vs)
  then show ?case by (auto simp: list_all_iff intro: map_idI)
qed simp_all

lemma canonical_ints: "canonical v \<Longrightarrow> ints_ok v"
  by (induction v rule: canonical.induct) (auto simp: list_all_iff)

lemma canonical_wf: "canonical v \<Longrightarrow> wf_value v"
  by (induction v rule: canonical.induct) (auto simp: list_all_iff)

text \<open>The journal as it is read back.\<close>

definition journal_view :: "pydict \<Rightarrow> pydict" where
  "journal_view c = dict_value (sorted_form (PDict c))"

lemma sorted_form_view: "sorted_form (PDict c) = PDict (journal_view c)"
  by (simp add: journal_view_def dict_value_def)

lemma written_reads_back:
  assumes "good k (PDict c)" "k \<le> limit" "canonical_bytes (PDict c) = Inr bs"
  shows "journal_json limit bs = Inr (PDict (journal_view c))"
proof -
  from assms(3) have enc: "utf8_encode (dump_text (PDict c) @ [10]) = Inr bs"
    by (auto simp: canonical_bytes_def try_r_def json_dumps_def split: sum.splits if_splits)
  have "json_loads (closed_hook (JournalError ''duplicate JSON field'')) limit (dump_text (sorted_form (PDict c)) @ [10])
      = Inr (sorted_form (PDict c))"
    by (rule json_round_trip [OF closed_hook_faithful])
      (use assms in \<open>auto simp: good_def skip_ws_def json_ws_def follow_ok_def scan_fraction_def scan_exponent_def is_digit_def\<close>)
  then have "json_loads (closed_hook (JournalError ''duplicate JSON field'')) limit (dump_text (PDict c) @ [10])
      = Inr (PDict (journal_view c))"
    by (simp only: dump_sorted_form sorted_form_view [symmetric])
  then show ?thesis by (simp only: journal_json_def utf8_round_trip [OF enc] bind_r_Inr)
qed

lemma item_view:
  assumes "distinct (map fst c)"
  shows "item (journal_view c) k = sorted_form (item c k)"
proof -
  have "map_of (sort_items c) = map_of c"
    using assms by (intro map_of_inject_set [THEN iffD2]) (simp_all add: set_sort_items)
  moreover have "map_of (map (\<lambda>kv. (fst kv, sorted_form (snd kv))) d) x = map_option sorted_form (map_of d x)" for d :: pydict and x
    by (induction d) auto
  ultimately show ?thesis
    by (simp add: journal_view_def dict_value_def item_def dict_get_def split: option.splits)
qed

lemma canonical_item: "canonical (PDict d) \<Longrightarrow> canonical (item d k)"
  by (auto simp: item_def dict_get_def list_all_iff dest!: map_of_SomeD split: option.splits)

lemma journal_events_view:
  "distinct (map fst c) \<Longrightarrow> journal_events (journal_view c) = map sorted_form (journal_events c)"
  by (cases "item c ''events''") (simp_all add: journal_events_def item_view)

lemma grows_view:
  assumes "grows d c" "canonical (PDict d)" "distinct (map fst c)"
  shows "grows d (journal_view c)"
proof -
  have same: "sorted_form (item d k) = item d k" for k
    using assms(2) by (intro canonical_sorted canonical_item)
  have "canonical (item d ''events'')" using assms(2) by (rule canonical_item)
  then have "map sorted_form (journal_events d) = journal_events d"
    by (cases "item d ''events''") (auto simp: journal_events_def list_all_iff canonical_sorted intro: map_idI)
  moreover have "prefix (map sorted_form (journal_events d)) (map sorted_form (journal_events c))"
    using assms(1) by (simp add: grows_def map_mono_prefix)
  moreover have "item (journal_view c) k = item d k" if "item c k = item d k" for k
    using that by (simp add: item_view [OF assms(3)] same)
  ultimately show ?thesis
    using assms(1) unfolding grows_def keeps_def
    by (auto simp: journal_events_view [OF assms(3)] list_all_iff)
qed

subsection \<open>A transaction\<close>

lemma with_lock_cases:
  assumes "with_lock env path body s = (r, t)"
  shows "(t = s \<and> \<not> is_ok r) \<or> (\<exists>r'. body s = (r', t) \<and> (\<forall>x. r = Inr x \<longrightarrow> r' = Inr x))"
  using assms unfolding with_lock_def os_journal_def finally_r_def try_r_def
  by (auto simp: Let_def bind_r_eq_Inr is_ok_iff split: sum.splits prod.splits if_splits)

lemma install_cases:
  assumes "install env payload s = (r, t)"
  shows "js_journal t \<in> {js_journal s, Some payload}" "r = Inr () \<Longrightarrow> js_journal t = Some payload \<and> js_stray t = js_stray s"
  using assms unfolding install_def finally_r_def
  by (auto simp: Let_def bind_r_eq_Inr is_ok_iff split: if_splits)

lemma replace_cases:
  assumes "replace_journal limit env path c s = (r, t)"
  shows "js_journal t = js_journal s \<and> \<not> is_ok r
    \<or> (\<exists>bs. canonical_bytes (PDict c) = Inr bs \<and> length bs \<le> MAX_JOURNAL_BYTES \<and> js_journal t \<in> {js_journal s, Some bs}
         \<and> (is_ok r \<longrightarrow> js_journal t = Some bs \<and> js_stray t = js_stray s))"
proof (cases "bind_r (private_location (rp_location env) path False) (\<lambda>_.
         bind_r (load_journal limit (rp_read env) path s) (\<lambda>prior. replacement_bytes prior c))")
  case (Inl e)
  with assms show ?thesis by (auto simp: replace_journal_def)
next
  case (Inr payload)
  then have "canonical_bytes (PDict c) = Inr payload" "length payload \<le> MAX_JOURNAL_BYTES"
    by (auto simp: replacement_bytes_def bind_r_eq_Inr split: if_splits)
  moreover have "install env payload s = (r, t)" using assms Inr by (simp add: replace_journal_def)
  ultimately show ?thesis using install_cases [of env payload s r t] by (auto simp: is_ok_iff)
qed

text \<open>The file holds the bytes of a valid journal that can be read back.\<close>

definition holds :: "nat \<Rightarrow> JournalStore \<Rightarrow> pydict \<Rightarrow> bool" where
  "holds limit s c \<longleftrightarrow> Suc MAX_JSON_DEPTH \<le> limit \<and> good (Suc MAX_JSON_DEPTH) (PDict c)
     \<and> validate_journal (PDict c) = Inr () \<and> (\<exists>bs. js_journal s = Some bs \<and> canonical_bytes (PDict c) = Inr bs)"

lemma holds_load:
  assumes "holds limit s c" "load_journal limit env path s = Inr d"
  shows "d = journal_view c" "canonical (PDict d)" "good (Suc MAX_JSON_DEPTH) (PDict d)" "validate_journal (PDict d) = Inr ()"
proof -
  obtain bs where "journal_json limit bs = Inr (PDict d)" "js_journal s = Some bs"
    and valid: "validate_journal (PDict d) = Inr ()"
    by (rule load_journal_facts [OF assms(2)])
  moreover from assms(1) this(2) have "journal_json limit bs = Inr (PDict (journal_view c))"
    by (intro written_reads_back) (auto simp: holds_def)
  ultimately show d: "d = journal_view c" by simp
  have "canonical (sorted_form (PDict c))" "nesting (sorted_form (PDict c)) \<le> Suc MAX_JSON_DEPTH"
    using assms(1) by (simp_all only: holds_def good_def)
  then have v: "canonical (PDict d)" "nesting (PDict d) \<le> Suc MAX_JSON_DEPTH"
    by (simp_all only: sorted_form_view d)
  show "canonical (PDict d)" by (rule v(1))
  show "good (Suc MAX_JSON_DEPTH) (PDict d)"
    using v canonical_sorted [OF v(1)] canonical_json_ok [OF v(1)] by (simp only: good_def)
  show "validate_journal (PDict d) = Inr ()" by (rule valid)
qed

text \<open>
  The contract of a planned transaction: a candidate is valid, grows the journal it was planned
  from, and can be read back. The client is the transaction, which then keeps the same promises
  for the file.
\<close>

locale journal_plan =
  fixes plan :: "'a \<Rightarrow> plan"
    and fits :: "'a \<Rightarrow> bool"
  assumes plan_valid: "plan a d = Inr (Some c) \<Longrightarrow> validate_journal (PDict c) = Inr ()"
    and plan_grows: "validate_journal (PDict d) = Inr () \<Longrightarrow> plan a d = Inr (Some c) \<Longrightarrow> grows d c"
    and plan_good: "fits a \<Longrightarrow> good (Suc MAX_JSON_DEPTH) (PDict d) \<Longrightarrow> canonical (PDict d) \<Longrightarrow> plan a d = Inr (Some c)
      \<Longrightarrow> ints_ok (PDict c) \<Longrightarrow> good (Suc MAX_JSON_DEPTH) (PDict c)"
begin

lemma transact_cases:
  assumes "transact limit env path (plan a) s = (r, t)"
  shows "js_journal t = js_journal s \<and> (is_ok r \<longrightarrow> js_stray t = js_stray s)
      \<and> (\<forall>d. r = Inr d \<longrightarrow> (\<exists>bs. js_journal s = Some bs \<and> canonical_bytes (PDict d) = Inr bs \<and> validate_journal (PDict d) = Inr ()))
    \<or> (\<exists>d c bs. load_journal limit (tx_read env) path s = Inr d \<and> plan a d = Inr (Some c)
         \<and> canonical_bytes (PDict c) = Inr bs \<and> length bs \<le> MAX_JOURNAL_BYTES \<and> js_journal t = Some bs
         \<and> (\<forall>x. r = Inr x \<longrightarrow> x = c \<and> js_stray t = js_stray s))"
  using with_lock_cases [OF assms [unfolded transact_def]]
proof (elim disjE exE conjE)
  assume "t = s" "\<not> is_ok r"
  then show ?thesis by (auto simp: is_ok_iff)
next
  fix r' assume body: "(case load_journal limit (tx_read env) path s of
       Inl e \<Rightarrow> (Inl e, s)
     | Inr d \<Rightarrow> (case plan a d of
           Inl e \<Rightarrow> (Inl e, s)
         | Inr None \<Rightarrow> (Inr d, s)
         | Inr (Some candidate) \<Rightarrow>
             (case replace_journal limit (tx_replace env) path candidate s of
                (result, store') \<Rightarrow> (bind_r result (\<lambda>_. Inr candidate), store')))) = (r', t)"
    and r: "\<forall>x. r = Inr x \<longrightarrow> r' = Inr x"
  show ?thesis
  proof (cases "load_journal limit (tx_read env) path s")
    case (Inl e)
    with body r show ?thesis by auto
  next
    case load: (Inr d)
    show ?thesis
    proof (cases "plan a d")
      case (Inl e)
      with body r load show ?thesis by auto
    next
      case planned: (Inr x)
      show ?thesis
      proof (cases x)
        case None
        with body planned load have "r' = Inr d" "t = s" by auto
        with r load_journal_facts [OF load] show ?thesis by (metis Inr_inject)
      next
        case (Some c)
        obtain q v where q: "replace_journal limit (tx_replace env) path c s = (q, v)" by fastforce
        with body planned load Some have "r' = bind_r q (\<lambda>_. Inr c)" "v = t" by auto
        with replace_cases [OF q] r load planned Some show ?thesis by (auto simp: bind_r_eq_Inr is_ok_iff)
      qed
    qed
  qed
qed

lemma transact_content:
  assumes "transact limit env path (plan a) s = (r, t)"
  shows "(js_journal t = js_journal s \<or> (\<exists>c bs. js_journal t = Some bs \<and> length bs \<le> MAX_JOURNAL_BYTES
       \<and> canonical_bytes (PDict c) = Inr bs \<and> validate_journal (PDict c) = Inr ()))
     \<and> (\<forall>d. r = Inr d \<longrightarrow> js_stray t = js_stray s \<and> validate_journal (PDict d) = Inr ()
       \<and> (\<exists>bs. js_journal t = Some bs \<and> canonical_bytes (PDict d) = Inr bs))"
  using transact_cases [OF assms]
proof (elim disjE exE conjE)
  fix d c bs
  assume "plan a d = Inr (Some c)" "canonical_bytes (PDict c) = Inr bs" "length bs \<le> MAX_JOURNAL_BYTES" "js_journal t = Some bs"
    "\<forall>x. r = Inr x \<longrightarrow> x = c \<and> js_stray t = js_stray s"
  with plan_valid show ?thesis by blast
qed (auto simp: is_ok_iff)

lemma transact_grows:
  assumes "transact limit env path (plan a) s = (r, t)" "fits a" "holds limit s c"
  shows "\<exists>c'. holds limit t c' \<and> grows (journal_view c) (journal_view c')"
  using transact_cases [OF assms(1)]
proof (elim disjE exE conjE)
  assume "js_journal t = js_journal s"
  with assms(3) show ?thesis by (intro exI [of _ c]) (simp add: holds_def grows_refl)
next
  fix d c' bs
  assume load: "load_journal limit (tx_read env) path s = Inr d" and p: "plan a d = Inr (Some c')"
    and bs: "canonical_bytes (PDict c') = Inr bs" "js_journal t = Some bs"
  from holds_load [OF assms(3) load] have d: "d = journal_view c" "canonical (PDict d)"
      "good (Suc MAX_JSON_DEPTH) (PDict d)" and valid: "validate_journal (PDict d) = Inr ()" by auto
  have good: "good (Suc MAX_JSON_DEPTH) (PDict c')"
    by (rule plan_good [OF assms(2) d(3,2) p canonical_bytes_ints [OF bs(1)]])
  then have "distinct (map fst c')" by (simp add: good_dict)
  with plan_grows [OF valid p] d(2) have "grows d (journal_view c')" by (rule grows_view)
  with d(1) bs good plan_valid [OF p] assms(3) show ?thesis by (intro exI [of _ c']) (simp add: holds_def)
qed

end

subsection \<open>The plans\<close>

lemma validated_Inr: "validated d = Inr x \<longleftrightarrow> validate_journal (PDict d) = Inr () \<and> x = Some d"
  by (auto simp: validated_def bind_r_eq_Inr)

lemma changing_fields [simp]:
  "''phase'' \<notin> set FIXED_FIELDS" "''events'' \<notin> set FIXED_FIELDS" "''lifecycle_mode'' \<notin> set FIXED_FIELDS"
  "''teardown_from_sequence'' \<notin> set FIXED_FIELDS" "''profile_start_refused_sequence'' \<notin> set FIXED_FIELDS"
  by (simp_all add: FIXED_FIELDS_def)

lemma set_dict_put: "set (dict_put d k v) \<subseteq> insert (k, v) (set d)"
  by (induction d k v rule: dict_put.induct) auto

lemma in_dict_put: "(k, v) \<in> set (dict_put d k v)"
  by (induction d k v rule: dict_put.induct) auto

lemma distinct_dict_put: "distinct (map fst d) \<Longrightarrow> distinct (map fst (dict_put d k v))"
proof (induction d k v rule: dict_put.induct)
  case (2 k' v' d k v)
  then show ?case using set_dict_put [of d k v] by force
qed simp

lemma good_set_item:
  assumes "good (Suc k) (PDict d)" "good k v"
  shows "good (Suc k) (PDict (set_item key v d))"
  using assms set_dict_put [of d "str key" v] distinct_dict_put [of d "str key" v]
  unfolding good_dict set_item_def by fastforce

lemma good_entry: "good (Suc k) (PDict d) \<Longrightarrow> good k (item d key)"
  unfolding good_dict by (auto simp: item_def dict_get_def dest!: map_of_SomeD split: option.splits)

lemma good_parts:
  "good k (PList vs) \<Longrightarrow> v \<in> set vs \<Longrightarrow> good k v"
  "good k (PDict d) \<Longrightarrow> good k (item d key)"
  using good_mono [of _ _ "Suc k"] good_list [of k vs] good_entry [of k d key]
  by (cases k; force simp: good_def nesting_le_iff list_all_iff simp del: nesting.simps intro: good_mono)+

lemma good_first_event:
  assumes "good (Suc MAX_JSON_DEPTH) (PDict d)" "length (journal_events d) = Suc 0"
  shows "good MAX_JSON_DEPTH (event_field (hd (journal_events d)) key)"
proof -
  have "good MAX_JSON_DEPTH (item d ''events'')" by (rule good_entry [OF assms(1)])
  moreover from assms(2) have "hd (journal_events d) \<in> set (journal_events d)" by (intro hd_in_set) auto
  ultimately have v: "good MAX_JSON_DEPTH (hd (journal_events d))"
    by (cases "item d ''events''") (auto simp: journal_events_def intro: good_parts(1))
  show ?thesis
  proof (cases "hd (journal_events d)")
    case (PDict e)
    with v show ?thesis using good_parts(2) [of MAX_JSON_DEPTH e key] by (simp add: event_field_def dict_value_def)
  qed (simp_all add: event_field_def dict_value_def item_def dict_get_def)
qed

lemma ints_set_item:
  "list_all (\<lambda>kv. ints_ok (snd kv)) (set_item k v d) \<Longrightarrow> ints_ok v"
  using in_dict_put [of "str k" v d] by (fastforce simp: list_all_iff set_item_def)

lemma wf_set_item: "wf_value (PDict d) \<Longrightarrow> wf_value v \<Longrightarrow> wf_value (PDict (set_item k v d))"
  using set_dict_put [of d "str k" v] distinct_dict_put [of d "str k" v]
  by (auto simp: set_item_def list_all_iff)

text \<open>How one field may change.\<close>

lemma fixed_set_item: "k \<notin> set FIXED_FIELDS \<Longrightarrow> list_all (\<lambda>x. item (set_item k v d) x = item d x) FIXED_FIELDS"
  by (auto simp: list_all_iff item_set_item)

lemma grows_set_latch:
  "keeps ''teardown_from_sequence'' d (set_item ''teardown_from_sequence'' v d) \<Longrightarrow> grows d (set_item ''teardown_from_sequence'' v d)"
  unfolding grows_def
  by (intro conjI fixed_set_item) (simp_all add: keeps_def item_set_item journal_events_set_item)

lemma grows_set_refusal:
  "item d ''profile_start_refused_sequence'' = PNone \<Longrightarrow> grows d (set_item ''profile_start_refused_sequence'' v d)"
  unfolding grows_def
  by (intro conjI fixed_set_item) (simp_all add: keeps_def item_set_item journal_events_set_item)

lemma grows_set_mode: "journal_events d = [] \<Longrightarrow> grows d (set_item ''lifecycle_mode'' v d)"
  unfolding grows_def
  by (intro conjI fixed_set_item) (simp_all add: keeps_def item_set_item journal_events_set_item)

lemma grows_set_phase: "grows d (set_item ''phase'' v d)"
  unfolding grows_def
  by (intro conjI fixed_set_item) (simp_all add: keeps_def item_set_item journal_events_set_item)

lemma grows_set_events: "grows d (set_item ''events'' (PList (journal_events d @ vs)) d)"
  unfolding grows_def
  by (intro conjI fixed_set_item) (simp_all add: keeps_def item_set_item journal_events_set_item)

interpretation latch: journal_plan "\<lambda>_ :: unit. latch_plan" "\<lambda>_. True"
proof
  show "latch_plan d = Inr (Some c) \<Longrightarrow> validate_journal (PDict c) = Inr ()" for d c
    by (auto simp: latch_plan_def validated_Inr split: if_splits)
  show "latch_plan d = Inr (Some c) \<Longrightarrow> grows d c" for d c
    by (auto simp: latch_plan_def validated_Inr keeps_def split: if_splits intro!: grows_set_latch)
  show "latch_plan d = Inr (Some c) \<Longrightarrow> good (Suc MAX_JSON_DEPTH) (PDict d) \<Longrightarrow> ints_ok (PDict c)
      \<Longrightarrow> good (Suc MAX_JSON_DEPTH) (PDict c)" for d c
    by (auto simp: latch_plan_def validated_Inr next_sequence_def split: if_splits dest: ints_set_item intro!: good_set_item)
qed

interpretation refusal: journal_plan "\<lambda>_ :: unit. refusal_plan" "\<lambda>_. True"
proof
  show "refusal_plan d = Inr (Some c) \<Longrightarrow> validate_journal (PDict c) = Inr ()" for d c
    by (auto simp: refusal_plan_def validated_Inr Let_def split: if_splits)
  show "grows d c" if "refusal_plan d = Inr (Some c)" for d c
  proof -
    let ?e = "set_item ''profile_start_refused_sequence'' (event_field (hd (journal_events d)) ''sequence'') d"
    from that have "grows d ?e" by (intro grows_set_refusal) (simp add: refusal_plan_def split: if_splits)
    moreover have "grows ?e c" using that
      by (auto simp: refusal_plan_def validated_Inr Let_def keeps_def item_set_item split: if_splits intro!: grows_set_latch)
    ultimately show ?thesis by (rule grows_trans)
  qed
  show "refusal_plan d = Inr (Some c) \<Longrightarrow> good (Suc MAX_JSON_DEPTH) (PDict d) \<Longrightarrow> ints_ok (PDict c)
      \<Longrightarrow> good (Suc MAX_JSON_DEPTH) (PDict c)" for d c
    by (auto simp: refusal_plan_def validated_Inr next_sequence_def Let_def split: if_splits
        dest: ints_set_item intro!: good_set_item good_entry good_first_event)
qed

interpretation mode: journal_plan mode_plan "\<lambda>v. good 0 v"
proof
  show "mode_plan m d = Inr (Some c) \<Longrightarrow> validate_journal (PDict c) = Inr ()" for m d c
    by (auto simp: mode_plan_def validated_Inr split: if_splits)
  show "mode_plan m d = Inr (Some c) \<Longrightarrow> grows d c" for m d c
    by (auto simp: mode_plan_def validated_Inr split: if_splits intro!: grows_set_mode)
  show "good 0 m \<Longrightarrow> mode_plan m d = Inr (Some c) \<Longrightarrow> good (Suc MAX_JSON_DEPTH) (PDict d)
      \<Longrightarrow> good (Suc MAX_JSON_DEPTH) (PDict c)" for m d c
    by (auto simp: mode_plan_def validated_Inr split: if_splits intro!: good_set_item intro: good_mono)
qed

lemma append_candidate:
  assumes "append_plan event details d = Inr (Some c)"
  shows "c = set_item ''events'' (PList (journal_events d @ [PDict [(str ''sequence'', next_sequence d),
      (str ''event'', PStr event), (str ''details'', PDict details)]])) (set_item ''phase'' (PStr event) d)"
    "\<exists>n. json_budget 0 (PDict c) = Inr n" "validate_journal (PDict c) = Inr ()"
  using assms by (auto simp: append_plan_def validated_Inr Let_def bind_r_eq_Inr simp del: json_budget.simps split: if_splits prod.splits)

interpretation append: journal_plan "\<lambda>(event, details). append_plan event details" "\<lambda>(event, details). wf_value (PDict details)"
proof
  show "(case a of (event, details) \<Rightarrow> append_plan event details) d = Inr (Some c) \<Longrightarrow> validate_journal (PDict c) = Inr ()" for a d c
    by (cases a) (simp add: append_candidate)
  show "grows d c" if a: "(case a of (event, details) \<Rightarrow> append_plan event details) d = Inr (Some c)" for a d c
  proof (cases a)
    case (Pair event details)
    let ?p = "set_item ''phase'' (PStr event) d"
    have "journal_events ?p = journal_events d" by (simp add: journal_events_set_item)
    then have "grows ?p c" using append_candidate(1) [of event details d c] a Pair grows_set_events [of ?p] by simp
    with grows_set_phase show ?thesis by (rule grows_trans)
  qed
  show "good (Suc MAX_JSON_DEPTH) (PDict c)" if "case a of (event, details) \<Rightarrow> wf_value (PDict details)"
    and d: "canonical (PDict d)" and c: "(case a of (event, details) \<Rightarrow> append_plan event details) d = Inr (Some c)"
    and ints: "ints_ok (PDict c)" for a d c
  proof -
    obtain event details where a: "a = (event, details)" by fastforce
    have "wf_value (PDict d)" using d by (rule canonical_wf)
    moreover have "wf_value (PList (journal_events d))"
      using canonical_wf [OF canonical_item [OF d, of "''events''"]]
      by (cases "item d ''events''") (simp_all add: journal_events_def)
    ultimately have "wf_value (PDict c)"
      unfolding append_candidate(1) [OF c [unfolded a prod.case]]
      using that(1) by (intro wf_set_item) (auto simp: a next_sequence_def)
    then show ?thesis
      using append_candidate(2) [OF c [unfolded a prod.case]] budget_good [OF _ _ ints] by fastforce
  qed
qed

subsection \<open>The operations\<close>

datatype journal_op =
    AppendEvent pyval pyval
  | LatchTeardown
  | LatchRefusal
  | SelectMode pyval

fun perform :: "nat \<Rightarrow> TransactionEnv \<Rightarrow> pstr \<Rightarrow> journal_op \<Rightarrow> JournalStore \<Rightarrow> pydict res \<times> JournalStore" where
  "perform limit env path (AppendEvent event details) s = append_event limit env path event details s"
| "perform limit env path LatchTeardown s = latch_teardown limit env path s"
| "perform limit env path LatchRefusal s = latch_profile_start_refusal limit env path s"
| "perform limit env path (SelectMode m) s = select_lifecycle_mode limit env path m s"

text \<open>The details handed over are a dictionary as Python builds it.\<close>

fun op_fits :: "journal_op \<Rightarrow> bool" where
  "op_fits (AppendEvent event details) = wf_value details"
| "op_fits _ = True"

lemma perform_cases:
  assumes "perform limit env path op s = (r, t)"
  obtains "t = s" "\<not> is_ok r"
  | event details where "op = AppendEvent (PStr event) (PDict details)" "transact limit env path (append_plan event details) s = (r, t)"
  | "op = LatchTeardown" "transact limit env path latch_plan s = (r, t)"
  | "op = LatchRefusal" "transact limit env path refusal_plan s = (r, t)"
  | m where "op = SelectMode m" "good 0 m" "transact limit env path (mode_plan m) s = (r, t)"
proof (cases op)
  case (AppendEvent event details)
  with assms that(1,2) show thesis by (auto simp: append_event_def split: pyval.splits)
next
  case (SelectMode m)
  with assms that(1,5) show thesis by (auto simp: select_lifecycle_mode_def split: if_splits)
qed (use assms that in \<open>auto simp: latch_teardown_def latch_profile_start_refusal_def\<close>)

lemma perform_content:
  assumes "perform limit env path op s = (r, t)"
  shows "(js_journal t = js_journal s \<or> (\<exists>c bs. js_journal t = Some bs \<and> length bs \<le> MAX_JOURNAL_BYTES
       \<and> canonical_bytes (PDict c) = Inr bs \<and> validate_journal (PDict c) = Inr ()))
     \<and> (\<forall>d. r = Inr d \<longrightarrow> js_stray t = js_stray s \<and> validate_journal (PDict d) = Inr ()
       \<and> (\<exists>bs. js_journal t = Some bs \<and> canonical_bytes (PDict d) = Inr bs))"
  using assms
proof (cases rule: perform_cases)
  case 1
  then show ?thesis by (auto simp: is_ok_iff)
next
  case (2 event details)
  show ?thesis by (rule append.transact_content [of limit env path "(event, details)", unfolded prod.case, OF 2(2)])
next
  case 3
  show ?thesis by (rule latch.transact_content [OF 3(2)])
next
  case 4
  show ?thesis by (rule refusal.transact_content [OF 4(2)])
next
  case (5 m)
  show ?thesis by (rule mode.transact_content [OF 5(3)])
qed

lemma perform_grows:
  assumes "perform limit env path op s = (r, t)" "op_fits op" "holds limit s c"
  shows "\<exists>c'. holds limit t c' \<and> grows (journal_view c) (journal_view c')"
  using assms(1)
proof (cases rule: perform_cases)
  case 1
  with assms(3) show ?thesis using grows_refl by blast
next
  case (2 event details)
  with assms(2) show ?thesis
    using append.transact_grows [of limit env path "(event, details)" s r t c, OF _ _ assms(3)] by simp
next
  case 3
  from latch.transact_grows [OF 3(2) _ assms(3)] show ?thesis by simp
next
  case 4
  from refusal.transact_grows [OF 4(2) _ assms(3)] show ?thesis by simp
next
  case (5 m)
  from mode.transact_grows [OF 5(3,2) assms(3)] show ?thesis .
qed

text \<open>Any sequence of operations, each in an environment of its own.\<close>

inductive evolves :: "nat \<Rightarrow> pstr \<Rightarrow> JournalStore \<Rightarrow> JournalStore \<Rightarrow> bool" for limit path where
  stays: "evolves limit path s s"
| acts: "evolves limit path s t \<Longrightarrow> op_fits op \<Longrightarrow> perform limit env path op t = (r, v) \<Longrightarrow> evolves limit path s v"

lemma evolves_grows:
  "evolves limit path s t \<Longrightarrow> holds limit s c \<Longrightarrow> \<exists>c'. holds limit t c' \<and> grows (journal_view c) (journal_view c')"
proof (induction rule: evolves.induct)
  case (stays s)
  then show ?case using grows_refl by blast
next
  case (acts s t op env r v)
  then show ?case using perform_grows grows_trans by blast
qed

text \<open>What the file reads as.\<close>

definition reads_as :: "nat \<Rightarrow> JournalStore \<Rightarrow> pydict \<Rightarrow> bool" where
  "reads_as limit s d \<longleftrightarrow> (\<exists>bs. js_journal s = Some bs \<and> journal_json limit bs = Inr (PDict d) \<and> canonical_bytes (PDict d) = Inr bs)"

lemma canonical_bytes_view:
  assumes "good k (PDict c)" "canonical_bytes (PDict c) = Inr bs"
  shows "canonical_bytes (PDict (journal_view c)) = Inr bs"
proof -
  from assms(1) have can: "canonical (PDict (journal_view c))" by (simp only: good_def sorted_form_view)
  then have "json_ok (PDict (journal_view c))" by (rule canonical_json_ok)
  moreover have "ints_ok (PDict (journal_view c))" using can by (rule canonical_ints)
  moreover have "dump_text (PDict (journal_view c)) = dump_text (PDict c)"
    by (metis dump_sorted_form sorted_form_view)
  moreover have "json_ok (PDict c)" "ints_ok (PDict c)"
    using assms by (simp_all only: good_def canonical_bytes_ints [OF assms(2)])
  ultimately have "json_dumps (PDict (journal_view c)) = json_dumps (PDict c)" by (simp only: json_dumps_def)
  with assms(2) show ?thesis by (simp only: canonical_bytes_def)
qed

lemma holds_reads: "holds limit s c \<Longrightarrow> reads_as limit s (journal_view c)"
  unfolding holds_def reads_as_def using written_reads_back canonical_bytes_view by blast

end
