(* ===== verification/KilJournalRun.thy ===== *)
theory KilJournalRun
  imports KilJournalLog
begin

text \<open>
  The life of a journal file from its creation on: the properties of its operations, with a run
  in an environment where every call succeeds.
\<close>

subsection \<open>Creation\<close>

lemma good_opt_value: "good k (opt_value s)"
  by (cases s) (simp_all add: opt_value_def)

lemma inputs_mapping_good: "good (Suc MAX_JSON_DEPTH) (PDict (inputs_mapping i))"
proof -
  have "good (Suc (Suc (Suc 0))) (PDict (inputs_mapping i))"
    unfolding good_dict inputs_mapping_def
    by (simp add: good_dict good_list good_opt_value identity_mapping_def u_def case_prod_unfold)
  then show ?thesis by (rule good_mono) (simp add: MAX_JSON_DEPTH_def)
qed

lemma create_journal_Inr:
  assumes "create_journal env path inputs s = (Inr d, t)"
  obtains bs where "d = inputs_mapping inputs" "validate_journal (PDict d) = Inr ()"
    "canonical_bytes (PDict d) = Inr bs" "js_journal s = None" "js_journal t = Some bs"
  using assms unfolding create_journal_def create_content_def finally_r_def os_journal_def
  by (auto simp: Let_def bind_r_eq_Inr is_ok_iff split: sum.splits prod.splits if_splits)

lemma created_holds:
  assumes "create_journal env path inputs s = (Inr d, t)" "Suc MAX_JSON_DEPTH \<le> limit"
  shows "holds limit t d"
  using assms(1) by (rule create_journal_Inr) (use assms(2) inputs_mapping_good in \<open>auto simp: holds_def\<close>)

subsection \<open>A run\<close>

definition sample_path :: pstr where
  "sample_path = u ''/private/kil/journal.json''"

definition sample_directory :: FileStat where
  "sample_directory = \<lparr>fs_regular = False, fs_link = False, fs_directory = True, fs_mode = MODE_700, fs_owned = True,
     fs_identity = (1, 2), fs_size = 96, fs_links = 3\<rparr>"

definition sample_file :: FileStat where
  "sample_file = \<lparr>fs_regular = True, fs_link = False, fs_directory = False, fs_mode = MODE_600, fs_owned = True,
     fs_identity = (1, 7), fs_size = 900, fs_links = 1\<rparr>"

definition sample_ancestry :: AncestryEnv where
  "sample_ancestry = \<lparr>ae_resolve = Inr, ae_stat = (\<lambda>_. Inr sample_directory)\<rparr>"

definition sample_location :: LocationEnv where
  "sample_location = \<lparr>le_exists = Inr True, le_parent = sample_ancestry, le_mkdir = Inr (), le_before = sample_ancestry,
     le_stat = Inr sample_directory, le_after = sample_ancestry\<rparr>"

definition sample_create :: CreateEnv where
  "sample_create = \<lparr>cr_location = sample_location, cr_open = Inr (), cr_chmod = Inr (), cr_write = Inr (), cr_partial = 0,
     cr_sync = Inr (), cr_unlink = Inr (), cr_close = Inr (), cr_parent = (\<lambda>_. Inr ())\<rparr>"

definition sample_lock :: LockEnv where
  "sample_lock = \<lparr>lk_location = sample_location, lk_create = Inr (), lk_chmod = Inr (), lk_sync = Inr (),
     lk_parent = (\<lambda>_. Inr ()), lk_open = Inr (), lk_fstat = Inr sample_file, lk_stat = Inr sample_file, lk_flock = Inr (),
     lk_after = Inr sample_file, lk_unlock = Inr (), lk_close = Inr ()\<rparr>"

definition sample_read :: ReadEnv where
  "sample_read = \<lparr>rd_location = sample_location, rd_stat = Inr sample_file, rd_open = Inr (), rd_fstat = Inr sample_file,
     rd_reads = (\<lambda>_. Inr 65536), rd_final = Inr sample_file, rd_close = Inr ()\<rparr>"

definition sample_replace :: ReplaceEnv where
  "sample_replace = \<lparr>rp_location = sample_location, rp_read = sample_read, rp_temporary = Inr (), rp_chmod = Inr (),
     rp_write = Inr (), rp_sync = Inr (), rp_rename = Inr (), rp_parent = (\<lambda>_. Inr ()), rp_close = Inr (), rp_unlink = Inr ()\<rparr>"

definition sample_transaction :: TransactionEnv where
  "sample_transaction = \<lparr>tx_lock = sample_lock, tx_read = sample_read, tx_replace = sample_replace\<rparr>"

definition sample_inputs :: JournalInputs where
  "sample_inputs = \<lparr>ji_run_id = replicate 64 97, ji_execution_nonce = replicate 64 98, ji_source_commit = replicate 40 99,
     ji_profile_sha256 = replicate 64 100, ji_global_context_before = u ''default'', ji_foreign_profiles_before = [],
     ji_expected_objects = [], ji_owned_identity = \<lparr>oi_colima_profile = u ''kil-v3-lab'', oi_docker_host = None,
       oi_kind_cluster = None, oi_kubeconfig = None, oi_cluster_incarnation_uid = None, oi_node_container_id = None\<rparr>,
     ji_lifecycle_mode = Nominal, ji_expected_inputs_sha256 = None\<rparr>"

definition sample_journal :: pydict where
  "sample_journal = inputs_mapping sample_inputs"

lemma sample_journal_valid: "validate_journal (PDict sample_journal) = Inr ()"
  by code_simp

lemma sample_journal_length:
  "(case canonical_bytes (PDict sample_journal) of Inl _ \<Rightarrow> False | Inr bs \<Rightarrow> length bs \<le> 65536)"
  by code_simp

lemma sample_location_ok: "private_location sample_location sample_path c = Inr (sample_path, u ''/private/kil'')"
  by (cases c; simp only:; code_simp)

lemma sample_created:
  "\<exists>t. create_journal sample_create sample_path sample_inputs \<lparr>js_journal = None, js_stray = False\<rparr> = (Inr sample_journal, t)
     \<and> js_journal t \<noteq> None"
  using sample_journal_length sample_journal_valid sample_location_ok [of True]
  by (auto simp: create_journal_def create_content_def finally_r_def fsync_parent_def sample_create_def
      MAX_JOURNAL_BYTES_def simp flip: sample_journal_def split: sum.splits)

lemma read_chunks_whole:
  assumes "length rest \<le> 65536"
  shows "read_chunks (\<lambda>_. Inr 65536) k rest [] = Inr rest"
proof -
  have "read_chunks (\<lambda>_. Inr 65536) (Suc k) [] rest = Inr rest"
    using assms by (subst read_chunks.simps) (simp add: MAX_JOURNAL_BYTES_def)
  moreover have "take (max 1 (min 65536 (min 65536 (MAX_JOURNAL_BYTES + 1)))) rest = rest"
    using assms by (simp add: MAX_JOURNAL_BYTES_def)
  ultimately show ?thesis by (subst read_chunks.simps) (simp add: Let_def)
qed

lemma sample_reads:
  assumes "js_journal s = Some bs" "length bs \<le> 65536"
  shows "read_bounded sample_read sample_path s = Inr bs"
proof -
  have "length bs \<le> MAX_JOURNAL_BYTES" using assms(2) by (simp add: MAX_JOURNAL_BYTES_def)
  with assms show ?thesis
    unfolding read_bounded_def read_open_def sample_read_def os_journal_def finally_r_def
    by (simp add: sample_location_ok read_chunks_whole sample_file_def MAX_JOURNAL_BYTES_def)
qed

definition latched_journal :: pydict where
  "latched_journal = set_item ''teardown_from_sequence'' (PInt 1) (journal_view sample_journal)"

lemma sample_view:
  "is_ok (json_budget 0 (PDict (journal_view sample_journal)))"
  "validate_journal (PDict (journal_view sample_journal)) = Inr ()"
  "latch_plan (journal_view sample_journal) = Inr (Some latched_journal)"
  by code_simp+

lemma sample_replacement: "is_ok (replacement_bytes (journal_view sample_journal) latched_journal)"
  by code_simp

lemma sample_loads:
  assumes "js_journal s = Some bs" "canonical_bytes (PDict sample_journal) = Inr bs"
  shows "load_journal 1000 sample_read sample_path s = Inr (journal_view sample_journal)"
proof -
  have good: "good (Suc MAX_JSON_DEPTH) (PDict sample_journal)"
    unfolding sample_journal_def by (rule inputs_mapping_good)
  have "length bs \<le> 65536" using sample_journal_length assms(2) by simp
  with assms(1) have "read_bounded sample_read sample_path s = Inr bs" by (rule sample_reads)
  moreover have "parse_journal 1000 bs = Inr (PDict (journal_view sample_journal))"
    unfolding parse_journal_Inr by (rule written_reads_back [OF good _ assms(2)]) (simp add: MAX_JSON_DEPTH_def)
  moreover have "canonical_bytes (PDict (journal_view sample_journal)) = Inr bs"
    by (rule canonical_bytes_view [OF good assms(2)])
  ultimately show ?thesis
    using sample_view(1,2) by (auto simp: load_journal_def is_ok_iff simp del: json_budget.simps)
qed

lemma sample_latched:
  assumes "js_journal s = Some bs" "canonical_bytes (PDict sample_journal) = Inr bs"
  shows "fst (perform 1000 sample_transaction sample_path LatchTeardown s) = Inr latched_journal"
proof -
  note load = sample_loads [OF assms]
  obtain payload where "replacement_bytes (journal_view sample_journal) latched_journal = Inr payload"
    using sample_replacement by (auto simp: is_ok_iff)
  then have "replace_journal 1000 sample_replace sample_path latched_journal s = (Inr (), s\<lparr>js_journal := Some payload\<rparr>)"
    using load by (simp add: replace_journal_def install_def finally_r_def fsync_parent_def sample_replace_def sample_location_ok)
  then show ?thesis
    using load sample_view(3) unfolding perform.simps latch_teardown_def transact_def with_lock_def
    by (simp add: sample_transaction_def sample_lock_def sample_location_ok lock_entered_def lock_inode_def lock_kept_def
        lock_release_def sample_file_def fsync_parent_def finally_r_def os_journal_def)
qed

text \<open>A run: the journal is created, then the teardown is latched.\<close>

lemma sample_run:
  obtains s t where
    "create_journal sample_create sample_path sample_inputs \<lparr>js_journal = None, js_stray = False\<rparr> = (Inr sample_journal, s)"
    "perform 1000 sample_transaction sample_path LatchTeardown s = (Inr latched_journal, t)"
    "evolves 1000 sample_path s t"
proof -
  from sample_created obtain s where s:
    "create_journal sample_create sample_path sample_inputs \<lparr>js_journal = None, js_stray = False\<rparr> = (Inr sample_journal, s)" by blast
  from s obtain bs where "canonical_bytes (PDict sample_journal) = Inr bs" "js_journal s = Some bs"
    by (rule create_journal_Inr)
  then have "fst (perform 1000 sample_transaction sample_path LatchTeardown s) = Inr latched_journal"
    using sample_latched by blast
  then obtain t where t: "perform 1000 sample_transaction sample_path LatchTeardown s = (Inr latched_journal, t)"
    by (metis prod.collapse)
  have "evolves 1000 sample_path s t" by (rule acts [OF stays _ t]) simp
  with s t that show thesis by blast
qed

subsection \<open>Properties\<close>

text \<open>
  Claim C27: the journal changes whole or not at all. Whichever operation runs, and whichever of
  its system calls fail, the file afterwards is the file before or the canonical bytes, within
  the bound, of a journal that passed validation; and an operation that returns a journal
  returns the one the file holds, with no temporary file left behind.
\<close>
theorem journal_atomic:
  assumes "perform limit env path op s = (r, t)"
  shows "(js_journal t = js_journal s \<or> (\<exists>c bs. js_journal t = Some bs \<and> length bs \<le> MAX_JOURNAL_BYTES
       \<and> canonical_bytes (PDict c) = Inr bs \<and> validate_journal (PDict c) = Inr ()))
     \<and> (\<forall>d. r = Inr d \<longrightarrow> js_stray t = js_stray s \<and> validate_journal (PDict d) = Inr ()
       \<and> (\<exists>bs. js_journal t = Some bs \<and> canonical_bytes (PDict d) = Inr bs))"
  using assms by (rule perform_content)

theorem journal_atomic_witness:
  "\<exists>s t bs. perform 1000 sample_transaction sample_path LatchTeardown s = (Inr latched_journal, t)
     \<and> js_journal t = Some bs \<and> canonical_bytes (PDict latched_journal) = Inr bs"
proof -
  obtain s t where "perform 1000 sample_transaction sample_path LatchTeardown s = (Inr latched_journal, t)"
    by (rule sample_run)
  with journal_atomic [OF this] show ?thesis by blast
qed

text \<open>
  Claim C26: a journal only grows. From its creation on, after any two points of any sequence of
  operations, under any failures, the file reads as a journal; the later one keeps the earlier
  one's events as a prefix, its run, commitments, identity and foreign snapshot unchanged, a
  latched teardown and a refused profile start where they were, and its mode once it has events.
\<close>
theorem journal_only_grows:
  assumes "create_journal env path inputs s0 = (Inr d0, s)" "Suc MAX_JSON_DEPTH \<le> limit"
    and "evolves limit path s t" "evolves limit path t v"
  shows "\<exists>d d'. reads_as limit t d \<and> reads_as limit v d' \<and> grows d d'"
proof -
  obtain c where c: "holds limit t c"
    using evolves_grows [OF assms(3) created_holds [OF assms(1,2)]] by blast
  moreover obtain c' where "holds limit v c'" "grows (journal_view c) (journal_view c')"
    using evolves_grows [OF assms(4) c] by blast
  ultimately show ?thesis using holds_reads by blast
qed

theorem journal_only_grows_witness:
  "\<exists>s t d d'. perform 1000 sample_transaction sample_path LatchTeardown s = (Inr latched_journal, t)
     \<and> reads_as 1000 s d \<and> reads_as 1000 t d' \<and> grows d d'"
proof -
  obtain s t where
    s: "create_journal sample_create sample_path sample_inputs \<lparr>js_journal = None, js_stray = False\<rparr> = (Inr sample_journal, s)"
    and t: "perform 1000 sample_transaction sample_path LatchTeardown s = (Inr latched_journal, t)" "evolves 1000 sample_path s t"
    by (rule sample_run)
  have "Suc MAX_JSON_DEPTH \<le> 1000" by (simp add: MAX_JSON_DEPTH_def)
  from journal_only_grows [OF s this stays t(2)] t(1) show ?thesis by blast
qed

end
