(* ===== verification/Spec2Isabelle.thy ===== *)
theory Spec2Isabelle
  imports KilReplay KilQStateVerify KilGateway KilRunBundle KilAuthzConfig KilTargetHttp KilDriverOutcome
    KilYamlRoundTrip KilContracts KilLifecycleSafety KilJournalRun
begin

text \<open>
  A verification development of KIL, a laboratory for a trust kernel: a decision engine over
  signed state, the services that enforce its decisions, and the driver that exercises them.
  The library models the Python package \<^verbatim>\<open>src/kil\<close> as HOL functions and proves what each part
  promises to the next.

  \<^bold>\<open>The program.\<close> A scenario (\<^verbatim>\<open>scenario.py\<close>) is replayed (\<^verbatim>\<open>replay.py\<close>) through the decision
  engine (\<^verbatim>\<open>engine.py\<close>, with the arithmetic of \<^verbatim>\<open>decay.py\<close> and the records of \<^verbatim>\<open>domain.py\<close> and
  \<^verbatim>\<open>evidence.py\<close>) on three tracks, and the result is published as a directory with checksums
  (\<^verbatim>\<open>run_bundle.py\<close>). Live, an authorization service (\<^verbatim>\<open>ext_authz_http.py\<close>) answers a proxy: it
  verifies a signed state token (\<^verbatim>\<open>q_state.py\<close>), asks the engine through an adapter
  (\<^verbatim>\<open>live_authz.py\<close>) and records what it decided; a target (\<^verbatim>\<open>target_http.py\<close>) keeps a ledger of the
  requests that reached it; \<^verbatim>\<open>reference_gateway.py\<close> is the same gate inside one process. A driver
  (\<^verbatim>\<open>v3b1_request_driver.py\<close>) makes the one request of a track and reports its outcome in the
  records of \<^verbatim>\<open>v3b1_driver_protocol.py\<close>. Every record and digest goes through the canonical
  serialization of \<^verbatim>\<open>canonical.py\<close>.

  \<^bold>\<open>Foundations.\<close> \<open>Prelude\<close>: exceptions as values, the result type \<open>res\<close> (\<open>Inl\<close> an exception), loops
  with early exit, the predicate \<open>only_raises\<close> and the rule collections. \<open>PyText\<close>, \<open>PyBytes\<close>,
  \<open>PyValue\<close>: strings as lists of code points, UTF-8, base64, SHA-256, dynamic values. \<open>PyDecimal\<close>:
  \<^verbatim>\<open>Decimal\<close> under the 28-digit context with its traps. \<open>PyJson\<close>: \<^verbatim>\<open>json.dumps\<close> and \<^verbatim>\<open>json.loads\<close> as a
  scanner with the interpreter's limits; \<open>PyJsonRoundTrip\<close>: what is written is read back. \<open>PyRegex\<close>:
  regular expressions with the language they match, and \<^verbatim>\<open>fullmatch\<close> by derivatives, which decides it.
  \<open>PyPath\<close>: \<^verbatim>\<open>pathlib\<close> on texts.

  \<^bold>\<open>Theories and sources.\<close>
  \<^item> \<open>KilEvidence\<close>, \<open>KilDomain\<close>, \<open>KilDecay\<close>, \<open>KilEngine\<close>: \<^verbatim>\<open>evidence.py\<close>, \<^verbatim>\<open>domain.py\<close>, \<^verbatim>\<open>decay.py\<close>,
    \<^verbatim>\<open>engine.py\<close>. The constructors' checks are the functions \<open>make_...\<close>, the decision is \<open>decide\<close>.
    Shown: it never raises on constructed inputs, charges stay between zero and the signed charge,
    PERMIT and CONSTRAIN hold exactly under their guards, local evidence only reduces.
  \<^item> \<open>KilScenario\<close>, \<open>KilReplay\<close>, \<open>KilRunBundle\<close>: the loader gives well-formed scenarios or a known
    exception; the replay of one never raises; each track reaches an event exactly when
    everything it depends on was permitted (the locale \<open>dependency_track\<close>, once per track); a
    bundle is published whole or not at all, over a file system each of whose calls can fail:
    all that can be left behind is the hidden temporary directory whose removal failed.
  \<^item> \<open>KilCanonical\<close>, \<open>KilRecords\<close>, \<open>KilFlat\<close>: \<^verbatim>\<open>canonical.py\<close>. Canonical text is read back as the normal
    form, does not depend on the order of keys at any depth, and gives equal decimals the same text; flat
    records of printable text are their own normal form.
  \<^item> \<open>KilQState\<close>, \<open>KilQStateWire\<close>, \<open>KilQStateVerify\<close>: \<^verbatim>\<open>q_state.py\<close>. Accepted tokens are signed by a
    trusted key over their exact text, issued ones verify, wire decimals round-trip.
  \<^item> \<open>KilLiveAuthz\<close>, \<open>KilGateway\<close>: the adapter of one track, and the gate, whose target holds exactly
    the records of permitted requests (the locale \<open>guarded_effect\<close>).
  \<^item> \<open>KilHttp\<close>, \<open>KilAppendLog\<close>, \<open>KilAuthzHttp\<close>, \<open>KilAuthzConfig\<close>: requests and responses, the append of a
    line to a log file (the locale \<open>append_log\<close>), the authorization service and its configuration.
    Every connection is answered, every answer is recorded once, and a 200 goes back to a
    configured fixture and a verified token.
  \<^item> \<open>KilTargetLedger\<close>, \<open>KilTargetHttp\<close>: the ledger refines an abstract insert-once ledger, its file
    holds what was answered, and a restart reads the same records.
  \<^item> \<open>KilSensitive\<close>, \<open>KilDriverProtocol\<close>, \<open>KilDriverResult\<close>, \<open>KilDriverInstruction\<close>:
    \<^verbatim>\<open>v3b1_driver_protocol.py\<close>. The regular expressions that keep private material out of public
    records are functions on texts; \<open>parse_result\<close> accepts exactly the lines of the datatype
    \<open>DriverResult\<close>, and an accepted instruction is the lab's one request.
  \<^item> \<open>KilRequestDriver\<close>, \<open>KilDriverRun\<close>, \<open>KilDriverOutcome\<close>: \<^verbatim>\<open>v3b1_request_driver.py\<close>. The record
    \<open>DriverEnv\<close> gives the outcome of each call of the connection, the clock and the streams; the
    driver returns its result and the list of its effects. The inductive relation \<open>protocol_step\<close> is the
    abstract machine every run refines; \<open>line_phase\<close> is the contract of a phase that holds a line.
    Exit code 0 needs an empty input or a whole complete result, and in a working environment the
    driver reports the peer's answer or the first stage that failed, with its own error.
  \<^item> \<open>KilClosedYaml\<close>, \<open>KilYamlParser\<close>, \<open>KilYamlDecode\<close>, \<open>KilYamlPrint\<close>, \<open>KilYamlRoundTrip\<close>:
    \<^verbatim>\<open>v3b2_closed_yaml.py\<close>. The decoder is total, raises only its own exception, and returns closed
    values within its bounds (the locale \<open>parse_invariant\<close>, for the count of nodes, closedness and
    nesting); every closed mapping has a document that it reads back.
  \<^item> \<open>KilContracts\<close>: \<^verbatim>\<open>v3b2_contracts.py\<close>. Exactly one object is the approved profile, and dispatch
    accepts exactly the closed objects of the known schemas.

  \<^item> \<open>KilJournalEvents\<close>, \<open>KilJournalHistory\<close>, \<open>KilLifecycle\<close>, \<open>KilLifecycleRules\<close>,
    \<open>KilLifecycleErrors\<close>, \<open>KilLifecycleSafety\<close>: the events of the lifecycle journal
    (\<^verbatim>\<open>v3b2_journal.py\<close>, with the profile binding of \<^verbatim>\<open>v3b2_profile_state.py\<close>) and the state machine that
    checks a history. The inductive relation \<open>runs\<close> is the machine over the events read so far;
    what an accepted history says about its own past (requests, publication, each step of the
    teardown, pairs and their details) follows by induction over it.
  \<^item> \<open>KilJournal\<close>, \<open>KilJournalFile\<close>, \<open>KilJournalWrite\<close>, \<open>KilJournalLog\<close>, \<open>KilJournalRun\<close>: the journal as
    a value and as a file. The records \<open>LockEnv\<close>, \<open>ReadEnv\<close>, \<open>ReplaceEnv\<close> and \<open>CreateEnv\<close> give the
    outcome of each system call; every operation is a plan (the locale \<open>journal_plan\<close>) inside the one
    transaction under the lock. The file changes whole or not at all, and only grows.

  \<^bold>\<open>Parameters, bounds and fuel.\<close> Code that is not in the repository is an argument: the Ed25519
  primitives (\<open>Ed25519\<close>, with \<open>signature_law\<close> where a theorem needs that signatures verify), the operating
  system's calls and clocks, the check of unusual URI authorities in the standard library. \<open>limit\<close>
  is the interpreter's recursion limit as it bounds the nesting of JSON texts: theorems on parsing
  what was written need at least the nesting of the written value; the driver's need 66, more
  than the nesting of any canonical text, so that reading a record back does not hit it; the
  journal's need 33, one more than the depth its budget allows. \<open>frames\<close>
  bounds the recursion of the scan for sensitive material: records of the driver need two. Strings
  are lists of code points, integers are unbounded as in Python; sizes the code checks are kept as
  it checks them.

  \<^bold>\<open>Not modelled.\<close> Sockets, argument parsing and process start of the services; the laboratory's
  orchestration (\<^verbatim>\<open>tools/v3b1_local_envoy.py\<close>, \<^verbatim>\<open>v3b2_controller.py\<close> and the modules around it), which
  is almost all calls of external programs; of \<^verbatim>\<open>v3b2_journal.py\<close> the grammar of owned commands, the
  recovery plan and the writer of observed proofs; concurrent writers of the journal, which its
  lock excludes; the structural checks of Kubernetes objects
  (\<^verbatim>\<open>v3b2_inventory.py\<close> and others), left to a later extension; the messages of exceptions where they
  interpolate run-time text.
\<close>

end
